(* ===== verification/CPrelude.thy ===== *)
theory CPrelude
  imports Main "HOL-Library.Word" "HOL-Library.Monad_Syntax"
begin

section \<open>C integers, C memory and C strings\<close>

text \<open>
  The types every theory of the development shares. The machine is LP64: \<open>int\<close> has 32
  bits, \<open>long\<close>, \<open>size_t\<close> and pointers have 64, and \<open>char\<close> is signed.
  Arithmetic on words wraps, as it does on the machine.

  Memory is a partial map from addresses to bytes. Reading or writing an address that is
  not mapped is undefined behaviour in C and the value \<open>None\<close> here; a loop that does
  not return has the value \<open>None\<close> too, because loops are
  \<^theory_text>\<open>partial_function (option)\<close>. A theorem whose conclusion is \<open>f \<dots> = Some \<dots>\<close>
  therefore states that the code returns and that it touches mapped memory only.
\<close>

unbundle bit_operations_syntax

type_synonym byte = "8 word"
type_synonym i32 = "32 word"
type_synonym i64 = "64 word"
type_synonym addr = "64 word"
type_synonym mem = "addr \<rightharpoonup> byte"

text \<open>
  \<open>mem_simps\<close> collects what a proof about memory needs, \<open>cstr_simps\<close> the facts on
  C strings.
\<close>

named_theorems mem_simps
named_theorems cstr_simps

text \<open>
  Evaluation of a closed instance rewrites the argument of a bind before its body, so that
  a loop is unfolded only when its guard is known.
\<close>

lemma bind_weak_cong: "x = y \<Longrightarrow> Option.bind x f = Option.bind y f"
  by simp

text \<open>
  An updated memory stays an update where a proof leaves it eta-expanded.
\<close>

lemma fold_fun_upd [simp]: "(\<lambda>a. if a = p then y else m a) = m(p := y)"
  by (simp add: fun_upd_def)

section \<open>Words\<close>

lemma unat_diff_Suc:
  "a \<noteq> p \<Longrightarrow> unat (a - (p + 1 :: 'a::len word)) = unat (a - p) - 1"
proof -
  assume "a \<noteq> p"
  then have "a - p \<noteq> 0" by simp
  then have "unat ((a - p) - 1) = unat (a - p) - 1"
    by (rule unat_minus_one)
  then show ?thesis by (simp add: algebra_simps)
qed

lemma unat_diff_pos: "a \<noteq> p \<Longrightarrow> 0 < unat (a - p :: 'a::len word)"
  by (simp add: unat_gt_0)

lemma unat_of_nat_lt [simp]:
  "n < 2 ^ LENGTH('a) \<Longrightarrow> unat (of_nat n :: 'a::len word) = n"
  by (simp add: unat_of_nat)

lemma word_of_unat: "(of_nat (unat w) :: 'a::len word) = w"
  by simp

lemma unat_of_nat64: "n < 2 ^ 64 \<Longrightarrow> unat (of_nat n :: 64 word) = n"
  by (rule unat_of_nat_lt) simp

lemma unat_lt64 [simp]: "unat (a :: 64 word) < 18446744073709551616"
  using unsigned_less [of a] by simp

lemma unat_le64 [simp]: "unat (a :: 64 word) \<le> 18446744073709551616"
  by (rule less_imp_le) simp

lemma unat_lt32 [simp]: "unat (a :: 32 word) < 4294967296"
  using unsigned_less [of a] by simp

lemma unat_lt8 [simp]: "unat (a :: 8 word) < 256"
  using unsigned_less [of a] by simp

lemma uint_lt8 [simp]: "uint (a :: 8 word) < 256"
  using uint_lt2p [of a] by simp

lemma every_byte: "\<forall>n \<in> set [0..<256]. P (of_nat n) \<Longrightarrow> P (c :: byte)"
proof -
  assume all: "\<forall>n \<in> set [0..<256]. P (of_nat n)"
  have "unat c \<in> set [0..<256]" by simp
  with all have "P (of_nat (unat c))" by (rule bspec)
  then show ?thesis by (simp only: word_of_unat)
qed

lemma uint_ucast_byte [simp]: "uint (ucast (x :: byte) :: i32) = uint x"
proof -
  have "uint x < 2 ^ 32" using uint_lt8 [of x] by (rule order_less_trans) simp
  then show ?thesis by (simp add: unsigned_ucast_eq take_bit_int_eq_self)
qed

lemma scast_of_nat32: "d < 2 ^ 31 \<Longrightarrow> (scast (of_nat d :: i32) :: i64) = of_nat d"
proof -
  assume d: "d < 2 ^ 31"
  then have "sint (of_nat d :: i32) = int d"
    by (simp add: sint_uint unsigned_of_nat take_bit_nat_eq_self signed_take_bit_int_eq_self)
  then have "scast (of_nat d :: i32) = (of_int (int d) :: i64)"
    by (metis of_int_sint)
  then show ?thesis by simp
qed

lemma sint_scast32: "sint (scast (w :: i32) :: i64) = sint w"
  by (rule sint_up_scast) (simp add: is_up)

lemma sint_range32: "- (2 ^ 31) \<le> sint (w :: i32)" "sint (w :: i32) < 2 ^ 31"
  using sint_ge [of w] sint_lt [of w] by simp_all

lemma sint_neg32: "0 < sint (w :: i32) \<Longrightarrow> sint (- w) < 0"
proof -
  assume "0 < sint w"
  then have "signed_take_bit 31 (- sint w) = - sint w"
    using sint_range32 [of w] by (intro signed_take_bit_int_eq_self) simp_all
  moreover have "sint (- w) = signed_take_bit 31 (- sint w)" by (simp add: sint_word_minus)
  ultimately show ?thesis using \<open>0 < sint w\<close> by simp
qed

lemma of_nat32_nonzero:
  assumes d: "0 < d" "d < 2 ^ 31"
  shows "(of_nat d :: i32) \<noteq> 0"
proof
  assume "(of_nat d :: i32) = 0"
  then have "unat (of_nat d :: i32) = 0" by simp
  moreover have "unat (of_nat d :: i32) = d"
    using d(2) by (intro unat_of_nat_lt) simp
  ultimately show False using d(1) by simp
qed

lemma unat_diff_swap:
  "p \<noteq> q \<Longrightarrow> unat (p - q :: 'a::len word) = 2 ^ LENGTH('a) - unat (q - p)"
proof -
  assume "p \<noteq> q"
  then have ne: "unat p \<noteq> unat q" by (simp add: word_unat_eq_iff)
  have p: "unat p < 2 ^ LENGTH('a)" and q: "unat q < 2 ^ LENGTH('a)"
    by (rule unsigned_less)+
  show ?thesis
  proof (cases "unat q \<le> unat p")
    case True
    with ne p q show ?thesis by (simp only: unat_sub_if' if_True not_le if_not_P)
  next
    case False
    with ne p q show ?thesis by (simp add: unat_sub_if')
  qed
qed

section \<open>Memory\<close>

definition load :: "mem \<Rightarrow> addr \<Rightarrow> byte option" where
  "load m p = m p"

definition store :: "mem \<Rightarrow> addr \<Rightarrow> byte \<Rightarrow> mem option" where
  "store m p b = (if m p = None then None else Some (m(p \<mapsto> b)))"

text \<open>
  \<open>bytes_at m p xs\<close>: the bytes \<open>xs\<close> lie at \<open>p\<close>. \<open>mapped m p n\<close>: the
  \<open>n\<close> bytes from \<open>p\<close> on can be accessed. \<open>poke m p xs\<close>: the memory after
  \<open>xs\<close> is written at \<open>p\<close>. \<open>in_range p n a\<close>: \<open>a\<close> is one of the \<open>n\<close>
  addresses from \<open>p\<close> on. \<open>apart p n q k\<close>: the two ranges have no address in common
  (addresses wrap).
\<close>

primrec bytes_at :: "mem \<Rightarrow> addr \<Rightarrow> byte list \<Rightarrow> bool" where
  "bytes_at m p [] = True"
| "bytes_at m p (x # xs) = (m p = Some x \<and> bytes_at m (p + 1) xs)"

primrec mapped :: "mem \<Rightarrow> addr \<Rightarrow> nat \<Rightarrow> bool" where
  "mapped m p 0 = True"
| "mapped m p (Suc n) = (m p \<noteq> None \<and> mapped m (p + 1) n)"

primrec poke :: "mem \<Rightarrow> addr \<Rightarrow> byte list \<Rightarrow> mem" where
  "poke m p [] = m"
| "poke m p (x # xs) = poke (m(p \<mapsto> x)) (p + 1) xs"

definition in_range :: "addr \<Rightarrow> nat \<Rightarrow> addr \<Rightarrow> bool" where
  "in_range p n a \<longleftrightarrow> unat (a - p) < n"

definition apart :: "addr \<Rightarrow> nat \<Rightarrow> addr \<Rightarrow> nat \<Rightarrow> bool" where
  "apart p n q k \<longleftrightarrow> n = 0 \<or> k = 0 \<or> (n \<le> unat (q - p) \<and> k \<le> unat (p - q))"

lemma load_eq [simp]: "load m p = m p"
  by (simp add: load_def)

lemma store_mapped [simp]: "m p \<noteq> None \<Longrightarrow> store m p b = Some (m(p \<mapsto> b))"
  by (simp add: store_def)

lemma store_Some [simp]: "m p = Some c \<Longrightarrow> store m p b = Some (m(p \<mapsto> b))"
  by (simp add: store_def)

lemma store_SomeD: "store m p b = Some m' \<Longrightarrow> m p \<noteq> None \<and> m' = m(p \<mapsto> b)"
  by (auto simp: store_def split: if_splits)

lemma in_range_0 [simp]: "\<not> in_range p 0 a"
  by (simp add: in_range_def)

lemma in_range_self [simp]: "in_range p n p \<longleftrightarrow> 0 < n"
  by (simp add: in_range_def)

lemma in_range_Suc:
  "in_range p (Suc n) a \<longleftrightarrow> a = p \<or> in_range (p + 1) n a \<and> a \<noteq> p"
proof (cases "a = p")
  case False
  then have "unat (a - (p + 1)) = unat (a - p) - 1" and "0 < unat (a - p)"
    by (rule unat_diff_Suc, rule unat_diff_pos)
  with False show ?thesis by (auto simp: in_range_def)
qed (simp add: in_range_def)

lemma in_range_mono: "in_range p n a \<Longrightarrow> n \<le> k \<Longrightarrow> in_range p k a"
  by (simp add: in_range_def)

lemma unat_minus_one64 [simp]: "unat (- 1 :: 64 word) = 18446744073709551615"
  by (simp add: unsigned_minus_1_eq_mask mask_eq_exp_minus_1)

lemma not_in_range_before [simp]:
  "n < 18446744073709551616 \<Longrightarrow> \<not> in_range (p + 1) n p"
  by (simp add: in_range_def)

lemma bytes_at_append [simp]:
  "bytes_at m p (xs @ ys) \<longleftrightarrow> bytes_at m p xs \<and> bytes_at m (p + of_nat (length xs)) ys"
  by (induction xs arbitrary: p) (auto simp: algebra_simps)

lemma poke_append: "poke m p (xs @ ys) = poke (poke m p xs) (p + of_nat (length xs)) ys"
  by (induction xs arbitrary: m p) (auto simp: algebra_simps)

lemma bytes_at_nth:
  "bytes_at m p xs \<Longrightarrow> i < length xs \<Longrightarrow> m (p + of_nat i) = Some (xs ! i)"
proof (induction xs arbitrary: p i)
  case (Cons x xs)
  show ?case
  proof (cases i)
    case 0
    with Cons.prems show ?thesis by simp
  next
    case (Suc j)
    with Cons.prems have "m ((p + 1) + of_nat j) = Some (xs ! j)"
      by (intro Cons.IH) auto
    with Suc show ?thesis by (simp add: algebra_simps)
  qed
qed simp

lemma mapped_add:
  "mapped m p (n + k) \<longleftrightarrow> mapped m p n \<and> mapped m (p + of_nat n) k"
  by (induction n arbitrary: p) (auto simp: algebra_simps)

lemma mapped_mono: "mapped m p n \<Longrightarrow> k \<le> n \<Longrightarrow> mapped m p k"
  using mapped_add [of m p k "n - k"] by simp

lemma bytes_at_mapped: "bytes_at m p xs \<Longrightarrow> mapped m p (length xs)"
  by (induction xs arbitrary: p) auto

lemma mapped_update [simp]: "mapped m p n \<Longrightarrow> mapped (m(q \<mapsto> b)) p n"
  by (induction n arbitrary: p) auto

lemma mapped_total: "mapped (\<lambda>a. Some (f a)) p k"
  by (induction k arbitrary: p) simp_all

lemma mapped_poke [simp]: "mapped m p n \<Longrightarrow> mapped (poke m q xs) p n"
  by (induction xs arbitrary: m q) auto

lemma poke_outside: "\<not> in_range p (length xs) a \<Longrightarrow> poke m p xs a = m a"
  by (induction xs arbitrary: m p) (auto simp: in_range_Suc)

lemma bytes_at_update:
  "\<not> in_range p (length xs) q \<Longrightarrow> bytes_at (m(q \<mapsto> b)) p xs = bytes_at m p xs"
  by (induction xs arbitrary: p) (auto simp: in_range_Suc)

lemma bytes_at_poke_self: "length xs \<le> 2 ^ 64 \<Longrightarrow> bytes_at (poke m p xs) p xs"
proof (induction xs arbitrary: m p)
  case (Cons x xs)
  then have "\<not> in_range (p + 1) (length xs) p" by simp
  then have "poke (m(p \<mapsto> x)) (p + 1) xs p = Some x"
    by (simp add: poke_outside)
  with Cons show ?case by simp
qed simp

lemma mapped_in_range: "mapped m p n \<Longrightarrow> in_range p n a \<Longrightarrow> m a \<noteq> None"
  by (induction n arbitrary: p) (auto simp: in_range_Suc)

lemma apart_sym: "apart p n q k \<Longrightarrow> apart q k p n"
  by (auto simp: apart_def)

lemma apart_in_range: "apart p n q k \<Longrightarrow> in_range p n a \<Longrightarrow> \<not> in_range q k a"
proof
  assume ap: "apart p n q k" and a: "in_range p n a" and b: "in_range q k a"
  then have nk: "n \<le> unat (q - p)" "k \<le> unat (p - q)"
    by (auto simp: apart_def)
  with a b have ab: "unat (a - p) < unat (q - p)" "unat (a - q) < unat (p - q)"
    by (auto simp: in_range_def)
  have eq: "a - q = (a - p) - (q - p)" by simp
  from ab(1) have ne: "p \<noteq> q" by auto
  have "unat (a - q) = unat (a - p) + 2 ^ 64 - unat (q - p)"
    using ab(1) by (subst eq) (subst unat_sub_if', simp)
  moreover have "unat (p - q) = 2 ^ 64 - unat (q - p)"
    using unat_diff_swap [OF ne] by simp
  ultimately show False using ab(2) by simp
qed

lemma apart_Suc_left:
  "apart p (Suc n) q k \<Longrightarrow> apart (p + 1) n q k \<and> (k = 0 \<or> \<not> in_range q k p)"
proof -
  assume ap: "apart p (Suc n) q k"
  show ?thesis
  proof (cases "n = 0 \<or> k = 0")
    case True
    with ap show ?thesis
      using apart_in_range [OF ap, of p] by (auto simp: apart_def)
  next
    case False
    with ap have *: "Suc n \<le> unat (q - p)" "k \<le> unat (p - q)"
      by (auto simp: apart_def)
    then have ne: "q \<noteq> p" by auto
    have 1: "unat (q - (p + 1)) = unat (q - p) - 1"
      using ne by (rule unat_diff_Suc)
    have "q \<noteq> p + 1" using * False by auto
    then have 2: "unat ((p + 1) - q) = 2 ^ 64 - unat (q - (p + 1))"
      using unat_diff_swap [of "p + 1" q] by simp
    have 3: "unat (p - q) = 2 ^ 64 - unat (q - p)"
      using ne unat_diff_swap [of p q] by simp
    have "k \<le> unat ((p + 1) - q)" using 1 2 3 * by linarith
    moreover have "n \<le> unat (q - (p + 1))" using 1 * by simp
    ultimately show ?thesis
      using apart_in_range [OF ap, of p] by (simp add: apart_def)
  qed
qed

lemma apart_Suc_right:
  "apart p n q (Suc k) \<Longrightarrow> apart p n (q + 1) k \<and> (n = 0 \<or> \<not> in_range p n q)"
  using apart_Suc_left [OF apart_sym, of p n q k] apart_sym by blast

text \<open>One step of a copy: both ranges advance, and the byte written is not read later.\<close>

lemma apart_Suc_both:
  assumes "apart d (Suc n) s (Suc k)"
  shows "apart (d + 1) n (s + 1) k" and "d \<noteq> s" and "\<not> in_range (s + 1) k d"
proof -
  from assms have 1: "apart (d + 1) n s (Suc k)" and 2: "\<not> in_range s (Suc k) d"
    using apart_Suc_left [of d n s "Suc k"] by auto
  from 1 show "apart (d + 1) n (s + 1) k"
    using apart_Suc_right [of "d + 1" n s k] by simp
  from 2 show "d \<noteq> s" and "\<not> in_range (s + 1) k d"
    by (auto simp: in_range_Suc)
qed

lemma apart_mono: "apart p n q k \<Longrightarrow> n' \<le> n \<Longrightarrow> k' \<le> k \<Longrightarrow> apart p n' q k'"
  by (auto simp: apart_def)

lemma apartI: "(\<And>a. in_range p n a \<Longrightarrow> \<not> in_range q k a) \<Longrightarrow> apart p n q k"
proof (rule ccontr)
  assume all: "\<And>a. in_range p n a \<Longrightarrow> \<not> in_range q k a" and "\<not> apart p n q k"
  then have nk: "0 < n" "0 < k" and "unat (q - p) < n \<or> unat (p - q) < k"
    by (auto simp: apart_def)
  then show False using all [of q] all [of p] nk by (auto simp: in_range_def)
qed

lemma unat_diff_add:
  "in_range (p + of_nat i) n a \<Longrightarrow> i + n \<le> 2 ^ 64 \<Longrightarrow> unat (a - p) = unat (a - (p + of_nat i)) + i"
proof -
  assume a: "in_range (p + of_nat i) n a" and le: "i + n \<le> 2 ^ 64"
  let ?d = "a - (p + of_nat i)"
  have "a - p = ?d + of_nat i" by simp
  moreover have "unat ?d + i < 2 ^ 64" using le a by (simp add: in_range_def)
  ultimately show ?thesis
    using unat_of_nat64 [of "unat ?d + i"] by (metis of_nat_add word_of_unat)
qed

lemma in_range_add:
  "i + n \<le> k \<Longrightarrow> k \<le> 2 ^ 64 \<Longrightarrow> in_range (p + of_nat i) n a \<Longrightarrow> in_range p k a"
  using unat_diff_add [of p i n a] by (simp add: in_range_def)

text \<open>A part of a range, and what follows a range.\<close>

lemma apart_part:
  "apart p k q j \<Longrightarrow> i + n \<le> k \<Longrightarrow> k \<le> 2 ^ 64 \<Longrightarrow> apart (p + of_nat i) n q j"
  by (rule apartI) (meson apart_in_range in_range_add)

lemma apart_sub:
  assumes "apart p k q j" and "i + n \<le> k" and "i' + n' \<le> j" and "k \<le> 2 ^ 64" and "j \<le> 2 ^ 64"
  shows "apart (p + of_nat i) n (q + of_nat i') n'"
  using apart_part [OF apart_sym [OF apart_part [OF assms(1,2,4)]] assms(3,5)] by (rule apart_sym)

lemma apart_next: "i + n \<le> 2 ^ 64 \<Longrightarrow> apart (p + of_nat i) n p i"
proof (rule apartI)
  fix a assume "i + n \<le> 2 ^ 64" "in_range (p + of_nat i) n a"
  then show "\<not> in_range p i a" using unat_diff_add [of p i n a] by (simp add: in_range_def)
qed

lemma mapped_part: "mapped m p k \<Longrightarrow> i + n \<le> k \<Longrightarrow> mapped m (p + of_nat i) n"
  using mapped_mono [of m p k "i + n"] mapped_add [of m p i n] by blast

lemma mapped_after:
  assumes "mapped m q n" and "n < 2 ^ 64" and "\<And>a. \<not> in_range p k a \<Longrightarrow> m' a = m a" and "mapped m' p k"
  shows "mapped m' q n"
proof -
  have "m' a \<noteq> None" if "in_range q n a" for a
    using assms(3,4) mapped_in_range [OF assms(1) that] mapped_in_range [of m' p k a] by metis
  then show ?thesis using assms(2) by (induction n arbitrary: q) (auto simp: in_range_Suc)
qed

lemma bytes_at_poke_apart:
  "apart q (length ys) p (length xs) \<Longrightarrow> bytes_at (poke m q ys) p xs = bytes_at m p xs"
proof (induction ys arbitrary: m q)
  case (Cons y ys)
  then have ap: "apart (q + 1) (length ys) p (length xs)"
    and out: "xs = [] \<or> \<not> in_range p (length xs) q"
    using apart_Suc_left [of q "length ys" p "length xs"] by auto
  from ap have "bytes_at (poke (m(q \<mapsto> y)) (q + 1) ys) p xs = bytes_at (m(q \<mapsto> y)) p xs"
    by (rule Cons.IH)
  also have "\<dots> = bytes_at m p xs"
    using out bytes_at_update [of p xs q m y] by auto
  finally show ?case by simp
qed simp

section \<open>C strings\<close>

text \<open>
  \<open>cstr m p xs\<close>: at \<open>p\<close> lies the NUL-terminated string with the characters
  \<open>xs\<close>, none of them NUL.
\<close>

primrec cstr :: "mem \<Rightarrow> addr \<Rightarrow> byte list \<Rightarrow> bool" where
  "cstr m p [] = (m p = Some 0)"
| "cstr m p (x # xs) = (m p = Some x \<and> x \<noteq> 0 \<and> cstr m (p + 1) xs)"

lemma cstr_iff_bytes: "cstr m p xs \<longleftrightarrow> bytes_at m p (xs @ [0]) \<and> 0 \<notin> set xs"
  by (induction xs arbitrary: p) auto

lemma cstr_mapped: "cstr m p xs \<Longrightarrow> mapped m p (Suc (length xs))"
  unfolding cstr_iff_bytes by (drule conjunct1, drule bytes_at_mapped) simp

lemma cstr_nonzero: "cstr m p xs \<Longrightarrow> 0 \<notin> set xs"
  by (simp add: cstr_iff_bytes)

text \<open>A C string is shorter than the address space: its terminator would overwrite it.\<close>

lemma cstr_length: "cstr m p xs \<Longrightarrow> length xs < 2 ^ 64"
proof (rule ccontr)
  assume c: "cstr m p xs" and "\<not> length xs < 2 ^ 64"
  then have len: "2 ^ 64 \<le> length xs" by simp
  let ?i = "length xs - 2 ^ 64"
  have i: "?i < length xs" using len by (simp add: diff_less)
  have b: "bytes_at m p (xs @ [0])" and nz: "0 \<notin> set xs"
    using c by (auto simp: cstr_iff_bytes)
  have 1: "m (p + of_nat (length xs)) = Some 0"
    using b by simp
  have 2: "m (p + of_nat ?i) = Some (xs ! ?i)"
    using b i bytes_at_nth [of m p xs] by simp
  have "(of_nat (length xs) :: addr) = of_nat (?i + 2 ^ 64)"
    using len by simp
  also have "\<dots> = of_nat ?i"
    by (simp only: of_nat_add) simp
  finally have "xs ! ?i = 0" using 1 2 by simp
  with nz i show False by (metis nth_mem)
qed

lemma cstr_length_num: "cstr m p xs \<Longrightarrow> length xs < 18446744073709551616"
  using cstr_length by fastforce

text \<open>The string at an address is unique.\<close>

lemma cstr_unique: "cstr m p xs \<Longrightarrow> cstr m p ys \<Longrightarrow> xs = ys"
proof (induction xs arbitrary: p ys)
  case Nil
  then show ?case by (cases ys) auto
next
  case (Cons x xs)
  then show ?case by (cases ys) auto
qed

lemma cstr_append_drop:
  "cstr m p (xs @ ys) \<Longrightarrow> cstr m (p + of_nat (length xs)) ys"
  by (induction xs arbitrary: p) (auto simp flip: add.assoc)

lemma cstr_update:
  "\<not> in_range p (Suc (length xs)) q \<Longrightarrow> cstr (m(q \<mapsto> b)) p xs = cstr m p xs"
  by (auto simp: cstr_iff_bytes bytes_at_update simp flip: bytes_at_append
      simp del: bytes_at_append)

lemma cstr_poke_apart:
  "apart q (length ys) p (Suc (length xs)) \<Longrightarrow> cstr (poke m q ys) p xs = cstr m p xs"
  using bytes_at_poke_apart [of q ys p "xs @ [0]" m]
  by (simp add: cstr_iff_bytes del: bytes_at_append)

text \<open>Appending to a string in place.\<close>

lemma cstr_poke_append:
  assumes d: "cstr m p xs" and nz: "0 \<notin> set ys" and len: "length xs + Suc (length ys) \<le> 2 ^ 64"
  shows "cstr (poke m (p + of_nat (length xs)) (ys @ [0])) p (xs @ ys)"
proof -
  let ?q = "p + of_nat (length xs)"
  have "bytes_at m p xs" "0 \<notin> set xs" using d by (auto simp: cstr_iff_bytes)
  moreover have "bytes_at (poke m ?q (ys @ [0])) p xs"
    using bytes_at_poke_apart [of ?q "ys @ [0]" p xs m] apart_next [OF len, of p] calculation(1)
    by simp
  moreover have "bytes_at (poke m ?q (ys @ [0])) ?q (ys @ [0])"
    using len by (intro bytes_at_poke_self) simp
  ultimately show ?thesis using nz by (simp add: cstr_iff_bytes algebra_simps)
qed

end
