(* ===== verification/Ctype.thy ===== *)
theory Ctype
  imports CPrelude
begin

section \<open>ctype.h: character classes\<close>

text \<open>
  The predicates of \<^verbatim>\<open>src/ctype.h\<close> and the case conversions of
  \<^verbatim>\<open>src/string.h\<close>. A C comparison has the value 0 or 1, here \<open>of_bool\<close>. The
  code tests a range with one unsigned comparison, \<open>(unsigned int)(c - lo) < n\<close>; the
  subtraction is modelled with wrap-around.
\<close>

definition isascii :: "i32 \<Rightarrow> i32" where
  "isascii c = of_bool (c \<le> 0x7f)"

definition isblank :: "i32 \<Rightarrow> i32" where
  "isblank c = of_bool (c = 9 \<or> c = 32)"

definition iscntrl :: "i32 \<Rightarrow> i32" where
  "iscntrl c = of_bool (c < 0x20 \<or> c = 0x7f)"

definition isdigit :: "i32 \<Rightarrow> i32" where
  "isdigit c = of_bool (c - 48 < 10)"

definition isgraph :: "i32 \<Rightarrow> i32" where
  "isgraph c = of_bool (c - 0x21 < 0x5e)"

definition islower :: "i32 \<Rightarrow> i32" where
  "islower c = of_bool (c - 97 < 26)"

definition isprint :: "i32 \<Rightarrow> i32" where
  "isprint c = of_bool (c - 0x20 < 0x5f)"

definition isspace :: "i32 \<Rightarrow> i32" where
  "isspace c = of_bool (c = 32 \<or> c - 0x09 < 5)"

definition isupper :: "i32 \<Rightarrow> i32" where
  "isupper c = of_bool (c - 65 < 26)"

definition isxdigit :: "i32 \<Rightarrow> i32" where
  "isxdigit c = of_bool (isdigit c \<noteq> 0 \<or> c - 65 < 6 \<or> c - 97 < 6)"

definition isalpha :: "i32 \<Rightarrow> i32" where
  "isalpha c = of_bool (islower c \<noteq> 0 \<or> isupper c \<noteq> 0)"

definition isalnum :: "i32 \<Rightarrow> i32" where
  "isalnum c = of_bool (isalpha c \<noteq> 0 \<or> isdigit c \<noteq> 0)"

definition ispunct :: "i32 \<Rightarrow> i32" where
  "ispunct c = of_bool (isgraph c \<noteq> 0 \<and> \<not> isalnum c \<noteq> 0)"

definition tolower :: "i32 \<Rightarrow> i32" where
  "tolower c = (if 65 \<le>s c \<and> c \<le>s 90 then c - 65 + 97 else c)"

definition toupper :: "i32 \<Rightarrow> i32" where
  "toupper c = (if 97 \<le>s c \<and> c \<le>s 122 then c - 97 + 65 else c)"

named_theorems ctype_defs

lemmas ctype_base_defs [ctype_defs] =
  isascii_def isblank_def iscntrl_def isdigit_def isgraph_def islower_def isprint_def
  isspace_def isupper_def isxdigit_def isalpha_def isalnum_def ispunct_def

section \<open>Ranges\<close>

text \<open>The unsigned range test decides a range of the signed value.\<close>

lemma sint_range_uint:
  fixes c :: i32
  assumes "0 \<le> lo" and "hi < 2 ^ 31"
  shows "(lo \<le> sint c \<and> sint c \<le> hi) \<longleftrightarrow> (lo \<le> uint c \<and> uint c \<le> hi)"
proof (cases "uint c < 2 ^ 31")
  case True
  then have "sint c = uint c"
    by (simp add: sint_uint signed_take_bit_int_eq_self order_trans [OF _ uint_ge_0])
  then show ?thesis by simp
next
  case False
  have "uint c < 2 ^ 32" using uint_lt2p [of c] by simp
  with False have "uint c div 2 ^ 31 = 1" by simp
  then have "bit (uint c) 31" by (simp add: bit_iff_odd)
  then have "sint c = uint c - 2 ^ 32"
    by (simp add: sint_uint signed_take_bit_eq_take_bit_minus take_bit_int_eq_self
        uint_lt2p [of c, simplified] \<open>uint c < 2 ^ 32\<close>)
  with False \<open>uint c < 2 ^ 32\<close> assms show ?thesis by auto
qed

lemma range_test:
  fixes c lo n :: i32
  assumes "uint lo + uint n < 2 ^ 31" and "0 < uint n"
  shows "c - lo < n \<longleftrightarrow> uint lo \<le> sint c \<and> sint c \<le> uint lo + uint n - 1"
proof -
  have c: "uint c < 2 ^ 32" using uint_lt2p [of c] by simp
  have "c - lo < n \<longleftrightarrow> uint (c - lo) < uint n"
    by (rule word_less_def)
  also have "\<dots> \<longleftrightarrow> uint lo \<le> uint c \<and> uint c \<le> uint lo + uint n - 1"
  proof (cases "uint lo \<le> uint c")
    case True
    then show ?thesis by (auto simp: uint_sub_if')
  next
    case False
    then have "uint (c - lo) = uint c - uint lo + 4294967296" by (simp add: uint_sub_if')
    moreover have "uint lo + uint n < 2147483648" using assms by simp
    ultimately have "\<not> uint (c - lo) < uint n" using uint_ge_0 [of c] by linarith
    with False show ?thesis by simp
  qed
  also have "\<dots> \<longleftrightarrow> uint lo \<le> sint c \<and> sint c \<le> uint lo + uint n - 1"
    using assms by (intro sint_range_uint [symmetric]) auto
  finally show ?thesis .
qed

lemma eq_test:
  fixes c k :: i32
  assumes "uint k < 2 ^ 31"
  shows "c = k \<longleftrightarrow> sint c = uint k"
proof -
  have "c = k \<longleftrightarrow> uint k \<le> uint c \<and> uint c \<le> uint k"
    by (auto simp: word_uint_eq_iff)
  also have "\<dots> \<longleftrightarrow> uint k \<le> sint c \<and> sint c \<le> uint k"
    using assms by (intro sint_range_uint [symmetric]) auto
  finally show ?thesis by auto
qed

text \<open>Each class as a set of signed values, for every \<open>int\<close> argument.\<close>

named_theorems ctype_iff

lemma isdigit_iff [ctype_iff]: "isdigit c \<noteq> 0 \<longleftrightarrow> 48 \<le> sint c \<and> sint c \<le> 57"
  by (simp add: isdigit_def range_test)

lemma isupper_iff [ctype_iff]: "isupper c \<noteq> 0 \<longleftrightarrow> 65 \<le> sint c \<and> sint c \<le> 90"
  by (simp add: isupper_def range_test)

lemma islower_iff [ctype_iff]: "islower c \<noteq> 0 \<longleftrightarrow> 97 \<le> sint c \<and> sint c \<le> 122"
  by (simp add: islower_def range_test)

lemma isgraph_iff [ctype_iff]: "isgraph c \<noteq> 0 \<longleftrightarrow> 33 \<le> sint c \<and> sint c \<le> 126"
  by (simp add: isgraph_def range_test)

lemma isprint_iff [ctype_iff]: "isprint c \<noteq> 0 \<longleftrightarrow> 32 \<le> sint c \<and> sint c \<le> 126"
  by (simp add: isprint_def range_test)

lemma isspace_iff [ctype_iff]:
  "isspace c \<noteq> 0 \<longleftrightarrow> sint c = 32 \<or> 9 \<le> sint c \<and> sint c \<le> 13"
  by (simp add: isspace_def range_test eq_test)

lemma isblank_iff [ctype_iff]: "isblank c \<noteq> 0 \<longleftrightarrow> sint c = 9 \<or> sint c = 32"
  by (simp add: isblank_def eq_test)

lemma isascii_iff [ctype_iff]: "isascii c \<noteq> 0 \<longleftrightarrow> 0 \<le> sint c \<and> sint c \<le> 127"
  using range_test [where lo = 0 and n = 128 and c = c] by (auto simp add: isascii_def word_less_def word_le_def)

lemma iscntrl_iff [ctype_iff]:
  "iscntrl c \<noteq> 0 \<longleftrightarrow> 0 \<le> sint c \<and> sint c \<le> 31 \<or> sint c = 127"
  using range_test [where lo = 0 and n = 32 and c = c] by (simp add: iscntrl_def eq_test)

lemma isalpha_iff [ctype_iff]:
  "isalpha c \<noteq> 0 \<longleftrightarrow> 65 \<le> sint c \<and> sint c \<le> 90 \<or> 97 \<le> sint c \<and> sint c \<le> 122"
  using isupper_iff islower_iff by (auto simp: isalpha_def)

lemma isalnum_iff [ctype_iff]:
  "isalnum c \<noteq> 0 \<longleftrightarrow> isalpha c \<noteq> 0 \<or> isdigit c \<noteq> 0"
  by (simp add: isalnum_def)

lemma ispunct_iff [ctype_iff]:
  "ispunct c \<noteq> 0 \<longleftrightarrow> isgraph c \<noteq> 0 \<and> isalnum c = 0"
  by (simp add: ispunct_def)

lemma isxdigit_iff [ctype_iff]:
  "isxdigit c \<noteq> 0 \<longleftrightarrow> isdigit c \<noteq> 0 \<or> 65 \<le> sint c \<and> sint c \<le> 70
     \<or> 97 \<le> sint c \<and> sint c \<le> 102"
  by (simp add: isxdigit_def range_test)

end
