(* ===== verification/CString.thy ===== *)
theory CString
  imports CPrelude
begin

section \<open>string.h: memory and string routines\<close>

text \<open>
  The portable C bodies of \<^verbatim>\<open>src/string.h\<close>. A loop is a
  \<^theory_text>\<open>partial_function\<close> named after its function; the pointers and counters it
  changes are its arguments. A routine that writes returns the memory after the call
  beside its value. \<^verbatim>\<open>strdup\<close> and \<^verbatim>\<open>strndup\<close> need the allocator
  and are in the theory \<open>CHeap\<close>.
\<close>

subsection \<open>Memory blocks\<close>

partial_function (option) memcmp_loop :: "mem \<Rightarrow> addr \<Rightarrow> addr \<Rightarrow> i64 \<Rightarrow> i64 \<Rightarrow> i32 \<Rightarrow> i32 option" where
  "memcmp_loop m s1 s2 n ofs c1 =
     (if ofs < n then do {
        a \<leftarrow> load m (s1 + ofs);
        b \<leftarrow> load m (s2 + ofs);
        let c1 = (ucast a :: i32) - ucast b in
        if c1 = 0 then memcmp_loop m s1 s2 n (ofs + 1) c1 else Some c1 }
      else Some c1)"

definition memcmp :: "mem \<Rightarrow> addr \<Rightarrow> addr \<Rightarrow> i64 \<Rightarrow> i32 option" where
  "memcmp m s1 s2 n = memcmp_loop m s1 s2 n 0 0"

partial_function (option) memmove_loop :: "mem \<Rightarrow> addr \<Rightarrow> addr \<Rightarrow> i64 \<Rightarrow> i64 \<Rightarrow> i64 \<Rightarrow> mem option" where
  "memmove_loop m dst src len dir pos =
     (if len \<noteq> 0 then do {
        let pos = pos + dir;
        b \<leftarrow> load m (src + pos);
        m \<leftarrow> store m (dst + pos) b;
        memmove_loop m dst src (len - 1) dir pos }
      else Some m)"

definition memmove :: "mem \<Rightarrow> addr \<Rightarrow> addr \<Rightarrow> i64 \<Rightarrow> (addr \<times> mem) option" where
  "memmove m dst src len =
     (let (pos, dir) = (if dst < src then (- 1, 1) else (len, - 1)) in
      do { m \<leftarrow> memmove_loop m dst src len dir pos; Some (dst, m) })"

partial_function (option) memcpy_loop :: "mem \<Rightarrow> addr \<Rightarrow> addr \<Rightarrow> i64 \<Rightarrow> i64 \<Rightarrow> mem option" where
  "memcpy_loop m dst src len pos =
     (if pos < len then do {
        b \<leftarrow> load m (src + pos);
        m \<leftarrow> store m (dst + pos) b;
        memcpy_loop m dst src len (pos + 1) }
      else Some m)"

definition memcpy :: "mem \<Rightarrow> addr \<Rightarrow> addr \<Rightarrow> i64 \<Rightarrow> (addr \<times> mem) option" where
  "memcpy m dst src len = do { m \<leftarrow> memcpy_loop m dst src len 0; Some (dst, m) }"

partial_function (option) memset_loop :: "mem \<Rightarrow> addr \<Rightarrow> i32 \<Rightarrow> i64 \<Rightarrow> mem option" where
  "memset_loop m p b len =
     (if len \<noteq> 0 then do {
        m \<leftarrow> store m p (ucast b);
        memset_loop m (p + 1) b (len - 1) }
      else Some m)"

definition memset :: "mem \<Rightarrow> addr \<Rightarrow> i32 \<Rightarrow> i64 \<Rightarrow> (addr \<times> mem) option" where
  "memset m dst b len = do { m \<leftarrow> memset_loop m dst b len; Some (dst, m) }"

subsection \<open>Strings: searching and comparing\<close>

partial_function (option) strchr_loop :: "mem \<Rightarrow> addr \<Rightarrow> byte \<Rightarrow> addr option" where
  "strchr_loop m s c = do {
     x \<leftarrow> load m s;
     if x \<noteq> 0 then (if x = c then Some s else strchr_loop m (s + 1) c) else Some 0 }"

definition strchr :: "mem \<Rightarrow> addr \<Rightarrow> i32 \<Rightarrow> addr option" where
  "strchr m s c = strchr_loop m s (ucast c)"

partial_function (option) strcmp :: "mem \<Rightarrow> addr \<Rightarrow> addr \<Rightarrow> i32 option" where
  "strcmp m a b = do {
     x \<leftarrow> load m a;
     y \<leftarrow> load m b;
     let c = (ucast y :: i32); diff = ucast x - c in
     if diff = 0 \<and> c \<noteq> 0 then strcmp m (a + 1) (b + 1) else Some diff }"

partial_function (option) strcpy_loop :: "mem \<Rightarrow> addr \<Rightarrow> addr \<Rightarrow> mem option" where
  "strcpy_loop m dst src = do {
     b \<leftarrow> load m src;
     m \<leftarrow> store m dst b;
     if b \<noteq> 0 then strcpy_loop m (dst + 1) (src + 1) else Some m }"

definition strcpy :: "mem \<Rightarrow> addr \<Rightarrow> addr \<Rightarrow> (addr \<times> mem) option" where
  "strcpy m dst src = do { m \<leftarrow> strcpy_loop m dst src; Some (dst, m) }"

partial_function (option) strlen_loop :: "mem \<Rightarrow> addr \<Rightarrow> i64 \<Rightarrow> i64 option" where
  "strlen_loop m str len = do {
     c \<leftarrow> load m (str + len);
     if c \<noteq> 0 then strlen_loop m str (len + 1) else Some len }"

definition strlen :: "mem \<Rightarrow> addr \<Rightarrow> i64 option" where
  "strlen m str = strlen_loop m str 0"

partial_function (option) strnlen_loop :: "mem \<Rightarrow> addr \<Rightarrow> i64 \<Rightarrow> i64 \<Rightarrow> i64 option" where
  "strnlen_loop m str maxlen len =
     (if len < maxlen then do {
        c \<leftarrow> load m (str + len);
        if c \<noteq> 0 then strnlen_loop m str maxlen (len + 1) else Some len }
      else Some len)"

definition strnlen :: "mem \<Rightarrow> addr \<Rightarrow> i64 \<Rightarrow> i64 option" where
  "strnlen m str maxlen = strnlen_loop m str maxlen 0"

text \<open>\<^verbatim>\<open>while (*src++) len++\<close>, the tail of \<^verbatim>\<open>strlcat\<close>.\<close>

partial_function (option) count_tail :: "mem \<Rightarrow> addr \<Rightarrow> i64 \<Rightarrow> i64 option" where
  "count_tail m src len = do {
     c \<leftarrow> load m src;
     if c \<noteq> 0 then count_tail m (src + 1) (len + 1) else Some len }"

partial_function (option) strlcat_loop :: "mem \<Rightarrow> addr \<Rightarrow> addr \<Rightarrow> i64 \<Rightarrow> i64 \<Rightarrow> (mem \<times> addr \<times> i64) option" where
  "strlcat_loop m dst src sz len =
     (if len + 1 < sz then do {
        b \<leftarrow> load m src;
        m \<leftarrow> store m (dst + len) b;
        if b = 0 then Some (m, src, len)
        else strlcat_loop m dst (src + 1) sz (len + 1) }
      else Some (m, src, len))"

definition strlcat :: "mem \<Rightarrow> addr \<Rightarrow> addr \<Rightarrow> i64 \<Rightarrow> (i64 \<times> mem) option" where
  "strlcat m dst src sz = do {
     len \<leftarrow> strnlen m dst sz;
     (m, src, len) \<leftarrow> strlcat_loop m dst src sz len;
     m \<leftarrow> (if len < sz then store m (dst + len) 0 else Some m);
     len \<leftarrow> count_tail m src len;
     Some (len, m) }"

text \<open>
  The copying loop of \<^verbatim>\<open>strlcpy\<close>: the flag says that the function returned from
  inside the loop.
\<close>

partial_function (option) strlcpy_loop :: "mem \<Rightarrow> addr \<Rightarrow> addr \<Rightarrow> i64 \<Rightarrow> i64 \<Rightarrow> (bool \<times> i64 \<times> mem) option" where
  "strlcpy_loop m dst src sz len =
     (if len < sz then do {
        b \<leftarrow> load m (src + len);
        m \<leftarrow> store m (dst + len) b;
        if b = 0 then Some (True, len, m)
        else strlcpy_loop m dst src sz (len + 1) }
      else Some (False, len, m))"

definition strlcpy :: "mem \<Rightarrow> addr \<Rightarrow> addr \<Rightarrow> i64 \<Rightarrow> (i64 \<times> mem) option" where
  "strlcpy m dst src sz = do {
     (ret, len, m) \<leftarrow> strlcpy_loop m dst src sz 0;
     if ret then Some (len, m)
     else do {
       m \<leftarrow> (if sz \<noteq> 0 then store m (dst + (sz - 1)) 0 else Some m);
       len \<leftarrow> strlen_loop m src len;
       Some (len, m) } }"

text \<open>\<^verbatim>\<open>while (*dst) dst++\<close>: the end of the string at \<open>dst\<close>.\<close>

partial_function (option) str_end :: "mem \<Rightarrow> addr \<Rightarrow> addr option" where
  "str_end m dst = do {
     c \<leftarrow> load m dst;
     if c \<noteq> 0 then str_end m (dst + 1) else Some dst }"

partial_function (option) strncat_loop :: "mem \<Rightarrow> addr \<Rightarrow> addr \<Rightarrow> i64 \<Rightarrow> (addr \<times> mem) option" where
  "strncat_loop m dst src sz =
     (if sz \<noteq> 0 then do {
        b \<leftarrow> load m src;
        m \<leftarrow> store m dst b;
        if b \<noteq> 0 then strncat_loop m (dst + 1) (src + 1) (sz - 1) else Some (dst, m) }
      else Some (dst, m))"

definition strncat :: "mem \<Rightarrow> addr \<Rightarrow> addr \<Rightarrow> i64 \<Rightarrow> (addr \<times> mem) option" where
  "strncat m dst src sz = do {
     e \<leftarrow> str_end m dst;
     (e, m) \<leftarrow> strncat_loop m e src sz;
     m \<leftarrow> store m e 0;
     Some (dst, m) }"

partial_function (option) strncmp_loop :: "mem \<Rightarrow> addr \<Rightarrow> addr \<Rightarrow> i64 \<Rightarrow> i32 \<Rightarrow> i32 option" where
  "strncmp_loop m a b sz diff =
     (if sz \<noteq> 0 then do {
        x \<leftarrow> load m a;
        y \<leftarrow> load m b;
        let c = (ucast y :: i32); diff = ucast x - c in
        if diff = 0 \<and> c \<noteq> 0 then strncmp_loop m (a + 1) (b + 1) (sz - 1) diff
        else Some diff }
      else Some diff)"

definition strncmp :: "mem \<Rightarrow> addr \<Rightarrow> addr \<Rightarrow> i64 \<Rightarrow> i32 option" where
  "strncmp m a b sz = strncmp_loop m a b sz 0"

partial_function (option) strncpy_loop :: "mem \<Rightarrow> addr \<Rightarrow> addr \<Rightarrow> i64 \<Rightarrow> i64 \<Rightarrow> mem option" where
  "strncpy_loop m dst src sz len =
     (if len < sz then do {
        b \<leftarrow> load m src;
        m \<leftarrow> store m (dst + len) b;
        strncpy_loop m dst (if b \<noteq> 0 then src + 1 else src) sz (len + 1) }
      else Some m)"

definition strncpy :: "mem \<Rightarrow> addr \<Rightarrow> addr \<Rightarrow> i64 \<Rightarrow> (addr \<times> mem) option" where
  "strncpy m dst src sz = do { m \<leftarrow> strncpy_loop m dst src sz 0; Some (dst, m) }"

partial_function (option) strrchr_loop :: "mem \<Rightarrow> addr \<Rightarrow> byte \<Rightarrow> addr \<Rightarrow> addr option" where
  "strrchr_loop m s c ret = do {
     x \<leftarrow> load m s;
     if x \<noteq> 0 then strrchr_loop m (s + 1) c (if x = c then s else ret) else Some ret }"

definition strrchr :: "mem \<Rightarrow> addr \<Rightarrow> i32 \<Rightarrow> addr option" where
  "strrchr m s c = strrchr_loop m s (ucast c) 0"

partial_function (option) strstr_loop :: "mem \<Rightarrow> addr \<Rightarrow> addr \<Rightarrow> i64 \<Rightarrow> i64 \<Rightarrow> addr option" where
  "strstr_loop m haystack needle len_haystack len_needle =
     (if len_haystack \<ge> len_needle then do {
        r \<leftarrow> memcmp m haystack needle len_needle;
        if r = 0 then Some haystack
        else strstr_loop m (haystack + 1) needle (len_haystack - 1) len_needle }
      else Some 0)"

definition strstr :: "mem \<Rightarrow> addr \<Rightarrow> addr \<Rightarrow> addr option" where
  "strstr m haystack needle = do {
     len_needle \<leftarrow> strlen m needle;
     if len_needle = 0 then Some 0
     else do {
       len_haystack \<leftarrow> strlen m haystack;
       strstr_loop m haystack needle len_haystack len_needle } }"

end
