(* ===== verification/CStringFacts.thy ===== *)
theory CStringFacts
  imports CString
begin

section \<open>string.h: what the routines compute\<close>

text \<open>
  Each routine against a list function, for strings \<open>xs\<close> given by \<open>cstr m p xs\<close>.
  Every conclusion has the form \<open>Some \<dots>\<close>: the routine returns and stays inside
  mapped memory.
\<close>

subsection \<open>Length\<close>

lemma strlen_loop_eq:
  "cstr m (s + len) xs \<Longrightarrow> strlen_loop m s len = Some (len + of_nat (length xs))"
proof (induction xs arbitrary: len)
  case Nil
  then show ?case by (subst strlen_loop.simps) simp
next
  case (Cons x xs)
  then have "strlen_loop m s (len + 1) = Some (len + 1 + of_nat (length xs))"
    by (intro Cons.IH) (simp flip: add.assoc)
  with Cons.prems show ?case
    by (subst strlen_loop.simps) (simp add: algebra_simps)
qed

lemma strlen_eq [cstr_simps]: "cstr m s xs \<Longrightarrow> strlen m s = Some (of_nat (length xs))"
  by (simp add: strlen_def strlen_loop_eq)

lemma strnlen_loop_eq:
  "cstr m (s + len) xs \<Longrightarrow> len \<le> maxlen \<Longrightarrow>
   strnlen_loop m s maxlen len = Some (len + of_nat (min (length xs) (unat (maxlen - len))))"
proof (induction xs arbitrary: len)
  case Nil
  then show ?case by (subst strnlen_loop.simps) simp
next
  case (Cons x xs)
  show ?case
  proof (cases "len < maxlen")
    case False
    with Cons.prems show ?thesis by (subst strnlen_loop.simps) simp
  next
    case True
    then have le: "len + 1 \<le> maxlen" by (rule inc_le)
    have "strnlen_loop m s maxlen (len + 1) =
        Some (len + 1 + of_nat (min (length xs) (unat (maxlen - (len + 1)))))"
      using Cons.prems le by (intro Cons.IH) (simp_all flip: add.assoc)
    moreover have "unat (maxlen - len) = Suc (unat (maxlen - (len + 1)))"
      using True unat_diff_Suc [of maxlen len] unat_diff_pos [of maxlen len] by auto
    ultimately show ?thesis using Cons.prems True
      by (subst strnlen_loop.simps) (simp add: algebra_simps)
  qed
qed

lemma strnlen_eq [cstr_simps]:
  "cstr m s xs \<Longrightarrow> strnlen m s n = Some (of_nat (min (length xs) (unat n)))"
  using strnlen_loop_eq [of m s 0 xs n] by (simp add: strnlen_def)

text \<open>An array of \<open>n\<close> characters without a terminator has \<open>strnlen\<close> \<open>n\<close>.\<close>

lemma strnlen_loop_unterminated:
  "bytes_at m (s + len) xs \<Longrightarrow> 0 \<notin> set xs \<Longrightarrow> unat (maxlen - len) = length xs \<Longrightarrow> len \<le> maxlen \<Longrightarrow>
   strnlen_loop m s maxlen len = Some maxlen"
proof (induction xs arbitrary: len)
  case Nil
  then have "maxlen = len" by (simp add: unat_eq_0)
  then show ?case by (subst strnlen_loop.simps) simp
next
  case (Cons x xs)
  then have ne: "maxlen \<noteq> len" by auto
  with Cons.prems have lt: "len < maxlen" by simp
  have "strnlen_loop m s maxlen (len + 1) = Some maxlen"
    using Cons.prems ne inc_le [OF lt]
    by (intro Cons.IH) (simp_all add: unat_diff_Suc flip: add.assoc)
  with Cons.prems lt show ?case by (subst strnlen_loop.simps) simp
qed

lemma strnlen_unterminated:
  "bytes_at m s xs \<Longrightarrow> 0 \<notin> set xs \<Longrightarrow> length xs = unat n \<Longrightarrow> strnlen m s n = Some n"
  using strnlen_loop_unterminated [of m s 0 xs n] by (simp add: strnlen_def)

lemma count_tail_eq [cstr_simps]:
  "cstr m s xs \<Longrightarrow> count_tail m s len = Some (len + of_nat (length xs))"
proof (induction xs arbitrary: s len)
  case Nil
  then show ?case by (subst count_tail.simps) simp
next
  case (Cons x xs)
  then show ?case by (subst count_tail.simps) (simp add: algebra_simps)
qed

lemma str_end_eq [cstr_simps]:
  "cstr m s xs \<Longrightarrow> str_end m s = Some (s + of_nat (length xs))"
proof (induction xs arbitrary: s)
  case Nil
  then show ?case by (subst str_end.simps) simp
next
  case (Cons x xs)
  then show ?case by (subst str_end.simps) (simp add: algebra_simps)
qed

subsection \<open>Comparison\<close>

text \<open>
  The value every comparison returns: the difference of the first bytes that differ, read
  as unsigned characters, the terminator counting as 0.
\<close>

fun cmp_bytes :: "byte list \<Rightarrow> byte list \<Rightarrow> i32" where
  "cmp_bytes [] [] = 0"
| "cmp_bytes [] (y # ys) = - ucast y"
| "cmp_bytes (x # xs) [] = ucast x"
| "cmp_bytes (x # xs) (y # ys) = (if x = y then cmp_bytes xs ys else ucast x - ucast y)"

lemma ucast_byte_inj [simp]: "(ucast (x :: byte) :: i32) = ucast y \<longleftrightarrow> x = y"
  by (simp add: word_uint_eq_iff)

lemma ucast_byte_0 [simp]: "(ucast (x :: byte) :: i32) = 0 \<longleftrightarrow> x = 0"
  using ucast_byte_inj [of x 0] by (simp del: ucast_byte_inj)

lemma strcmp_eq [cstr_simps]:
  "cstr m a xs \<Longrightarrow> cstr m b ys \<Longrightarrow> strcmp m a b = Some (cmp_bytes xs ys)"
proof (induction xs ys arbitrary: a b rule: cmp_bytes.induct)
  case 1
  then show ?case by (subst strcmp.simps) simp
next
  case 2
  then show ?case by (subst strcmp.simps) (auto simp: Let_def)
next
  case 3
  then show ?case by (subst strcmp.simps) (auto simp: Let_def)
next
  case 4
  then show ?case by (subst strcmp.simps) (auto simp: Let_def)
qed

lemma strncmp_loop_eq:
  "cstr m a xs \<Longrightarrow> cstr m b ys \<Longrightarrow> (n = 0 \<longrightarrow> diff = 0) \<Longrightarrow>
   strncmp_loop m a b n diff = Some (cmp_bytes (take (unat n) xs) (take (unat n) ys))"
proof (induction xs ys arbitrary: a b n diff rule: cmp_bytes.induct)
  case 1
  then show ?case by (subst strncmp_loop.simps) (auto simp: Let_def)
next
  case (2 y ys)
  then show ?case
    by (subst strncmp_loop.simps) (cases "unat n", auto simp: Let_def unat_eq_0)
next
  case (3 x xs)
  then show ?case
    by (subst strncmp_loop.simps) (cases "unat n", auto simp: Let_def unat_eq_0)
next
  case (4 x xs y ys)
  show ?case
  proof (cases "n = 0")
    case True
    with "4.prems" show ?thesis by (subst strncmp_loop.simps) simp
  next
    case False
    then have n: "unat n = Suc (unat (n - 1))"
      by (simp add: unat_minus_one unat_gt_0)
    from "4.prems" False n show ?thesis
      by (subst strncmp_loop.simps) (auto simp: Let_def intro!: "4.IH")
  qed
qed

lemma strncmp_eq [cstr_simps]:
  "cstr m a xs \<Longrightarrow> cstr m b ys \<Longrightarrow>
   strncmp m a b n = Some (cmp_bytes (take (unat n) xs) (take (unat n) ys))"
  by (simp add: strncmp_def strncmp_loop_eq)

lemma memcmp_loop_eq:
  "bytes_at m (s1 + ofs) xs \<Longrightarrow> bytes_at m (s2 + ofs) ys \<Longrightarrow> length xs = length ys \<Longrightarrow>
   ofs \<le> n \<Longrightarrow> unat (n - ofs) = length xs \<Longrightarrow> c1 = 0 \<Longrightarrow>
   memcmp_loop m s1 s2 n ofs c1 = Some (cmp_bytes xs ys)"
proof (induction xs ys arbitrary: ofs c1 rule: cmp_bytes.induct)
  case (4 x xs y ys)
  then have ne: "n \<noteq> ofs" by auto
  with "4.prems" have lt: "ofs < n" by simp
  have "x = y \<Longrightarrow> memcmp_loop m s1 s2 n (ofs + 1) 0 = Some (cmp_bytes xs ys)"
    using "4.prems" inc_le [OF lt]
    by (intro "4.IH") (simp_all add: unat_diff_Suc [OF ne] flip: add.assoc)
  with "4.prems" lt show ?case
    by (subst memcmp_loop.simps) (simp add: Let_def)
qed (subst memcmp_loop.simps, simp add: unat_eq_0)+

lemma memcmp_eq [cstr_simps]:
  "bytes_at m s1 xs \<Longrightarrow> bytes_at m s2 ys \<Longrightarrow> length xs = unat n \<Longrightarrow> length ys = unat n \<Longrightarrow>
   memcmp m s1 s2 n = Some (cmp_bytes xs ys)"
  using memcmp_loop_eq [of m s1 0 xs s2 ys n 0] by (simp add: memcmp_def)

text \<open>The sign of the result is the lexicographic order of the unsigned bytes.\<close>

lemma sint_ucast_byte: "sint (ucast (x :: byte) :: i32) = uint x"
  using uint_lt8 [of x]
  by (simp add: sint_uint signed_take_bit_int_eq_self order_trans [OF _ uint_ge_0]
      del: uint_lt8)

lemma sint_byte_diff: "sint (ucast (x :: byte) - ucast (y :: byte) :: i32) = uint x - uint y"
proof -
  have "- 256 < uint x - uint y" and "uint x - uint y < 256"
    using uint_lt8 [of x] uint_lt8 [of y] uint_ge_0 [of x] uint_ge_0 [of y] by linarith+
  then show ?thesis
    by (simp add: sint_word_ariths sint_ucast_byte signed_take_bit_int_eq_self)
qed

lemma sint_byte_neg: "sint (- ucast (x :: byte) :: i32) = - uint x"
  using sint_byte_diff [of 0 x] by simp

lemma cmp_bytes_eq_0: "cmp_bytes xs ys = 0 \<longleftrightarrow> xs = ys" if "0 \<notin> set xs" "0 \<notin> set ys"
  using that by (induction xs ys rule: cmp_bytes.induct) auto

lemma cmp_bytes_eq_0_len: "length xs = length ys \<Longrightarrow> cmp_bytes xs ys = 0 \<longleftrightarrow> xs = ys"
  by (induction xs ys rule: cmp_bytes.induct) auto

lemma sint_cmp_bytes_neg:
  "0 \<notin> set xs \<Longrightarrow> 0 \<notin> set ys \<Longrightarrow> sint (cmp_bytes xs ys) < 0 \<longleftrightarrow> ord_class.lexordp xs ys"
proof (induction xs ys rule: cmp_bytes.induct)
  case (2 y ys)
  then show ?case
    using uint_ge_0 [of y] by (auto simp: sint_byte_neg less_le uint_0_iff)
next
  case (3 x xs)
  then show ?case by (simp add: sint_ucast_byte)
next
  case (4 x xs y ys)
  then show ?case
    by (auto simp: sint_byte_diff word_less_def linorder_neq_iff [of "uint x" "uint y"]
        word_uint_eq_iff [of x y])
qed simp

lemma cmp_bytes_swap: "cmp_bytes ys xs = - cmp_bytes xs ys"
  by (induction xs ys rule: cmp_bytes.induct) auto

lemma cmp_bytes_bound:
  "- 256 < sint (cmp_bytes xs ys) \<and> sint (cmp_bytes xs ys) < 256"
proof (induction xs ys rule: cmp_bytes.induct)
  case (2 y ys)
  then show ?case
    using uint_lt8 [of y] uint_ge_0 [of y] by (simp only: cmp_bytes.simps sint_byte_neg) linarith
next
  case (3 x xs)
  then show ?case
    using order_less_le_trans [of "- 256" 0 "uint x"] by (simp add: sint_ucast_byte)
next
  case (4 x xs y ys)
  have "- 256 < uint x - uint y" and "uint x - uint y < 256"
    using uint_lt8 [of x] uint_lt8 [of y] uint_ge_0 [of x] uint_ge_0 [of y] by linarith+
  with "4.IH" show ?case by (simp add: sint_byte_diff)
qed simp

end
