(* ===== verification/CStringCopy.thy ===== *)
theory CStringCopy
  imports CStringFacts
begin

section \<open>string.h: searching, copying and concatenating strings\<close>

text \<open>
  Facts on the searches and on the routines that write a string. \<open>occurs_at hs nd i\<close> says that
  \<open>nd\<close> occurs in \<open>hs\<close> at position \<open>i\<close>; the writers are related to \<open>poke\<close>, so that
  what they leave alone follows with what they write.
\<close>

subsection \<open>Searching\<close>

lemma strchr_loop_eq:
  "cstr m s xs \<Longrightarrow> strchr_loop m s c =
     Some (if c \<in> set xs then s + of_nat (length (takeWhile (\<lambda>x. x \<noteq> c) xs)) else 0)"
proof (induction xs arbitrary: s)
  case Nil
  then show ?case by (subst strchr_loop.simps) simp
next
  case (Cons x xs)
  then show ?case by (subst strchr_loop.simps) (auto simp: algebra_simps)
qed

lemma strrchr_loop_split:
  "cstr m s (ys @ c # zs) \<Longrightarrow> c \<notin> set zs \<Longrightarrow>
   strrchr_loop m s c ret = Some (s + of_nat (length ys))"
proof (induction ys arbitrary: s ret)
  case Nil
  have "c \<notin> set zs \<Longrightarrow> cstr m p zs \<Longrightarrow> strrchr_loop m p c r = Some r" for p r
    by (induction zs arbitrary: p) (subst strrchr_loop.simps, auto)+
  with Nil show ?case by (subst strrchr_loop.simps) simp
next
  case (Cons y ys)
  then show ?case by (subst strrchr_loop.simps) (simp add: algebra_simps)
qed

lemma strrchr_loop_none:
  "cstr m s xs \<Longrightarrow> c \<notin> set xs \<Longrightarrow> strrchr_loop m s c ret = Some ret"
proof (induction xs arbitrary: s)
  case Nil
  then show ?case by (subst strrchr_loop.simps) simp
next
  case (Cons x xs)
  then show ?case by (subst strrchr_loop.simps) auto
qed

text \<open>
  The first place at or after \<open>i\<close> where \<open>nd\<close> occurs in \<open>hs\<close>.
\<close>

definition occurs_at :: "byte list \<Rightarrow> byte list \<Rightarrow> nat \<Rightarrow> bool" where
  "occurs_at hs nd i \<longleftrightarrow> i + length nd \<le> length hs \<and> take (length nd) (drop i hs) = nd"

lemma occurs_at_Suc: "occurs_at (h # hs) nd (Suc i) \<longleftrightarrow> occurs_at hs nd i"
  by (simp add: occurs_at_def)

lemma bytes_at_take: "bytes_at m p xs \<Longrightarrow> bytes_at m p (take n xs)"
  by (metis append_take_drop_id bytes_at_append)

lemma occurs_shift:
  fixes h r :: addr
  assumes "\<not> occurs_at (x # hs) nd 0"
    and "(\<forall>i. \<not> occurs_at hs nd i) \<and> r = 0 \<or>
      (\<exists>i. occurs_at hs nd i \<and> (\<forall>j < i. \<not> occurs_at hs nd j) \<and> r = h + 1 + of_nat i)"
  shows "(\<forall>i. \<not> occurs_at (x # hs) nd i) \<and> r = 0 \<or>
    (\<exists>i. occurs_at (x # hs) nd i \<and> (\<forall>j < i. \<not> occurs_at (x # hs) nd j) \<and> r = h + of_nat i)"
  using assms(2)
proof
  assume "(\<forall>i. \<not> occurs_at hs nd i) \<and> r = 0"
  then have "\<not> occurs_at (x # hs) nd i" for i using assms(1) by (cases i) (auto simp: occurs_at_Suc)
  with \<open>_ \<and> r = 0\<close> show ?thesis by simp
next
  assume "\<exists>i. occurs_at hs nd i \<and> (\<forall>j < i. \<not> occurs_at hs nd j) \<and> r = h + 1 + of_nat i"
  then obtain i where i: "occurs_at hs nd i" "\<forall>j < i. \<not> occurs_at hs nd j" "r = h + of_nat (Suc i)"
    by (auto simp: add.assoc)
  have "\<not> occurs_at (x # hs) nd j" if "j < Suc i" for j
    using that assms(1) i(2) by (cases j) (auto simp: occurs_at_Suc)
  with i have "occurs_at (x # hs) nd (Suc i) \<and> (\<forall>j < Suc i. \<not> occurs_at (x # hs) nd j) \<and> r = h + of_nat (Suc i)"
    by (auto simp: occurs_at_Suc)
  then show ?thesis by blast
qed

lemma strstr_loop_step:
  assumes "cstr m h hs" and "bytes_at m n nd" and "nd \<noteq> []" and "length nd < 2 ^ 64"
  shows "strstr_loop m h n (of_nat (length hs)) (of_nat (length nd)) =
    (if length hs < length nd then Some 0 else if occurs_at hs nd 0 then Some h
     else strstr_loop m (h + 1) n (of_nat (length hs) - 1) (of_nat (length nd)))"
proof -
  let ?L = "of_nat (length hs) :: i64" and ?N = "of_nat (length nd) :: i64"
  have "?N \<le> ?L \<longleftrightarrow> length nd \<le> length hs"
    using assms(4) cstr_length [OF assms(1)] by (simp add: word_le_nat_alt unat_of_nat64)
  moreover have "memcmp m h n ?N = Some (cmp_bytes (take (length nd) hs) nd)" if "length nd \<le> length hs"
  proof -
    have "bytes_at m h (take (length nd) hs)" using assms(1) by (intro bytes_at_take) (simp add: cstr_iff_bytes)
    then show ?thesis using that assms(2,4) by (intro memcmp_eq) simp_all
  qed
  moreover have "cmp_bytes (take (length nd) hs) nd = 0 \<longleftrightarrow> occurs_at hs nd 0" if "length nd \<le> length hs"
    using that by (subst cmp_bytes_eq_0_len) (auto simp: occurs_at_def)
  ultimately show ?thesis by (subst strstr_loop.simps) (auto simp: not_less)
qed

lemma strstr_loop_eq:
  "cstr m h hs \<Longrightarrow> bytes_at m n nd \<Longrightarrow> nd \<noteq> [] \<Longrightarrow> length nd < 2 ^ 64 \<Longrightarrow>
   \<exists>r. strstr_loop m h n (of_nat (length hs)) (of_nat (length nd)) = Some r \<and>
     ((\<forall>i. \<not> occurs_at hs nd i) \<and> r = 0 \<or>
      (\<exists>i. occurs_at hs nd i \<and> (\<forall>j < i. \<not> occurs_at hs nd j) \<and> r = h + of_nat i))"
proof (induction hs arbitrary: h)
  case Nil
  have "\<not> occurs_at [] nd i" for i using Nil.prems(3) by (simp add: occurs_at_def)
  then show ?case using strstr_loop_step [OF Nil.prems] Nil.prems(3) by simp
next
  case (Cons x hs)
  note step = strstr_loop_step [OF Cons.prems]
  consider "length (x # hs) < length nd" | "\<not> length (x # hs) < length nd" "occurs_at (x # hs) nd 0"
    | "\<not> length (x # hs) < length nd" "\<not> occurs_at (x # hs) nd 0" by blast
  then show ?case
  proof cases
    case 1
    then have "\<not> occurs_at (x # hs) nd i" for i by (simp add: occurs_at_def)
    then show ?thesis using step 1 by simp
  next
    case 2
    then show ?thesis unfolding step by (intro exI [of _ h]) auto
  next
    case 3
    obtain r where r: "strstr_loop m (h + 1) n (of_nat (length hs)) (of_nat (length nd)) = Some r"
      "(\<forall>i. \<not> occurs_at hs nd i) \<and> r = 0 \<or>
        (\<exists>i. occurs_at hs nd i \<and> (\<forall>j < i. \<not> occurs_at hs nd j) \<and> r = h + 1 + of_nat i)"
      using Cons.IH [of "h + 1"] Cons.prems by auto
    then show ?thesis unfolding step using 3 occurs_shift [OF 3(2) r(2)] by simp
  qed
qed

subsection \<open>Copying\<close>

lemma strcpy_loop_eq:
  "cstr m src xs \<Longrightarrow> mapped m dst (Suc (length xs)) \<Longrightarrow>
   apart dst (Suc (length xs)) src (Suc (length xs)) \<Longrightarrow>
   strcpy_loop m dst src = Some (poke m dst (xs @ [0]))"
proof (induction xs arbitrary: m dst src)
  case Nil
  then show ?case by (subst strcpy_loop.simps) auto
next
  case (Cons x xs)
  have ap: "apart (dst + 1) (Suc (length xs)) (src + 1) (Suc (length xs))"
    "\<not> in_range (src + 1) (Suc (length xs)) dst"
    using apart_Suc_both [of dst "Suc (length xs)" src "Suc (length xs)"] Cons.prems(3) by simp_all
  have "strcpy_loop (m(dst \<mapsto> x)) (dst + 1) (src + 1) =
      Some (poke (m(dst \<mapsto> x)) (dst + 1) (xs @ [0]))"
    using Cons.prems ap by (intro Cons.IH) (simp_all add: cstr_update)
  with Cons.prems show ?case by (subst strcpy_loop.simps) auto
qed

lemma strncpy_loop_eq:
  "cstr m src xs \<Longrightarrow> mapped m (dst + len) n \<Longrightarrow> apart (dst + len) n src (Suc (length xs)) \<Longrightarrow>
   len \<le> sz \<Longrightarrow> unat (sz - len) = n \<Longrightarrow>
   strncpy_loop m dst src sz len =
     Some (poke m (dst + len) (take n xs @ replicate (n - length xs) 0))"
proof (induction n arbitrary: m src xs len)
  case 0
  then show ?case by (subst strncpy_loop.simps) (simp add: unat_eq_0)
next
  case (Suc n)
  from Suc.prems(5) have ne: "sz \<noteq> len" by auto
  with Suc.prems(4) have lt: "len < sz" by simp
  have n: "unat (sz - (len + 1)) = n"
    using Suc.prems(5) ne by (simp add: unat_diff_Suc)
  have map: "m (dst + len) \<noteq> None" "mapped m (dst + (len + 1)) n"
    using Suc.prems(2) by (auto simp flip: add.assoc)
  show ?case
  proof (cases xs)
    case Nil
    have ap: "apart (dst + (len + 1)) n src 1" "\<not> in_range src 1 (dst + len)"
      using apart_Suc_left [of "dst + len" n src 1] Suc.prems(3) Nil
      by (simp_all flip: add.assoc)
    then have "src \<noteq> dst + len" by auto
    with Suc.prems(1) Nil have "cstr (m(dst + len \<mapsto> 0)) src []" by simp
    then have "strncpy_loop (m(dst + len \<mapsto> 0)) dst src sz (len + 1) =
        Some (poke (m(dst + len \<mapsto> 0)) (dst + (len + 1)) (take n [] @ replicate (n - length ([] :: byte list)) 0))"
      using ap(1) map inc_le [OF lt] n by (intro Suc.IH) simp_all
    then show ?thesis using Suc.prems(1) Nil lt map
      by (subst strncpy_loop.simps) (simp flip: add.assoc)
  next
    case (Cons x ys)
    have ap: "apart (dst + (len + 1)) n (src + 1) (Suc (length ys))"
      "\<not> in_range (src + 1) (Suc (length ys)) (dst + len)"
      using apart_Suc_both [of "dst + len" n src "Suc (length ys)"] Suc.prems(3) Cons
      by (simp_all flip: add.assoc)
    have "strncpy_loop (m(dst + len \<mapsto> x)) dst (src + 1) sz (len + 1) =
        Some (poke (m(dst + len \<mapsto> x)) (dst + (len + 1)) (take n ys @ replicate (n - length ys) 0))"
      using Suc.prems(1) Cons ap map inc_le [OF lt] n
      by (intro Suc.IH) (simp_all add: cstr_update)
    then show ?thesis using Suc.prems(1) Cons lt map
      by (subst strncpy_loop.simps) (simp flip: add.assoc)
  qed
qed

text \<open>
  \<^verbatim>\<open>strlcpy\<close>: the loop copies the string with its terminator when it fits, and
  else the first \<open>sz\<close> characters.
\<close>

lemma strlcpy_loop_eq:
  "cstr m (src + len) xs \<Longrightarrow> n = min (unat (sz - len)) (Suc (length xs)) \<Longrightarrow>
   mapped m (dst + len) n \<Longrightarrow> apart (dst + len) n (src + len) (Suc (length xs)) \<Longrightarrow> len \<le> sz \<Longrightarrow>
   strlcpy_loop m dst src sz len =
     (if length xs < unat (sz - len)
      then Some (True, len + of_nat (length xs), poke m (dst + len) (xs @ [0]))
      else Some (False, sz, poke m (dst + len) (take (unat (sz - len)) xs)))"
proof (induction xs arbitrary: m len n)
  case Nil
  show ?case
  proof (cases "sz = len")
    case True
    then show ?thesis by (subst strlcpy_loop.simps) simp
  next
    case False
    then have "n = Suc 0" using Nil.prems(2) unat_diff_pos [of sz len] by simp
    with Nil.prems False have "len < sz" "m (dst + len) \<noteq> None" by auto
    with Nil.prems False show ?thesis
      by (subst strlcpy_loop.simps) (auto simp: unat_diff_pos)
  qed
next
  case (Cons x xs)
  show ?case
  proof (cases "sz = len")
    case True
    then show ?thesis by (subst strlcpy_loop.simps) simp
  next
    case False
    with Cons.prems(5) have lt: "len < sz" by simp
    let ?k = "min (unat (sz - (len + 1))) (Suc (length xs))"
    have u: "unat (sz - len) = Suc (unat (sz - (len + 1)))"
      using unat_diff_Suc [OF False] unat_diff_pos [OF False] by simp
    then have n: "n = Suc ?k" using Cons.prems(2) by simp
    have ap: "apart (dst + (len + 1)) ?k (src + (len + 1)) (Suc (length xs))"
      "\<not> in_range (src + (len + 1)) (Suc (length xs)) (dst + len)"
      using apart_Suc_both [of "dst + len" ?k "src + len" "Suc (length xs)"] Cons.prems(4) n
      by (simp_all flip: add.assoc)
    have IH: "strlcpy_loop (m(dst + len \<mapsto> x)) dst src sz (len + 1) =
       (if length xs < unat (sz - (len + 1))
        then Some (True, len + 1 + of_nat (length xs), poke (m(dst + len \<mapsto> x)) (dst + (len + 1)) (xs @ [0]))
        else Some (False, sz, poke (m(dst + len \<mapsto> x)) (dst + (len + 1)) (take (unat (sz - (len + 1))) xs)))"
      using Cons.prems(1,3) n ap inc_le [OF lt]
      by (intro Cons.IH [of _ _ ?k]) (simp_all add: cstr_update flip: add.assoc)
    have "m (dst + len) \<noteq> None" "m (src + len) = Some x" "x \<noteq> 0"
      using Cons.prems(1,3) n by auto
    then show ?thesis using lt IH u
      by (subst strlcpy_loop.simps) (auto simp: algebra_simps)
  qed
qed

lemma strlen_loop_from:
  assumes "cstr m src xs" and "n \<le> length xs"
  shows "strlen_loop m src (of_nat n) = Some (of_nat (length xs))"
proof -
  have "cstr m (src + of_nat n) (drop n xs)"
    using assms cstr_append_drop [of m src "take n xs" "drop n xs"] by (simp add: min_absorb2)
  then have "strlen_loop m src (of_nat n) = Some (of_nat n + of_nat (length (drop n xs)))" by (rule strlen_loop_eq)
  also have "of_nat n + of_nat (length (drop n xs)) = (of_nat (n + (length xs - n)) :: i64)" by (simp only: of_nat_add length_drop)
  finally show ?thesis using assms(2) by simp
qed

lemma poke_snoc: "poke m p (xs @ [b]) = (poke m p xs)(p + of_nat (length xs) \<mapsto> b)"
  by (simp add: poke_append)

text \<open>The terminator that replaces the last character that was copied.\<close>

lemma store_terminator:
  assumes "mapped m p (Suc k)" and "k < length xs"
  shows "store (poke m p (take (Suc k) xs)) (p + of_nat k) 0 = Some (poke m p (take k xs @ [0]))"
proof -
  have "(poke m p (take (Suc k) xs))(p + of_nat k \<mapsto> 0) = poke m p (take k xs @ [0])"
    using assms(2) by (simp add: take_Suc_conv_app_nth poke_append)
  moreover have "mapped m (p + of_nat k) 1" using mapped_add [of m p k 1] assms(1) by simp
  then have "poke m p (take (Suc k) xs) (p + of_nat k) \<noteq> None"
    using mapped_poke [of m "p + of_nat k" 1 p "take (Suc k) xs"] by simp
  ultimately show ?thesis by simp
qed

lemma strlcpy_eq:
  assumes c: "cstr m src xs" and mp: "mapped m dst (min (unat sz) (Suc (length xs)))"
    and ap: "apart dst (min (unat sz) (Suc (length xs))) src (Suc (length xs))"
  shows "strlcpy m dst src sz = Some (of_nat (length xs),
    poke m dst (if sz = 0 then [] else take (unat sz - 1) xs @ [0]))"
proof -
  let ?n = "unat sz"
  have L: "strlcpy_loop m dst src sz 0 =
     (if length xs < ?n then Some (True, of_nat (length xs), poke m dst (xs @ [0]))
      else Some (False, sz, poke m dst (take ?n xs)))"
    using strlcpy_loop_eq [of m src 0 xs "min ?n (Suc (length xs))" sz dst] assms by simp
  have tail: "strlen_loop m' src sz = Some (of_nat (length xs))" if "cstr m' src xs" "?n \<le> length xs" for m'
    using strlen_loop_from [OF that] by simp
  consider "length xs < ?n" | "?n \<le> length xs" "sz = 0" | k where "?n \<le> length xs" "sz \<noteq> 0" "?n = Suc k"
    by (cases "length xs < ?n"; cases "sz = 0"; cases ?n) (auto simp: unat_eq_0 not_less)
  then show ?thesis
  proof cases
    case 1
    then have "sz \<noteq> 0" "take (?n - 1) xs = xs" by auto
    with 1 L show ?thesis by (simp add: strlcpy_def)
  next
    case 2
    with L tail [OF c] show ?thesis by (simp add: strlcpy_def)
  next
    case (3 k)
    have szk: "sz - 1 = of_nat k" using 3(3) by (metis add_diff_cancel_left' of_nat_Suc word_of_unat)
    have "store (poke m dst (take ?n xs)) (dst + (sz - 1)) 0 = Some (poke m dst (take k xs @ [0]))"
      unfolding szk 3(3) using 3 mp by (intro store_terminator) (simp_all add: min_absorb1)
    moreover have "apart dst (length (take k xs @ [0 :: byte])) src (Suc (length xs))"
      using ap 3 by (simp add: min_absorb1)
    then have "cstr (poke m dst (take k xs @ [0])) src xs" using c by (simp only: cstr_poke_apart)
    ultimately show ?thesis using L 3 tail by (simp add: strlcpy_def)
  qed
qed

subsection \<open>Concatenation\<close>

lemma strncat_loop_eq:
  "cstr m src xs \<Longrightarrow> k = min (unat sz) (Suc (length xs)) \<Longrightarrow> mapped m dst k \<Longrightarrow>
   apart dst k src (Suc (length xs)) \<Longrightarrow>
   strncat_loop m dst src sz =
     (if length xs < unat sz then Some (dst + of_nat (length xs), poke m dst (xs @ [0]))
      else Some (dst + sz, poke m dst (take (unat sz) xs)))"
proof (induction xs arbitrary: m dst src sz k)
  case Nil
  show ?case
  proof (cases "sz = 0")
    case True
    then show ?thesis by (subst strncat_loop.simps) simp
  next
    case False
    then have "k = Suc 0" using Nil.prems(2) by (simp add: unat_gt_0 Suc_leI)
    with Nil.prems False have "m dst \<noteq> None" by auto
    with Nil.prems False show ?thesis
      by (subst strncat_loop.simps) (auto simp: unat_gt_0)
  qed
next
  case (Cons x xs)
  show ?case
  proof (cases "sz = 0")
    case True
    then show ?thesis by (subst strncat_loop.simps) simp
  next
    case False
    have u: "unat sz = Suc (unat (sz - 1))"
      using False by (simp add: unat_minus_one unat_gt_0)
    let ?k = "min (unat (sz - 1)) (Suc (length xs))"
    have k: "k = Suc ?k" using Cons.prems(2) u by simp
    have ap: "apart (dst + 1) ?k (src + 1) (Suc (length xs))"
      "\<not> in_range (src + 1) (Suc (length xs)) dst"
      using apart_Suc_both [of dst ?k src "Suc (length xs)"] Cons.prems(4) k by simp_all
    have "strncat_loop (m(dst \<mapsto> x)) (dst + 1) (src + 1) (sz - 1) =
     (if length xs < unat (sz - 1)
      then Some (dst + 1 + of_nat (length xs), poke (m(dst \<mapsto> x)) (dst + 1) (xs @ [0]))
      else Some (dst + 1 + (sz - 1), poke (m(dst \<mapsto> x)) (dst + 1) (take (unat (sz - 1)) xs)))"
      using Cons.prems(1,3) k ap by (intro Cons.IH [of _ _ ?k]) (simp_all add: cstr_update)
    moreover have "m dst \<noteq> None" "m src = Some x" "x \<noteq> 0"
      using Cons.prems(1,3) k by auto
    ultimately show ?thesis using False u
      by (subst strncat_loop.simps) (auto simp: algebra_simps)
  qed
qed

lemma strncat_eq:
  assumes d: "cstr m dst ds" and c: "cstr m src xs" and k: "k = min (unat sz) (length xs)"
    and mp: "mapped m (dst + of_nat (length ds)) (Suc k)"
    and ap: "apart (dst + of_nat (length ds)) (Suc k) src (Suc (length xs))"
  shows "strncat m dst src sz = Some (dst,
    poke m (dst + of_nat (length ds)) (take (unat sz) xs @ [0]))"
proof -
  let ?e = "dst + of_nat (length ds)" and ?j = "min (unat sz) (Suc (length xs))"
  have j: "?j \<le> Suc k" using k by simp
  have "strncat_loop m ?e src sz =
     (if length xs < unat sz then Some (?e + of_nat (length xs), poke m ?e (xs @ [0]))
      else Some (?e + sz, poke m ?e (take (unat sz) xs)))"
    using c refl mapped_mono [OF mp j] apart_mono [OF ap j order_refl] by (rule strncat_loop_eq)
  moreover have "poke m ?e (take (unat sz) xs) (?e + sz) \<noteq> None" if "\<not> length xs < unat sz"
  proof -
    have "k = unat sz" using that k by simp
    then have "mapped m (?e + sz) 1" using mp mapped_add [of m ?e k 1] by simp
    then have "mapped (poke m ?e (take (unat sz) xs)) (?e + sz) 1" by (rule mapped_poke)
    then show ?thesis by simp
  qed
  moreover have "poke m ?e (take (unat sz) xs @ [0]) = (poke m ?e (take (unat sz) xs))(?e + sz \<mapsto> 0)"
    if "\<not> length xs < unat sz"
    using that by (simp add: poke_append min_absorb2)
  ultimately show ?thesis
    using str_end_eq [OF d] by (auto simp: strncat_def poke_append)
qed

lemma strlcat_loop_eq:
  "cstr m src xs \<Longrightarrow> len < sz \<Longrightarrow> r = unat (sz - (len + 1)) \<Longrightarrow>
   mapped m (dst + len) (min r (Suc (length xs))) \<Longrightarrow>
   apart (dst + len) (min r (Suc (length xs))) src (Suc (length xs)) \<Longrightarrow>
   strlcat_loop m dst src sz len =
     (if length xs < r
      then Some (poke m (dst + len) (xs @ [0]), src + of_nat (length xs), len + of_nat (length xs))
      else Some (poke m (dst + len) (take r xs), src + of_nat r, len + of_nat r))"
proof (induction xs arbitrary: m src len r)
  case Nil
  show ?case
  proof (cases "len + 1 = sz")
    case True
    with Nil.prems show ?thesis by (subst strlcat_loop.simps) simp
  next
    case False
    then have lt: "len + 1 < sz" using inc_le [OF Nil.prems(2)] by simp
    have "0 < r" using Nil.prems(3) unat_diff_pos [of sz "len + 1"] False by simp
    moreover from this have "min r (Suc 0) = Suc 0" by simp
    with Nil.prems have "m (dst + len) \<noteq> None" by simp
    ultimately show ?thesis
      using Nil.prems(1) lt by (subst strlcat_loop.simps) simp
  qed
next
  case (Cons x xs)
  show ?case
  proof (cases "len + 1 = sz")
    case True
    with Cons.prems show ?thesis by (subst strlcat_loop.simps) simp
  next
    case False
    then have lt: "len + 1 < sz" using inc_le [OF Cons.prems(2)] by simp
    define q where "q = unat (sz - (len + 1 + 1))"
    have r: "r = Suc q"
      using Cons.prems(3) False unat_diff_Suc [of sz "len + 1"] unat_diff_pos [of sz "len + 1"]
      by (simp add: q_def)
    let ?k = "min q (Suc (length xs))"
    have ap: "apart (dst + (len + 1)) ?k (src + 1) (Suc (length xs))"
      "\<not> in_range (src + 1) (Suc (length xs)) (dst + len)"
      using apart_Suc_both [of "dst + len" ?k src "Suc (length xs)"] Cons.prems(5) r
      by (simp_all flip: add.assoc)
    have "strlcat_loop (m(dst + len \<mapsto> x)) dst (src + 1) sz (len + 1) =
     (if length xs < q
      then Some (poke (m(dst + len \<mapsto> x)) (dst + (len + 1)) (xs @ [0]),
        src + 1 + of_nat (length xs), len + 1 + of_nat (length xs))
      else Some (poke (m(dst + len \<mapsto> x)) (dst + (len + 1)) (take q xs),
        src + 1 + of_nat q, len + 1 + of_nat q))"
      using Cons.prems(1,4) r ap lt
      by (intro Cons.IH) (simp_all add: cstr_update q_def flip: add.assoc)
    moreover have "m (dst + len) \<noteq> None" "m src = Some x" "x \<noteq> 0"
      using Cons.prems(1,4) r by auto
    ultimately show ?thesis using lt r
      by (subst strlcat_loop.simps) (auto simp: algebra_simps)
  qed
qed

lemma count_tail_from:
  assumes "cstr m src xs" and "t \<le> length xs"
  shows "count_tail m (src + of_nat t) (l + of_nat t) = Some (l + of_nat (length xs))"
proof -
  have "cstr m (src + of_nat t) (drop t xs)"
    using assms cstr_append_drop [of m src "take t xs" "drop t xs"] by (simp add: min_absorb2)
  then have "count_tail m (src + of_nat t) (l + of_nat t) = Some (l + of_nat t + of_nat (length (drop t xs)))"
    by (rule count_tail_eq)
  also have "l + of_nat t + of_nat (length (drop t xs)) = l + of_nat (t + (length xs - t))"
    by (simp only: of_nat_add length_drop add.assoc)
  finally show ?thesis using assms(2) by simp
qed

text \<open>
  \<^verbatim>\<open>strlcat\<close> on a destination that holds a string shorter than \<open>sz\<close>.
\<close>

lemma strlcat_eq:
  assumes d: "cstr m dst ds" and c: "cstr m src xs" and lt: "length ds < unat sz"
    and r: "r = unat sz - length ds - 1"
    and mp: "mapped m (dst + of_nat (length ds)) (Suc (min r (length xs)))"
    and ap: "apart (dst + of_nat (length ds)) (Suc (min r (length xs))) src (Suc (length xs))"
  shows "strlcat m dst src sz = Some (of_nat (length ds + length xs),
    poke m (dst + of_nat (length ds)) (take r xs @ [0]))"
proof -
  let ?l = "of_nat (length ds) :: i64" and ?e = "dst + of_nat (length ds)" and ?t = "min r (length xs)"
  have dl: "unat ?l = length ds" by (rule unat_of_nat64 [OF cstr_length [OF d]])
  have lsz: "?l < sz" using lt dl by (simp add: word_less_nat_alt)
  have n: "strnlen m dst sz = Some ?l" using strnlen_eq [OF d, of sz] lt by (simp add: min_absorb1)
  have "unat (sz - ?l) = unat sz - length ds" using unat_sub [of ?l sz] lsz dl by simp
  moreover have "unat (sz - (?l + 1)) = unat (sz - ?l) - 1" using lsz by (intro unat_diff_Suc) auto
  ultimately have r': "r = unat (sz - (?l + 1))" using r by simp
  have j: "min r (Suc (length xs)) \<le> Suc ?t" by simp
  have loop: "strlcat_loop m dst src sz ?l =
     (if length xs < r
      then Some (poke m ?e (xs @ [0]), src + of_nat (length xs), ?l + of_nat (length xs))
      else Some (poke m ?e (take r xs), src + of_nat r, ?l + of_nat r))"
    using c lsz r' mapped_mono [OF mp j] apart_mono [OF ap j order_refl] by (rule strlcat_loop_eq)
  have t: "length ds + ?t < unat sz" using r lt by simp
  then have "unat (of_nat (length ds + ?t) :: i64) = length ds + ?t"
    using order_less_trans [OF _ unat_lt64 [of sz]] by (intro unat_of_nat64) simp
  then have lt2: "?l + of_nat ?t < sz" using t by (simp add: word_less_nat_alt)
  have "apart ?e (length (take r xs @ [0 :: byte])) src (Suc (length xs))" using ap by (simp add: min.commute)
  then have "cstr (poke m ?e (take r xs @ [0])) src xs" using c by (simp only: cstr_poke_apart)
  then have tail: "count_tail (poke m ?e (take r xs @ [0])) (src + of_nat ?t) (?l + of_nat ?t)
      = Some (of_nat (length ds + length xs))"
    using count_tail_from [of _ src xs ?t ?l] by simp
  show ?thesis
  proof (cases "length xs < r")
    case True
    then have "?t = length xs" "take r xs = xs" by simp_all
    then show ?thesis using True n loop tail lt2 by (simp add: strlcat_def poke_append add.assoc)
  next
    case False
    then have tr: "?t = r" by simp
    have "poke m ?e (take r xs @ [0]) = (poke m ?e (take r xs))(?e + of_nat r \<mapsto> 0)"
      using False by (simp add: poke_snoc min_absorb2)
    moreover have "mapped m (?e + of_nat r) 1" using mp mapped_add [of m ?e r 1] tr by simp
    then have "poke m ?e (take r xs) (?e + of_nat r) \<noteq> None"
      using mapped_poke [of m "?e + of_nat r" 1 ?e "take r xs"] by simp
    ultimately show ?thesis
      using False n loop tail lt2 tr by (simp add: strlcat_def store_def add.assoc)
  qed
qed

text \<open>
  Without a terminator in the first \<open>sz\<close> bytes nothing is written.
\<close>

lemma strlcat_full:
  assumes d: "bytes_at m dst ds" "0 \<notin> set ds" "length ds = unat sz" and c: "cstr m src xs"
    and sz: "sz \<noteq> - 1"
  shows "strlcat m dst src sz = Some (sz + of_nat (length xs), m)"
proof -
  have n: "strnlen m dst sz = Some sz" using d by (rule strnlen_unterminated)
  have "unat sz \<noteq> 18446744073709551615"
    using sz by (metis unat_minus_one64 word_unat_eq_iff)
  then have "unat (sz + 1) = unat sz + 1"
    using unat_lt64 [of sz] by (simp add: unat_plus_if' del: unat_lt64)
  then have "\<not> sz + 1 < sz" by (simp add: word_less_nat_alt)
  then have "strlcat_loop m dst src sz sz = Some (m, src, sz)"
    by (subst strlcat_loop.simps) simp
  with n c show ?thesis by (simp add: strlcat_def count_tail_eq)
qed

end
