(* ===== verification/MemCopy.thy ===== *)
theory MemCopy
  imports CString
begin

section \<open>Block copies: the contract of memcpy and memmove\<close>

text \<open>
  A copy that goes upwards is right unless it overwrites a source byte before reading it,
  that is, unless the destination starts inside the source, above its first byte; one that
  goes downwards in the mirrored case. Both conditions are stated on addresses modulo
  \<open>2 ^ 64\<close>.
\<close>

definition fwd_ok :: "addr \<Rightarrow> addr \<Rightarrow> nat \<Rightarrow> bool" where
  "fwd_ok dst src n \<longleftrightarrow> dst = src \<or> n \<le> unat (dst - src)"

definition bwd_ok :: "addr \<Rightarrow> addr \<Rightarrow> nat \<Rightarrow> bool" where
  "bwd_ok dst src n \<longleftrightarrow> dst = src \<or> n \<le> unat (src - dst)"

text \<open>\<open>no_wrap p n\<close>: the \<open>n\<close> bytes from \<open>p\<close> on do not pass the end of the address space.\<close>

definition no_wrap :: "addr \<Rightarrow> nat \<Rightarrow> bool" where
  "no_wrap p n \<longleftrightarrow> unat p + n \<le> 2 ^ 64"

subsection \<open>The interface\<close>

locale byte_copier =
  fixes copy :: "mem \<Rightarrow> addr \<Rightarrow> addr \<Rightarrow> i64 \<Rightarrow> (addr \<times> mem) option"
    and ok :: "addr \<Rightarrow> addr \<Rightarrow> nat \<Rightarrow> bool"
  assumes copy_poke:
    "bytes_at m src xs \<Longrightarrow> mapped m dst (length xs) \<Longrightarrow> length xs = unat n \<Longrightarrow>
     ok dst src (length xs) \<Longrightarrow> copy m dst src n = Some (dst, poke m dst xs)"
    and ok_apart: "apart dst k src k \<Longrightarrow> ok dst src k"
begin

lemma copy_result:
  assumes "bytes_at m src xs" "mapped m dst (length xs)" "length xs = unat n"
    and "ok dst src (length xs)"
  shows "\<exists>m'. copy m dst src n = Some (dst, m') \<and> bytes_at m' dst xs \<and>
    (\<forall>a. \<not> in_range dst (length xs) a \<longrightarrow> m' a = m a)"
  using copy_poke [OF assms] unat_lt64 [of n] assms(3)
  by (auto intro!: bytes_at_poke_self poke_outside simp del: unat_lt64)

lemma copy_apart:
  assumes "bytes_at m src xs" "mapped m dst (length xs)" "length xs = unat n"
    and "apart dst (length xs) src (length xs)"
  shows "\<exists>m'. copy m dst src n = Some (dst, m') \<and> bytes_at m' dst xs \<and> bytes_at m' src xs"
  using copy_poke [OF assms(1-3) ok_apart [OF assms(4)]] assms unat_lt64 [of n]
  by (auto simp: bytes_at_poke_apart intro!: bytes_at_poke_self simp del: unat_lt64)

end

text \<open>A copy that allows every overlap, as long as neither block wraps around.\<close>

locale overlap_copier = byte_copier +
  assumes ok_no_wrap: "no_wrap dst n \<Longrightarrow> no_wrap src n \<Longrightarrow> ok dst src n"
begin

lemma copy_overlap:
  assumes "bytes_at m src xs" "mapped m dst (length xs)" "length xs = unat n"
    and "no_wrap dst (length xs)" "no_wrap src (length xs)"
  shows "copy m dst src n = Some (dst, poke m dst xs)"
  using assms by (intro copy_poke ok_no_wrap)

end

subsection \<open>Steps\<close>

lemma fwd_step:
  assumes "fwd_ok d s (Suc n)" and "n < 2 ^ 64"
  shows "fwd_ok (d + 1) (s + 1) n" and "\<not> in_range (s + 1) n d"
proof -
  show "fwd_ok (d + 1) (s + 1) n"
    using assms by (auto simp: fwd_ok_def)
  show "\<not> in_range (s + 1) n d"
  proof (cases "d = s")
    case True
    with assms show ?thesis by simp
  next
    case False
    with assms show ?thesis
      using unat_diff_Suc [OF False] by (auto simp: fwd_ok_def in_range_def)
  qed
qed

lemma bwd_step:
  assumes "bwd_ok d s (Suc n)" and "n < 2 ^ 64"
  shows "bwd_ok d s n" and "\<not> in_range s n (d + of_nat n)"
proof -
  show "bwd_ok d s n"
    using assms by (auto simp: bwd_ok_def)
  show "\<not> in_range s n (d + of_nat n)"
  proof (cases "d = s")
    case True
    with assms show ?thesis by (simp add: in_range_def)
  next
    case False
    have n: "unat (of_nat n :: addr) = n" using assms(2) by simp
    have e: "d + of_nat n - s = of_nat n - (s - d)" by simp
    have 1: "n < unat (s - d)"
      using assms(1) False by (auto simp: bwd_ok_def)
    have "unat (of_nat n - (s - d)) = n + 18446744073709551616 - unat (s - d)"
      using 1 n unat_sub_if' [of "of_nat n" "s - d"] by simp
    then have "n < unat (d + of_nat n - s)"
      using 1 unat_lt64 [of "s - d"] by (subst e) linarith
    then show ?thesis by (simp add: in_range_def)
  qed
qed

lemma apart_ok: "apart d n s n \<Longrightarrow> fwd_ok d s n \<and> bwd_ok d s n"
  by (cases "n = 0") (auto simp: apart_def fwd_ok_def bwd_ok_def)

lemma poke_update_commute:
  "\<not> in_range p (length xs) a \<Longrightarrow> poke (m(a \<mapsto> b)) p xs = (poke m p xs)(a \<mapsto> b)"
  by (induction xs arbitrary: m p) (auto simp: in_range_Suc fun_upd_twist)

lemma not_in_range_after: "n < 2 ^ 64 \<Longrightarrow> \<not> in_range p n (p + of_nat n)"
  by (simp add: in_range_def)

subsection \<open>memcpy\<close>

lemma memcpy_loop_eq:
  "bytes_at m (src + pos) xs \<Longrightarrow> mapped m (dst + pos) (length xs) \<Longrightarrow>
   fwd_ok (dst + pos) (src + pos) (length xs) \<Longrightarrow> pos \<le> len \<Longrightarrow> unat (len - pos) = length xs \<Longrightarrow>
   memcpy_loop m dst src len pos = Some (poke m (dst + pos) xs)"
proof (induction xs arbitrary: m pos)
  case Nil
  then show ?case by (subst memcpy_loop.simps) (simp add: unat_eq_0)
next
  case (Cons x xs)
  then have ne: "len \<noteq> pos" by auto
  with Cons.prems have lt: "pos < len" by simp
  have n: "length xs < 2 ^ 64"
    using Cons.prems(5) unat_lt64 [of "len - pos"] by simp
  have ok: "fwd_ok (dst + pos + 1) (src + pos + 1) (length xs)"
    "\<not> in_range (src + pos + 1) (length xs) (dst + pos)"
    using Cons.prems(3) n fwd_step [of "dst + pos" "src + pos" "length xs"] by simp_all
  have "memcpy_loop (m(dst + pos \<mapsto> x)) dst src len (pos + 1) =
      Some (poke (m(dst + pos \<mapsto> x)) (dst + (pos + 1)) xs)"
    using Cons.prems ok inc_le [OF lt]
    by (intro Cons.IH) (simp_all add: bytes_at_update unat_diff_Suc [OF ne] flip: add.assoc)
  with Cons.prems lt show ?case
    by (subst memcpy_loop.simps) (auto simp flip: add.assoc)
qed

interpretation mcpy: byte_copier memcpy fwd_ok
proof (unfold_locales, goal_cases)
  case (1 m src xs dst n)
  then have "memcpy_loop m dst src n 0 = Some (poke m dst xs)"
    using memcpy_loop_eq [of m src 0 xs dst n] by simp
  then show ?case by (simp add: memcpy_def)
qed (use apart_ok in blast)

subsection \<open>memmove\<close>

lemma memmove_loop_up:
  "bytes_at m (src + (pos + 1)) xs \<Longrightarrow> mapped m (dst + (pos + 1)) (length xs) \<Longrightarrow>
   fwd_ok (dst + (pos + 1)) (src + (pos + 1)) (length xs) \<Longrightarrow> unat len = length xs \<Longrightarrow>
   memmove_loop m dst src len 1 pos = Some (poke m (dst + (pos + 1)) xs)"
proof (induction xs arbitrary: m len pos)
  case Nil
  then show ?case by (subst memmove_loop.simps) (simp add: unat_eq_0)
next
  case (Cons x xs)
  then have ne: "len \<noteq> 0" by auto
  then have len': "unat (len - 1) = length xs"
    using Cons.prems(4) by (simp add: unat_minus_one)
  let ?p = "pos + 1"
  have n: "length xs < 2 ^ 64"
    using len' unat_lt64 [of "len - 1"] by simp
  have ok: "fwd_ok (dst + ?p + 1) (src + ?p + 1) (length xs)"
    "\<not> in_range (src + ?p + 1) (length xs) (dst + ?p)"
    using Cons.prems(3) n fwd_step [of "dst + ?p" "src + ?p" "length xs"] by simp_all
  have "memmove_loop (m(dst + ?p \<mapsto> x)) dst src (len - 1) 1 ?p =
      Some (poke (m(dst + ?p \<mapsto> x)) (dst + (?p + 1)) xs)"
    using Cons.prems ok len' by (intro Cons.IH) (simp_all add: bytes_at_update add_ac)
  with Cons.prems ne show ?case
    by (subst memmove_loop.simps) (auto simp: Let_def add_ac)
qed

lemma memmove_loop_down:
  "bytes_at m src xs \<Longrightarrow> mapped m dst (length xs) \<Longrightarrow> bwd_ok dst src (length xs) \<Longrightarrow>
   unat len = length xs \<Longrightarrow> memmove_loop m dst src len (- 1) len = Some (poke m dst xs)"
proof (induction xs arbitrary: m len rule: rev_induct)
  case Nil
  then show ?case by (subst memmove_loop.simps) (simp add: unat_eq_0)
next
  case (snoc x xs)
  then have ne: "len \<noteq> 0" by auto
  then have len': "unat (len - 1) = length xs"
    using snoc.prems(4) by (simp add: unat_minus_one)
  then have idx: "len - 1 = of_nat (length xs)"
    by (metis of_nat_unat ucast_id)
  have n: "length xs < 2 ^ 64"
    using len' unat_lt64 [of "len - 1"] by simp
  let ?a = "dst + of_nat (length xs)"
  have ok: "bwd_ok dst src (length xs)" "\<not> in_range src (length xs) ?a"
    using bwd_step [of dst src "length xs"] snoc.prems(3) n by simp_all
  have map: "mapped m dst (length xs)" "m ?a \<noteq> None"
    using snoc.prems(2) mapped_add [of m dst "length xs" 1] by simp_all
  have "memmove_loop (m(?a \<mapsto> x)) dst src (len - 1) (- 1) (len - 1) =
      Some (poke (m(?a \<mapsto> x)) dst xs)"
    using snoc.prems ok map len' by (intro snoc.IH) (simp_all add: bytes_at_update)
  moreover have "poke (m(?a \<mapsto> x)) dst xs = poke m dst (xs @ [x])"
    using n by (simp add: poke_append poke_update_commute not_in_range_after)
  moreover have "m (src + of_nat (length xs)) = Some x"
    using snoc.prems(1) by simp
  ultimately show ?case using ne map(2)
    by (subst memmove_loop.simps) (simp add: Let_def idx)
qed

definition memmove_ok :: "addr \<Rightarrow> addr \<Rightarrow> nat \<Rightarrow> bool" where
  "memmove_ok dst src n = (if dst < src then fwd_ok dst src n else bwd_ok dst src n)"

lemma no_wrap_fwd_ok: "d < s \<Longrightarrow> no_wrap s n \<Longrightarrow> fwd_ok d s n"
proof -
  assume lt: "d < s" and nw: "no_wrap s n"
  from lt have "unat (d - s) = 2 ^ 64 - unat (s - d)"
    using unat_diff_swap [of d s] by auto
  moreover have "unat (s - d) = unat s - unat d"
    using lt by (intro unat_sub) simp
  ultimately show ?thesis using nw unfolding fwd_ok_def no_wrap_def by linarith
qed

lemma no_wrap_bwd_ok: "s \<le> d \<Longrightarrow> no_wrap d n \<Longrightarrow> bwd_ok d s n"
proof -
  assume le: "s \<le> d" and nw: "no_wrap d n"
  show ?thesis
  proof (cases "s = d")
    case False
    then have "unat (s - d) = 2 ^ 64 - unat (d - s)"
      using unat_diff_swap [of s d] by simp
    moreover have "unat (d - s) = unat d - unat s"
      using le by (rule unat_sub)
    ultimately show ?thesis using nw unfolding bwd_ok_def no_wrap_def by linarith
  qed (simp add: bwd_ok_def)
qed

interpretation mmove: overlap_copier memmove memmove_ok
proof (unfold_locales, goal_cases)
  case (1 m src xs dst n)
  show ?case
  proof (cases "dst < src")
    case True
    with 1 have "memmove_loop m dst src n 1 (- 1) = Some (poke m dst xs)"
      by (intro memmove_loop_up [of m src "- 1" xs dst n, simplified]) (simp_all add: memmove_ok_def)
    with True show ?thesis by (simp add: memmove_def)
  next
    case False
    with 1 have "memmove_loop m dst src n (- 1) n = Some (poke m dst xs)"
      by (intro memmove_loop_down) (simp_all add: memmove_ok_def)
    with False show ?thesis by (simp add: memmove_def)
  qed
next
  case (2 dst n src)
  then show ?case using apart_ok [of dst n src] by (simp add: memmove_ok_def)
next
  case (3 dst n src)
  then show ?case
    by (auto simp: memmove_ok_def no_wrap_fwd_ok no_wrap_bwd_ok linorder_not_less)
qed

subsection \<open>memset\<close>

lemma memset_loop_eq:
  "unat len = k \<Longrightarrow> mapped m p k \<Longrightarrow>
   memset_loop m p b len = Some (poke m p (replicate k (ucast b)))"
proof (induction k arbitrary: m p len)
  case 0
  then show ?case by (subst memset_loop.simps) (simp add: unat_eq_0)
next
  case (Suc k)
  from Suc.prems(1) have ne: "len \<noteq> 0" by auto
  with Suc.prems(1) have "unat (len - 1) = k" by (simp add: unat_minus_one)
  then have "memset_loop (m(p \<mapsto> ucast b)) (p + 1) b (len - 1) =
      Some (poke (m(p \<mapsto> ucast b)) (p + 1) (replicate k (ucast b)))"
    using Suc.prems by (intro Suc.IH) simp_all
  with Suc.prems ne show ?case
    by (subst memset_loop.simps) auto
qed

lemma memset_eq:
  "mapped m dst (unat len) \<Longrightarrow>
   memset m dst b len = Some (dst, poke m dst (replicate (unat len) (ucast b)))"
  by (simp add: memset_def memset_loop_eq)

end
