(* ===== verification/ArchX86.thy ===== *)
theory ArchX86
  imports MemCopy
begin

section \<open>arch-x86\_64.h: the assembly memmove, memcpy and memset\<close>

text \<open>
  On x86-64 \<^verbatim>\<open>memmove\<close>, \<^verbatim>\<open>memcpy\<close> (one body with two labels) and
  \<^verbatim>\<open>memset\<close> are assembly. The instructions they use are interpreted over the
  registers they touch, the carry and direction flags, memory and the words they push; the
  pushed words are kept apart from memory. Operands are in the AT\&T order of the source:
  source first.
\<close>

datatype reg = RAX | RCX | RDX | RSI | RDI

datatype instr =
    MovQ reg reg
  | SubQ reg reg
  | CmpQ reg reg
  | Jb nat
  | LeaDec reg reg reg  \<comment> \<open>\<^verbatim>\<open>leaq -1(%a,%b,1), %d\<close>\<close>
  | Std
  | Cld
  | RepMovsb
  | RepStosb
  | XchgL reg reg
  | PushQ reg
  | PopQ reg
  | RetQ

record x86 =
  regs :: "reg \<Rightarrow> i64"
  cf :: bool
  df :: bool
  xmem :: mem
  stack :: "i64 list"

text \<open>\<^verbatim>\<open>rep movsb\<close> and \<^verbatim>\<open>rep stosb\<close>: rcx times, upwards or downwards.\<close>

partial_function (option) rep_movsb :: "bool \<Rightarrow> mem \<Rightarrow> i64 \<Rightarrow> i64 \<Rightarrow> i64 \<Rightarrow> (mem \<times> i64 \<times> i64) option" where
  "rep_movsb down m di si cx =
     (if cx = 0 then Some (m, di, si)
      else do {
        b \<leftarrow> load m si;
        m \<leftarrow> store m di b;
        if down then rep_movsb down m (di - 1) (si - 1) (cx - 1)
        else rep_movsb down m (di + 1) (si + 1) (cx - 1) })"

partial_function (option) rep_stosb :: "bool \<Rightarrow> mem \<Rightarrow> i64 \<Rightarrow> byte \<Rightarrow> i64 \<Rightarrow> (mem \<times> i64) option" where
  "rep_stosb down m di al cx =
     (if cx = 0 then Some (m, di)
      else do {
        m \<leftarrow> store m di al;
        if down then rep_stosb down m (di - 1) al (cx - 1)
        else rep_stosb down m (di + 1) al (cx - 1) })"

text \<open>
  One instruction at program counter \<open>pc\<close>: the next program counter, or \<open>None\<close> for
  the return, with the state after it. A 32-bit exchange clears the upper halves.
\<close>

fun x86_step :: "instr \<Rightarrow> nat \<Rightarrow> x86 \<Rightarrow> (nat option \<times> x86) option" where
  "x86_step (MovQ s d) pc x = Some (Some (pc + 1), x\<lparr>regs := (regs x)(d := regs x s)\<rparr>)"
| "x86_step (SubQ s d) pc x =
     Some (Some (pc + 1), x\<lparr>regs := (regs x)(d := regs x d - regs x s), cf := regs x d < regs x s\<rparr>)"
| "x86_step (CmpQ s d) pc x = Some (Some (pc + 1), x\<lparr>cf := regs x d < regs x s\<rparr>)"
| "x86_step (Jb l) pc x = Some (Some (if cf x then l else pc + 1), x)"
| "x86_step (LeaDec a b d) pc x =
     Some (Some (pc + 1), x\<lparr>regs := (regs x)(d := regs x a + regs x b - 1)\<rparr>)"
| "x86_step Std pc x = Some (Some (pc + 1), x\<lparr>df := True\<rparr>)"
| "x86_step Cld pc x = Some (Some (pc + 1), x\<lparr>df := False\<rparr>)"
| "x86_step RepMovsb pc x = do {
     (m, di, si) \<leftarrow> rep_movsb (df x) (xmem x) (regs x RDI) (regs x RSI) (regs x RCX);
     Some (Some (pc + 1), x\<lparr>xmem := m, regs := (regs x)(RDI := di, RSI := si, RCX := 0)\<rparr>) }"
| "x86_step RepStosb pc x = do {
     (m, di) \<leftarrow> rep_stosb (df x) (xmem x) (regs x RDI) (ucast (regs x RAX)) (regs x RCX);
     Some (Some (pc + 1), x\<lparr>xmem := m, regs := (regs x)(RDI := di, RCX := 0)\<rparr>) }"
| "x86_step (XchgL a b) pc x =
     Some (Some (pc + 1), x\<lparr>regs := (regs x)(a := ucast (ucast (regs x b) :: i32),
                                              b := ucast (ucast (regs x a) :: i32))\<rparr>)"
| "x86_step (PushQ a) pc x = Some (Some (pc + 1), x\<lparr>stack := regs x a # stack x\<rparr>)"
| "x86_step (PopQ a) pc x =
     (case stack x of [] \<Rightarrow> None
      | v # vs \<Rightarrow> Some (Some (pc + 1), x\<lparr>stack := vs, regs := (regs x)(a := v)\<rparr>))"
| "x86_step RetQ pc x = Some (None, x)"

partial_function (option) x86_run :: "instr list \<Rightarrow> nat \<Rightarrow> x86 \<Rightarrow> x86 option" where
  "x86_run code pc x =
     (if pc < length code then do {
        (next, x) \<leftarrow> x86_step (code ! pc) pc x;
        case next of None \<Rightarrow> Some x | Some pc \<Rightarrow> x86_run code pc x }
      else None)"

text \<open>The code, one list element per line of the source; label \<^verbatim>\<open>1\<close> is position 8.\<close>

definition memmove_code :: "instr list" where
  "memmove_code =
    [MovQ RDX RCX,
     MovQ RDI RAX,
     MovQ RDI RDX,
     SubQ RSI RDX,
     CmpQ RCX RDX,
     Jb 8,
     RepMovsb,
     RetQ,
     LeaDec RDI RCX RDI,
     LeaDec RSI RCX RSI,
     Std,
     RepMovsb,
     Cld,
     RetQ]"

definition memset_code :: "instr list" where
  "memset_code =
    [XchgL RAX RSI,
     MovQ RDX RCX,
     PushQ RDI,
     RepStosb,
     PopQ RAX,
     RetQ]"

text \<open>
  The System V calling convention: arguments in rdi, rsi and rdx, the result in rax, the
  direction flag clear on entry. \<open>r0\<close> gives the registers the caller left.
\<close>

definition x86_entry :: "(reg \<Rightarrow> i64) \<Rightarrow> mem \<Rightarrow> i64 \<Rightarrow> i64 \<Rightarrow> i64 \<Rightarrow> x86" where
  "x86_entry r0 m a1 a2 a3 =
     \<lparr>regs = r0(RDI := a1, RSI := a2, RDX := a3), cf = False, df = False, xmem = m, stack = []\<rparr>"

definition asm_memmove :: "(reg \<Rightarrow> i64) \<Rightarrow> mem \<Rightarrow> addr \<Rightarrow> addr \<Rightarrow> i64 \<Rightarrow> (addr \<times> mem) option" where
  "asm_memmove r0 m dst src len = do {
     x \<leftarrow> x86_run memmove_code 0 (x86_entry r0 m dst src len);
     Some (regs x RAX, xmem x) }"

definition asm_memset :: "(reg \<Rightarrow> i64) \<Rightarrow> mem \<Rightarrow> addr \<Rightarrow> i32 \<Rightarrow> i64 \<Rightarrow> (addr \<times> mem) option" where
  "asm_memset r0 m dst c len = do {
     x \<leftarrow> x86_run memset_code 0 (x86_entry r0 m dst (ucast c) len);
     Some (regs x RAX, xmem x) }"

subsection \<open>The string instructions\<close>

lemma rep_movsb_up:
  "bytes_at m si xs \<Longrightarrow> mapped m di (length xs) \<Longrightarrow> fwd_ok di si (length xs) \<Longrightarrow>
   unat cx = length xs \<Longrightarrow>
   rep_movsb False m di si cx =
     Some (poke m di xs, di + of_nat (length xs), si + of_nat (length xs))"
proof (induction xs arbitrary: m di si cx)
  case Nil
  then show ?case by (subst rep_movsb.simps) (simp add: unat_eq_0)
next
  case (Cons x xs)
  then have ne: "cx \<noteq> 0" by auto
  then have cx: "unat (cx - 1) = length xs"
    using Cons.prems(4) by (simp add: unat_minus_one)
  have n: "length xs < 2 ^ 64" using cx unat_lt64 [of "cx - 1"] by simp
  have ok: "fwd_ok (di + 1) (si + 1) (length xs)" "\<not> in_range (si + 1) (length xs) di"
    using Cons.prems(3) n fwd_step [of di si "length xs"] by simp_all
  have "rep_movsb False (m(di \<mapsto> x)) (di + 1) (si + 1) (cx - 1) =
      Some (poke (m(di \<mapsto> x)) (di + 1) xs, di + 1 + of_nat (length xs), si + 1 + of_nat (length xs))"
    using Cons.prems ok cx by (intro Cons.IH) (simp_all add: bytes_at_update)
  with Cons.prems ne show ?case
    by (subst rep_movsb.simps) (auto simp: add_ac)
qed

lemma rep_movsb_down:
  "bytes_at m src xs \<Longrightarrow> mapped m dst (length xs) \<Longrightarrow> bwd_ok dst src (length xs) \<Longrightarrow>
   unat cx = length xs \<Longrightarrow>
   rep_movsb True m (dst + cx - 1) (src + cx - 1) cx = Some (poke m dst xs, dst - 1, src - 1)"
proof (induction xs arbitrary: m cx rule: rev_induct)
  case Nil
  then show ?case by (subst rep_movsb.simps) (simp add: unat_eq_0)
next
  case (snoc x xs)
  then have ne: "cx \<noteq> 0" by auto
  then have cx: "unat (cx - 1) = length xs"
    using snoc.prems(4) by (simp add: unat_minus_one)
  then have idx: "cx - 1 = of_nat (length xs)" by (metis of_nat_unat ucast_id)
  then have a: "dst + cx - 1 = dst + of_nat (length xs)" "src + cx - 1 = src + of_nat (length xs)"
    by (metis add_diff_eq)+
  have n: "length xs < 2 ^ 64" using cx unat_lt64 [of "cx - 1"] by simp
  let ?a = "dst + of_nat (length xs)"
  have ok: "bwd_ok dst src (length xs)" "\<not> in_range src (length xs) ?a"
    using bwd_step [of dst src "length xs"] snoc.prems(3) n by simp_all
  have map: "mapped m dst (length xs)" "m ?a \<noteq> None"
    using snoc.prems(2) mapped_add [of m dst "length xs" 1] by simp_all
  have "rep_movsb True (m(?a \<mapsto> x)) (dst + (cx - 1) - 1) (src + (cx - 1) - 1) (cx - 1) =
      Some (poke (m(?a \<mapsto> x)) dst xs, dst - 1, src - 1)"
    using snoc.prems ok map cx by (intro snoc.IH) (simp_all add: bytes_at_update)
  moreover have "poke (m(?a \<mapsto> x)) dst xs = poke m dst (xs @ [x])"
    using n by (simp add: poke_append poke_update_commute not_in_range_after)
  moreover have "m (src + of_nat (length xs)) = Some x"
    using snoc.prems(1) by simp
  ultimately show ?case using ne map(2)
    by (subst rep_movsb.simps) (simp add: a idx)
qed

lemma rep_stosb_up:
  "unat cx = k \<Longrightarrow> mapped m di k \<Longrightarrow>
   rep_stosb False m di al cx = Some (poke m di (replicate k al), di + of_nat k)"
proof (induction k arbitrary: m di cx)
  case 0
  then show ?case by (subst rep_stosb.simps) (simp add: unat_eq_0)
next
  case (Suc k)
  from Suc.prems(1) have ne: "cx \<noteq> 0" by auto
  with Suc.prems(1) have "unat (cx - 1) = k" by (simp add: unat_minus_one)
  then have "rep_stosb False (m(di \<mapsto> al)) (di + 1) al (cx - 1) =
      Some (poke (m(di \<mapsto> al)) (di + 1) (replicate k al), di + 1 + of_nat k)"
    using Suc.prems by (intro Suc.IH) simp_all
  with Suc.prems ne show ?case
    by (subst rep_stosb.simps) (auto simp: add_ac)
qed

subsection \<open>Running the routines\<close>

definition asm_memmove_ok :: "addr \<Rightarrow> addr \<Rightarrow> nat \<Rightarrow> bool" where
  "asm_memmove_ok dst src n = (unat (dst - src) < n \<longrightarrow> bwd_ok dst src n)"

text \<open>Symbolic execution unfolds one instruction at a time.\<close>

lemma x86_run_step:
  "pc < length code \<Longrightarrow> x86_step (code ! pc) pc x = Some (Some pc', x') \<Longrightarrow>
   x86_run code pc x = x86_run code pc' x'"
  by (subst x86_run.simps) simp

lemma x86_run_ret:
  "pc < length code \<Longrightarrow> x86_step (code ! pc) pc x = Some (None, x') \<Longrightarrow>
   x86_run code pc x = Some x'"
  by (subst x86_run.simps) simp

text \<open>What a caller relies on when a routine returns.\<close>

definition x86_returns :: "instr list \<Rightarrow> x86 \<Rightarrow> i64 \<Rightarrow> mem \<Rightarrow> bool" where
  "x86_returns code x r m \<longleftrightarrow>
     (case x86_run code 0 x of None \<Rightarrow> False
      | Some y \<Rightarrow> regs y RAX = r \<and> xmem y = m \<and> \<not> df y \<and> stack y = stack x)"

lemma memmove_code_up:
  assumes "rep_movsb False m dst src len = Some (m', di, si)" and "\<not> dst - src < len"
  shows "x86_returns memmove_code (x86_entry r0 m dst src len) dst m'"
  unfolding x86_returns_def
  by (simp add: assms memmove_code_def x86_entry_def x86_run_step x86_run_ret)

lemma memmove_code_down:
  assumes "rep_movsb True m (dst + len - 1) (src + len - 1) len = Some (m', di, si)"
    and "dst - src < len"
  shows "x86_returns memmove_code (x86_entry r0 m dst src len) dst m'"
  unfolding x86_returns_def
  by (simp add: assms memmove_code_def x86_entry_def x86_run_step x86_run_ret)

lemma ucast_i32_i64 [simp]: "(ucast (ucast (c :: i32) :: i64) :: i32) = c"
  by (rule bit_word_eqI) (simp add: bit_simps)

lemma ucast_i32_i64_byte [simp]: "(ucast (ucast (c :: i32) :: i64) :: byte) = ucast c"
  by (rule bit_word_eqI) (simp add: bit_simps)

lemma memset_code_runs:
  assumes "rep_stosb False m dst (ucast c) len = Some (m', di)"
  shows "x86_returns memset_code (x86_entry r0 m dst (ucast (c :: i32)) len) dst m'"
  unfolding x86_returns_def
  by (simp add: assms memset_code_def x86_entry_def x86_run_step x86_run_ret)

lemma asm_memmove_returns:
  "x86_returns memmove_code (x86_entry r0 m dst src len) dst m' \<Longrightarrow>
   asm_memmove r0 m dst src len = Some (dst, m')"
  by (auto simp: x86_returns_def asm_memmove_def split: option.splits)

lemma asm_memset_returns:
  "x86_returns memset_code (x86_entry r0 m dst (ucast c) len) dst m' \<Longrightarrow>
   asm_memset r0 m dst c len = Some (dst, m')"
  by (auto simp: x86_returns_def asm_memset_def split: option.splits)

subsection \<open>The routines meet the contract of the C versions\<close>

lemma memmove_code_copies:
  assumes "bytes_at m src xs" "mapped m dst (length xs)" "length xs = unat n"
    and "asm_memmove_ok dst src (length xs)"
  shows "x86_returns memmove_code (x86_entry r0 m dst src n) dst (poke m dst xs)"
proof (cases "dst - src < n")
  case True
  with assms have "bwd_ok dst src (length xs)"
    by (simp add: asm_memmove_ok_def word_less_nat_alt)
  with assms have "rep_movsb True m (dst + n - 1) (src + n - 1) n =
      Some (poke m dst xs, dst - 1, src - 1)"
    by (intro rep_movsb_down) simp_all
  then show ?thesis using True by (rule memmove_code_down)
next
  case False
  with assms have "fwd_ok dst src (length xs)"
    by (simp add: fwd_ok_def word_less_nat_alt)
  with assms have "rep_movsb False m dst src n =
      Some (poke m dst xs, dst + of_nat (length xs), src + of_nat (length xs))"
    by (intro rep_movsb_up) simp_all
  then show ?thesis using False by (rule memmove_code_up)
qed

interpretation amove: overlap_copier "asm_memmove r0" asm_memmove_ok for r0
proof (unfold_locales, goal_cases)
  case (1 m src xs dst n)
  then show ?case by (intro asm_memmove_returns memmove_code_copies)
next
  case (2 dst n src)
  then show ?case using apart_ok [of dst n src] by (simp add: asm_memmove_ok_def)
next
  case (3 dst n src)
  show ?case
  proof (cases "dst < src")
    case False
    with 3 show ?thesis by (simp add: asm_memmove_ok_def no_wrap_bwd_ok)
  next
    case True
    with 3 have "fwd_ok dst src n" by (simp add: no_wrap_fwd_ok)
    with True show ?thesis by (auto simp: asm_memmove_ok_def fwd_ok_def)
  qed
qed

lemma asm_memset_eq:
  assumes "mapped m dst (unat len)"
  shows "asm_memset r0 m dst c len =
    Some (dst, poke m dst (replicate (unat len) (ucast c)))"
  by (rule asm_memset_returns [OF memset_code_runs [OF rep_stosb_up [OF refl assms]]])

end
