(* ===== verification/StringProps.thy ===== *)
theory StringProps
  imports Ctype CStringCopy ArchX86
begin

section \<open>Properties of string.h, ctype.h and the x86-64 block routines\<close>

text \<open>
  The statements are about the functions on an arbitrary memory; \<open>bytes_at\<close>, \<open>mapped\<close> and
  \<open>cstr\<close> say what lies where. Each is followed by an instance on a small memory.
\<close>

lemma replicate_two: "replicate 2 x = [x, x]"
  by (simp add: numeral_2_eq_2)

lemma mapped_three: "mapped m p 3 \<longleftrightarrow> m p \<noteq> None \<and> m (p + 1) \<noteq> None \<and> m (p + 2) \<noteq> None"
  by (simp add: numeral_3_eq_3 algebra_simps)

lemma mapped_two: "mapped m p 2 \<longleftrightarrow> m p \<noteq> None \<and> m (p + 1) \<noteq> None"
  by (simp add: numeral_2_eq_2)

lemma small_no_wrap: "unat p < 2 ^ 32 \<Longrightarrow> n < 2 ^ 32 \<Longrightarrow> no_wrap p n"
  by (simp add: no_wrap_def)

text \<open>
  Property C18. \<open>memmove\<close> copies every block, also when source and destination overlap: the
  destination afterwards holds the bytes the source held before, and no other byte changes.
\<close>

theorem memmove_overlap:
  assumes "bytes_at m src xs" and "mapped m dst (length xs)" and "length xs = unat n"
    and "no_wrap dst (length xs)" and "no_wrap src (length xs)"
  shows "\<exists>m'. memmove m dst src n = Some (dst, m') \<and> bytes_at m' dst xs \<and>
    (\<forall>a. \<not> in_range dst (length xs) a \<longrightarrow> m' a = m a)"
  using mmove.copy_result [OF assms(1-3) mmove.ok_no_wrap [OF assms(4,5)]] .

theorem memmove_overlap_witness:
  "\<exists>m'. memmove [10 \<mapsto> 1, 11 \<mapsto> 2, 12 \<mapsto> 3, 13 \<mapsto> 4] 11 10 3 = Some (11, m') \<and> bytes_at m' 11 [1, 2, 3]"
  using memmove_overlap [of "[10 \<mapsto> 1, 11 \<mapsto> 2, 12 \<mapsto> 3, 13 \<mapsto> 4]" 10 "[1, 2, 3]" 11 3]
  by (auto simp: small_no_wrap)

text \<open>
  \<open>memcpy\<close> copies a block to a place it does not overlap; the source is kept.
\<close>

theorem memcpy_copies:
  assumes "bytes_at m src xs" and "mapped m dst (length xs)" and "length xs = unat n"
    and "apart dst (length xs) src (length xs)"
  shows "\<exists>m'. memcpy m dst src n = Some (dst, m') \<and> bytes_at m' dst xs \<and> bytes_at m' src xs"
  using assms by (intro mcpy.copy_apart)

theorem memcpy_copies_witness:
  "\<exists>m'. memcpy [10 \<mapsto> 1, 11 \<mapsto> 2, 20 \<mapsto> 0, 21 \<mapsto> 0] 20 10 2 = Some (20, m') \<and>
     bytes_at m' 20 [1, 2] \<and> bytes_at m' 10 [1, 2]"
  using memcpy_copies [of "[10 \<mapsto> 1, 11 \<mapsto> 2, 20 \<mapsto> 0, 21 \<mapsto> 0]" 10 "[1, 2]" 20 2]
  by (simp add: apart_def)

text \<open>
  Property C19. The assembly \<^verbatim>\<open>memmove\<close> of x86-64, run on the machine, returns to its
  caller with the destination in \<open>rax\<close>, the direction flag clear and the stack as it was,
  and leaves the memory the portable C \<open>memmove\<close> leaves, overlaps included.
\<close>

theorem asm_memmove_agrees:
  assumes "bytes_at m src xs" and "mapped m dst (length xs)" and "length xs = unat n"
    and "no_wrap dst (length xs)" and "no_wrap src (length xs)"
  shows "\<exists>m'. memmove m dst src n = Some (dst, m') \<and>
    x86_returns memmove_code (x86_entry r0 m dst src n) dst m'"
  using mmove.copy_poke [OF assms(1-3) mmove.ok_no_wrap [OF assms(4,5)]]
    memmove_code_copies [OF assms(1-3) amove.ok_no_wrap [OF assms(4,5)]] by blast

theorem asm_memmove_agrees_witness:
  "\<exists>m'. memmove [10 \<mapsto> 1, 11 \<mapsto> 2, 12 \<mapsto> 3] 11 10 2 = Some (11, m') \<and>
    x86_returns memmove_code (x86_entry (\<lambda>_. 0) [10 \<mapsto> 1, 11 \<mapsto> 2, 12 \<mapsto> 3] 11 10 2) 11 m'"
  using asm_memmove_agrees [of "[10 \<mapsto> 1, 11 \<mapsto> 2, 12 \<mapsto> 3]" 10 "[1, 2]" 11 2 "\<lambda>_. 0"]
  by (simp add: small_no_wrap)

text \<open>
  Property C39. The assembly \<^verbatim>\<open>memset\<close> of x86-64 and the portable C \<open>memset\<close> leave the
  same memory: the block holds copies of the low byte of the value.
\<close>

theorem asm_memset_agrees:
  assumes "mapped m dst (unat n)"
  shows "memset m dst c n = Some (dst, poke m dst (replicate (unat n) (ucast c))) \<and>
    asm_memset r0 m dst c n = memset m dst c n"
  using assms by (simp add: memset_eq asm_memset_eq)

theorem asm_memset_agrees_witness:
  "memset [5 \<mapsto> 9, 6 \<mapsto> 9] 5 7 2 = Some (5, [5 \<mapsto> 7, 6 \<mapsto> 7]) \<and>
   asm_memset (\<lambda>_. 0) [5 \<mapsto> 9, 6 \<mapsto> 9] 5 7 2 = memset [5 \<mapsto> 9, 6 \<mapsto> 9] 5 7 2"
proof -
  have "mapped [5 \<mapsto> 9, 6 \<mapsto> 9] 5 (unat (2 :: i64))"
    by (simp add: mapped_two)
  moreover have "poke [5 \<mapsto> 9, 6 \<mapsto> 9] 5 (replicate (unat (2 :: i64)) (ucast (7 :: i32))) =
      [5 \<mapsto> 7, 6 \<mapsto> 7]"
    by (simp add: replicate_two fun_upd_twist)
  ultimately show ?thesis
    using asm_memset_agrees [of "[5 \<mapsto> 9, 6 \<mapsto> 9]" 5 2 "7" "\<lambda>_. 0"] by simp
qed

text \<open>
  Property C37. \<open>strcmp\<close> is 0 exactly on equal strings, and its sign orders strings
  lexicographically by unsigned characters; \<open>strncmp\<close> does so for the first \<open>n\<close>
  characters.
\<close>

theorem strcmp_orders:
  assumes "cstr m a xs" and "cstr m b ys"
  shows "\<exists>r. strcmp m a b = Some r \<and> (r = 0 \<longleftrightarrow> xs = ys) \<and>
      (r <s 0 \<longleftrightarrow> ord_class.lexordp xs ys) \<and>
    (\<exists>q. strncmp m a b n = Some q \<and> (q = 0 \<longleftrightarrow> take (unat n) xs = take (unat n) ys) \<and>
      (q <s 0 \<longleftrightarrow> ord_class.lexordp (take (unat n) xs) (take (unat n) ys)))"
proof -
  have nz: "0 \<notin> set xs" "0 \<notin> set ys" using assms by (auto dest: cstr_nonzero)
  then have "0 \<notin> set (take k xs)" "0 \<notin> set (take k ys)" for k
    by (auto dest: in_set_takeD)
  with nz assms show ?thesis
    by (simp add: strcmp_eq strncmp_eq cmp_bytes_eq_0 word_sless_alt sint_cmp_bytes_neg)
qed

theorem strcmp_orders_witness:
  "\<exists>r. strcmp [1 \<mapsto> 97, 2 \<mapsto> 0, 3 \<mapsto> 97, 4 \<mapsto> 0xE9, 5 \<mapsto> 0] 1 3 = Some r \<and> r \<noteq> 0 \<and> r <s 0"
  using strcmp_orders [of "[1 \<mapsto> 97, 2 \<mapsto> 0, 3 \<mapsto> 97, 4 \<mapsto> 0xE9, 5 \<mapsto> 0]" 1 "[97]" 3 "[97, 0xE9]" 0]
  by auto

text \<open>
  For a character other than NUL, \<open>strchr\<close> returns the address of its first
  occurrence and \<open>strrchr\<close> that of its last one, both NULL when there is none.
\<close>

theorem strchr_strrchr:
  assumes "cstr m s xs" and "c \<noteq> 0"
  shows "strchr m s (ucast c) =
      Some (if c \<in> set xs then s + of_nat (length (takeWhile (\<lambda>x. x \<noteq> c) xs)) else 0) \<and>
    strrchr m s (ucast c) =
      Some (if c \<in> set xs then s + of_nat (length xs - 1 - length (takeWhile (\<lambda>x. x \<noteq> c) (rev xs)))
            else 0)"
proof -
  have u: "(ucast (ucast c :: i32) :: byte) = c"
    by (rule bit_word_eqI) (simp add: bit_simps)
  have "strrchr_loop m s c 0 =
      Some (s + of_nat (length xs - 1 - length (takeWhile (\<lambda>x. x \<noteq> c) (rev xs))))"
    if "c \<in> set xs"
  proof -
    from split_list_last [OF that] obtain ys zs where xs: "xs = ys @ c # zs" "c \<notin> set zs" by blast
    from xs(2) have "\<forall>x \<in> set (rev zs). x \<noteq> c" by auto
    then have "takeWhile (\<lambda>x. x \<noteq> c) (rev zs @ c # rev ys) = rev zs"
      by (subst takeWhile_append2) auto
    then have "takeWhile (\<lambda>x. x \<noteq> c) (rev xs) = rev zs" by (simp add: xs(1))
    with xs assms show ?thesis by (simp add: strrchr_loop_split)
  qed
  with assms show ?thesis
    by (simp add: strchr_def strrchr_def u strchr_loop_eq strrchr_loop_none)
qed

theorem strchr_strrchr_witness:
  "strchr [1 \<mapsto> 47, 2 \<mapsto> 98, 3 \<mapsto> 47, 4 \<mapsto> 0] 1 47 = Some 1 \<and>
   strrchr [1 \<mapsto> 47, 2 \<mapsto> 98, 3 \<mapsto> 47, 4 \<mapsto> 0] 1 47 = Some 3"
  using strchr_strrchr [of "[1 \<mapsto> 47, 2 \<mapsto> 98, 3 \<mapsto> 47, 4 \<mapsto> 0]" 1 "[47, 98, 47]" 47]
  by simp

text \<open>
  Property C36. For a needle that is not empty, \<open>strstr\<close> returns the address of its first
  occurrence in the haystack, NULL when there is none.
\<close>

theorem strstr_first:
  assumes "cstr m h hs" and "cstr m n nd" and "nd \<noteq> []"
  shows "\<exists>r. strstr m h n = Some r \<and>
    ((\<forall>i. \<not> occurs_at hs nd i) \<and> r = 0 \<or>
     (\<exists>i. occurs_at hs nd i \<and> (\<forall>j < i. \<not> occurs_at hs nd j) \<and> r = h + of_nat i))"
proof -
  have "length nd < 2 ^ 64" "bytes_at m n nd"
    using assms(2) cstr_length by (auto simp: cstr_iff_bytes)
  moreover have "(of_nat (length nd) :: i64) \<noteq> 0"
  proof
    assume "(of_nat (length nd) :: i64) = 0"
    then have "unat (of_nat (length nd) :: i64) = 0" by (simp only: unat_0)
    then show False using unat_of_nat64 [OF calculation(1)] assms(3) by simp
  qed
  ultimately show ?thesis
    using strstr_loop_eq [OF assms(1) _ assms(3), of n] assms
    by (simp add: strstr_def strlen_eq)
qed

theorem strstr_first_witness:
  "\<exists>r. strstr [1 \<mapsto> 97, 2 \<mapsto> 98, 3 \<mapsto> 0, 4 \<mapsto> 98, 5 \<mapsto> 0] 1 4 = Some r \<and>
    ((\<forall>i. \<not> occurs_at [97, 98] [98] i) \<and> r = 0 \<or>
     (\<exists>i. occurs_at [97, 98] [98] i \<and> (\<forall>j < i. \<not> occurs_at [97, 98] [98] j) \<and> r = 1 + of_nat i))"
  using strstr_first [of "[1 \<mapsto> 97, 2 \<mapsto> 98, 3 \<mapsto> 0, 4 \<mapsto> 98, 5 \<mapsto> 0]" 1 "[97, 98]" 4 "[98]"]
  by simp

text \<open>
  Property C31. \<open>strlcpy\<close> returns the length of the source, writes at most \<open>size\<close> bytes and
  always leaves a terminated string, the source cut to \<open>size - 1\<close> characters.
\<close>

theorem strlcpy_truncates:
  assumes "cstr m src xs" and "0 < sz" and "mapped m dst (unat sz)"
    and "apart dst (unat sz) src (Suc (length xs))"
  shows "\<exists>m'. strlcpy m dst src sz = Some (of_nat (length xs), m') \<and>
    cstr m' dst (take (unat sz - 1) xs) \<and> (\<forall>a. \<not> in_range dst (unat sz) a \<longrightarrow> m' a = m a)"
proof -
  let ?ys = "take (unat sz - 1) xs"
  have sz: "0 < unat sz" using assms(2) by (simp add: word_less_nat_alt)
  have len: "length (?ys @ [0]) \<le> unat sz" using sz by auto
  have "strlcpy m dst src sz = Some (of_nat (length xs), poke m dst (?ys @ [0]))"
    using strlcpy_eq [OF assms(1), of dst sz] mapped_mono [OF assms(3)] apart_mono [OF assms(4)] sz
    by (auto simp: min_def)
  moreover have "cstr (poke m dst (?ys @ [0])) dst ?ys"
    using cstr_nonzero [OF assms(1)] len unat_lt64 [of sz]
      bytes_at_poke_self [of "?ys @ [0]" m dst]
    by (auto simp: cstr_iff_bytes simp del: bytes_at_append unat_lt64 dest: in_set_takeD)
  moreover have "poke m dst (?ys @ [0]) a = m a" if "\<not> in_range dst (unat sz) a" for a
    using that in_range_mono [OF _ len] by (auto intro!: poke_outside)
  ultimately show ?thesis by blast
qed

theorem strlcpy_truncates_witness:
  "\<exists>m'. strlcpy [1 \<mapsto> 97, 2 \<mapsto> 98, 3 \<mapsto> 0, 8 \<mapsto> 5, 9 \<mapsto> 5] 8 1 2 = Some (2, m') \<and> cstr m' 8 [97]"
  using strlcpy_truncates [of "[1 \<mapsto> 97, 2 \<mapsto> 98, 3 \<mapsto> 0, 8 \<mapsto> 5, 9 \<mapsto> 5]" 1 "[97, 98]" 2 8]
  by (auto simp: apart_def mapped_two)

text \<open>
  Property C32. On a terminated destination with room, \<open>strlcat\<close> appends as much of the source
  as fits in \<open>size - 1\<close> characters, terminates the result and returns the length of the
  string it tried to make.
\<close>

theorem strlcat_appends:
  assumes d: "cstr m dst ds" and c: "cstr m src xs" and lt: "length ds < unat sz"
    and mp: "mapped m dst (unat sz)" and ap: "apart dst (unat sz) src (Suc (length xs))"
  shows "\<exists>m'. strlcat m dst src sz = Some (of_nat (length ds + length xs), m') \<and>
    cstr m' dst (ds @ take (unat sz - length ds - 1) xs)"
proof -
  let ?r = "unat sz - length ds - 1" and ?p = "dst + of_nat (length ds)"
  let ?ys = "take ?r xs"
  have k: "length ds + Suc (min ?r (length xs)) \<le> unat sz" using lt by auto
  have "mapped m ?p (Suc (min ?r (length xs)))"
    using mp k by (rule mapped_part)
  moreover have "apart ?p (Suc (min ?r (length xs))) src (Suc (length xs))"
    by (intro apart_part [OF ap k]) simp
  ultimately have "strlcat m dst src sz =
      Some (of_nat (length ds + length xs), poke m ?p (?ys @ [0]))"
    by (intro strlcat_eq [OF d c lt refl])
  moreover have "cstr (poke m ?p (?ys @ [0])) dst (ds @ ?ys)"
  proof (rule cstr_poke_append [OF d])
    show "0 \<notin> set ?ys" using cstr_nonzero [OF c] by (auto dest: in_set_takeD)
    have "length ds + Suc (length ?ys) \<le> unat sz" using k by (simp add: min.commute)
    also have "\<dots> \<le> 2 ^ 64" by simp
    finally show "length ds + Suc (length ?ys) \<le> 2 ^ 64" .
  qed
  ultimately show ?thesis by blast
qed

theorem strlcat_appends_witness:
  "\<exists>m'. strlcat [1 \<mapsto> 98, 2 \<mapsto> 99, 3 \<mapsto> 0, 8 \<mapsto> 97, 9 \<mapsto> 0, 10 \<mapsto> 5] 8 1 3 = Some (3, m') \<and>
    cstr m' 8 [97, 98]"
  using strlcat_appends [of "[1 \<mapsto> 98, 2 \<mapsto> 99, 3 \<mapsto> 0, 8 \<mapsto> 97, 9 \<mapsto> 0, 10 \<mapsto> 5]" 8 "[97]" 1 "[98, 99]" 3]
  by (simp add: apart_def mapped_three)

text \<open>
  \<open>strncat\<close> appends at most \<open>size\<close> characters of the source to the destination
  and terminates the result.
\<close>

theorem strncat_appends:
  assumes d: "cstr m dst ds" and c: "cstr m src xs" and k: "k = min (unat sz) (length xs)"
    and mp: "mapped m dst (length ds + Suc k)" and ap: "apart dst (length ds + Suc k) src (Suc (length xs))"
    and fit: "length ds + Suc k \<le> 2 ^ 64"
  shows "\<exists>m'. strncat m dst src sz = Some (dst, m') \<and> cstr m' dst (ds @ take (unat sz) xs)"
proof -
  let ?p = "dst + of_nat (length ds)" and ?ys = "take (unat sz) xs"
  have "strncat m dst src sz = Some (dst, poke m ?p (?ys @ [0]))"
    using mapped_part [OF mp order_refl] apart_part [OF ap order_refl fit]
    by (intro strncat_eq [OF d c k])
  moreover have "cstr (poke m ?p (?ys @ [0])) dst (ds @ ?ys)"
  proof (rule cstr_poke_append [OF d])
    show "0 \<notin> set ?ys" using cstr_nonzero [OF c] by (auto dest: in_set_takeD)
    show "length ds + Suc (length ?ys) \<le> 2 ^ 64" using fit k by (simp add: min.commute)
  qed
  ultimately show ?thesis by blast
qed

theorem strncat_appends_witness:
  "\<exists>m'. strncat [1 \<mapsto> 98, 2 \<mapsto> 99, 3 \<mapsto> 0, 8 \<mapsto> 97, 9 \<mapsto> 0, 10 \<mapsto> 5] 8 1 1 = Some (8, m') \<and>
    cstr m' 8 [97, 98]"
  using strncat_appends [of "[1 \<mapsto> 98, 2 \<mapsto> 99, 3 \<mapsto> 0, 8 \<mapsto> 97, 9 \<mapsto> 0, 10 \<mapsto> 5]" 8 "[97]" 1 "[98, 99]" 1 1]
  by (simp add: apart_def)

text \<open>
  \<open>strncpy\<close> writes exactly \<open>size\<close> bytes: the characters of the source that
  fit, then NULs.
\<close>

theorem strncpy_pads:
  assumes "cstr m src xs" and "mapped m dst (unat sz)" and "apart dst (unat sz) src (Suc (length xs))"
  shows "\<exists>m'. strncpy m dst src sz = Some (dst, m') \<and>
    bytes_at m' dst (take (unat sz) (xs @ replicate (unat sz) 0)) \<and>
    (\<forall>a. \<not> in_range dst (unat sz) a \<longrightarrow> m' a = m a)"
proof -
  let ?ys = "take (unat sz) xs @ replicate (unat sz - length xs) 0"
  have ys: "take (unat sz) (xs @ replicate (unat sz) 0) = ?ys" "length ?ys = unat sz"
    by (auto simp: min_def)
  have "strncpy m dst src sz = Some (dst, poke m dst ?ys)"
    using strncpy_loop_eq [of m src xs dst 0 "unat sz" sz] assms by (simp add: strncpy_def)
  moreover have "bytes_at (poke m dst ?ys) dst ?ys"
  proof (rule bytes_at_poke_self)
    show "length ?ys \<le> 2 ^ 64" unfolding ys(2) by simp
  qed
  moreover have "poke m dst ?ys a = m a" if "\<not> in_range dst (unat sz) a" for a
    using that ys(2) by (intro poke_outside) simp
  ultimately show ?thesis using ys(1) by auto
qed

theorem strncpy_pads_witness:
  "\<exists>m'. strncpy [1 \<mapsto> 97, 2 \<mapsto> 0, 8 \<mapsto> 5, 9 \<mapsto> 5, 10 \<mapsto> 5] 8 1 3 = Some (8, m') \<and> bytes_at m' 8 [97, 0, 0]"
  using strncpy_pads [of "[1 \<mapsto> 97, 2 \<mapsto> 0, 8 \<mapsto> 5, 9 \<mapsto> 5, 10 \<mapsto> 5]" 1 "[97]" 8 3]
  by (auto simp: apart_def mapped_three replicate_two)

text \<open>
  The character classes as sets of values, for every \<open>int\<close> argument: each
  printable ASCII character is a space, a letter, a digit or punctuation, exactly one of
  them; \<open>tolower\<close> and \<open>toupper\<close> exchange the two kinds of letters and keep the rest.
\<close>

theorem ctype_partition:
  "(isprint c \<noteq> 0 \<longleftrightarrow> c = 32 \<or> isalpha c \<noteq> 0 \<or> isdigit c \<noteq> 0 \<or> ispunct c \<noteq> 0) \<and>
   \<not> (isalpha c \<noteq> 0 \<and> isdigit c \<noteq> 0) \<and> \<not> (isalpha c \<noteq> 0 \<and> ispunct c \<noteq> 0) \<and>
   \<not> (isdigit c \<noteq> 0 \<and> ispunct c \<noteq> 0) \<and> \<not> (iscntrl c \<noteq> 0 \<and> isprint c \<noteq> 0) \<and>
   (isascii c \<noteq> 0 \<longleftrightarrow> iscntrl c \<noteq> 0 \<or> isprint c \<noteq> 0) \<and>
   tolower c = (if isupper c \<noteq> 0 then c + 32 else c) \<and>
   toupper c = (if islower c \<noteq> 0 then c - 32 else c)"
proof -
  have c32: "c = 32 \<longleftrightarrow> sint c = 32" using eq_test [of 32 c] by simp
  have al: "isalnum c = 0 \<longleftrightarrow> \<not> (65 \<le> sint c \<and> sint c \<le> 90 \<or> 97 \<le> sint c \<and> sint c \<le> 122 \<or>
      48 \<le> sint c \<and> sint c \<le> 57)"
    using isalnum_iff [of c] isalpha_iff [of c] isdigit_iff [of c] by blast
  note classes = isprint_iff isalpha_iff isdigit_iff ispunct_iff isgraph_iff al iscntrl_iff
    isascii_iff
  have 1: "isprint c \<noteq> 0 \<longleftrightarrow> c = 32 \<or> isalpha c \<noteq> 0 \<or> isdigit c \<noteq> 0 \<or> ispunct c \<noteq> 0"
    unfolding c32 classes by auto
  have 2: "\<not> (isalpha c \<noteq> 0 \<and> isdigit c \<noteq> 0)" "\<not> (isalpha c \<noteq> 0 \<and> ispunct c \<noteq> 0)"
    "\<not> (isdigit c \<noteq> 0 \<and> ispunct c \<noteq> 0)" "\<not> (iscntrl c \<noteq> 0 \<and> isprint c \<noteq> 0)"
    "isascii c \<noteq> 0 \<longleftrightarrow> iscntrl c \<noteq> 0 \<or> isprint c \<noteq> 0"
    unfolding classes by auto
  have 3: "tolower c = (if isupper c \<noteq> 0 then c + 32 else c)"
    "toupper c = (if islower c \<noteq> 0 then c - 32 else c)"
    using isupper_iff [of c] islower_iff [of c]
    by (simp_all add: tolower_def toupper_def word_sle_eq)
  from 1 2 3 show ?thesis by blast
qed

theorem ctype_partition_witness: "tolower 90 = 122 \<and> toupper 122 = 90 \<and> isprint 90 = 1 \<and> ispunct 90 = 0"
proof -
  have a: "isprint 90 = 1" "isupper 90 = 1" "islower 122 = 1" "isalpha 90 = 1" by code_simp+
  have "tolower 90 = 90 + 32" "toupper 122 = 122 - 32" "\<not> (isalpha 90 \<noteq> 0 \<and> ispunct 90 \<noteq> 0)"
    using a ctype_partition [of 90] ctype_partition [of 122] by simp_all
  then show ?thesis using a by simp
qed

end
