(* ===== verification/Conv.thy ===== *)
theory Conv
  imports CPrelude
begin

section \<open>stdlib.h: integers to text and back\<close>

text \<open>
  The conversion routines of \<^verbatim>\<open>src/stdlib.h\<close> on LP64. \<open>m\<close> is the memory the
  buffers lie in; the static \<^verbatim>\<open>itoa_buffer\<close> is given by its address. The small
  loop counters \<^verbatim>\<open>pos\<close> are mathematical integers, as they stay between -4 and 60;
  \<^verbatim>\<open>digits\<close> and \<^verbatim>\<open>dig\<close> are 32-bit. The index of a buffer is
  sign-extended to the width of a pointer, as C does.
\<close>

subsection \<open>Absolute values\<close>

definition abs_int :: "i32 \<Rightarrow> i32" where
  "abs_int j = (if 0 \<le>s j then j else - j)"

definition labs :: "i64 \<Rightarrow> i64" where
  "labs j = (if 0 \<le>s j then j else - j)"

definition llabs :: "i64 \<Rightarrow> i64" where
  "llabs j = (if 0 \<le>s j then j else - j)"

subsection \<open>Text to integer\<close>

partial_function (option) atol_loop :: "mem \<Rightarrow> addr \<Rightarrow> i64 \<Rightarrow> i64 option" where
  "atol_loop m s ret = do {
     c \<leftarrow> load m s;
     let d = (scast ((scast c :: i32) - 48) :: i64) in
     if d > 9 then Some ret
     else atol_loop m (s + 1) (ret * 10 + d) }"

definition atol :: "mem \<Rightarrow> addr \<Rightarrow> i64 option" where
  "atol m s = do {
     c \<leftarrow> load m s;
     let (neg, s) = (if c = 45 then (True, s + 1) else (False, s)) in
     do { ret \<leftarrow> atol_loop m s 0; Some (if neg then - ret else ret) } }"

definition atoi :: "mem \<Rightarrow> addr \<Rightarrow> i32 option" where
  "atoi m s = do { r \<leftarrow> atol m s; Some (ucast r) }"

subsection \<open>Hexadecimal\<close>

partial_function (option) utoh_loop :: "mem \<Rightarrow> addr \<Rightarrow> i64 \<Rightarrow> int \<Rightarrow> i32 \<Rightarrow> (i32 \<times> mem) option" where
  "utoh_loop m buffer inn pos digits =
     (let dig = (ucast (drop_bit (nat pos) inn) :: i32);
          inn = inn - push_bit (nat pos) (scast dig);
          pos = pos - 4 in
      do {
        (digits, m) \<leftarrow>
          (if dig \<noteq> 0 \<or> digits \<noteq> 0 \<or> pos < 0
           then (let dig = (if 9 <s dig then dig + (97 - 48 - 10) else dig) in
                 do { m \<leftarrow> store m (buffer + scast digits) (ucast (48 + dig));
                      Some (digits + 1, m) })
           else Some (digits, m));
        if 0 \<le> pos then utoh_loop m buffer inn pos digits else Some (digits, m) })"

definition utoh_r :: "mem \<Rightarrow> i64 \<Rightarrow> addr \<Rightarrow> (i32 \<times> mem) option" where
  "utoh_r m inn buffer = do {
     (digits, m) \<leftarrow> utoh_loop m buffer inn 60 0;
     m \<leftarrow> store m (buffer + scast digits) 0;
     Some (digits, m) }"

definition utoh :: "addr \<Rightarrow> mem \<Rightarrow> i64 \<Rightarrow> (addr \<times> mem) option" where
  "utoh itoa_buffer m inn = do { (_, m) \<leftarrow> utoh_r m inn itoa_buffer; Some (itoa_buffer, m) }"

text \<open>
  \<open>long8\<close> is the compile-time test \<^verbatim>\<open>sizeof(long) >= 8\<close>; the other branch is
  what 32-bit targets run.
\<close>

definition u64toh_dig :: "bool \<Rightarrow> i64 \<Rightarrow> int \<Rightarrow> i32" where
  "u64toh_dig long8 inn pos =
     (if long8 then ucast (drop_bit (nat pos) inn AND 0xF)
      else let d = (if 32 \<le> pos then ucast (drop_bit 32 inn) else ucast inn) :: i32 in
        drop_bit (nat (pos AND 31)) d AND 0xF)"

partial_function (option) u64toh_loop :: "bool \<Rightarrow> mem \<Rightarrow> addr \<Rightarrow> i64 \<Rightarrow> int \<Rightarrow> i32 \<Rightarrow> (i32 \<times> mem) option" where
  "u64toh_loop long8 m buffer inn pos digits =
     (let dig = u64toh_dig long8 inn pos;
          dig = (if 9 <s dig then dig + (97 - 48 - 10) else dig);
          pos = pos - 4 in
      do {
        (digits, m) \<leftarrow>
          (if dig \<noteq> 0 \<or> digits \<noteq> 0 \<or> pos < 0
           then do { m \<leftarrow> store m (buffer + scast digits) (ucast (48 + dig));
                     Some (digits + 1, m) }
           else Some (digits, m));
        if 0 \<le> pos then u64toh_loop long8 m buffer inn pos digits else Some (digits, m) })"

definition u64toh_r :: "bool \<Rightarrow> mem \<Rightarrow> i64 \<Rightarrow> addr \<Rightarrow> (i32 \<times> mem) option" where
  "u64toh_r long8 m inn buffer = do {
     (digits, m) \<leftarrow> u64toh_loop long8 m buffer inn 60 0;
     m \<leftarrow> store m (buffer + scast digits) 0;
     Some (digits, m) }"

definition u64toh :: "bool \<Rightarrow> addr \<Rightarrow> mem \<Rightarrow> i64 \<Rightarrow> (addr \<times> mem) option" where
  "u64toh long8 itoa_buffer m inn = do {
     (_, m) \<leftarrow> u64toh_r long8 m inn itoa_buffer; Some (itoa_buffer, m) }"

subsection \<open>Decimal\<close>

text \<open>
  \<^verbatim>\<open>for (dig = 0, lim = 1; dig < pos; dig++) lim *= 10\<close> and
  \<^verbatim>\<open>for (dig = 0; in >= lim; dig++) in -= lim\<close>.
\<close>

function lim_loop :: "int \<Rightarrow> int \<Rightarrow> i64 \<Rightarrow> i64" where
  "lim_loop dig pos lim = (if dig < pos then lim_loop (dig + 1) pos (lim * 10) else lim)"
  by pat_completeness auto
termination lim_loop
  by (relation "measure (\<lambda>(dig, pos, lim). nat (pos - dig))") auto

declare lim_loop.simps [simp del]

partial_function (option) sub_loop :: "i64 \<Rightarrow> i64 \<Rightarrow> i32 \<Rightarrow> (i64 \<times> i32) option" where
  "sub_loop inn lim dig =
     (if lim \<le> inn then sub_loop (inn - lim) lim (dig + 1) else Some (inn, dig))"

partial_function (option) utoa_loop :: "mem \<Rightarrow> addr \<Rightarrow> i64 \<Rightarrow> int \<Rightarrow> i32 \<Rightarrow> (i32 \<times> mem) option" where
  "utoa_loop m buffer inn pos digits =
     (let lim = lim_loop 0 pos 1 in
      do {
        (inn, digits, m) \<leftarrow>
          (if digits \<noteq> 0 \<or> lim \<le> inn \<or> pos = 0
           then do { (inn, dig) \<leftarrow> sub_loop inn lim 0;
                     m \<leftarrow> store m (buffer + scast digits) (ucast (48 + dig));
                     Some (inn, digits + 1, m) }
           else Some (inn, digits, m));
        if pos \<noteq> 0 then utoa_loop m buffer inn (pos - 1) digits else Some (digits, m) })"

definition utoa_r :: "mem \<Rightarrow> i64 \<Rightarrow> addr \<Rightarrow> (i32 \<times> mem) option" where
  "utoa_r m inn buffer = do {
     (digits, m) \<leftarrow> utoa_loop m buffer inn 19 0;
     m \<leftarrow> store m (buffer + scast digits) 0;
     Some (digits, m) }"

definition itoa_r :: "mem \<Rightarrow> i64 \<Rightarrow> addr \<Rightarrow> (i32 \<times> mem) option" where
  "itoa_r m inn buffer =
     (if inn <s 0
      then do {
        m \<leftarrow> store m buffer 45;
        (len, m) \<leftarrow> utoa_r m (- inn) (buffer + 1);
        Some (1 + len, m) }
      else do { (len, m) \<leftarrow> utoa_r m inn buffer; Some (0 + len, m) })"

definition ltoa_r :: "mem \<Rightarrow> i64 \<Rightarrow> addr \<Rightarrow> (addr \<times> mem) option" where
  "ltoa_r m inn buffer = do { (_, m) \<leftarrow> itoa_r m inn buffer; Some (buffer, m) }"

definition itoa :: "addr \<Rightarrow> mem \<Rightarrow> i64 \<Rightarrow> (addr \<times> mem) option" where
  "itoa itoa_buffer m inn = do { (_, m) \<leftarrow> itoa_r m inn itoa_buffer; Some (itoa_buffer, m) }"

definition ltoa :: "addr \<Rightarrow> mem \<Rightarrow> i64 \<Rightarrow> (addr \<times> mem) option" where
  "ltoa itoa_buffer m inn = do { (_, m) \<leftarrow> itoa_r m inn itoa_buffer; Some (itoa_buffer, m) }"

definition utoa :: "addr \<Rightarrow> mem \<Rightarrow> i64 \<Rightarrow> (addr \<times> mem) option" where
  "utoa itoa_buffer m inn = do { (_, m) \<leftarrow> utoa_r m inn itoa_buffer; Some (itoa_buffer, m) }"

partial_function (option) u64toa_loop :: "mem \<Rightarrow> addr \<Rightarrow> i64 \<Rightarrow> int \<Rightarrow> i32 \<Rightarrow> (i32 \<times> mem) option" where
  "u64toa_loop m buffer inn pos digits =
     (let lim = lim_loop 0 pos 1 in
      do {
        (inn, digits, m) \<leftarrow>
          (if digits \<noteq> 0 \<or> lim \<le> inn \<or> pos = 0
           then do { (inn, dig) \<leftarrow> sub_loop inn lim 0;
                     m \<leftarrow> store m (buffer + scast digits) (ucast (48 + dig));
                     Some (inn, digits + 1, m) }
           else Some (inn, digits, m));
        if pos \<noteq> 0 then u64toa_loop m buffer inn (pos - 1) digits else Some (digits, m) })"

definition u64toa_r :: "mem \<Rightarrow> i64 \<Rightarrow> addr \<Rightarrow> (i32 \<times> mem) option" where
  "u64toa_r m inn buffer = do {
     (digits, m) \<leftarrow> u64toa_loop m buffer inn 19 0;
     m \<leftarrow> store m (buffer + scast digits) 0;
     Some (digits, m) }"

definition i64toa_r :: "mem \<Rightarrow> i64 \<Rightarrow> addr \<Rightarrow> (i32 \<times> mem) option" where
  "i64toa_r m inn buffer =
     (if inn <s 0
      then do {
        m \<leftarrow> store m buffer 45;
        (len, m) \<leftarrow> u64toa_r m (- inn) (buffer + 1);
        Some (1 + len, m) }
      else do { (len, m) \<leftarrow> u64toa_r m inn buffer; Some (0 + len, m) })"

definition i64toa :: "addr \<Rightarrow> mem \<Rightarrow> i64 \<Rightarrow> (addr \<times> mem) option" where
  "i64toa itoa_buffer m inn = do { (_, m) \<leftarrow> i64toa_r m inn itoa_buffer; Some (itoa_buffer, m) }"

definition u64toa :: "addr \<Rightarrow> mem \<Rightarrow> i64 \<Rightarrow> (addr \<times> mem) option" where
  "u64toa itoa_buffer m inn = do { (_, m) \<leftarrow> u64toa_r m inn itoa_buffer; Some (itoa_buffer, m) }"

end
