(* ===== verification/ConvFacts.thy ===== *)
theory ConvFacts
  imports Conv
begin

section \<open>stdlib.h: the text the conversions produce\<close>

text \<open>
  The locale \<open>radix_loop\<close> is the contract of a loop that emits one digit per turn from the
  most significant one; the decimal and the hexadecimal loops are its interpretations.
\<close>

subsection \<open>Positional notation\<close>

text \<open>
  \<open>digits_in b n\<close> is the usual text of \<open>n\<close> in base \<open>b\<close>, without leading zeros;
  \<open>fix_digits b k n\<close> the last \<open>k\<close> digits, zeros included, most significant first.
\<close>

definition digit :: "nat \<Rightarrow> byte" where
  "digit d = (if d < 10 then of_nat (48 + d) else of_nat (87 + d))"

fun digits_in :: "nat \<Rightarrow> nat \<Rightarrow> byte list" where
  "digits_in b n =
     (if n < b \<or> b < 2 then [digit n] else digits_in b (n div b) @ [digit (n mod b)])"

declare digits_in.simps [simp del]

primrec fix_digits :: "nat \<Rightarrow> nat \<Rightarrow> nat \<Rightarrow> byte list" where
  "fix_digits b 0 n = []"
| "fix_digits b (Suc k) n = digit (n div b ^ k) # fix_digits b k (n mod b ^ k)"

lemma length_fix_digits [simp]: "length (fix_digits b k n) = k"
  by (induction k arbitrary: n) auto

lemma fix_digits_snoc:
  "0 < b \<Longrightarrow> n < b ^ Suc k \<Longrightarrow>
   fix_digits b (Suc k) n = fix_digits b k (n div b) @ [digit (n mod b)]"
proof (induction k arbitrary: n)
  case 0
  then show ?case by simp
next
  case (Suc k)
  have r: "n mod b ^ Suc k < b ^ Suc k" using Suc.prems(1) by simp
  have 1: "n div b ^ Suc k = n div b div b ^ k"
    by (simp add: div_mult2_eq)
  have 2: "n mod b ^ Suc k mod b = n mod b"
    by (simp add: mod_mod_cancel)
  have 3: "n mod b ^ Suc k div b = n div b mod b ^ k"
    using Suc.prems(1) by (simp add: mod_mult2_eq)
  have "fix_digits b (Suc (Suc k)) n =
      digit (n div b ^ Suc k) # fix_digits b (Suc k) (n mod b ^ Suc k)"
    by (rule fix_digits.simps(2))
  also have "fix_digits b (Suc k) (n mod b ^ Suc k) =
      fix_digits b k (n mod b ^ Suc k div b) @ [digit (n mod b ^ Suc k mod b)]"
    using Suc.prems(1) r by (rule Suc.IH)
  finally show ?case
    by (simp only: 1 2 3 fix_digits.simps append_Cons)
qed

lemma digits_in_fix:
  "2 \<le> b \<Longrightarrow> b ^ k \<le> n \<Longrightarrow> n < b ^ Suc k \<Longrightarrow> digits_in b n = fix_digits b (Suc k) n"
proof (induction k arbitrary: n)
  case 0
  then show ?case by (subst digits_in.simps) simp
next
  case (Suc k)
  have "b \<le> b ^ Suc k" using Suc.prems(1) by (simp add: self_le_power)
  then have "b \<le> n" using Suc.prems(2) by (rule order_trans)
  then have "digits_in b n = digits_in b (n div b) @ [digit (n mod b)]"
    using Suc.prems(1) by (subst digits_in.simps) simp
  also have "digits_in b (n div b) = fix_digits b (Suc k) (n div b)"
    using Suc.prems by (intro Suc.IH) (simp_all add: less_mult_imp_div_less less_eq_div_iff_mult_less_eq mult.commute)
  finally show ?case
    using Suc.prems by (subst fix_digits_snoc) simp_all
qed

lemma digits_in_small: "n < b \<Longrightarrow> digits_in b n = [digit n]"
  by (subst digits_in.simps) simp

lemma length_digits_in:
  "2 \<le> b \<Longrightarrow> n < b ^ Suc k \<Longrightarrow> length (digits_in b n) \<le> Suc k"
proof (induction k arbitrary: n)
  case 0
  then show ?case by (simp add: digits_in_small)
next
  case (Suc k)
  show ?case
  proof (cases "n < b")
    case True
    then show ?thesis by (simp add: digits_in_small)
  next
    case False
    then have "digits_in b n = digits_in b (n div b) @ [digit (n mod b)]"
      using Suc.prems(1) by (subst digits_in.simps) simp
    moreover have "length (digits_in b (n div b)) \<le> Suc k"
      using Suc.prems by (intro Suc.IH) (simp_all add: less_mult_imp_div_less mult.commute)
    ultimately show ?thesis by simp
  qed
qed

subsection \<open>The common shape of the printing loops\<close>

text \<open>
  All four loops print most significant digit first and skip leading zeros: at position
  \<open>k\<close> the digit is \<open>inn div b ^ k\<close>, and it is stored unless it is a leading zero that
  is not the last digit. \<open>loop\<close> is such a loop, \<open>top\<close> its first position.
\<close>

locale radix_loop =
  fixes b top :: nat
    and loop :: "mem \<Rightarrow> addr \<Rightarrow> i64 \<Rightarrow> nat \<Rightarrow> i32 \<Rightarrow> (i32 \<times> mem) option"
  assumes base: "2 \<le> b"
    and top_small: "top < 64"
    and top_enough: "2 ^ 64 \<le> b ^ Suc top"
    and loop_step: "unat inn < b ^ Suc k \<Longrightarrow> k \<le> top \<Longrightarrow>
      loop m buffer inn k digits =
        do { (digits, m) \<leftarrow>
               (if unat inn div b ^ k \<noteq> 0 \<or> digits \<noteq> 0 \<or> k = 0
                then do { m \<leftarrow> store m (buffer + scast digits) (digit (unat inn div b ^ k));
                          Some (digits + 1, m) }
                else Some (digits, m));
             if k \<noteq> 0 then loop m buffer (of_nat (unat inn mod b ^ k)) (k - 1) digits
             else Some (digits, m) }"
begin

text \<open>One step that stores a digit, and one that skips a leading zero.\<close>

lemma loop_put:
  assumes "unat inn < b ^ Suc k" and "k \<le> top"
    and "unat inn div b ^ k \<noteq> 0 \<or> 0 < d \<or> k = 0"
    and d: "d < 2 ^ 31" and m: "m (buffer + of_nat d) \<noteq> None"
  shows "loop m buffer inn k (of_nat d) =
    (let m' = m(buffer + of_nat d \<mapsto> digit (unat inn div b ^ k)) in
     if k \<noteq> 0 then loop m' buffer (of_nat (unat inn mod b ^ k)) (k - 1) (of_nat (Suc d))
     else Some (of_nat (Suc d), m'))"
proof -
  have "unat inn div b ^ k \<noteq> 0 \<or> (of_nat d :: i32) \<noteq> 0 \<or> k = 0"
    using assms(3) of_nat32_nonzero [OF _ d] by blast
  then show ?thesis
    by (subst loop_step [OF assms(1,2)])
      (simp add: scast_of_nat32 [OF d] m Let_def add.commute)
qed

lemma loop_skip:
  assumes "unat inn < b ^ Suc k" and "k \<le> top" and "unat inn div b ^ k = 0" and "k \<noteq> 0"
  shows "loop m buffer inn k 0 = loop m buffer inn (k - 1) 0"
proof -
  have "unat inn mod b ^ k = unat inn"
    using assms(3) base by (simp add: div_eq_0_iff)
  then show ?thesis
    using assms(3,4) by (subst loop_step [OF assms(1,2)]) simp
qed

lemma unat_rest: "unat (of_nat (unat (inn :: i64) mod n) :: i64) = unat inn mod n"
proof (rule unat_of_nat64)
  have "unat inn mod n \<le> unat inn" by (rule mod_less_eq_dividend)
  also have "unat inn < 2 ^ 64" by simp
  finally show "unat inn mod n < 2 ^ 64" .
qed

text \<open>Once a digit is out, the loop prints every remaining position.\<close>

lemma loop_rest:
  "unat inn < b ^ Suc k \<Longrightarrow> k \<le> top \<Longrightarrow> 0 < d \<Longrightarrow> d + Suc k < 2 ^ 31 \<Longrightarrow>
   mapped m (buffer + of_nat d) (Suc k) \<Longrightarrow>
   loop m buffer inn k (of_nat d) =
     Some (of_nat (d + Suc k), poke m (buffer + of_nat d) (fix_digits b (Suc k) (unat inn)))"
proof (induction k arbitrary: m inn d)
  case 0
  then show ?case
    using loop_put [of inn 0 d m buffer] by simp
next
  case (Suc k)
  let ?n = "unat inn" and ?a = "buffer + of_nat d"
  let ?m = "m(?a \<mapsto> digit (?n div b ^ Suc k))"
  have a: "buffer + of_nat (Suc d) = ?a + 1" by (simp add: algebra_simps)
  have m: "m ?a \<noteq> None" "mapped ?m (?a + 1) (Suc k)"
    using Suc.prems(5) by auto
  have lt: "?n mod b ^ Suc k < b ^ Suc k" using base by simp
  have "loop ?m buffer (of_nat (?n mod b ^ Suc k)) k (of_nat (Suc d)) =
      Some (of_nat (Suc d + Suc k), poke ?m (buffer + of_nat (Suc d))
        (fix_digits b (Suc k) (unat (of_nat (?n mod b ^ Suc k) :: i64))))"
    using Suc.prems(2,4) m(2) lt unfolding a [symmetric]
    by (intro Suc.IH) (simp_all add: unat_rest del: power_Suc fun_upd_apply)
  moreover have "loop m buffer inn (Suc k) (of_nat d) =
      loop ?m buffer (of_nat (?n mod b ^ Suc k)) k (of_nat (Suc d))"
    using loop_put [of inn "Suc k" d m buffer] Suc.prems m(1) by (simp add: Let_def)
  ultimately show ?case
    by (simp only: unat_rest a fix_digits.simps(2) [of b "Suc k"] poke.simps add_Suc add_Suc_right)
qed

lemma loop_digits:
  "unat inn < b ^ Suc k \<Longrightarrow> k \<le> top \<Longrightarrow> ds = digits_in b (unat inn) \<Longrightarrow>
   mapped m buffer (length ds) \<Longrightarrow>
   loop m buffer inn k 0 = Some (of_nat (length ds), poke m buffer ds)"
proof (induction k)
  case 0
  then have ds: "ds = [digit (unat inn)]" by (simp add: digits_in_small)
  have "m buffer \<noteq> None" using 0(4) by (simp only: ds) simp
  with 0(1,2) loop_put [of inn 0 0 m buffer] show ?case by (simp add: ds Let_def)
next
  case (Suc k)
  let ?n = "unat inn"
  show ?case
  proof (cases "b ^ Suc k \<le> ?n")
    case True
    then have q: "?n div b ^ Suc k \<noteq> 0" using base by (simp add: div_eq_0_iff)
    have ds: "ds = fix_digits b (Suc (Suc k)) ?n"
      unfolding Suc.prems(3) using base True Suc.prems(1) by (rule digits_in_fix)
    let ?m = "m(buffer \<mapsto> digit (?n div b ^ Suc k))"
    have mp: "mapped m buffer (Suc (Suc k))" using Suc.prems(4) by (simp only: ds length_fix_digits)
    have lt: "?n mod b ^ Suc k < b ^ Suc k" using base by simp
    have "mapped ?m (buffer + of_nat 1) (Suc k)" using mp by auto
    then have "loop ?m buffer (of_nat (?n mod b ^ Suc k)) k (of_nat 1) =
      Some (of_nat (1 + Suc k), poke ?m (buffer + of_nat 1)
        (fix_digits b (Suc k) (unat (of_nat (?n mod b ^ Suc k) :: i64))))"
      using Suc.prems(2) top_small lt
      by (intro loop_rest) (simp_all add: unat_rest del: power_Suc fun_upd_apply)
    moreover have "loop m buffer inn (Suc k) (of_nat 0) =
        loop ?m buffer (of_nat (?n mod b ^ Suc k)) k (of_nat 1)"
      using loop_put [of inn "Suc k" 0 m buffer] Suc.prems(1,2) q mp by (simp add: Let_def)
    ultimately show ?thesis
      by (simp del: power_Suc add: unat_rest ds)
  next
    case False
    then have "?n < b ^ Suc k" and "?n div b ^ Suc k = 0" by simp_all
    with Suc loop_skip [of inn "Suc k" m buffer] show ?thesis by simp
  qed
qed

text \<open>The conversion routine around the loop appends the terminator.\<close>

lemma printed:
  assumes ds: "ds = digits_in b (unat inn)" and mp: "mapped m buffer (Suc (length ds))"
  shows "do { (digits, m) \<leftarrow> loop m buffer inn top 0;
              m \<leftarrow> store m (buffer + scast digits) 0;
              Some (digits, m) } = Some (of_nat (length ds), poke m buffer (ds @ [0]))"
proof -
  have lt: "unat inn < b ^ Suc top"
    using order_less_le_trans [OF unat_lt64 [of inn]] top_enough by simp
  then have "length ds \<le> Suc top" unfolding ds by (rule length_digits_in [OF base])
  then have sc: "(scast (of_nat (length ds) :: i32) :: i64) = of_nat (length ds)"
    using top_small by (intro scast_of_nat32) simp
  have "loop m buffer inn top 0 = Some (of_nat (length ds), poke m buffer ds)"
    using lt order_refl ds mapped_mono [OF mp] by (intro loop_digits) simp_all
  moreover have "poke m buffer ds (buffer + of_nat (length ds)) \<noteq> None"
    using mapped_poke [of m "buffer + of_nat (length ds)" 1 buffer ds]
      mp mapped_add [of m buffer "length ds" 1] by simp
  ultimately show ?thesis by (simp add: sc poke_append)
qed

end

subsection \<open>The four printing loops\<close>

lemma ucast_digit: "d < 100 \<Longrightarrow> (ucast (of_nat d :: i32) :: byte) = of_nat d"
  by (simp add: unsigned_of_nat take_bit_nat_eq_self)

lemma lim_loop_eq: "lim_loop d (d + int k) l = l * 10 ^ k"
proof (induction k arbitrary: d l)
  case 0
  then show ?case by (subst lim_loop.simps) simp
next
  case (Suc k)
  have "lim_loop d (d + int (Suc k)) l = lim_loop (d + 1) ((d + 1) + int k) (l * 10)"
    by (subst lim_loop.simps) (simp add: algebra_simps)
  then show ?case by (simp only: Suc.IH) simp
qed

lemma unat_power10: "k < 20 \<Longrightarrow> unat (10 ^ k :: i64) = 10 ^ k"
proof -
  assume k: "k < 20"
  have "(10 :: nat) ^ k \<le> 10 ^ 19" using k by (intro power_increasing) simp_all
  also have "\<dots> < 2 ^ 64" by simp
  finally have "unat (of_nat (10 ^ k) :: i64) = 10 ^ k" by (rule unat_of_nat64)
  then show ?thesis by simp
qed

lemma sub_loop_eq:
  "0 < lim \<Longrightarrow>
   sub_loop inn lim dig =
     Some (of_nat (unat inn mod unat lim), dig + of_nat (unat inn div unat lim))"
proof (induction "unat inn" arbitrary: inn dig rule: less_induct)
  case less
  have l: "0 < unat lim" using less.prems by (simp add: word_less_nat_alt)
  show ?case
  proof (cases "lim \<le> inn")
    case True
    then have ge: "unat lim \<le> unat inn" by (simp add: word_le_nat_alt)
    have u: "unat (inn - lim) = unat inn - unat lim"
      using True by (rule unat_sub)
    have "sub_loop inn lim dig = sub_loop (inn - lim) lim (dig + 1)"
      using True by (subst sub_loop.simps) simp
    also have "\<dots> = Some (of_nat ((unat inn - unat lim) mod unat lim),
        dig + 1 + of_nat ((unat inn - unat lim) div unat lim))"
      using less.hyps [of "inn - lim"] less.prems l ge by (simp add: u)
    also have "(unat inn - unat lim) mod unat lim = unat inn mod unat lim"
      using ge by (simp add: le_mod_geq)
    also have "(unat inn - unat lim) div unat lim = unat inn div unat lim - 1"
      using ge l by (simp add: le_div_geq)
    also have "dig + 1 + of_nat (unat inn div unat lim - 1) =
        dig + of_nat (unat inn div unat lim)"
    proof -
      have "1 \<le> unat inn div unat lim" using ge l by (simp add: le_div_geq)
      then show ?thesis by (simp add: of_nat_diff)
    qed
    finally show ?thesis .
  next
    case False
    then have "unat inn < unat lim" by (simp add: word_le_nat_alt)
    then show ?thesis using False by (subst sub_loop.simps) simp
  qed
qed

text \<open>
  \<^verbatim>\<open>utoa_r\<close> and \<^verbatim>\<open>u64toa_r\<close> have the same loop on LP64, so its step is proved
  for any solution \<open>loop\<close> of the equation the code gives.
\<close>

lemma decimal_step:
  assumes "unat inn < 10 ^ Suc k" and k: "k \<le> 19"
    and rec: "\<And>m buffer inn pos digits. loop m buffer inn pos digits =
      (let lim = lim_loop 0 pos 1 in
       do {
         (inn, digits, m) \<leftarrow>
           (if digits \<noteq> (0 :: i32) \<or> lim \<le> inn \<or> pos = 0
            then do { (inn, dig) \<leftarrow> sub_loop inn lim 0;
                      m \<leftarrow> store m (buffer + scast digits) (ucast (48 + dig));
                      Some (inn, digits + 1, m) }
            else Some (inn, digits, m));
         if pos \<noteq> 0 then loop m buffer inn (pos - 1) digits else Some (digits, m) })"
  shows "loop m buffer inn (int k) digits =
    do { (digits, m) \<leftarrow>
           (if unat inn div 10 ^ k \<noteq> 0 \<or> digits \<noteq> 0 \<or> k = 0
            then do { m \<leftarrow> store m (buffer + scast digits) (digit (unat inn div 10 ^ k));
                      Some (digits + 1, m) }
            else Some (digits, m));
         if k \<noteq> 0 then loop m buffer (of_nat (unat inn mod 10 ^ k)) (int (k - 1)) digits
         else Some (digits, m) }"
proof -
  let ?lim = "10 ^ k :: i64"
  have lim: "lim_loop 0 (int k) 1 = ?lim" using lim_loop_eq [of 0 k 1] by simp
  have ul: "unat ?lim = 10 ^ k" using k by (intro unat_power10) simp
  have q: "unat inn div 10 ^ k < 10" using assms by (simp add: less_mult_imp_div_less)
  have dg: "ucast (48 + of_nat (unat inn div 10 ^ k) :: i32) = digit (unat inn div 10 ^ k)"
    using ucast_digit [of "48 + unat inn div 10 ^ k"] q by (simp add: digit_def)
  have le: "?lim \<le> inn \<longleftrightarrow> unat inn div 10 ^ k \<noteq> 0"
    by (simp add: word_le_nat_alt ul div_eq_0_iff not_less)
  have "0 < ?lim" by (simp add: word_less_nat_alt ul)
  then have sub: "sub_loop inn ?lim 0 =
      Some (of_nat (unat inn mod 10 ^ k), of_nat (unat inn div 10 ^ k))"
    by (simp add: sub_loop_eq ul)
  have cond: "(digits \<noteq> 0 \<or> ?lim \<le> inn \<or> k = 0) \<longleftrightarrow>
      (unat inn div 10 ^ k \<noteq> 0 \<or> digits \<noteq> 0 \<or> k = 0)"
    by (subst le) blast
  have kk: "k \<noteq> 0 \<Longrightarrow> int k - 1 = int (k - 1)" by simp
  show ?thesis
  proof (cases "unat inn div 10 ^ k \<noteq> 0 \<or> digits \<noteq> 0 \<or> k = 0")
    case True
    then show ?thesis
      by (subst rec)
        (simp only: lim cond if_True sub dg Let_def bind_assoc bind.bind_lunit prod.case
          of_nat_eq_0_iff kk simp_thms cong: if_cong)
  next
    case False
    then have same: "unat inn mod 10 ^ k = unat inn"
      by (simp add: div_eq_0_iff)
    from False show ?thesis
      by (subst rec)
        (simp only: lim cond if_False Let_def bind.bind_lunit prod.case same
          of_nat_eq_0_iff kk word_of_unat simp_thms cong: if_cong)
  qed
qed

lemma hex_digit:
  "q < 16 \<Longrightarrow>
   (let dig = of_nat q :: i32;
        dig = (if 9 <s dig then dig + (97 - 48 - 10) else dig) in
    ucast (48 + dig)) = digit q"
proof -
  have "\<forall>q \<in> set [0..<16].
     (let dig = of_nat q :: i32;
          dig = (if 9 <s dig then dig + (97 - 48 - 10) else dig) in
      ucast (48 + dig)) = digit q"
    by code_simp
  then show "q < 16 \<Longrightarrow> ?thesis" by simp
qed

lemma hex_rest:
  assumes lt: "unat inn < 16 ^ Suc k"
  shows "(ucast (drop_bit (4 * k) inn) :: i32) = of_nat (unat inn div 16 ^ k)"
    and "inn - push_bit (4 * k) (scast (ucast (drop_bit (4 * k) inn) :: i32) :: i64) =
      of_nat (unat inn mod 16 ^ k)"
proof -
  let ?q = "unat inn div 16 ^ k" and ?d = "ucast (drop_bit (4 * k) inn) :: i32"
  have q: "?q < 16" using lt by (simp add: less_mult_imp_div_less)
  have "drop_bit (4 * k) inn = of_nat (unat (drop_bit (4 * k) inn))"
    by (rule word_of_unat [symmetric])
  also have "unat (drop_bit (4 * k) inn) = ?q"
    by (simp only: unat_drop_bit_eq) (simp add: drop_bit_eq_div power_mult)
  finally show d: "?d = of_nat ?q"
    using q by (simp add: unsigned_of_nat take_bit_nat_eq_self)
  have "(scast ?d :: i64) = of_nat ?q"
    unfolding d using q by (intro scast_of_nat32) simp
  then have "push_bit (4 * k) (scast ?d :: i64) = of_nat (?q * 16 ^ k)"
    by (simp only:) (simp add: push_bit_eq_mult power_mult)
  moreover have "inn = of_nat (?q * 16 ^ k + unat inn mod 16 ^ k)"
    by (simp only: div_mult_mod_eq word_of_unat)
  ultimately show "inn - push_bit (4 * k) (scast ?d) = of_nat (unat inn mod 16 ^ k)"
    by (metis add_diff_cancel_left' of_nat_add)
qed

lemma utoh_loop_step:
  assumes lt: "unat inn < 16 ^ Suc k"
  shows "utoh_loop m buffer inn (int (4 * k)) digits =
    do { (digits, m) \<leftarrow>
           (if unat inn div 16 ^ k \<noteq> 0 \<or> digits \<noteq> 0 \<or> k = 0
            then do { m \<leftarrow> store m (buffer + scast digits) (digit (unat inn div 16 ^ k));
                      Some (digits + 1, m) }
            else Some (digits, m));
         if k \<noteq> 0 then utoh_loop m buffer (of_nat (unat inn mod 16 ^ k)) (int (4 * (k - 1))) digits
         else Some (digits, m) }"
proof -
  let ?q = "unat inn div 16 ^ k" and ?d = "ucast (drop_bit (4 * k) inn) :: i32"
  have q: "?q < 16" using lt by (simp add: less_mult_imp_div_less)
  note d = hex_rest(1) [OF lt] and rest = hex_rest(2) [OF lt]
  have nz: "(of_nat ?q :: i32) \<noteq> 0 \<longleftrightarrow> ?q \<noteq> 0"
  proof (cases "?q = 0")
    case False
    then have "(of_nat ?q :: i32) \<noteq> 0"
      using q by (intro of_nat32_nonzero) simp_all
    with False show ?thesis by blast
  next
    case True
    show ?thesis unfolding True by simp
  qed
  have pos: "nat (int (4 * k)) = 4 * k" "int (4 * k) - 4 < 0 \<longleftrightarrow> k = 0"
    "0 \<le> int (4 * k) - 4 \<longleftrightarrow> k \<noteq> 0" "k \<noteq> 0 \<Longrightarrow> int (4 * k) - 4 = int (4 * (k - 1))"
    by auto
  show ?thesis
    by (subst utoh_loop.simps)
      (simp only: pos d [symmetric] rest nz [unfolded d [symmetric]] Let_def
        hex_digit [OF q, unfolded Let_def, unfolded d [symmetric]] simp_thms cong: if_cong)
qed

text \<open>
  \<^verbatim>\<open>u64toh_r\<close> never clears the digits it has printed, \<^verbatim>\<open>utoh_r\<close> does. At
  position \<open>4 * k\<close> both see the same digit, on 64-bit and on 32-bit targets.
\<close>

lemma bit_and_15: "bit (w AND 0xF) n \<longleftrightarrow> bit (w :: 'a::len word) n \<and> n < 4"
proof -
  have "w AND 0xF = take_bit 4 w" by (simp add: take_bit_eq_mask mask_eq_exp_minus_1)
  then show ?thesis by (simp add: bit_take_bit_iff conj_commute)
qed

lemma u64toh_dig_eq:
  assumes "k < 16"
  shows "u64toh_dig long8 inn (int (4 * k)) = ucast (drop_bit (4 * k) (take_bit (4 * k + 4) inn))"
proof -
  have n: "nat (4 * int k) = 4 * k" by simp
  have a: "nat (4 * int k AND 31) = 4 * k mod 32"
  proof -
    have "int (4 * k) AND 31 = int (4 * k) mod 32"
      using take_bit_eq_mask [of 5 "int (4 * k)"] by (simp add: take_bit_eq_mod mask_eq_exp_minus_1)
    also have "\<dots> = int (4 * k mod 32)" by (simp only: zmod_int of_nat_numeral)
    finally show ?thesis by (simp only: of_nat_mult of_nat_numeral nat_int)
  qed
  have c: "32 \<le> int (4 * k) \<longleftrightarrow> 8 \<le> k" by linarith
  show ?thesis
  proof (rule bit_word_eqI)
    fix i assume "i < LENGTH(32)"
    then have i: "i < 32" by simp
    show "bit (u64toh_dig long8 inn (int (4 * k))) i =
        bit (ucast (drop_bit (4 * k) (take_bit (4 * k + 4) inn)) :: i32) i"
    proof (cases "i < 4")
      case True
      have "8 \<le> k \<Longrightarrow> 4 * k mod 32 = 4 * k - 32" "\<not> 8 \<le> k \<Longrightarrow> 4 * k mod 32 = 4 * k"
        using assms by (simp_all add: mod_if)
      then show ?thesis
        using True i assms
        by (auto simp: u64toh_dig_def Let_def bit_and_15 bit_unsigned_iff bit_drop_bit_eq
            bit_take_bit_iff n a c)
    next
      case False
      then show ?thesis
        by (simp add: u64toh_dig_def Let_def bit_and_15 bit_unsigned_iff bit_drop_bit_eq
            bit_take_bit_iff)
    qed
  qed
qed

lemma hex_letter_nonzero:
  "(if 9 <s d then d + (97 - 48 - 10) else d) = 0 \<longleftrightarrow> d = (0 :: i32)"
proof -
  have "d + 39 = 0 \<Longrightarrow> d = - 39" by (simp add: eq_neg_iff_add_eq_0)
  moreover have "\<not> 9 <s (- 39 :: i32)" and "\<not> 9 <s (0 :: i32)" by code_simp+
  ultimately show ?thesis by auto
qed

lemma u64toh_loop_eq:
  "k < 16 \<Longrightarrow> u64toh_loop long8 m buffer inn (int (4 * k)) digits =
     utoh_loop m buffer (take_bit (4 * k + 4) inn) (int (4 * k)) digits"
proof (induction k arbitrary: m digits)
  case 0
  let ?i = "take_bit (4 * 0 + 4) inn"
  have "u64toh_dig long8 inn (int (4 * 0)) = ucast (drop_bit (4 * 0) ?i)"
    by (rule u64toh_dig_eq) simp
  then show ?case
    by (subst u64toh_loop.simps, subst utoh_loop.simps) (simp add: Let_def)
next
  case (Suc k)
  let ?k = "4 * Suc k"
  let ?i = "take_bit (?k + 4) inn"
  have dg: "u64toh_dig long8 inn (int ?k) = ucast (drop_bit ?k ?i)"
    using Suc.prems by (rule u64toh_dig_eq)
  have "unat ?i < 2 ^ (?k + 4)"
    by (simp only: unsigned_take_bit_eq take_bit_nat_less_exp)
  also have "(2 :: nat) ^ (?k + 4) = 16 ^ Suc (Suc k)"
    by (simp add: power_add power_mult)
  finally have "?i - push_bit ?k (scast (ucast (drop_bit ?k ?i) :: i32)) =
      of_nat (unat ?i mod 16 ^ Suc k)"
    by (rule hex_rest(2))
  also have "\<dots> = of_nat (unat (take_bit ?k ?i))"
    by (simp only: unsigned_take_bit_eq)
      (simp add: take_bit_eq_mod power_mult del: power_Suc of_nat_unat mult_Suc_right)
  also have "\<dots> = take_bit (4 * k + 4) inn"
    by (simp add: add.commute)
  finally have rest: "?i - push_bit ?k (scast (ucast (drop_bit ?k ?i) :: i32)) =
      take_bit (4 * k + 4) inn" .
  have pos: "int ?k - 4 = int (4 * k)" "nat (int ?k) = ?k" by simp_all
  show ?case
    by (subst u64toh_loop.simps, subst utoh_loop.simps)
      (simp only: pos dg rest Let_def hex_letter_nonzero Suc.IH [OF Suc_lessD [OF Suc.prems]])
qed

text \<open>All four routines print the same way.\<close>

interpretation utoa: radix_loop 10 19 "\<lambda>m buffer inn k. utoa_loop m buffer inn (int k)"
proof unfold_locales
  fix inn :: i64 and k m buffer digits
  assume lt: "unat inn < 10 ^ Suc k" and "k \<le> 19"
  then show "utoa_loop m buffer inn (int k) digits =
    do { (digits, m) \<leftarrow>
           (if unat inn div 10 ^ k \<noteq> 0 \<or> digits \<noteq> 0 \<or> k = 0
            then do { m \<leftarrow> store m (buffer + scast digits) (digit (unat inn div 10 ^ k));
                      Some (digits + 1, m) }
            else Some (digits, m));
         if k \<noteq> 0 then utoa_loop m buffer (of_nat (unat inn mod 10 ^ k)) (int (k - 1)) digits
         else Some (digits, m) }"
    by (rule decimal_step [OF _ _ utoa_loop.simps])
qed simp_all

interpretation u64toa: radix_loop 10 19 "\<lambda>m buffer inn k. u64toa_loop m buffer inn (int k)"
proof unfold_locales
  fix inn :: i64 and k m buffer digits
  assume lt: "unat inn < 10 ^ Suc k" and "k \<le> 19"
  then show "u64toa_loop m buffer inn (int k) digits =
    do { (digits, m) \<leftarrow>
           (if unat inn div 10 ^ k \<noteq> 0 \<or> digits \<noteq> 0 \<or> k = 0
            then do { m \<leftarrow> store m (buffer + scast digits) (digit (unat inn div 10 ^ k));
                      Some (digits + 1, m) }
            else Some (digits, m));
         if k \<noteq> 0 then u64toa_loop m buffer (of_nat (unat inn mod 10 ^ k)) (int (k - 1)) digits
         else Some (digits, m) }"
    by (rule decimal_step [OF _ _ u64toa_loop.simps])
qed simp_all

interpretation utoh: radix_loop 16 15 "\<lambda>m buffer inn k. utoh_loop m buffer inn (int (4 * k))"
proof unfold_locales
  fix inn :: i64 and k m buffer digits
  assume lt: "unat inn < 16 ^ Suc k" and "k \<le> 15"
  from lt show "utoh_loop m buffer inn (int (4 * k)) digits =
    do { (digits, m) \<leftarrow>
           (if unat inn div 16 ^ k \<noteq> 0 \<or> digits \<noteq> 0 \<or> k = 0
            then do { m \<leftarrow> store m (buffer + scast digits) (digit (unat inn div 16 ^ k));
                      Some (digits + 1, m) }
            else Some (digits, m));
         if k \<noteq> 0 then utoh_loop m buffer (of_nat (unat inn mod 16 ^ k)) (int (4 * (k - 1))) digits
         else Some (digits, m) }"
    by (rule utoh_loop_step)
qed simp_all

subsection \<open>The conversion routines\<close>

text \<open>A decimal conversion needs at most 20 digits, a hexadecimal one 16.\<close>

lemmas length_decimal = length_digits_in [of 10 _ 19, simplified]
lemmas length_hexadecimal = length_digits_in [of 16 _ 15, simplified]

lemma utoa_r_prints:
  "ds = digits_in 10 (unat inn) \<Longrightarrow> mapped m buffer (Suc (length ds)) \<Longrightarrow>
   utoa_r m inn buffer = Some (of_nat (length ds), poke m buffer (ds @ [0]))"
  using utoa.printed [of ds inn m buffer] by (simp add: utoa_r_def)

lemma u64toa_r_prints:
  "ds = digits_in 10 (unat inn) \<Longrightarrow> mapped m buffer (Suc (length ds)) \<Longrightarrow>
   u64toa_r m inn buffer = Some (of_nat (length ds), poke m buffer (ds @ [0]))"
  using u64toa.printed [of ds inn m buffer] by (simp add: u64toa_r_def)

lemma utoh_r_prints:
  "ds = digits_in 16 (unat inn) \<Longrightarrow> mapped m buffer (Suc (length ds)) \<Longrightarrow>
   utoh_r m inn buffer = Some (of_nat (length ds), poke m buffer (ds @ [0]))"
  using utoh.printed [of ds inn m buffer] by (simp add: utoh_r_def)

lemma u64toh_r_eq: "u64toh_r long8 m inn buffer = utoh_r m inn buffer"
proof -
  have "take_bit (4 * 15 + 4) inn = inn" by (simp add: take_bit_word_eq_self)
  then show ?thesis
    using u64toh_loop_eq [of 15 long8 m buffer inn 0] by (simp add: u64toh_r_def utoh_r_def)
qed

text \<open>The text of a signed number.\<close>

definition int_text :: "int \<Rightarrow> byte list" where
  "int_text i = (if i < 0 then 45 # digits_in 10 (nat (- i)) else digits_in 10 (nat i))"

lemma unat_nonneg: "0 \<le> sint inn \<Longrightarrow> unat inn = nat (sint inn)" for inn :: i64
proof -
  assume nn: "0 \<le> sint inn"
  have "uint inn = sint inn mod 2 ^ 64"
    using uint_word_of_int [of "sint inn", where 'a = 64] by simp
  also have "\<dots> = sint inn"
    using nn sint_lt [of inn] by (intro mod_pos_pos_trivial) simp_all
  finally show ?thesis by (simp only: unat_eq_nat_uint)
qed

lemma unat_neg: "sint inn < 0 \<Longrightarrow> unat (- inn) = nat (- sint inn)" for inn :: i64
proof -
  assume neg: "sint inn < 0"
  have "- inn = of_int (- sint inn)" by simp
  then have "uint (- inn) = (- sint inn) mod 2 ^ 64"
    by (simp only: uint_word_of_int) simp
  also have "\<dots> = - sint inn"
    using neg sint_ge [of inn] by (intro mod_pos_pos_trivial) simp_all
  finally show ?thesis by (simp only: unat_eq_nat_uint)
qed

lemma length_int_text: "length (int_text (sint (inn :: i64))) \<le> 20"
proof -
  have short: "length (digits_in 10 n) \<le> 19" if "n \<le> 2 ^ 63" for n
    using that length_digits_in [of 10 n 18] by simp
  then have "length (digits_in 10 n) \<le> 20" if "n \<le> 2 ^ 63" for n
    using short [OF that] by simp
  moreover have "- (2 ^ 63) \<le> sint inn" "sint inn < 2 ^ 63"
    using sint_ge [of inn] sint_lt [of inn] by simp_all
  ultimately show ?thesis
    using short by (auto simp: int_text_def nat_le_iff)
qed

lemma itoa_r_prints:
  assumes ds: "ds = int_text (sint inn)" and mp: "mapped m buffer (Suc (length ds))"
  shows "itoa_r m inn buffer = Some (of_nat (length ds), poke m buffer (ds @ [0]))"
proof (cases "sint inn < 0")
  case True
  then have u: "unat (- inn) = nat (- sint inn)" by (rule unat_neg)
  have ds: "ds = 45 # digits_in 10 (unat (- inn))"
    using ds True by (simp add: int_text_def u)
  have m: "m buffer \<noteq> None"
    "mapped (m(buffer \<mapsto> 45)) (buffer + 1) (Suc (length (digits_in 10 (unat (- inn)))))"
    using mp by (auto simp: ds)
  from m(2) have "utoa_r (m(buffer \<mapsto> 45)) (- inn) (buffer + 1) =
      Some (of_nat (length (digits_in 10 (unat (- inn)))),
        poke (m(buffer \<mapsto> 45)) (buffer + 1) (digits_in 10 (unat (- inn)) @ [0]))"
    by (rule utoa_r_prints [OF refl])
  with True m(1) show ?thesis by (simp add: itoa_r_def word_sless_alt ds)
next
  case False
  then have u: "unat inn = nat (sint inn)" by (intro unat_nonneg) simp
  have ds: "ds = digits_in 10 (unat inn)"
    using ds False by (simp add: int_text_def u)
  from utoa_r_prints [OF this mp] False show ?thesis
    by (simp add: itoa_r_def word_sless_alt)
qed

subsection \<open>Reading a number back\<close>

definition is_digit :: "byte \<Rightarrow> bool" where
  "is_digit c \<longleftrightarrow> 48 \<le> unat c \<and> unat c \<le> 57"

definition dec_value :: "byte list \<Rightarrow> nat" where
  "dec_value ds = foldl (\<lambda>n c. n * 10 + (unat c - 48)) 0 ds"

lemma dec_value_snoc [simp]: "dec_value (ds @ [c]) = dec_value ds * 10 + (unat c - 48)"
  by (simp add: dec_value_def)

lemma digit_decimal: "k < 10 \<Longrightarrow> unat (digit k) = 48 + k"
proof -
  assume k: "k < 10"
  then have "unat (of_nat (48 + k) :: byte) = 48 + k" by (intro unat_of_nat_lt) simp
  with k show ?thesis by (simp add: digit_def)
qed

lemma dec_value_digits_in: "dec_value (digits_in 10 n) = n"
proof (induction n rule: less_induct)
  case (less n)
  have d: "unat (digit k) - 48 = k" if "k < 10" for k
    using that by (simp add: digit_decimal)
  show ?case
  proof (cases "n < 10")
    case True
    then show ?thesis using d by (simp add: digits_in_small dec_value_def)
  next
    case False
    then have "digits_in 10 n = digits_in 10 (n div 10) @ [digit (n mod 10)]"
      by (subst digits_in.simps) simp
    with False d less show ?thesis by simp
  qed
qed

lemma digits_in_10: "c \<in> set (digits_in 10 n) \<Longrightarrow> is_digit c"
proof (induction n rule: less_induct)
  case (less n)
  have d: "is_digit (digit k)" if "k < 10" for k
    using that by (simp add: is_digit_def digit_decimal)
  show ?case
  proof (cases "n < 10")
    case True
    then show ?thesis using d less.prems by (simp add: digits_in_small)
  next
    case False
    then have "digits_in 10 n = digits_in 10 (n div 10) @ [digit (n mod 10)]"
      by (subst digits_in.simps) simp
    with False d less.IH [of "n div 10"] less.prems show ?thesis by auto
  qed
qed

lemma digits_in_not_Nil [simp]: "digits_in b n \<noteq> []"
  by (subst digits_in.simps) simp

definition digit_of :: "byte \<Rightarrow> i64" where
  "digit_of c = scast ((scast c :: i32) - 48)"

lemma digit_of_eq:
  "if is_digit c then digit_of c = of_nat (unat c - 48) \<and> \<not> digit_of c > 9
   else digit_of c > 9"
  by (rule every_byte) code_simp

lemma atol_loop_step:
  "atol_loop m s ret = do { c \<leftarrow> m s;
     if is_digit c then atol_loop m (s + 1) (ret * 10 + of_nat (unat c - 48)) else Some ret }"
proof (cases "m s")
  case (Some c)
  then show ?thesis
    using digit_of_eq [of c]
    by (subst atol_loop.simps) (auto simp: Let_def digit_of_def simp del: of_nat_diff)
qed (subst atol_loop.simps, simp)

lemma atol_loop_eq:
  "bytes_at m s (ds @ [c]) \<Longrightarrow> \<forall>d \<in> set ds. is_digit d \<Longrightarrow> \<not> is_digit c \<Longrightarrow>
   atol_loop m s (of_nat n) =
     Some (of_nat (foldl (\<lambda>n c. n * 10 + (unat c - 48)) n ds))"
proof (induction ds arbitrary: s n)
  case Nil
  then show ?case by (subst atol_loop_step) simp
next
  case (Cons d ds)
  let ?n = "n * 10 + (unat d - 48)"
  have "atol_loop m s (of_nat n) = atol_loop m (s + 1) (of_nat ?n)"
    using Cons.prems by (subst atol_loop_step) simp
  moreover have "atol_loop m (s + 1) (of_nat ?n) =
      Some (of_nat (foldl (\<lambda>n c. n * 10 + (unat c - 48)) ?n ds))"
    using Cons.prems by (intro Cons.IH) simp_all
  ultimately show ?case by simp
qed

lemma atol_parses:
  assumes "bytes_at m s (sign @ ds @ [c])" and "\<forall>d \<in> set ds. is_digit d"
    and "\<not> is_digit c" and "sign = [] \<and> hd (ds @ [c]) \<noteq> 45 \<or> sign = [45]"
  shows "atol m s = Some (if sign = [] then of_nat (dec_value ds) else - of_nat (dec_value ds))"
proof (cases "sign = []")
  case True
  then have b: "bytes_at m s (ds @ [c])" using assms(1) by simp
  then have "m s = Some (hd (ds @ [c]))" by (cases ds) auto
  with True assms(2-4) atol_loop_eq [OF b, of 0] show ?thesis
    by (simp add: atol_def dec_value_def)
next
  case False
  then have b: "bytes_at m (s + 1) (ds @ [c])" and "m s = Some 45" "sign = [45]"
    using assms(1,4) by auto
  with assms(2-4) atol_loop_eq [OF b, of 0] show ?thesis
    by (simp add: atol_def dec_value_def)
qed

text \<open>Reading what \<open>itoa_r\<close> printed gives the number back.\<close>

lemma atol_int_text:
  assumes "bytes_at m s (int_text (sint (inn :: i64)) @ [0])"
  shows "atol m s = Some inn"
proof -
  let ?neg = "sint inn < 0" and ?ds = "digits_in 10 (nat \<bar>sint inn\<bar>)"
  have nul: "\<not> is_digit 0" by (simp add: is_digit_def)
  have ds: "\<forall>d \<in> set ?ds. is_digit d" using digits_in_10 by blast
  then have "is_digit (hd ?ds)" by simp
  then have "hd ?ds \<noteq> 45" by (auto simp: is_digit_def)
  then have h: "hd (?ds @ [0]) \<noteq> 45" by (simp add: hd_append)
  have shape: "int_text (sint inn) = (if ?neg then [45] else []) @ ?ds"
    by (simp add: int_text_def)
  have "atol m s = Some (if (if ?neg then [45] else []) = ([] :: byte list)
      then of_nat (dec_value ?ds) else - of_nat (dec_value ?ds))"
    using assms ds nul h unfolding shape append_assoc
    by (intro atol_parses [where c = 0]) auto
  also have "\<dots> = Some inn"
    by (simp add: dec_value_digits_in flip: of_int_minus)
  finally show ?thesis .
qed

text \<open>The digits are not the terminator; the 64-bit variant of \<open>itoa_r\<close> prints the same.\<close>

lemma digits_in_nonzero: "1 < b \<Longrightarrow> b \<le> 16 \<Longrightarrow> 0 \<notin> set (digits_in b n)"
proof (induction n rule: less_induct)
  case (less n)
  have d: "digit k \<noteq> 0" if "k < b" for k
  proof -
    have "\<forall>k \<in> set [0..<16]. digit k \<noteq> 0" by code_simp
    with that less.prems show ?thesis by simp
  qed
  show ?case
  proof (cases "n < b")
    case True
    then show ?thesis using d [of n] by (simp add: digits_in_small)
  next
    case False
    then have "digits_in b n = digits_in b (n div b) @ [digit (n mod b)]"
      using less.prems by (subst digits_in.simps) simp
    moreover have "digit (n mod b) \<noteq> 0" using less.prems by (intro d) simp
    ultimately show ?thesis using less.IH [of "n div b"] False less.prems by auto
  qed
qed

lemma i64toa_r_prints:
  assumes ds: "ds = int_text (sint inn)" and mp: "mapped m buffer (Suc (length ds))"
  shows "i64toa_r m inn buffer = Some (of_nat (length ds), poke m buffer (ds @ [0]))"
proof -
  have "i64toa_r m inn buffer = itoa_r m inn buffer"
  proof (cases "sint inn < 0")
    case True
    then have "ds = 45 # digits_in 10 (unat (- inn))" by (simp add: ds int_text_def unat_neg)
    with mp have m: "m buffer \<noteq> None"
      "mapped (m(buffer \<mapsto> 45)) (buffer + 1) (Suc (length (digits_in 10 (unat (- inn)))))" by auto
    with utoa_r_prints [OF refl m(2)] u64toa_r_prints [OF refl m(2)] True show ?thesis
      by (auto simp: i64toa_r_def itoa_r_def word_sless_alt)
  next
    case False
    then have "ds = digits_in 10 (unat inn)" by (simp add: ds int_text_def unat_nonneg)
    with utoa_r_prints [OF _ mp] u64toa_r_prints [OF _ mp] False show ?thesis
      by (simp add: i64toa_r_def itoa_r_def word_sless_alt)
  qed
  with itoa_r_prints [OF ds mp] show ?thesis by simp
qed

end
