(* ===== verification/CLayout.thy ===== *)
theory CLayout
  imports CPrelude
begin

section \<open>Objects wider than a byte\<close>

text \<open>
  Little-endian objects in memory, as the LP64 targets lay them out: \<open>load_le m p n\<close>
  reads \<open>n\<close> bytes as a number, \<open>store_le\<close> writes one. \<open>load32\<close>,
  \<open>load64\<close>, \<open>store32\<close>, \<open>store64\<close> are the accesses through an
  \<open>int *\<close> and through a \<open>long *\<close> or a pointer to a pointer.
\<close>

primrec le_bytes :: "nat \<Rightarrow> nat \<Rightarrow> byte list" where
  "le_bytes 0 v = []"
| "le_bytes (Suc n) v = of_nat v # le_bytes n (v div 256)"

primrec load_le :: "mem \<Rightarrow> addr \<Rightarrow> nat \<Rightarrow> nat option" where
  "load_le m p 0 = Some 0"
| "load_le m p (Suc n) = do {
     b \<leftarrow> load m p;
     v \<leftarrow> load_le m (p + 1) n;
     Some (unat b + 256 * v) }"

primrec store_le :: "mem \<Rightarrow> addr \<Rightarrow> nat \<Rightarrow> nat \<Rightarrow> mem option" where
  "store_le m p 0 v = Some m"
| "store_le m p (Suc n) v = do {
     m \<leftarrow> store m p (of_nat v);
     store_le m (p + 1) n (v div 256) }"

definition load32 :: "mem \<Rightarrow> addr \<Rightarrow> i32 option" where
  "load32 m p = map_option of_nat (load_le m p 4)"

definition load64 :: "mem \<Rightarrow> addr \<Rightarrow> i64 option" where
  "load64 m p = map_option of_nat (load_le m p 8)"

definition store32 :: "mem \<Rightarrow> addr \<Rightarrow> i32 \<Rightarrow> mem option" where
  "store32 m p v = store_le m p 4 (unat v)"

definition store64 :: "mem \<Rightarrow> addr \<Rightarrow> i64 \<Rightarrow> mem option" where
  "store64 m p v = store_le m p 8 (unat v)"

lemma length_le_bytes [simp]: "length (le_bytes n v) = n"
  by (induction n arbitrary: v) auto

lemma store_le_eq: "mapped m p n \<Longrightarrow> store_le m p n v = Some (poke m p (le_bytes n v))"
  by (induction n arbitrary: m p v) auto

lemma store_le_mapped: "store_le m p n v = Some m' \<Longrightarrow> mapped m p n \<and> m' = poke m p (le_bytes n v)"
proof (induction n arbitrary: m p v)
  case (Suc n)
  then obtain c where c: "m p = Some c" and
    st: "store_le (m(p \<mapsto> of_nat v)) (p + 1) n (v div 256) = Some m'"
    by (auto simp: store_def split: bind_splits if_splits)
  from Suc.IH [OF st] have "mapped (m(p \<mapsto> of_nat v)) (p + 1) n" and
    "m' = poke (m(p \<mapsto> of_nat v)) (p + 1) (le_bytes n (v div 256))" by auto
  moreover from this(1) have "mapped m (p + 1) n"
  proof -
    have "mapped (m(p \<mapsto> x)) q k \<Longrightarrow> m p \<noteq> None \<Longrightarrow> mapped m q k" for x q k
      by (induction k arbitrary: q) (auto split: if_splits)
    from this [OF \<open>mapped (m(p \<mapsto> of_nat v)) (p + 1) n\<close>] c show ?thesis by simp
  qed
  ultimately show ?case using c by simp
qed simp

lemma load_le_bytes: "bytes_at m p (le_bytes n v) \<Longrightarrow> load_le m p n = Some (v mod 256 ^ n)"
proof (induction n arbitrary: p v)
  case (Suc n)
  then have "load_le m (p + 1) n = Some (v div 256 mod 256 ^ n)" by simp
  moreover have "unat (of_nat v :: byte) = v mod 256" by (simp add: unat_of_nat)
  ultimately show ?case using Suc.prems by (simp add: mod_mult2_eq)
qed simp

lemma load_le_mapped: "mapped m p n \<Longrightarrow> load_le m p n \<noteq> None"
proof (induction n arbitrary: p)
  case (Suc n)
  then have "m p \<noteq> None" and "load_le m (p + 1) n \<noteq> None" by auto
  then show ?case by auto
qed simp

lemma le_bytes_mod: "le_bytes n (v mod 256 ^ n) = le_bytes n v"
proof (induction n arbitrary: v)
  case (Suc n)
  have "(of_nat (v mod (256 * 256 ^ n)) :: byte) = of_nat v"
    by (simp add: word_unat_eq_iff unat_of_nat mod_mod_cancel)
  moreover have "v mod (256 * 256 ^ n) div 256 = v div 256 mod 256 ^ n"
    by (simp add: mod_mult2_eq)
  ultimately show ?case using Suc by simp
qed simp

text \<open>An object reads back as it was written; other memory is not touched.\<close>

lemma load64_bytes: "bytes_at m p (le_bytes 8 (unat v)) \<Longrightarrow> load64 m p = Some v"
  by (simp add: load64_def load_le_bytes)

lemma load32_bytes: "bytes_at m p (le_bytes 4 (unat v)) \<Longrightarrow> load32 m p = Some v"
  by (simp add: load32_def load_le_bytes)

lemma store64_eq: "mapped m p 8 \<Longrightarrow> store64 m p v = Some (poke m p (le_bytes 8 (unat v)))"
  by (simp add: store64_def store_le_eq)

lemma store32_eq: "mapped m p 4 \<Longrightarrow> store32 m p v = Some (poke m p (le_bytes 4 (unat v)))"
  by (simp add: store32_def store_le_eq)

lemma load64_store64: "store64 m p v = Some m' \<Longrightarrow> load64 m' p = Some v"
proof -
  assume "store64 m p v = Some m'"
  then have "m' = poke m p (le_bytes 8 (unat v))"
    using store_le_mapped by (auto simp: store64_def)
  then have "bytes_at m' p (le_bytes 8 (unat v))" by (simp add: bytes_at_poke_self)
  then show ?thesis by (rule load64_bytes)
qed

lemma load32_store32: "store32 m p v = Some m' \<Longrightarrow> load32 m' p = Some v"
proof -
  assume "store32 m p v = Some m'"
  then have "m' = poke m p (le_bytes 4 (unat v))"
    using store_le_mapped by (auto simp: store32_def)
  then have "bytes_at m' p (le_bytes 4 (unat v))" by (simp add: bytes_at_poke_self)
  then show ?thesis by (rule load32_bytes)
qed

lemma load_le_poke_apart:
  "apart q (length ys) p n \<Longrightarrow> load_le (poke m q ys) p n = load_le m p n"
proof (induction n arbitrary: p)
  case (Suc n)
  then have "apart q (length ys) (p + 1) n" and "ys = [] \<or> \<not> in_range q (length ys) p"
    using apart_Suc_right [of q "length ys" p n] by auto
  then have "poke m q ys p = m p" by (auto simp: poke_outside)
  with Suc.IH \<open>apart q (length ys) (p + 1) n\<close> show ?case by simp
qed simp

text \<open>What an access reads depends on the bytes of its range only.\<close>

lemma bytes_at_cong:
  "(\<And>a. in_range p (length xs) a \<Longrightarrow> m' a = m a) \<Longrightarrow> bytes_at m' p xs = bytes_at m p xs"
proof (induction xs arbitrary: p)
  case (Cons x xs)
  have "m' p = m p" using Cons.prems [of p] by simp
  moreover have "bytes_at m' (p + 1) xs = bytes_at m (p + 1) xs"
    by (rule Cons.IH, cases "length xs < 2 ^ 64")
      (metis Cons.prems in_range_Suc length_Cons calculation)+
  ultimately show ?case by simp
qed simp

lemma mapped_cong:
  "(\<And>a. in_range p k a \<Longrightarrow> m' a = m a) \<Longrightarrow> k < 2 ^ 64 \<Longrightarrow> mapped m p k \<Longrightarrow> mapped m' p k"
  by (induction k arbitrary: p) (auto simp: in_range_Suc)

lemma load_le_cong: "(\<And>a. in_range p n a \<Longrightarrow> m' a = m a) \<Longrightarrow> n < 2 ^ 64 \<Longrightarrow> load_le m' p n = load_le m p n"
proof (induction n arbitrary: p)
  case (Suc n)
  then have "load_le m' (p + 1) n = load_le m (p + 1) n"
    by (intro Suc.IH) (auto simp: in_range_Suc)
  with Suc.prems show ?case by simp
qed simp

end
