(* ===== verification/Sys.thy ===== *)
theory Sys
  imports CLayout
begin

section \<open>System calls and their wrappers\<close>

text \<open>
  \<^verbatim>\<open>src/sys.h\<close>, the wrappers of \<^verbatim>\<open>src/sys/*.h\<close>, \<^verbatim>\<open>src/fcntl.h\<close>,
  \<^verbatim>\<open>src/sched.h\<close>, \<^verbatim>\<open>src/signal.h\<close> and \<^verbatim>\<open>src/unistd.h\<close> that issue one
  system call, in the order of the headers.

  The kernel is not part of the library. A target gives it as a function \<open>kcall\<close> from the
  system call number, the argument registers, the memory and the outside world
  \<^typ>\<open>'w\<close> to the result register, the new memory and the new world. The target also
  gives what the kernel headers define: which numbers exist (the tests \<^verbatim>\<open>#ifdef __NR_x\<close>
  of the code are \<open>nr_defined\<close>) and the constants the code uses.
\<close>

subsection \<open>The target and the state of the process\<close>

text \<open>A system call number is given by its name: \<open>''close''\<close> is \<^verbatim>\<open>__NR_close\<close>.\<close>

type_synonym sysnr = string

record uapi =
  nr_defined :: "sysnr \<Rightarrow> bool"
  ARCH_WANT_SYS_OLD_SELECT :: bool
  ENOSYS :: i32
  ENOMEM :: i32
  ENOENT :: i32
  ESRCH :: i32
  EINVAL :: i32
  ERANGE :: i32
  EBADF :: i32
  EOVERFLOW :: i32
  AT_FDCWD :: i32
  AT_REMOVEDIR :: i32
  AT_PAGESZ :: i64
  SIGCHLD :: i32
  O_CREAT :: i32
  LINUX_REBOOT_MAGIC1 :: i32
  LINUX_REBOOT_MAGIC2 :: i32
  TIOCSPGRP :: i32
  CLOCK_REALTIME :: i32
  PROT_READ :: i32
  PROT_WRITE :: i32
  MAP_ANONYMOUS :: i32
  MAP_PRIVATE :: i32
  SIGABRT :: i32
  O_RDONLY :: i32
  O_WRONLY :: i32
  O_RDWR :: i32
  O_TRUNC :: i32
  O_APPEND :: i32
  EILSEQ :: i32

record 'w target = uapi +
  kcall :: "sysnr \<Rightarrow> i64 list \<Rightarrow> mem \<Rightarrow> 'w \<Rightarrow> i64 \<times> mem \<times> 'w"

text \<open>
  The process: its memory, the variables \<^verbatim>\<open>errno\<close> (\<^verbatim>\<open>src/errno.h\<close>),
  \<^verbatim>\<open>environ\<close> and \<^verbatim>\<open>_auxv\<close> (\<^verbatim>\<open>src/crt.h\<close>), and the world outside.
\<close>

record 'w cstate =
  cmem :: mem
  errno :: i32
  environ :: addr
  auxv :: addr
  kern :: 'w

definition SET_ERRNO :: "i32 \<Rightarrow> 'w cstate \<Rightarrow> 'w cstate" where
  "SET_ERRNO v s = s\<lparr>errno := v\<rparr>"

text \<open>
  \<^verbatim>\<open>my_syscall0\<close> to \<^verbatim>\<open>my_syscall6\<close>: the arguments are cast to \<open>long\<close>, the
  caller below does the cast by the type of the argument (\<open>scast\<close> for a signed one,
  \<open>ucast\<close> for an unsigned one).
\<close>

definition syscall_insn :: "'w target \<Rightarrow> sysnr \<Rightarrow> i64 list \<Rightarrow> 'w cstate \<Rightarrow> i64 \<times> 'w cstate" where
  "syscall_insn T nr args s =
     (let (r, m, w) =
     kcall T nr args (cmem s) (kern s) in (r, s\<lparr>cmem := m, kern := w\<rparr>))"

definition my_syscall0 :: "'w target \<Rightarrow> sysnr \<Rightarrow> 'w cstate \<Rightarrow> i64 \<times> 'w cstate" where
  "my_syscall0 T num = syscall_insn T num []"

definition my_syscall1 :: "'w target \<Rightarrow> sysnr \<Rightarrow> i64 \<Rightarrow> 'w cstate \<Rightarrow> i64 \<times> 'w cstate" where
  "my_syscall1 T num arg1 = syscall_insn T num [arg1]"

definition my_syscall2 :: "'w target \<Rightarrow> sysnr \<Rightarrow> i64 \<Rightarrow> i64 \<Rightarrow> 'w cstate \<Rightarrow> i64 \<times> 'w cstate" where
  "my_syscall2 T num arg1 arg2 = syscall_insn T num [arg1, arg2]"

definition my_syscall3 ::
  "'w target \<Rightarrow> sysnr \<Rightarrow> i64 \<Rightarrow> i64 \<Rightarrow> i64 \<Rightarrow> 'w cstate \<Rightarrow> i64 \<times> 'w cstate" where
  "my_syscall3 T num arg1 arg2 arg3 = syscall_insn T num [arg1, arg2, arg3]"

definition my_syscall4 ::
  "'w target \<Rightarrow> sysnr \<Rightarrow> i64 \<Rightarrow> i64 \<Rightarrow> i64 \<Rightarrow> i64 \<Rightarrow> 'w cstate \<Rightarrow> i64 \<times> 'w cstate" where
  "my_syscall4 T num arg1 arg2 arg3 arg4 = syscall_insn T num [arg1, arg2, arg3, arg4]"

definition my_syscall5 ::
  "'w target \<Rightarrow> sysnr \<Rightarrow> i64 \<Rightarrow> i64 \<Rightarrow> i64 \<Rightarrow> i64 \<Rightarrow> i64 \<Rightarrow> 'w cstate \<Rightarrow> i64 \<times> 'w cstate" where
  "my_syscall5 T num arg1 arg2 arg3 arg4 arg5 =
     syscall_insn T num [arg1, arg2, arg3, arg4, arg5]"

definition my_syscall6 ::
  "'w target \<Rightarrow> sysnr \<Rightarrow> i64 \<Rightarrow> i64 \<Rightarrow> i64 \<Rightarrow> i64 \<Rightarrow> i64 \<Rightarrow> i64 \<Rightarrow> 'w cstate \<Rightarrow> i64 \<times> 'w cstate" where
  "my_syscall6 T num arg1 arg2 arg3 arg4 arg5 arg6 =
     syscall_insn T num [arg1, arg2, arg3, arg4, arg5, arg6]"

text \<open>
  \<open>sysret\<close> is the macro \<^verbatim>\<open>__sysret\<close> at the type of its argument, \<open>returning\<close> the
  body \<^verbatim>\<open>return __sysret(f(...))\<close>. \<open>int_result\<close> is the conversion of a \<open>long\<close>
  that a function returns as \<open>int\<close>, \<open>long_result\<close> the other one.
\<close>

definition sysret :: "'a::len word \<Rightarrow> 'w cstate \<Rightarrow> 'a word \<times> 'w cstate" where
  "sysret arg s = (if arg <s 0 then (- 1, SET_ERRNO (ucast (- arg)) s) else (arg, s))"

definition returning ::
  "('w cstate \<Rightarrow> 'a::len word \<times> 'w cstate) \<Rightarrow> 'w cstate \<Rightarrow> 'a word \<times> 'w cstate" where
  "returning f s = (let (r, s) = f s in sysret r s)"

definition int_result :: "('w cstate \<Rightarrow> i64 \<times> 'w cstate) \<Rightarrow> 'w cstate \<Rightarrow> i32 \<times> 'w cstate" where
  "int_result f s = (let (r, s) = f s in (ucast r, s))"

definition long_result :: "('w cstate \<Rightarrow> i32 \<times> 'w cstate) \<Rightarrow> 'w cstate \<Rightarrow> i64 \<times> 'w cstate" where
  "long_result f s = (let (r, s) = f s in (scast r, s))"

definition enosys :: "'w target \<Rightarrow> 'w cstate \<Rightarrow> i32 \<times> 'w cstate" where
  "enosys T s = (- ENOSYS T, s)"

subsection \<open>Files, directories and descriptors\<close>

definition sys_chdir :: "'w target \<Rightarrow> addr \<Rightarrow> 'w cstate \<Rightarrow> i32 \<times> 'w cstate" where
  "sys_chdir T path = int_result (my_syscall1 T ''chdir'' path)"

definition chdir :: "'w target \<Rightarrow> addr \<Rightarrow> 'w cstate \<Rightarrow> i32 \<times> 'w cstate" where
  "chdir T path = returning (sys_chdir T path)"

definition sys_chmod :: "'w target \<Rightarrow> addr \<Rightarrow> i32 \<Rightarrow> 'w cstate \<Rightarrow> i32 \<times> 'w cstate" where
  "sys_chmod T path mode =
     (if nr_defined T ''fchmodat''
      then int_result (my_syscall4 T ''fchmodat'' (scast (AT_FDCWD T)) path (ucast mode) 0)
      else if nr_defined T ''chmod''
      then int_result (my_syscall2 T ''chmod'' path (ucast mode))
      else enosys T)"

definition chmod :: "'w target \<Rightarrow> addr \<Rightarrow> i32 \<Rightarrow> 'w cstate \<Rightarrow> i32 \<times> 'w cstate" where
  "chmod T path mode = returning (sys_chmod T path mode)"

definition sys_chown :: "'w target \<Rightarrow> addr \<Rightarrow> i32 \<Rightarrow> i32 \<Rightarrow> 'w cstate \<Rightarrow> i32 \<times> 'w cstate" where
  "sys_chown T path owner grp =
     (if nr_defined T ''fchownat''
      then int_result (my_syscall5 T ''fchownat'' (scast (AT_FDCWD T)) path (ucast owner) (ucast grp) 0)
      else if nr_defined T ''chown''
      then int_result (my_syscall3 T ''chown'' path (ucast owner) (ucast grp))
      else enosys T)"

definition chown :: "'w target \<Rightarrow> addr \<Rightarrow> i32 \<Rightarrow> i32 \<Rightarrow> 'w cstate \<Rightarrow> i32 \<times> 'w cstate" where
  "chown T path owner grp = returning (sys_chown T path owner grp)"

definition sys_chroot :: "'w target \<Rightarrow> addr \<Rightarrow> 'w cstate \<Rightarrow> i32 \<times> 'w cstate" where
  "sys_chroot T path = int_result (my_syscall1 T ''chroot'' path)"

definition chroot :: "'w target \<Rightarrow> addr \<Rightarrow> 'w cstate \<Rightarrow> i32 \<times> 'w cstate" where
  "chroot T path = returning (sys_chroot T path)"

definition sys_close :: "'w target \<Rightarrow> i32 \<Rightarrow> 'w cstate \<Rightarrow> i32 \<times> 'w cstate" where
  "sys_close T fd = int_result (my_syscall1 T ''close'' (scast fd))"

definition close :: "'w target \<Rightarrow> i32 \<Rightarrow> 'w cstate \<Rightarrow> i32 \<times> 'w cstate" where
  "close T fd = returning (sys_close T fd)"

definition sys_dup :: "'w target \<Rightarrow> i32 \<Rightarrow> 'w cstate \<Rightarrow> i32 \<times> 'w cstate" where
  "sys_dup T fd = int_result (my_syscall1 T ''dup'' (scast fd))"

definition dup :: "'w target \<Rightarrow> i32 \<Rightarrow> 'w cstate \<Rightarrow> i32 \<times> 'w cstate" where
  "dup T fd = returning (sys_dup T fd)"

definition sys_dup2 :: "'w target \<Rightarrow> i32 \<Rightarrow> i32 \<Rightarrow> 'w cstate \<Rightarrow> i32 \<times> 'w cstate" where
  "sys_dup2 T old new =
     (if nr_defined T ''dup3''
      then int_result (my_syscall3 T ''dup3'' (scast old) (scast new) 0)
      else if nr_defined T ''dup2''
      then int_result (my_syscall2 T ''dup2'' (scast old) (scast new))
      else enosys T)"

definition dup2 :: "'w target \<Rightarrow> i32 \<Rightarrow> i32 \<Rightarrow> 'w cstate \<Rightarrow> i32 \<times> 'w cstate" where
  "dup2 T old new = returning (sys_dup2 T old new)"

definition sys_dup3 :: "'w target \<Rightarrow> i32 \<Rightarrow> i32 \<Rightarrow> i32 \<Rightarrow> 'w cstate \<Rightarrow> i32 \<times> 'w cstate" where
  "sys_dup3 T oldfd newfd flags =
     int_result (my_syscall3 T ''dup3'' (scast oldfd) (scast newfd) (scast flags))"

definition dup3 :: "'w target \<Rightarrow> i32 \<Rightarrow> i32 \<Rightarrow> i32 \<Rightarrow> 'w cstate \<Rightarrow> i32 \<times> 'w cstate" where
  "dup3 T oldfd newfd flags = returning (sys_dup3 T oldfd newfd flags)"

definition sys_fsync :: "'w target \<Rightarrow> i32 \<Rightarrow> 'w cstate \<Rightarrow> i32 \<times> 'w cstate" where
  "sys_fsync T fd = int_result (my_syscall1 T ''fsync'' (scast fd))"

definition fsync :: "'w target \<Rightarrow> i32 \<Rightarrow> 'w cstate \<Rightarrow> i32 \<times> 'w cstate" where
  "fsync T fd = returning (sys_fsync T fd)"

definition sys_getdents64 :: "'w target \<Rightarrow> i32 \<Rightarrow> addr \<Rightarrow> i32 \<Rightarrow> 'w cstate \<Rightarrow> i32 \<times> 'w cstate" where
  "sys_getdents64 T fd dirp count =
     int_result (my_syscall3 T ''getdents64'' (scast fd) dirp (scast count))"

definition getdents64 :: "'w target \<Rightarrow> i32 \<Rightarrow> addr \<Rightarrow> i32 \<Rightarrow> 'w cstate \<Rightarrow> i32 \<times> 'w cstate" where
  "getdents64 T fd dirp count = returning (sys_getdents64 T fd dirp count)"

definition sys_link :: "'w target \<Rightarrow> addr \<Rightarrow> addr \<Rightarrow> 'w cstate \<Rightarrow> i32 \<times> 'w cstate" where
  "sys_link T old new =
     (if nr_defined T ''linkat''
      then int_result (my_syscall5 T ''linkat'' (scast (AT_FDCWD T)) old (scast (AT_FDCWD T)) new 0)
      else if nr_defined T ''link''
      then int_result (my_syscall2 T ''link'' old new)
      else enosys T)"

definition link :: "'w target \<Rightarrow> addr \<Rightarrow> addr \<Rightarrow> 'w cstate \<Rightarrow> i32 \<times> 'w cstate" where
  "link T old new = returning (sys_link T old new)"

definition sys_mkdir :: "'w target \<Rightarrow> addr \<Rightarrow> i32 \<Rightarrow> 'w cstate \<Rightarrow> i32 \<times> 'w cstate" where
  "sys_mkdir T path mode =
     (if nr_defined T ''mkdirat''
      then int_result (my_syscall3 T ''mkdirat'' (scast (AT_FDCWD T)) path (ucast mode))
      else if nr_defined T ''mkdir''
      then int_result (my_syscall2 T ''mkdir'' path (ucast mode))
      else enosys T)"

definition mkdir :: "'w target \<Rightarrow> addr \<Rightarrow> i32 \<Rightarrow> 'w cstate \<Rightarrow> i32 \<times> 'w cstate" where
  "mkdir T path mode = returning (sys_mkdir T path mode)"

definition sys_rmdir :: "'w target \<Rightarrow> addr \<Rightarrow> 'w cstate \<Rightarrow> i32 \<times> 'w cstate" where
  "sys_rmdir T path =
     (if nr_defined T ''rmdir''
      then int_result (my_syscall1 T ''rmdir'' path)
      else if nr_defined T ''unlinkat''
      then int_result (my_syscall3 T ''unlinkat'' (scast (AT_FDCWD T)) path (scast (AT_REMOVEDIR T)))
      else enosys T)"

definition rmdir :: "'w target \<Rightarrow> addr \<Rightarrow> 'w cstate \<Rightarrow> i32 \<times> 'w cstate" where
  "rmdir T path = returning (sys_rmdir T path)"

definition sys_mknod :: "'w target \<Rightarrow> addr \<Rightarrow> i32 \<Rightarrow> i32 \<Rightarrow> 'w cstate \<Rightarrow> i64 \<times> 'w cstate" where
  "sys_mknod T path mode dev =
     (if nr_defined T ''mknodat''
      then my_syscall4 T ''mknodat'' (scast (AT_FDCWD T)) path (ucast mode) (ucast dev)
      else if nr_defined T ''mknod''
      then my_syscall3 T ''mknod'' path (ucast mode) (ucast dev)
      else long_result (enosys T))"

definition mknod :: "'w target \<Rightarrow> addr \<Rightarrow> i32 \<Rightarrow> i32 \<Rightarrow> 'w cstate \<Rightarrow> i32 \<times> 'w cstate" where
  "mknod T path mode dev = int_result (returning (sys_mknod T path mode dev))"

definition sys_pipe2 :: "'w target \<Rightarrow> addr \<Rightarrow> i32 \<Rightarrow> 'w cstate \<Rightarrow> i32 \<times> 'w cstate" where
  "sys_pipe2 T pipefd flags = int_result (my_syscall2 T ''pipe2'' pipefd (scast flags))"

definition pipe2 :: "'w target \<Rightarrow> addr \<Rightarrow> i32 \<Rightarrow> 'w cstate \<Rightarrow> i32 \<times> 'w cstate" where
  "pipe2 T pipefd flags = returning (sys_pipe2 T pipefd flags)"

definition pipe :: "'w target \<Rightarrow> addr \<Rightarrow> 'w cstate \<Rightarrow> i32 \<times> 'w cstate" where
  "pipe T pipefd = pipe2 T pipefd 0"

definition sys_pivot_root :: "'w target \<Rightarrow> addr \<Rightarrow> addr \<Rightarrow> 'w cstate \<Rightarrow> i32 \<times> 'w cstate" where
  "sys_pivot_root T new old = int_result (my_syscall2 T ''pivot_root'' new old)"

definition pivot_root :: "'w target \<Rightarrow> addr \<Rightarrow> addr \<Rightarrow> 'w cstate \<Rightarrow> i32 \<times> 'w cstate" where
  "pivot_root T new old = returning (sys_pivot_root T new old)"

definition sys_read :: "'w target \<Rightarrow> i32 \<Rightarrow> addr \<Rightarrow> i64 \<Rightarrow> 'w cstate \<Rightarrow> i64 \<times> 'w cstate" where
  "sys_read T fd buf count = my_syscall3 T ''read'' (scast fd) buf count"

definition read_fd :: "'w target \<Rightarrow> i32 \<Rightarrow> addr \<Rightarrow> i64 \<Rightarrow> 'w cstate \<Rightarrow> i64 \<times> 'w cstate" where
  "read_fd T fd buf count = returning (sys_read T fd buf count)"

definition sys_symlink :: "'w target \<Rightarrow> addr \<Rightarrow> addr \<Rightarrow> 'w cstate \<Rightarrow> i32 \<times> 'w cstate" where
  "sys_symlink T old new =
     (if nr_defined T ''symlinkat''
      then int_result (my_syscall3 T ''symlinkat'' old (scast (AT_FDCWD T)) new)
      else if nr_defined T ''symlink''
      then int_result (my_syscall2 T ''symlink'' old new)
      else enosys T)"

definition symlink :: "'w target \<Rightarrow> addr \<Rightarrow> addr \<Rightarrow> 'w cstate \<Rightarrow> i32 \<times> 'w cstate" where
  "symlink T old new = returning (sys_symlink T old new)"

definition sys_umask :: "'w target \<Rightarrow> i32 \<Rightarrow> 'w cstate \<Rightarrow> i32 \<times> 'w cstate" where
  "sys_umask T mode = int_result (my_syscall1 T ''umask'' (ucast mode))"

definition umask :: "'w target \<Rightarrow> i32 \<Rightarrow> 'w cstate \<Rightarrow> i32 \<times> 'w cstate" where
  "umask T mode = sys_umask T mode"

definition sys_umount2 :: "'w target \<Rightarrow> addr \<Rightarrow> i32 \<Rightarrow> 'w cstate \<Rightarrow> i32 \<times> 'w cstate" where
  "sys_umount2 T path flags = int_result (my_syscall2 T ''umount2'' path (scast flags))"

definition umount2 :: "'w target \<Rightarrow> addr \<Rightarrow> i32 \<Rightarrow> 'w cstate \<Rightarrow> i32 \<times> 'w cstate" where
  "umount2 T path flags = returning (sys_umount2 T path flags)"

definition sys_unlink :: "'w target \<Rightarrow> addr \<Rightarrow> 'w cstate \<Rightarrow> i32 \<times> 'w cstate" where
  "sys_unlink T path =
     (if nr_defined T ''unlinkat''
      then int_result (my_syscall3 T ''unlinkat'' (scast (AT_FDCWD T)) path 0)
      else if nr_defined T ''unlink''
      then int_result (my_syscall1 T ''unlink'' path)
      else enosys T)"

definition unlink :: "'w target \<Rightarrow> addr \<Rightarrow> 'w cstate \<Rightarrow> i32 \<times> 'w cstate" where
  "unlink T path = returning (sys_unlink T path)"

definition sys_write :: "'w target \<Rightarrow> i32 \<Rightarrow> addr \<Rightarrow> i64 \<Rightarrow> 'w cstate \<Rightarrow> i64 \<times> 'w cstate" where
  "sys_write T fd buf count = my_syscall3 T ''write'' (scast fd) buf count"

definition write_fd :: "'w target \<Rightarrow> i32 \<Rightarrow> addr \<Rightarrow> i64 \<Rightarrow> 'w cstate \<Rightarrow> i64 \<times> 'w cstate" where
  "write_fd T fd buf count = returning (sys_write T fd buf count)"

definition sys_memfd_create :: "'w target \<Rightarrow> addr \<Rightarrow> i32 \<Rightarrow> 'w cstate \<Rightarrow> i32 \<times> 'w cstate" where
  "sys_memfd_create T name flags = int_result (my_syscall2 T ''memfd_create'' name (ucast flags))"

definition memfd_create :: "'w target \<Rightarrow> addr \<Rightarrow> i32 \<Rightarrow> 'w cstate \<Rightarrow> i32 \<times> 'w cstate" where
  "memfd_create T name flags = returning (sys_memfd_create T name flags)"

subsection \<open>Processes\<close>

definition sys_execve :: "'w target \<Rightarrow> addr \<Rightarrow> addr \<Rightarrow> addr \<Rightarrow> 'w cstate \<Rightarrow> i32 \<times> 'w cstate" where
  "sys_execve T filename argv envp = int_result (my_syscall3 T ''execve'' filename argv envp)"

definition execve :: "'w target \<Rightarrow> addr \<Rightarrow> addr \<Rightarrow> addr \<Rightarrow> 'w cstate \<Rightarrow> i32 \<times> 'w cstate" where
  "execve T filename argv envp = returning (sys_execve T filename argv envp)"

text \<open>
  The three functions that do not return are given by the state in which the kernel leaves
  the process; if the system call comes back, the process spins in that state.
\<close>

definition sys_exit :: "'w target \<Rightarrow> i32 \<Rightarrow> 'w cstate \<Rightarrow> 'w cstate" where
  "sys_exit T status s = snd (my_syscall1 T ''exit'' (scast (status AND 255)) s)"

definition exit_now :: "'w target \<Rightarrow> i32 \<Rightarrow> 'w cstate \<Rightarrow> 'w cstate" where
  "exit_now T status = sys_exit T status"

definition exit :: "'w target \<Rightarrow> i32 \<Rightarrow> 'w cstate \<Rightarrow> 'w cstate" where
  "exit T status = exit_now T status"

definition sys_fork :: "'w target \<Rightarrow> 'w cstate \<Rightarrow> i32 \<times> 'w cstate" where
  "sys_fork T =
     (if nr_defined T ''clone''
      then int_result (my_syscall5 T ''clone'' (scast (SIGCHLD T)) 0 0 0 0)
      else if nr_defined T ''fork''
      then int_result (my_syscall0 T ''fork'')
      else enosys T)"

definition fork :: "'w target \<Rightarrow> 'w cstate \<Rightarrow> i32 \<times> 'w cstate" where
  "fork T = returning (sys_fork T)"

definition sys_geteuid :: "'w target \<Rightarrow> 'w cstate \<Rightarrow> i32 \<times> 'w cstate" where
  "sys_geteuid T =
     (if nr_defined T ''geteuid32''
      then int_result (my_syscall0 T ''geteuid32'')
      else int_result (my_syscall0 T ''geteuid''))"

definition geteuid :: "'w target \<Rightarrow> 'w cstate \<Rightarrow> i32 \<times> 'w cstate" where
  "geteuid T = sys_geteuid T"

definition sys_getuid :: "'w target \<Rightarrow> 'w cstate \<Rightarrow> i32 \<times> 'w cstate" where
  "sys_getuid T =
     (if nr_defined T ''getuid32''
      then int_result (my_syscall0 T ''getuid32'')
      else int_result (my_syscall0 T ''getuid''))"

definition getuid :: "'w target \<Rightarrow> 'w cstate \<Rightarrow> i32 \<times> 'w cstate" where
  "getuid T = sys_getuid T"

definition sys_getpgid :: "'w target \<Rightarrow> i32 \<Rightarrow> 'w cstate \<Rightarrow> i32 \<times> 'w cstate" where
  "sys_getpgid T pid = int_result (my_syscall1 T ''getpgid'' (scast pid))"

definition getpgid :: "'w target \<Rightarrow> i32 \<Rightarrow> 'w cstate \<Rightarrow> i32 \<times> 'w cstate" where
  "getpgid T pid = returning (sys_getpgid T pid)"

definition sys_getpgrp :: "'w target \<Rightarrow> 'w cstate \<Rightarrow> i32 \<times> 'w cstate" where
  "sys_getpgrp T = sys_getpgid T 0"

definition getpgrp :: "'w target \<Rightarrow> 'w cstate \<Rightarrow> i32 \<times> 'w cstate" where
  "getpgrp T = sys_getpgrp T"

definition sys_getpid :: "'w target \<Rightarrow> 'w cstate \<Rightarrow> i32 \<times> 'w cstate" where
  "sys_getpid T = int_result (my_syscall0 T ''getpid'')"

definition getpid :: "'w target \<Rightarrow> 'w cstate \<Rightarrow> i32 \<times> 'w cstate" where
  "getpid T = sys_getpid T"

definition sys_getppid :: "'w target \<Rightarrow> 'w cstate \<Rightarrow> i32 \<times> 'w cstate" where
  "sys_getppid T = int_result (my_syscall0 T ''getppid'')"

definition getppid :: "'w target \<Rightarrow> 'w cstate \<Rightarrow> i32 \<times> 'w cstate" where
  "getppid T = sys_getppid T"

definition sys_gettid :: "'w target \<Rightarrow> 'w cstate \<Rightarrow> i32 \<times> 'w cstate" where
  "sys_gettid T = int_result (my_syscall0 T ''gettid'')"

definition gettid :: "'w target \<Rightarrow> 'w cstate \<Rightarrow> i32 \<times> 'w cstate" where
  "gettid T = sys_gettid T"

definition sys_kill :: "'w target \<Rightarrow> i32 \<Rightarrow> i32 \<Rightarrow> 'w cstate \<Rightarrow> i32 \<times> 'w cstate" where
  "sys_kill T pid signal = int_result (my_syscall2 T ''kill'' (scast pid) (scast signal))"

definition kill :: "'w target \<Rightarrow> i32 \<Rightarrow> i32 \<Rightarrow> 'w cstate \<Rightarrow> i32 \<times> 'w cstate" where
  "kill T pid signal = returning (sys_kill T pid signal)"

definition sys_sched_yield :: "'w target \<Rightarrow> 'w cstate \<Rightarrow> i32 \<times> 'w cstate" where
  "sys_sched_yield T = int_result (my_syscall0 T ''sched_yield'')"

definition sched_yield :: "'w target \<Rightarrow> 'w cstate \<Rightarrow> i32 \<times> 'w cstate" where
  "sched_yield T = returning (sys_sched_yield T)"

definition sys_setpgid :: "'w target \<Rightarrow> i32 \<Rightarrow> i32 \<Rightarrow> 'w cstate \<Rightarrow> i32 \<times> 'w cstate" where
  "sys_setpgid T pid pgid = int_result (my_syscall2 T ''setpgid'' (scast pid) (scast pgid))"

definition setpgid :: "'w target \<Rightarrow> i32 \<Rightarrow> i32 \<Rightarrow> 'w cstate \<Rightarrow> i32 \<times> 'w cstate" where
  "setpgid T pid pgid = returning (sys_setpgid T pid pgid)"

definition setpgrp :: "'w target \<Rightarrow> 'w cstate \<Rightarrow> i32 \<times> 'w cstate" where
  "setpgrp T = setpgid T 0 0"

definition sys_setsid :: "'w target \<Rightarrow> 'w cstate \<Rightarrow> i32 \<times> 'w cstate" where
  "sys_setsid T = int_result (my_syscall0 T ''setsid'')"

definition setsid :: "'w target \<Rightarrow> 'w cstate \<Rightarrow> i32 \<times> 'w cstate" where
  "setsid T = returning (sys_setsid T)"

text \<open>\<^verbatim>\<open>signal.h\<close>: \<open>raise\<close> reports the kernel's answer as it is.\<close>

definition raise_signal :: "'w target \<Rightarrow> i32 \<Rightarrow> 'w cstate \<Rightarrow> i32 \<times> 'w cstate" where
  "raise_signal T signal s = (let (pid, s) = sys_getpid T s in sys_kill T pid signal s)"

subsection \<open>The headers of sys/, sched.h, fcntl.h and unistd.h\<close>

definition sys_ioctl :: "'w target \<Rightarrow> i32 \<Rightarrow> i32 \<Rightarrow> i64 \<Rightarrow> 'w cstate \<Rightarrow> i64 \<times> 'w cstate" where
  "sys_ioctl T fd cmd arg = my_syscall3 T ''ioctl'' (ucast fd) (ucast cmd) arg"

definition ioctl :: "'w target \<Rightarrow> i32 \<Rightarrow> i32 \<Rightarrow> i64 \<Rightarrow> 'w cstate \<Rightarrow> i64 \<times> 'w cstate" where
  "ioctl T fd cmd arg = returning (sys_ioctl T fd cmd arg)"

definition sys_getrandom :: "'w target \<Rightarrow> addr \<Rightarrow> i64 \<Rightarrow> i32 \<Rightarrow> 'w cstate \<Rightarrow> i64 \<times> 'w cstate" where
  "sys_getrandom T buf buflen flags = my_syscall3 T ''getrandom'' buf buflen (ucast flags)"

definition getrandom :: "'w target \<Rightarrow> addr \<Rightarrow> i64 \<Rightarrow> i32 \<Rightarrow> 'w cstate \<Rightarrow> i64 \<times> 'w cstate" where
  "getrandom T buf buflen flags = returning (sys_getrandom T buf buflen flags)"

definition sys_reboot ::
  "'w target \<Rightarrow> i32 \<Rightarrow> i32 \<Rightarrow> i32 \<Rightarrow> addr \<Rightarrow> 'w cstate \<Rightarrow> i64 \<times> 'w cstate" where
  "sys_reboot T magic1 magic2 cmd arg =
     my_syscall4 T ''reboot'' (scast magic1) (scast magic2) (scast cmd) arg"

definition reboot :: "'w target \<Rightarrow> i32 \<Rightarrow> 'w cstate \<Rightarrow> i32 \<times> 'w cstate" where
  "reboot T cmd = int_result (returning
     (sys_reboot T (LINUX_REBOOT_MAGIC1 T) (LINUX_REBOOT_MAGIC2 T) cmd 0))"

definition sys_prctl ::
  "'w target \<Rightarrow> i32 \<Rightarrow> i64 \<Rightarrow> i64 \<Rightarrow> i64 \<Rightarrow> i64 \<Rightarrow> 'w cstate \<Rightarrow> i32 \<times> 'w cstate" where
  "sys_prctl T option arg2 arg3 arg4 arg5 =
     int_result (my_syscall5 T ''prctl'' (scast option) arg2 arg3 arg4 arg5)"

definition prctl ::
  "'w target \<Rightarrow> i32 \<Rightarrow> i64 \<Rightarrow> i64 \<Rightarrow> i64 \<Rightarrow> i64 \<Rightarrow> 'w cstate \<Rightarrow> i32 \<times> 'w cstate" where
  "prctl T option arg2 arg3 arg4 arg5 = returning (sys_prctl T option arg2 arg3 arg4 arg5)"

definition sys_mount ::
  "'w target \<Rightarrow> addr \<Rightarrow> addr \<Rightarrow> addr \<Rightarrow> i64 \<Rightarrow> addr \<Rightarrow> 'w cstate \<Rightarrow> i32 \<times> 'w cstate" where
  "sys_mount T src tgt fstype flags data =
     int_result (my_syscall5 T ''mount'' src tgt fstype flags data)"

definition mount ::
  "'w target \<Rightarrow> addr \<Rightarrow> addr \<Rightarrow> addr \<Rightarrow> i64 \<Rightarrow> addr \<Rightarrow> 'w cstate \<Rightarrow> i32 \<times> 'w cstate" where
  "mount T src tgt fstype flags data = returning (sys_mount T src tgt fstype flags data)"

definition sys_uname :: "'w target \<Rightarrow> addr \<Rightarrow> 'w cstate \<Rightarrow> i32 \<times> 'w cstate" where
  "sys_uname T buf = int_result (my_syscall1 T ''uname'' buf)"

definition uname :: "'w target \<Rightarrow> addr \<Rightarrow> 'w cstate \<Rightarrow> i32 \<times> 'w cstate" where
  "uname T buf = returning (sys_uname T buf)"

definition sys_setns :: "'w target \<Rightarrow> i32 \<Rightarrow> i32 \<Rightarrow> 'w cstate \<Rightarrow> i32 \<times> 'w cstate" where
  "sys_setns T fd nstype = int_result (my_syscall2 T ''setns'' (scast fd) (scast nstype))"

definition setns :: "'w target \<Rightarrow> i32 \<Rightarrow> i32 \<Rightarrow> 'w cstate \<Rightarrow> i32 \<times> 'w cstate" where
  "setns T fd nstype = returning (sys_setns T fd nstype)"

definition sys_unshare :: "'w target \<Rightarrow> i32 \<Rightarrow> 'w cstate \<Rightarrow> i32 \<times> 'w cstate" where
  "sys_unshare T flags = int_result (my_syscall1 T ''unshare'' (scast flags))"

definition unshare :: "'w target \<Rightarrow> i32 \<Rightarrow> 'w cstate \<Rightarrow> i32 \<times> 'w cstate" where
  "unshare T flags = returning (sys_unshare T flags)"

definition sys_munmap :: "'w target \<Rightarrow> addr \<Rightarrow> i64 \<Rightarrow> 'w cstate \<Rightarrow> i32 \<times> 'w cstate" where
  "sys_munmap T address len = int_result (my_syscall2 T ''munmap'' address len)"

definition munmap :: "'w target \<Rightarrow> addr \<Rightarrow> i64 \<Rightarrow> 'w cstate \<Rightarrow> i32 \<times> 'w cstate" where
  "munmap T address len = returning (sys_munmap T address len)"

definition sys_statx ::
  "'w target \<Rightarrow> i32 \<Rightarrow> addr \<Rightarrow> i32 \<Rightarrow> i32 \<Rightarrow> addr \<Rightarrow> 'w cstate \<Rightarrow> i32 \<times> 'w cstate" where
  "sys_statx T fd path flags msk buf =
     (if nr_defined T ''statx''
      then int_result (my_syscall5 T ''statx'' (scast fd) path (scast flags) (ucast msk) buf)
      else enosys T)"

definition statx ::
  "'w target \<Rightarrow> i32 \<Rightarrow> addr \<Rightarrow> i32 \<Rightarrow> i32 \<Rightarrow> addr \<Rightarrow> 'w cstate \<Rightarrow> i32 \<times> 'w cstate" where
  "statx T fd path flags msk buf = returning (sys_statx T fd path flags msk buf)"

definition sys_wait4 ::
  "'w target \<Rightarrow> i32 \<Rightarrow> addr \<Rightarrow> i32 \<Rightarrow> addr \<Rightarrow> 'w cstate \<Rightarrow> i32 \<times> 'w cstate" where
  "sys_wait4 T pid status options rusage =
     (if nr_defined T ''wait4''
      then int_result (my_syscall4 T ''wait4'' (scast pid) status (scast options) rusage)
      else enosys T)"

definition wait4 :: "'w target \<Rightarrow> i32 \<Rightarrow> addr \<Rightarrow> i32 \<Rightarrow> addr \<Rightarrow> 'w cstate \<Rightarrow> i32 \<times> 'w cstate" where
  "wait4 T pid status options rusage = returning (sys_wait4 T pid status options rusage)"

definition sys_waitid ::
  "'w target \<Rightarrow> i32 \<Rightarrow> i32 \<Rightarrow> addr \<Rightarrow> i32 \<Rightarrow> addr \<Rightarrow> 'w cstate \<Rightarrow> i32 \<times> 'w cstate" where
  "sys_waitid T which pid infop options rusage =
     int_result (my_syscall5 T ''waitid'' (scast which) (scast pid) infop (scast options) rusage)"

definition waitid :: "'w target \<Rightarrow> i32 \<Rightarrow> i32 \<Rightarrow> addr \<Rightarrow> i32 \<Rightarrow> 'w cstate \<Rightarrow> i32 \<times> 'w cstate" where
  "waitid T which pid infop options = returning (sys_waitid T which pid infop options 0)"

definition sys_timerfd_create :: "'w target \<Rightarrow> i32 \<Rightarrow> i32 \<Rightarrow> 'w cstate \<Rightarrow> i32 \<times> 'w cstate" where
  "sys_timerfd_create T clockid flags =
     int_result (my_syscall2 T ''timerfd_create'' (scast clockid) (scast flags))"

definition timerfd_create :: "'w target \<Rightarrow> i32 \<Rightarrow> i32 \<Rightarrow> 'w cstate \<Rightarrow> i32 \<times> 'w cstate" where
  "timerfd_create T clockid flags = returning (sys_timerfd_create T clockid flags)"

definition sys_timer_create ::
  "'w target \<Rightarrow> i32 \<Rightarrow> addr \<Rightarrow> addr \<Rightarrow> 'w cstate \<Rightarrow> i32 \<times> 'w cstate" where
  "sys_timer_create T clockid evp timerid =
     int_result (my_syscall3 T ''timer_create'' (scast clockid) evp timerid)"

definition timer_create :: "'w target \<Rightarrow> i32 \<Rightarrow> addr \<Rightarrow> addr \<Rightarrow> 'w cstate \<Rightarrow> i32 \<times> 'w cstate" where
  "timer_create T clockid evp timerid = returning (sys_timer_create T clockid evp timerid)"

definition sys_timer_delete :: "'w target \<Rightarrow> i32 \<Rightarrow> 'w cstate \<Rightarrow> i32 \<times> 'w cstate" where
  "sys_timer_delete T timerid = int_result (my_syscall1 T ''timer_delete'' (scast timerid))"

definition timer_delete :: "'w target \<Rightarrow> i32 \<Rightarrow> 'w cstate \<Rightarrow> i32 \<times> 'w cstate" where
  "timer_delete T timerid = returning (sys_timer_delete T timerid)"

definition sys_faccessat ::
  "'w target \<Rightarrow> i32 \<Rightarrow> addr \<Rightarrow> i32 \<Rightarrow> i32 \<Rightarrow> 'w cstate \<Rightarrow> i32 \<times> 'w cstate" where
  "sys_faccessat T fd path amode flag =
     int_result (my_syscall4 T ''faccessat'' (scast fd) path (scast amode) (scast flag))"

definition faccessat ::
  "'w target \<Rightarrow> i32 \<Rightarrow> addr \<Rightarrow> i32 \<Rightarrow> i32 \<Rightarrow> 'w cstate \<Rightarrow> i32 \<times> 'w cstate" where
  "faccessat T fd path amode flag = returning (sys_faccessat T fd path amode flag)"

definition access :: "'w target \<Rightarrow> addr \<Rightarrow> i32 \<Rightarrow> 'w cstate \<Rightarrow> i32 \<times> 'w cstate" where
  "access T path amode = faccessat T (AT_FDCWD T) path amode 0"

definition sys_openat ::
  "'w target \<Rightarrow> i32 \<Rightarrow> addr \<Rightarrow> i32 \<Rightarrow> i32 \<Rightarrow> 'w cstate \<Rightarrow> i32 \<times> 'w cstate" where
  "sys_openat T dirfd path flags mode =
     int_result (my_syscall4 T ''openat'' (scast dirfd) path (scast flags) (ucast mode))"

text \<open>
  \<^verbatim>\<open>openat\<close> and \<^verbatim>\<open>open\<close> are variadic: \<open>va\<close> is the \<open>mode\<close> argument the
  caller passed, which is read only with \<^verbatim>\<open>O_CREAT\<close>.
\<close>

definition openat :: "'w target \<Rightarrow> i32 \<Rightarrow> addr \<Rightarrow> i32 \<Rightarrow> i32 \<Rightarrow> 'w cstate \<Rightarrow> i32 \<times> 'w cstate" where
  "openat T dirfd path flags va =
     (let mode = (if flags AND O_CREAT T \<noteq> 0 then va else 0) in
      returning (sys_openat T dirfd path flags mode))"

definition sys_open :: "'w target \<Rightarrow> addr \<Rightarrow> i32 \<Rightarrow> i32 \<Rightarrow> 'w cstate \<Rightarrow> i32 \<times> 'w cstate" where
  "sys_open T path flags mode =
     int_result (my_syscall4 T ''openat'' (scast (AT_FDCWD T)) path (scast flags) (ucast mode))"

definition open_file :: "'w target \<Rightarrow> addr \<Rightarrow> i32 \<Rightarrow> i32 \<Rightarrow> 'w cstate \<Rightarrow> i32 \<times> 'w cstate" where
  "open_file T path flags va =
     (let mode = (if flags AND O_CREAT T \<noteq> 0 then va else 0) in
      returning (sys_open T path flags mode))"

subsection \<open>What the wrappers promise\<close>

text \<open>
  The contract of an exported function, as the comment at the head of
  \<^verbatim>\<open>src/sys.h\<close> states it: \<open>raw\<close> is the internal function, which returns a value
  or \<open>-errno\<close>; \<open>wrap\<close> returns the value, or \<open>-1\<close> with \<open>errno\<close> set. In both
  cases the kernel was entered by \<open>raw\<close> only.
\<close>

locale syscall_wrapper =
  fixes raw wrap :: "'w cstate \<Rightarrow> 'a::len word \<times> 'w cstate"
  assumes on_error: "raw s =
     (r, s') \<Longrightarrow> r <s 0 \<Longrightarrow> wrap s = (- 1, s'\<lparr>errno := ucast (- r)\<rparr>)"
    and on_success: "raw s =
     (r, s') \<Longrightarrow> \<not> r <s 0 \<Longrightarrow> wrap s = (r, s')"
begin

lemma failed_iff: "fst (wrap s) <s 0 \<longleftrightarrow> fst (raw s) <s 0"
proof (cases "raw s")
  case (Pair r s')
  have "(- 1 :: 'a word) <s 0" by (simp add: word_sless_alt)
  with Pair show ?thesis
    by (cases "r <s 0") (simp_all add: on_error on_success)
qed

lemma failed_value: "fst (wrap s) <s 0 \<Longrightarrow> fst (wrap s) = - 1"
proof (cases "raw s")
  case (Pair r s')
  assume "fst (wrap s) <s 0"
  then have "r <s 0" using Pair by (simp add: failed_iff)
  with Pair show ?thesis by (simp add: on_error)
qed

lemma keeps_world:
  "kern (snd (wrap s)) = kern (snd (raw s))" "cmem (snd (wrap s)) = cmem (snd (raw s))"
proof -
  obtain r s' where rs: "raw s = (r, s')" by (cases "raw s")
  then show "kern (snd (wrap s)) = kern (snd (raw s))"
    "cmem (snd (wrap s)) = cmem (snd (raw s))"
    by (cases "r <s 0"; simp add: on_error on_success)+
qed

end

lemma wrapper_returning: "syscall_wrapper raw (returning raw)"
  by unfold_locales (simp_all add: returning_def sysret_def SET_ERRNO_def)

lemma returning_cases:
  "raw s = (r, s') \<Longrightarrow>
   returning raw s = (if r <s 0 then (- 1, s'\<lparr>errno := ucast (- r)\<rparr>) else (r, s'))"
  by (simp add: returning_def sysret_def SET_ERRNO_def)

text \<open>A system call leaves the variables of the library alone.\<close>

lemma syscall_insn_frame [simp]:
  "errno (snd (syscall_insn T nr args s)) = errno s"
  "environ (snd (syscall_insn T nr args s)) = environ s"
  "auxv (snd (syscall_insn T nr args s)) = auxv s"
  by (simp_all add: syscall_insn_def split: prod.split)

interpretation close: syscall_wrapper "sys_close T fd" "close T fd" for T fd
  unfolding close_def by (rule wrapper_returning)

interpretation dup2: syscall_wrapper "sys_dup2 T old new" "dup2 T old new" for T old new
  unfolding dup2_def by (rule wrapper_returning)

interpretation read_fd: syscall_wrapper "sys_read T fd buf count" "read_fd T fd buf count"
  for T fd buf count
  unfolding read_fd_def by (rule wrapper_returning)

interpretation write_fd: syscall_wrapper "sys_write T fd buf count" "write_fd T fd buf count"
  for T fd buf count
  unfolding write_fd_def by (rule wrapper_returning)

interpretation unlink: syscall_wrapper "sys_unlink T path" "unlink T path" for T path
  unfolding unlink_def by (rule wrapper_returning)

interpretation getdents64: syscall_wrapper "sys_getdents64 T fd dirp count"
  "getdents64 T fd dirp count" for T fd dirp count
  unfolding getdents64_def by (rule wrapper_returning)

interpretation munmap: syscall_wrapper "sys_munmap T a len" "munmap T a len" for T a len
  unfolding munmap_def by (rule wrapper_returning)

end
