(* ===== verification/SysMem.thy ===== *)
theory SysMem
  imports Sys "HOL-Library.Signed_Division"
begin

section \<open>Wrappers with conditions, loops or memory of their own\<close>

text \<open>
  The remaining functions of \<^verbatim>\<open>src/sys.h\<close>, \<^verbatim>\<open>src/sys/mman.h\<close>,
  \<^verbatim>\<open>src/sys/resource.h\<close>, \<^verbatim>\<open>src/sys/auxv.h\<close>, \<^verbatim>\<open>src/poll.h\<close> and
  \<^verbatim>\<open>src/unistd.h\<close>. A local variable whose address is handed to the kernel lies in
  memory, at the address the argument \<open>fp\<close> gives. Before the code assigns it, it holds
  what the memory there holds.
\<close>

definition cload32 :: "addr \<Rightarrow> 'w cstate \<Rightarrow> i32 option" where
  "cload32 p s = load32 (cmem s) p"

definition cload64 :: "addr \<Rightarrow> 'w cstate \<Rightarrow> i64 option" where
  "cload64 p s = load64 (cmem s) p"

definition cstore32 :: "addr \<Rightarrow> i32 \<Rightarrow> 'w cstate \<Rightarrow> 'w cstate option" where
  "cstore32 p v s = map_option (\<lambda>m. s\<lparr>cmem := m\<rparr>) (store32 (cmem s) p v)"

definition cstore64 :: "addr \<Rightarrow> i64 \<Rightarrow> 'w cstate \<Rightarrow> 'w cstate option" where
  "cstore64 p v s = map_option (\<lambda>m. s\<lparr>cmem := m\<rparr>) (store64 (cmem s) p v)"

text \<open>Signed division and remainder of C, which truncate toward zero.\<close>

definition c_div :: "'a::len word \<Rightarrow> 'a word \<Rightarrow> 'a word" where
  "c_div a b = word_of_int (sint a sdiv sint b)"

definition c_mod :: "'a::len word \<Rightarrow> 'a word \<Rightarrow> 'a word" where
  "c_mod a b = word_of_int (sint a smod sint b)"

definition nonzero :: "'a::len word \<Rightarrow> 'b::len word" where
  "nonzero x = (if x = 0 then 0 else 1)"

subsection \<open>The program break\<close>

definition sys_brk :: "'w target \<Rightarrow> addr \<Rightarrow> 'w cstate \<Rightarrow> addr \<times> 'w cstate" where
  "sys_brk T address = my_syscall1 T ''brk'' address"

definition brk :: "'w target \<Rightarrow> addr \<Rightarrow> 'w cstate \<Rightarrow> i32 \<times> 'w cstate" where
  "brk T address s =
     (let (ret, s) = sys_brk T address s in
      if ret = 0 then (- 1, SET_ERRNO (ENOMEM T) s) else (0, s))"

definition sbrk :: "'w target \<Rightarrow> i64 \<Rightarrow> 'w cstate \<Rightarrow> addr \<times> 'w cstate" where
  "sbrk T inc s =
     (let (ret, s) = sys_brk T 0 s in
      if ret = 0 then (- 1, SET_ERRNO (ENOMEM T) s)
      else let (end, s) = sys_brk T (ret + inc) s in
        if end = ret + inc then (ret + inc, s)
        else (- 1, SET_ERRNO (ENOMEM T) s))"

subsection \<open>The auxiliary vector\<close>

partial_function (option) getauxval_loop :: "addr \<Rightarrow> i64 \<Rightarrow> 'w cstate \<Rightarrow> i64 option" where
  "getauxval_loop av type s = do {
     a0 \<leftarrow> cload64 av s;
     a1 \<leftarrow> (if a0 = 0 then cload64 (av + 8) s else Some 1);
     if a0 = 0 \<and> a1 = 0 then Some 0
     else if a0 = type then cload64 (av + 8) s
     else getauxval_loop (av + 16) type s }"

definition getauxval :: "i64 \<Rightarrow> 'w cstate \<Rightarrow> i64 option" where
  "getauxval type s = (if auxv s = 0 then Some 0 else getauxval_loop (auxv s) type s)"

definition getpagesize :: "'w target \<Rightarrow> 'w cstate \<Rightarrow> (i32 \<times> 'w cstate) option" where
  "getpagesize T s = do {
     v \<leftarrow> getauxval (AT_PAGESZ T) s;
     let n = (ucast v :: i32) in
     Some (sysret (if n \<noteq> 0 then n else - ENOENT T) s) }"

subsection \<open>lseek\<close>

definition sys_lseek :: "'w target \<Rightarrow> i32 \<Rightarrow> i64 \<Rightarrow> i32 \<Rightarrow> 'w cstate \<Rightarrow> i64 \<times> 'w cstate" where
  "sys_lseek T fd offset whence =
     (if nr_defined T ''lseek''
      then my_syscall3 T ''lseek'' (scast fd) offset (scast whence)
      else long_result (enosys T))"

definition sys_llseek ::
  "'w target \<Rightarrow> i32 \<Rightarrow> i64 \<Rightarrow> i64 \<Rightarrow> addr \<Rightarrow> i32 \<Rightarrow> 'w cstate \<Rightarrow> i32 \<times> 'w cstate" where
  "sys_llseek T fd offset_high offset_low res whence =
     (if nr_defined T ''llseek''
      then int_result (my_syscall5 T ''llseek'' (scast fd) offset_high offset_low res (scast whence))
      else enosys T)"

definition lseek ::
  "'w target \<Rightarrow> addr \<Rightarrow> i32 \<Rightarrow> i64 \<Rightarrow> i32 \<Rightarrow> 'w cstate \<Rightarrow> (i64 \<times> 'w cstate) option" where
  "lseek T fp fd offset whence s = do {
     s \<leftarrow> cstore64 fp 0 s;
     let (res, s) = sys_lseek T fd offset whence s in
     if res = scast (- ENOSYS T)
     then let (ret, s) = sys_llseek T fd 0 offset fp whence s in
       if ret <s 0 then Some (sysret (scast ret) s)
       else do {
         loff \<leftarrow> cload64 fp s;
         Some (sysret (if loff \<noteq> scast loff then scast (- EOVERFLOW T) else loff) s) }
     else Some (sysret res s) }"

subsection \<open>The macro syscall\<close>

text \<open>
  \<^verbatim>\<open>syscall\<close> counts its arguments by the position of a constant in the list that
  \<^verbatim>\<open>_syscall_narg\<close> appends to them, and calls the macro of this number. With more than six
  arguments after the number the position holds an argument, and the program does not compile.
\<close>

definition syscall_narg :: "'a list \<Rightarrow> nat option" where
  "syscall_narg va =
     (case (List.map Inl va @ List.map Inr [6, 5, 4, 3, 2, 1, 0]) ! 7 of Inl _ \<Rightarrow> None | Inr n \<Rightarrow> Some n)"

definition syscall :: "'w target \<Rightarrow> sysnr \<Rightarrow> i64 list \<Rightarrow> 'w cstate \<Rightarrow> (i64 \<times> 'w cstate) option" where
  "syscall T nr args s = do {
     n \<leftarrow> syscall_narg (() # List.map (\<lambda>_. ()) args);
     Some (returning
       (if n = 0 then my_syscall0 T nr
        else if n = 1 then my_syscall1 T nr (args ! 0)
        else if n = 2 then my_syscall2 T nr (args ! 0) (args ! 1)
        else if n = 3 then my_syscall3 T nr (args ! 0) (args ! 1) (args ! 2)
        else if n = 4 then my_syscall4 T nr (args ! 0) (args ! 1) (args ! 2) (args ! 3)
        else if n = 5 then my_syscall5 T nr (args ! 0) (args ! 1) (args ! 2) (args ! 3) (args ! 4)
        else my_syscall6 T nr (args ! 0) (args ! 1) (args ! 2) (args ! 3) (args ! 4) (args ! 5)) s) }"

subsection \<open>select and poll\<close>

definition sys_select ::
  "'w target \<Rightarrow> addr \<Rightarrow> i32 \<Rightarrow> addr \<Rightarrow> addr \<Rightarrow> addr \<Rightarrow> addr \<Rightarrow> 'w cstate \<Rightarrow> (i32 \<times> 'w cstate) option" where
  "sys_select T fp nfds rfds wfds efds timeout s =
     (if ARCH_WANT_SYS_OLD_SELECT T \<and> \<not> nr_defined T ''_newselect''
      then do {
        s \<leftarrow> cstore64 fp (scast nfds) s;
        s \<leftarrow> cstore64 (fp + 8) rfds s;
        s \<leftarrow> cstore64 (fp + 16) wfds s;
        s \<leftarrow> cstore64 (fp + 24) efds s;
        s \<leftarrow> cstore64 (fp + 32) timeout s;
        Some (int_result (my_syscall1 T ''select'' fp) s) }
      else if nr_defined T ''_newselect''
      then Some (int_result (my_syscall5 T ''_newselect'' (scast nfds) rfds wfds efds timeout) s)
      else if nr_defined T ''select''
      then Some (int_result (my_syscall5 T ''select'' (scast nfds) rfds wfds efds timeout) s)
      else if nr_defined T ''pselect6'' \<or> nr_defined T ''pselect6_time64''
      then do {
        s \<leftarrow> (if timeout \<noteq> 0 then do {
                 sec \<leftarrow> cload64 timeout s;
                 s \<leftarrow> cstore64 fp sec s;
                 usec \<leftarrow> cload64 (timeout + 8) s;
                 cstore64 (fp + 8) (usec * 1000) s }
               else Some s);
        let t = (if timeout \<noteq> 0 then fp else 0);
            nr = (if nr_defined T ''pselect6'' then ''pselect6'' else ''pselect6_time64'') in
        Some (int_result (my_syscall6 T nr (scast nfds) rfds wfds efds t 0) s) }
      else Some (enosys T s))"

definition select ::
  "'w target \<Rightarrow> addr \<Rightarrow> i32 \<Rightarrow> addr \<Rightarrow> addr \<Rightarrow> addr \<Rightarrow> addr \<Rightarrow> 'w cstate \<Rightarrow> (i32 \<times> 'w cstate) option" where
  "select T fp nfds rfds wfds efds timeout s = do {
     (r, s) \<leftarrow> sys_select T fp nfds rfds wfds efds timeout s;
     Some (sysret r s) }"

definition sys_poll :: "'w target \<Rightarrow> addr \<Rightarrow> addr \<Rightarrow> i32 \<Rightarrow> i32 \<Rightarrow> 'w cstate \<Rightarrow> (i32 \<times> 'w cstate) option" where
  "sys_poll T fp fds nfds timeout s =
     (if nr_defined T ''ppoll'' \<or> nr_defined T ''ppoll_time64''
      then do {
        s \<leftarrow> (if 0 \<le>s timeout then do {
                 s \<leftarrow> cstore64 fp (scast (c_div timeout 1000)) s;
                 cstore64 (fp + 8) (scast (c_mod timeout 1000 * 1000000)) s }
               else Some s);
        let t = (if 0 \<le>s timeout then fp else 0);
            nr = (if nr_defined T ''ppoll'' then ''ppoll'' else ''ppoll_time64'') in
        Some (int_result (my_syscall5 T nr fds (scast nfds) t 0 0) s) }
      else if nr_defined T ''poll''
      then Some (int_result (my_syscall3 T ''poll'' fds (scast nfds) (scast timeout)) s)
      else Some (enosys T s))"

definition poll :: "'w target \<Rightarrow> addr \<Rightarrow> addr \<Rightarrow> i32 \<Rightarrow> i32 \<Rightarrow> 'w cstate \<Rightarrow> (i32 \<times> 'w cstate) option" where
  "poll T fp fds nfds timeout s = do {
     (r, s) \<leftarrow> sys_poll T fp fds nfds timeout s;
     Some (sysret r s) }"

subsection \<open>unistd.h: sleeping\<close>

text \<open>
  \<open>fp\<close> is the address of \<^verbatim>\<open>my_timeval\<close>, \<open>fp'\<close> that of the local of
  \<open>sys_select\<close>.
\<close>

definition msleep :: "'w target \<Rightarrow> addr \<Rightarrow> addr \<Rightarrow> i32 \<Rightarrow> 'w cstate \<Rightarrow> (i32 \<times> 'w cstate) option" where
  "msleep T fp fp' msecs s = do {
     s \<leftarrow> cstore64 fp (ucast (msecs div 1000)) s;
     s \<leftarrow> cstore64 (fp + 8) (ucast ((msecs mod 1000) * 1000)) s;
     (r, s) \<leftarrow> sys_select T fp' 0 0 0 0 fp s;
     if r <s 0
     then do {
       sec \<leftarrow> cload64 fp s;
       usec \<leftarrow> cload64 (fp + 8) s;
       Some (ucast (sec * 1000 + c_div usec 1000 + nonzero (c_mod usec 1000)), s) }
     else Some (0, s) }"

definition sleep :: "'w target \<Rightarrow> addr \<Rightarrow> addr \<Rightarrow> i32 \<Rightarrow> 'w cstate \<Rightarrow> (i32 \<times> 'w cstate) option" where
  "sleep T fp fp' seconds s = do {
     s \<leftarrow> cstore64 fp (ucast seconds) s;
     s \<leftarrow> cstore64 (fp + 8) 0 s;
     (r, s) \<leftarrow> sys_select T fp' 0 0 0 0 fp s;
     if r <s 0
     then do {
       sec \<leftarrow> cload64 fp s;
       usec \<leftarrow> cload64 (fp + 8) s;
       Some (ucast (sec + nonzero usec), s) }
     else Some (0, s) }"

definition usleep :: "'w target \<Rightarrow> addr \<Rightarrow> addr \<Rightarrow> i32 \<Rightarrow> 'w cstate \<Rightarrow> (i32 \<times> 'w cstate) option" where
  "usleep T fp fp' usecs s = do {
     s \<leftarrow> cstore64 fp (ucast (usecs div 1000000)) s;
     s \<leftarrow> cstore64 (fp + 8) (ucast (usecs mod 1000000)) s;
     sys_select T fp' 0 0 0 0 fp s }"

definition tcsetpgrp :: "'w target \<Rightarrow> addr \<Rightarrow> i32 \<Rightarrow> i32 \<Rightarrow> 'w cstate \<Rightarrow> (i32 \<times> 'w cstate) option" where
  "tcsetpgrp T fp fd pid s = do {
     s \<leftarrow> cstore32 fp pid s;
     Some (int_result (ioctl T fd (TIOCSPGRP T) fp) s) }"

subsection \<open>Mappings\<close>

definition sys_mmap ::
  "'w target \<Rightarrow> addr \<Rightarrow> i64 \<Rightarrow> i32 \<Rightarrow> i32 \<Rightarrow> i32 \<Rightarrow> i64 \<Rightarrow> 'w cstate \<Rightarrow> addr \<times> 'w cstate" where
  "sys_mmap T address len prot flags fd offset =
     (let (n, offset) = (if nr_defined T ''mmap2'' then (''mmap2'', signed_drop_bit 12 offset)
                         else (''mmap'', offset)) in
      my_syscall6 T n address len (scast prot) (scast flags) (scast fd) offset)"

definition mmap ::
  "'w target \<Rightarrow> addr \<Rightarrow> i64 \<Rightarrow> i32 \<Rightarrow> i32 \<Rightarrow> i32 \<Rightarrow> i64 \<Rightarrow> 'w cstate \<Rightarrow> addr \<times> 'w cstate" where
  "mmap T address len prot flags fd offset s =
     (let (ret, s) = sys_mmap T address len prot flags fd offset s in
      if - 4095 \<le> ret then (- 1, SET_ERRNO (ucast (- ret)) s) else (ret, s))"

definition sys_mremap ::
  "'w target \<Rightarrow> addr \<Rightarrow> i64 \<Rightarrow> i64 \<Rightarrow> i32 \<Rightarrow> addr \<Rightarrow> 'w cstate \<Rightarrow> addr \<times> 'w cstate" where
  "sys_mremap T old_address old_size new_size flags new_address =
     my_syscall5 T ''mremap'' old_address old_size new_size (scast flags) new_address"

definition mremap ::
  "'w target \<Rightarrow> addr \<Rightarrow> i64 \<Rightarrow> i64 \<Rightarrow> i32 \<Rightarrow> addr \<Rightarrow> 'w cstate \<Rightarrow> addr \<times> 'w cstate" where
  "mremap T old_address old_size new_size flags new_address s =
     (let (ret, s) = sys_mremap T old_address old_size new_size flags new_address s in
      if - 4095 \<le> ret then (- 1, SET_ERRNO (ucast (- ret)) s) else (ret, s))"

subsection \<open>Resource limits\<close>

text \<open>A \<^verbatim>\<open>struct rlimit\<close> and a \<^verbatim>\<open>struct rlimit64\<close> are two 64-bit words.\<close>

definition sys_prlimit64 ::
  "'w target \<Rightarrow> i32 \<Rightarrow> i32 \<Rightarrow> addr \<Rightarrow> addr \<Rightarrow> 'w cstate \<Rightarrow> i32 \<times> 'w cstate" where
  "sys_prlimit64 T pid resource new_limit old_limit =
     int_result (my_syscall4 T ''prlimit64'' (scast pid) (scast resource) new_limit old_limit)"

definition getrlimit :: "'w target \<Rightarrow> addr \<Rightarrow> i32 \<Rightarrow> addr \<Rightarrow> 'w cstate \<Rightarrow> (i32 \<times> 'w cstate) option" where
  "getrlimit T fp resource rlim s =
     (let (ret, s) = returning (sys_prlimit64 T 0 resource 0 fp) s in
      do {
        cur \<leftarrow> cload64 fp s;
        s \<leftarrow> cstore64 rlim cur s;
        mx \<leftarrow> cload64 (fp + 8) s;
        s \<leftarrow> cstore64 (rlim + 8) mx s;
        Some (ret, s) })"

definition setrlimit :: "'w target \<Rightarrow> addr \<Rightarrow> i32 \<Rightarrow> addr \<Rightarrow> 'w cstate \<Rightarrow> (i32 \<times> 'w cstate) option" where
  "setrlimit T fp resource rlim s = do {
     cur \<leftarrow> cload64 rlim s;
     s \<leftarrow> cstore64 fp cur s;
     mx \<leftarrow> cload64 (rlim + 8) s;
     s \<leftarrow> cstore64 (fp + 8) mx s;
     Some (returning (sys_prlimit64 T 0 resource fp 0) s) }"

end
