(* ===== verification/Strto.thy ===== *)
theory Strto
  imports SysMem Ctype CStringFacts
begin

section \<open>strtol and its family, getenv\<close>

text \<open>
  A comparison with a string literal, \<^verbatim>\<open>strncmp(nptr, "0x", 2)\<close>, is
  \<open>lit_ncmp\<close> on the first \<open>n\<close> characters of the literal; \<open>lit_ncmp_eq\<close> relates it to
  \<open>strncmp\<close>.
\<close>

primrec lit_ncmp :: "mem \<Rightarrow> addr \<Rightarrow> byte list \<Rightarrow> i32 option" where
  "lit_ncmp m a [] = Some 0"
| "lit_ncmp m a (b # bs) = do {
     c \<leftarrow> load m a;
     let diff = (ucast c :: i32) - ucast b in
     if diff = 0 \<and> c \<noteq> 0 then lit_ncmp m (a + 1) bs else Some diff }"

partial_function (option) strtox_space :: "mem \<Rightarrow> addr \<Rightarrow> addr option" where
  "strtox_space m nptr = do {
     c \<leftarrow> load m nptr;
     if isspace (scast c) \<noteq> 0 then strtox_space m (nptr + 1) else Some nptr }"

text \<open>The base after the tests for a prefix.\<close>

definition strtox_base :: "mem \<Rightarrow> addr \<Rightarrow> i32 \<Rightarrow> (i32 \<times> addr) option" where
  "strtox_base m nptr base =
     (if base = 0 \<or> base = 16 then do {
        d \<leftarrow> lit_ncmp m nptr [48, 120];
        d \<leftarrow> (if d = 0 then Some d else lit_ncmp m nptr [48, 88]);
        if d = 0 then Some (16, nptr + 2)
        else if base = 0 then do {
          d \<leftarrow> lit_ncmp m nptr [48];
          Some (if d = 0 then (8, nptr + 1) else (10, nptr)) }
        else Some (base, nptr) }
      else Some (base, nptr))"

definition strtox_digit :: "byte \<Rightarrow> byte option" where
  "strtox_digit c =
     (if 48 \<le>s c \<and> c \<le>s 57 then Some (c - 48)
      else if 97 \<le>s c \<and> c \<le>s 122 then Some (c - 97 + 10)
      else if 65 \<le>s c \<and> c \<le>s 90 then Some (c - 65 + 10)
      else None)"

partial_function (option) strtox_loop ::
  "mem \<Rightarrow> i32 \<Rightarrow> i64 \<Rightarrow> addr \<Rightarrow> i64 \<Rightarrow> bool \<Rightarrow> (addr \<times> i64 \<times> bool) option" where
  "strtox_loop m base limit nptr val overflow = do {
     c \<leftarrow> load m nptr;
     if c = 0 then Some (nptr, val, overflow)
     else (case strtox_digit c of
       None \<Rightarrow> Some (nptr, val, overflow)
     | Some c \<Rightarrow>
         if base \<le>s scast c then Some (nptr, val, overflow)
         else
           let old_val = val;
               val = val * scast base;
               val = val + scast c;
               overflow = (if limit < val \<or> val < old_val then True else overflow) in
           strtox_loop m base limit (nptr + 1) val overflow) }"

definition strtox_out ::
  "'w target \<Rightarrow> addr \<Rightarrow> addr \<Rightarrow> bool \<Rightarrow> i64 \<Rightarrow> bool \<Rightarrow> i64 \<Rightarrow> 'w cstate \<Rightarrow> (i64 \<times> 'w cstate) option" where
  "strtox_out T nptr endptr neg limit overflow val s =
     (let (val, s) = (if overflow then (limit, SET_ERRNO (ERANGE T) s) else (val, s)) in
      do {
        s \<leftarrow> (if endptr \<noteq> 0 then cstore64 endptr nptr s else Some s);
        Some (if neg then - val else val, s) })"

definition strtox ::
  "'w target \<Rightarrow> addr \<Rightarrow> addr \<Rightarrow> i32 \<Rightarrow> i64 \<Rightarrow> i64 \<Rightarrow> 'w cstate \<Rightarrow> (i64 \<times> 'w cstate) option" where
  "strtox T nptr endptr base lower_limit upper_limit s =
     (let sgn = lower_limit \<noteq> 0; m = cmem s in
      if base <s 0 \<or> 36 <s base
      then strtox_out T nptr endptr False 0 False 0 (SET_ERRNO (EINVAL T) s)
      else do {
        nptr \<leftarrow> strtox_space m nptr;
        c \<leftarrow> load m nptr;
        let (neg, nptr) =
          (if c = 43 then (False, nptr + 1)
           else if c = 45 then (True, nptr + 1)
           else (False, nptr));
        let limit = (if sgn \<and> neg then - lower_limit else upper_limit);
        (base, nptr) \<leftarrow> strtox_base m nptr base;
        (nptr, val, overflow) \<leftarrow> strtox_loop m base limit nptr 0 False;
        strtox_out T nptr endptr neg limit overflow val s })"

definition LONG_MIN :: i64 where "LONG_MIN = 0x8000000000000000"
definition LONG_MAX :: i64 where "LONG_MAX = 0x7FFFFFFFFFFFFFFF"
definition ULONG_MAX :: i64 where "ULONG_MAX = 0xFFFFFFFFFFFFFFFF"

definition strtol :: "'w target \<Rightarrow> addr \<Rightarrow> addr \<Rightarrow> i32 \<Rightarrow> 'w cstate \<Rightarrow> (i64 \<times> 'w cstate) option" where
  "strtol T nptr endptr base = strtox T nptr endptr base LONG_MIN LONG_MAX"

definition strtoul :: "'w target \<Rightarrow> addr \<Rightarrow> addr \<Rightarrow> i32 \<Rightarrow> 'w cstate \<Rightarrow> (i64 \<times> 'w cstate) option" where
  "strtoul T nptr endptr base = strtox T nptr endptr base 0 ULONG_MAX"

definition strtoll :: "'w target \<Rightarrow> addr \<Rightarrow> addr \<Rightarrow> i32 \<Rightarrow> 'w cstate \<Rightarrow> (i64 \<times> 'w cstate) option" where
  "strtoll T nptr endptr base = strtox T nptr endptr base LONG_MIN LONG_MAX"

definition strtoull :: "'w target \<Rightarrow> addr \<Rightarrow> addr \<Rightarrow> i32 \<Rightarrow> 'w cstate \<Rightarrow> (i64 \<times> 'w cstate) option" where
  "strtoull T nptr endptr base = strtox T nptr endptr base 0 ULONG_MAX"

definition strtoimax :: "'w target \<Rightarrow> addr \<Rightarrow> addr \<Rightarrow> i32 \<Rightarrow> 'w cstate \<Rightarrow> (i64 \<times> 'w cstate) option" where
  "strtoimax T nptr endptr base = strtox T nptr endptr base LONG_MIN LONG_MAX"

definition strtoumax :: "'w target \<Rightarrow> addr \<Rightarrow> addr \<Rightarrow> i32 \<Rightarrow> 'w cstate \<Rightarrow> (i64 \<times> 'w cstate) option" where
  "strtoumax T nptr endptr base = strtox T nptr endptr base 0 ULONG_MAX"

subsection \<open>getenv\<close>

text \<open>
  \<open>idx\<close> and \<open>i\<close> are the \<open>int\<close> indices, sign-extended when they index. The first loop
  finds how far \<open>name\<close> and an entry agree.
\<close>

partial_function (option) getenv_match :: "mem \<Rightarrow> addr \<Rightarrow> addr \<Rightarrow> i32 \<Rightarrow> i32 option" where
  "getenv_match m name entry i = do {
     a \<leftarrow> load m (name + scast i);
     if a \<noteq> 0 then do {
       b \<leftarrow> load m (entry + scast i);
       if a = b then getenv_match m name entry (i + 1) else Some i }
     else Some i }"

partial_function (option) getenv_loop :: "mem \<Rightarrow> addr \<Rightarrow> addr \<Rightarrow> i32 \<Rightarrow> addr option" where
  "getenv_loop m env name idx = do {
     entry \<leftarrow> load64 m (env + 8 * scast idx);
     if entry = 0 then Some 0
     else do {
       i \<leftarrow> getenv_match m name entry 0;
       a \<leftarrow> load m (name + scast i);
       hit \<leftarrow> (if a = 0 then do { b \<leftarrow> load m (entry + scast i); Some (b = 61) } else Some False);
       if hit then Some (entry + scast (i + 1)) else getenv_loop m env name (idx + 1) } }"

definition getenv :: "addr \<Rightarrow> 'w cstate \<Rightarrow> addr option" where
  "getenv name s =
     (if environ s \<noteq> 0 then getenv_loop (cmem s) (environ s) name 0 else Some 0)"

end
