(* ===== verification/StrtoFacts.thy ===== *)
theory StrtoFacts
  imports Strto
begin

section \<open>What strtol and its family compute\<close>

text \<open>
  \<open>iso_integer\<close> is the number a text denotes by ISO C and how much of the text belongs to it;
  \<open>strto_ref\<close> splits a text as the code does. The facts below relate \<open>strtox\<close> to \<open>strto_ref\<close>,
  with the overflow flag as the code computes it, give the range where that flag is exact, and compare
  \<open>strto_ref\<close> with \<open>iso_integer\<close>.
\<close>

subsection \<open>Comparison with a literal\<close>

lemma lit_ncmp_eq:
  "cstr m a xs \<Longrightarrow> 0 \<notin> set lit \<Longrightarrow> lit_ncmp m a lit = Some (cmp_bytes (take (length lit) xs) lit)"
proof (induction lit arbitrary: a xs)
  case (Cons b bs)
  then show ?case by (cases xs) (auto simp: Let_def)
qed simp

lemma lit_ncmp_strncmp:
  assumes "cstr m a xs" and "cstr m q lit"
  shows "lit_ncmp m a lit = strncmp m a q (of_nat (length lit))"
  using assms cstr_length_num [OF assms(2)] cstr_nonzero [OF assms(2)]
  by (simp add: lit_ncmp_eq strncmp_eq)

lemma lit_ncmp_0:
  assumes "cstr m a xs" and "0 \<notin> set lit"
  shows "\<exists>d. lit_ncmp m a lit = Some d \<and> (d = 0 \<longleftrightarrow> take (length lit) xs = lit)"
proof -
  have "0 \<notin> set (take (length lit) xs)"
    using cstr_nonzero [OF assms(1)] set_take_subset [of "length lit" xs] by blast
  then show ?thesis using assms by (simp add: lit_ncmp_eq cmp_bytes_eq_0)
qed

subsection \<open>Reference\<close>

text \<open>
  White space, the values of digits and letters (36 for a character that is neither), the digits of
  a base and the number they denote, from the code of the characters.
\<close>

definition is_space :: "byte \<Rightarrow> bool" where
  "is_space c \<longleftrightarrow> c = 32 \<or> 9 \<le> unat c \<and> unat c \<le> 13"

definition digit_value :: "byte \<Rightarrow> nat" where
  "digit_value c =
     (if 48 \<le> unat c \<and> unat c \<le> 57 then unat c - 48
      else if 65 \<le> unat c \<and> unat c \<le> 90 then unat c - 55
      else if 97 \<le> unat c \<and> unat c \<le> 122 then unat c - 87
      else 36)"

definition valid_digit :: "nat \<Rightarrow> byte \<Rightarrow> bool" where
  "valid_digit b c \<longleftrightarrow> digit_value c < b \<and> digit_value c < 36"

definition num_value :: "nat \<Rightarrow> byte list \<Rightarrow> nat" where
  "num_value b ds = foldl (\<lambda>n c. n * b + digit_value c) 0 ds"

text \<open>
  ISO C: white space is skipped; a sign may follow; where the base is 16 or left open (0), the text
  \<^verbatim>\<open>0x\<close> may precede the digits and belongs to the number when a hexadecimal digit follows it; a number
  in an open base is octal when it starts with \<^verbatim>\<open>0\<close>, else decimal. A text without a digit there
  denotes no number: the value is 0 and no character belongs to it.
\<close>

definition hex_prefix :: "nat \<Rightarrow> byte list \<Rightarrow> bool" where
  "hex_prefix base xs \<longleftrightarrow> (base = 0 \<or> base = 16) \<and> take 2 xs \<in> {[48, 120], [48, 88]}"

definition behind_sign :: "byte list \<Rightarrow> byte list" where
  "behind_sign xs = (if take 1 xs = [43] \<or> take 1 xs = [45] then drop 1 xs else xs)"

definition iso_integer :: "nat \<Rightarrow> byte list \<Rightarrow> int \<times> nat" where
  "iso_integer base xs =
     (let ys = dropWhile is_space xs;
          zs = behind_sign ys;
          hex = hex_prefix base zs \<and> (case drop 2 zs of [] \<Rightarrow> False | c # _ \<Rightarrow> valid_digit 16 c);
          b = (if hex then 16 else if base = 0 then if take 1 zs = [48] then 8 else 10 else base);
          ws = (if hex then drop 2 zs else zs);
          ds = takeWhile (valid_digit b) ws in
      if ds = [] then (0, 0)
      else (if take 1 ys = [45] then - int (num_value b ds) else int (num_value b ds),
            length xs - length (dropWhile (valid_digit b) ws)))"

text \<open>A prefix without a digit behind it.\<close>

definition stray_prefix :: "nat \<Rightarrow> byte list \<Rightarrow> bool" where
  "stray_prefix base xs \<longleftrightarrow>
     (let zs = behind_sign (dropWhile is_space xs) in
      hex_prefix base zs \<and> (case drop 2 zs of [] \<Rightarrow> True | c # _ \<Rightarrow> \<not> valid_digit 16 c))"

text \<open>
  The code: \<open>strto_ref base xs\<close> splits the text \<open>xs\<close> into the sign, the base (after a prefix),
  the digits and the number of characters that are read.
\<close>

definition strto_prefix :: "nat \<Rightarrow> byte list \<Rightarrow> nat \<times> nat" where
  "strto_prefix base xs =
     (if (base = 0 \<or> base = 16) \<and> (take 2 xs = [48, 120] \<or> take 2 xs = [48, 88]) then (16, 2)
      else if base = 0 \<and> take 1 xs = [48] then (8, 1)
      else if base = 0 then (10, 0)
      else (base, 0))"

definition strto_ref :: "nat \<Rightarrow> byte list \<Rightarrow> bool \<times> nat \<times> byte list \<times> nat" where
  "strto_ref base xs =
     (let sp = length (takeWhile is_space xs);
          ys = drop sp xs;
          neg = (take 1 ys = [45]);
          sg = (if take 1 ys = [43] \<or> neg then 1 else 0);
          zs = drop sg ys;
          (b, k) = strto_prefix base zs;
          ds = takeWhile (valid_digit b) (drop k zs) in
      (neg, b, ds, sp + sg + k + length ds))"

lemma isspace_space [simp]: "isspace (scast c) = 0 \<longleftrightarrow> \<not> is_space c"
  by (rule every_byte) code_simp

text \<open>The accumulation of the loop on a list of digits, overflow test included.\<close>

definition strtox_step :: "nat \<Rightarrow> i64 \<Rightarrow> i64 \<times> bool \<Rightarrow> byte \<Rightarrow> i64 \<times> bool" where
  "strtox_step b limit = (\<lambda>(val, ov) c.
     let v = val * of_nat b + of_nat (digit_value c) in (v, ov \<or> limit < v \<or> v < val))"

subsection \<open>The loops\<close>

lemma strtox_space_eq:
  "cstr m p xs \<Longrightarrow> strtox_space m p = Some (p + of_nat (length (takeWhile is_space xs)))"
proof (induction xs arbitrary: p)
  case Nil
  have "\<not> is_space 0" by code_simp
  with Nil show ?case by (subst strtox_space.simps) simp
next
  case (Cons x xs)
  then show ?case by (subst strtox_space.simps) (auto simp: algebra_simps)
qed

lemma strtox_digit_facts:
  "case strtox_digit c of None \<Rightarrow> digit_value c = 36
   | Some d \<Rightarrow> unat d = digit_value c \<and> digit_value c < 36 \<and> c \<noteq> 0 \<and>
       (scast d :: i64) = of_nat (digit_value c) \<and> sint (scast d :: i32) = int (digit_value c)"
  by (rule every_byte) code_simp

lemma valid_digitE:
  assumes "valid_digit b c"
  obtains d where "strtox_digit c = Some d" "unat d = digit_value c" "digit_value c < b"
    "digit_value c < 36" "c \<noteq> 0" "(scast d :: i64) = of_nat (digit_value c)"
    "sint (scast d :: i32) = int (digit_value c)"
proof -
  from assms obtain d where "strtox_digit c = Some d"
    using strtox_digit_facts [of c] by (auto simp: valid_digit_def split: option.splits)
  with strtox_digit_facts [of c] assms that show thesis by (simp add: valid_digit_def)
qed

lemma small_base:
  assumes "b \<le> 36"
  shows "sint (of_nat b :: i32) = int b" and "(scast (of_nat b :: i32) :: i64) = of_nat b"
proof -
  have "\<forall>n \<in> set [0..<37]. sint (of_nat n :: i32) = int n \<and> (scast (of_nat n :: i32) :: i64) = of_nat n"
    by code_simp
  with assms show "sint (of_nat b :: i32) = int b" "(scast (of_nat b :: i32) :: i64) = of_nat b"
    by (auto simp del: upt_Suc)
qed

text \<open>The loop stops at the first character that is no digit of the base.\<close>

lemma strtox_loop_stop:
  assumes "m p = Some c" and "\<not> valid_digit b c" and "b \<le> 36"
  shows "strtox_loop m (of_nat b) limit p val ov = Some (p, val, ov)"
proof (cases "strtox_digit c")
  case None
  with assms(1) show ?thesis by (subst strtox_loop.simps) simp
next
  case (Some d)
  then have "int b \<le> int (digit_value c)"
    using assms(2) strtox_digit_facts [of c] by (simp add: valid_digit_def not_less)
  then have "(of_nat b :: i32) \<le>s scast d"
    using Some strtox_digit_facts [of c] by (simp add: word_sle_eq small_base [OF assms(3)])
  with assms(1) Some show ?thesis by (subst strtox_loop.simps) simp
qed

lemma strtox_loop_step:
  assumes "m p = Some c" and v: "valid_digit b c" and "b \<le> 36"
  shows "strtox_loop m (of_nat b) limit p val ov =
    (let (val, ov) = strtox_step b limit (val, ov) c in
     strtox_loop m (of_nat b) limit (p + 1) val ov)"
  using v
proof (rule valid_digitE)
  fix d assume "strtox_digit c = Some d" "unat d = digit_value c" "digit_value c < b"
    "digit_value c < 36" "c \<noteq> 0" "(scast d :: i64) = of_nat (digit_value c)"
    "sint (scast d :: i32) = int (digit_value c)"
  with assms small_base [OF assms(3)] show ?thesis
    by (subst strtox_loop.simps) (simp add: strtox_step_def Let_def word_sle_eq)
qed

lemma strtox_loop_eq:
  "bytes_at m p (ds @ [c]) \<Longrightarrow> \<forall>d \<in> set ds. valid_digit b d \<Longrightarrow> \<not> valid_digit b c \<Longrightarrow>
   b \<le> 36 \<Longrightarrow>
   strtox_loop m (of_nat b) limit p val ov =
     (let (val, ov) = foldl (strtox_step b limit) (val, ov) ds in
      Some (p + of_nat (length ds), val, ov))"
proof (induction ds arbitrary: p val ov)
  case Nil
  then show ?case by (simp add: strtox_loop_stop)
next
  case (Cons d ds)
  obtain v o' where st: "strtox_step b limit (val, ov) d = (v, o')" by fastforce
  have "strtox_loop m (of_nat b) limit p val ov = strtox_loop m (of_nat b) limit (p + 1) v o'"
    using Cons.prems by (subst strtox_loop_step [where c = d]) (simp_all add: st)
  with Cons st show ?case by (simp add: algebra_simps)
qed

text \<open>As long as the number fits, the accumulation is exact and reports no overflow.\<close>

lemma foldl_value_mono: "1 \<le> b \<Longrightarrow> n \<le> foldl (\<lambda>n c. n * b + digit_value c) n ds"
proof (induction ds arbitrary: n)
  case (Cons d ds)
  have "n \<le> n * b + digit_value d" using Cons.prems by (cases b) auto
  also have "\<dots> \<le> foldl (\<lambda>n c. n * b + digit_value c) (n * b + digit_value d) ds"
    using Cons by simp
  finally show ?case by simp
qed simp

lemma strtox_fold_exact:
  "foldl (\<lambda>n c. n * b + digit_value c) n ds \<le> unat limit \<Longrightarrow> 1 \<le> b \<Longrightarrow>
   foldl (strtox_step b limit) (of_nat n, ov) ds =
     (of_nat (foldl (\<lambda>n c. n * b + digit_value c) n ds), ov)"
proof (induction ds arbitrary: n)
  case (Cons d ds)
  let ?v = "n * b + digit_value d"
  have v: "?v \<le> unat limit" "n \<le> ?v"
    using Cons.prems foldl_value_mono [OF Cons.prems(2), of ?v ds]
      foldl_value_mono [OF Cons.prems(2), of n "[d]"] by simp_all
  have "?v < 2 ^ 64" using order_le_less_trans [OF v(1) unat_lt64] by simp
  then have u: "unat (of_nat ?v :: i64) = ?v" "unat (of_nat n :: i64) = n"
    using v(2) by (auto intro!: unat_of_nat64 simp del: of_nat_add of_nat_mult)
  have "of_nat n * of_nat b + of_nat (digit_value d) = (of_nat ?v :: i64)" by simp
  then have st: "strtox_step b limit (of_nat n, ov) d = (of_nat ?v, ov)"
    using v by (simp only: strtox_step_def Let_def word_less_nat_alt u prod.case) simp
  have "foldl (strtox_step b limit) (of_nat ?v, ov) ds =
      (of_nat (foldl (\<lambda>n c. n * b + digit_value c) ?v ds), ov)"
    using Cons.prems by (intro Cons.IH) simp_all
  then show ?case by (simp only: foldl_Cons st)
qed simp

subsection \<open>The whole function\<close>

text \<open>Prefix detection agrees with the reference.\<close>

lemma take_two: "take (Suc (Suc 0)) xs = take 2 xs"
  by (simp add: numeral_2_eq_2)

lemma strtox_base_eq:
  assumes c: "cstr m p xs" and b: "base \<le> 36"
  shows "strtox_base m p (of_nat base) =
    (let (b, k) = strto_prefix base xs in Some (of_nat b, p + of_nat k))"
proof -
  obtain d1 where d1: "lit_ncmp m p [48, 120] = Some d1" "d1 = 0 \<longleftrightarrow> take 2 xs = [48, 120]"
    using lit_ncmp_0 [OF c, of "[48, 120]"]
    by (auto simp: take_two simp del: lit_ncmp.simps)
  obtain d2 where d2: "lit_ncmp m p [48, 88] = Some d2" "d2 = 0 \<longleftrightarrow> take 2 xs = [48, 88]"
    using lit_ncmp_0 [OF c, of "[48, 88]"]
    by (auto simp: take_two simp del: lit_ncmp.simps)
  obtain d3 where d3: "lit_ncmp m p [48] = Some d3" "d3 = 0 \<longleftrightarrow> take 1 xs = [48]"
    using lit_ncmp_0 [OF c, of "[48]"] by (auto simp del: lit_ncmp.simps)
  have "(of_nat base :: i32) = 0 \<longleftrightarrow> base = 0" "(of_nat base :: i32) = 16 \<longleftrightarrow> base = 16"
    using b unat_of_nat_lt [of base, where 'a = 32] by (auto simp: word_unat_eq_iff)
  with d1 d2 d3 show ?thesis by (auto simp: strtox_base_def strto_prefix_def)
qed

lemma cstr_next: "cstr m p xs \<Longrightarrow> k \<le> length xs \<Longrightarrow> cstr m (p + of_nat k) (drop k xs)"
  using cstr_append_drop [of m p "take k xs" "drop k xs"] by simp

lemma cstr_run:
  assumes "cstr m p xs" and "\<not> P 0"
  shows "\<exists>c. bytes_at m p (takeWhile P xs @ [c]) \<and> \<not> P c"
proof (cases "dropWhile P xs")
  case Nil
  then have all: "takeWhile P xs = xs" by (metis append_Nil2 takeWhile_dropWhile_id)
  show ?thesis unfolding all using assms by (auto simp: cstr_iff_bytes)
next
  case (Cons c cs)
  then have "\<not> P c" using hd_dropWhile [of P xs] by simp
  moreover have "xs = takeWhile P xs @ c # cs" using Cons by (metis takeWhile_dropWhile_id)
  then have "bytes_at m p (takeWhile P xs @ c # cs)"
    using assms(1) by (metis bytes_at_append cstr_iff_bytes)
  ultimately show ?thesis by auto
qed

text \<open>
  The prefix belongs to the text, and the base it selects is between 1 and 36 (\<open>base\<close>
  itself is allowed to be 1).
\<close>

lemma strto_prefix_bounds:
  assumes "strto_prefix base xs = (b, k)" and "base \<le> 36"
  shows "k \<le> length xs" and "1 \<le> b" and "b \<le> 36"
  using assms by (auto simp: strto_prefix_def split: if_splits dest!: arg_cong [where f = length])

lemma sint_base: "base \<le> 36 \<Longrightarrow> \<not> (of_nat base :: i32) <s 0 \<and> \<not> 36 <s (of_nat base :: i32)"
  by (simp add: word_sless_alt small_base)

lemma strtox_eq:
  assumes c: "cstr (cmem s) p xs" and base: "base \<le> 36"
    and ref: "strto_ref base xs = (neg, b, ds, n)"
    and limit: "limit = (if lower \<noteq> 0 \<and> neg then - lower else upper)"
  shows "strtox T p endptr (of_nat base) lower upper s =
    (let (val, ov) = foldl (strtox_step b limit) (0, False) ds in
     strtox_out T (p + of_nat n) endptr neg limit ov val s)"
proof -
  let ?sp = "length (takeWhile is_space xs)"
  let ?ys = "drop ?sp xs"
  let ?sg = "if take 1 ?ys = [43] \<or> take 1 ?ys = [45] then 1 else 0 :: nat"
  let ?zs = "drop ?sg ?ys"
  obtain k where pre: "strto_prefix base ?zs = (b, k)"
    and neg: "neg \<longleftrightarrow> take 1 ?ys = [45]"
    and ds: "ds = takeWhile (valid_digit b) (drop k ?zs)" and n: "n = ?sp + ?sg + k + length ds"
    using ref by (auto simp: strto_ref_def Let_def split: prod.splits if_splits)
  have ys: "cstr (cmem s) (p + of_nat ?sp) ?ys"
    using c length_takeWhile_le by (rule cstr_next)
  have zs: "cstr (cmem s) (p + of_nat ?sp + of_nat ?sg) ?zs"
    using ys by (rule cstr_next) (cases ?ys; simp)
  have ws: "cstr (cmem s) (p + of_nat ?sp + of_nat ?sg + of_nat k) (drop k ?zs)"
    using zs strto_prefix_bounds(1) [OF pre base] by (rule cstr_next)
  have "\<not> valid_digit b 0" by (auto elim: valid_digitE)
  from cstr_run [of _ _ _ "valid_digit b", OF ws this] obtain e where
    e: "bytes_at (cmem s) (p + of_nat ?sp + of_nat ?sg + of_nat k) (ds @ [e])" "\<not> valid_digit b e"
    unfolding ds by blast
  have "\<forall>d \<in> set ds. valid_digit b d" unfolding ds by (auto dest: set_takeWhileD)
  note loop = strtox_loop_eq [OF e(1) this e(2) strto_prefix_bounds(3) [OF pre base],
      of limit 0 False]
  define q1 where "q1 = p + of_nat ?sp"
  define q2 where "q2 = q1 + of_nat ?sg"
  define q3 where "q3 = q2 + of_nat k"
  have q3: "q3 + of_nat (length ds) = p + of_nat n"
    by (simp only: q1_def q2_def q3_def n of_nat_add add.assoc)
  have "\<exists>ch. cmem s q1 = Some ch \<and>
      (if ch = 43 then (False, q1 + 1) else if ch = 45 then (True, q1 + 1) else (False, q1)) =
      (neg, q2)"
    using ys neg unfolding q2_def q1_def by (cases ?ys) auto
  then obtain ch where ch: "cmem s q1 = Some ch" and
    sg: "(if ch = 43 then (False, q1 + 1) else if ch = 45 then (True, q1 + 1) else (False, q1)) =
      (neg, q2)" by blast
  have sp: "strtox_space (cmem s) p = Some q1"
    unfolding q1_def using c by (rule strtox_space_eq)
  have bs: "strtox_base (cmem s) q2 (of_nat base) = Some (of_nat b, q3)"
    using strtox_base_eq [OF zs base] unfolding pre q3_def q2_def q1_def by simp
  have lp: "strtox_loop (cmem s) (of_nat b) limit q3 0 False =
      (let (val, ov) = foldl (strtox_step b limit) (0, False) ds in Some (p + of_nat n, val, ov))"
    using loop unfolding q3 [symmetric] q3_def q2_def q1_def .
  obtain val ov where fo: "foldl (strtox_step b limit) (0, False) ds = (val, ov)" by fastforce
  show ?thesis
    using sint_base [OF base]
    unfolding strtox_def Let_def fo
    by (simp add: sp ch sg bs lp fo Let_def flip: limit)
qed

text \<open>A number in range, and the characters that are read.\<close>

lemma strtox_exact:
  assumes c: "cstr (cmem s) p xs" and base: "base \<le> 36"
    and ref: "strto_ref base xs = (neg, b, ds, n)"
    and limit: "num_value b ds \<le> unat (if lower \<noteq> 0 \<and> neg then - lower else upper)"
  shows "strtox T p endptr (of_nat base) lower upper s = do {
    s \<leftarrow> (if endptr \<noteq> 0 then cstore64 endptr (p + of_nat n) s else Some s);
    Some (if neg then - of_nat (num_value b ds) else of_nat (num_value b ds), s) }"
proof -
  let ?limit = "if lower \<noteq> 0 \<and> neg then - lower else upper"
  obtain k zs where "strto_prefix base zs = (b, k)"
    using ref by (auto simp: strto_ref_def Let_def split: prod.splits)
  then have "1 \<le> b" using base by (rule strto_prefix_bounds)
  then have "foldl (strtox_step b ?limit) (0, False) ds = (of_nat (num_value b ds), False)"
    using limit strtox_fold_exact [of b 0 ds ?limit False] by (simp add: num_value_def)
  then show ?thesis
    using strtox_eq [OF c base ref refl, of T endptr lower upper]
    by (simp add: strtox_out_def Let_def)
qed

lemma strto_ref_length:
  assumes "strto_ref base xs = (neg, b, ds, n)" and "base \<le> 36"
  shows "n \<le> length xs"
proof -
  define ys where "ys = dropWhile is_space xs"
  define j where "j = (if take 1 ys = [43] \<or> take 1 ys = [45] then 1 else 0 :: nat)"
  obtain k where k: "strto_prefix base (drop j ys) = (b, k)"
    "n = length (takeWhile is_space xs) + j + k + length (takeWhile (valid_digit b) (drop k (drop j ys)))"
    using assms(1) by (auto simp: strto_ref_def Let_def ys_def j_def dropWhile_eq_drop split: prod.splits)
  have "j \<le> length ys" by (cases ys) (auto simp: j_def)
  moreover have "k \<le> length (drop j ys)" using strto_prefix_bounds(1) [OF k(1) assms(2)] .
  moreover have "length (takeWhile (valid_digit b) (drop k (drop j ys))) \<le> length (drop k (drop j ys))"
    by (rule length_takeWhile_le)
  moreover have "length (takeWhile is_space xs) + length ys = length xs"
    unfolding ys_def by (metis length_append takeWhile_dropWhile_id)
  ultimately show ?thesis unfolding k(2) length_drop by linarith
qed

text \<open>
  A number out of range that the machine word still holds: every partial value is exact, so that the
  flag is set when the limit is passed.
\<close>

lemma strtox_fold_flag:
  "foldl (\<lambda>n c. n * b + digit_value c) n ds < 2 ^ 64 \<Longrightarrow> 1 \<le> b \<Longrightarrow> unat limit < n \<longrightarrow> ov \<Longrightarrow>
   foldl (strtox_step b limit) (of_nat n, ov) ds =
     (of_nat (foldl (\<lambda>n c. n * b + digit_value c) n ds),
      ov \<or> unat limit < foldl (\<lambda>n c. n * b + digit_value c) n ds)"
proof (induction ds arbitrary: n ov)
  case (Cons d ds)
  let ?v = "n * b + digit_value d"
  have v: "?v < 2 ^ 64" "n \<le> ?v"
    using Cons.prems foldl_value_mono [OF Cons.prems(2), of ?v ds]
      foldl_value_mono [OF Cons.prems(2), of n "[d]"] by simp_all
  have u: "unat (of_nat ?v :: i64) = ?v" "unat (of_nat n :: i64) = n"
    using v by (auto intro!: unat_of_nat64 simp del: of_nat_add of_nat_mult)
  have "of_nat n * of_nat b + of_nat (digit_value d) = (of_nat ?v :: i64)" by simp
  then have st: "strtox_step b limit (of_nat n, ov) d = (of_nat ?v, ov \<or> unat limit < ?v)"
    using v by (simp only: strtox_step_def Let_def word_less_nat_alt u prod.case) simp
  have "foldl (strtox_step b limit) (of_nat ?v, ov \<or> unat limit < ?v) ds =
      (of_nat (foldl (\<lambda>n c. n * b + digit_value c) ?v ds),
       (ov \<or> unat limit < ?v) \<or> unat limit < foldl (\<lambda>n c. n * b + digit_value c) ?v ds)"
    using Cons.prems by (intro Cons.IH) simp_all
  moreover have "?v \<le> foldl (\<lambda>n c. n * b + digit_value c) ?v ds"
    using Cons.prems(2) by (rule foldl_value_mono)
  ultimately show ?case by (auto simp only: foldl_Cons st) 
qed auto

subsection \<open>The number of ISO C and the number the code reads\<close>

lemma length_behind_sign:
  "length xs = length (takeWhile is_space xs) + (if take 1 ys = [43] \<or> take 1 ys = [45] then 1 else 0) + length (behind_sign ys)"
  if "ys = dropWhile is_space xs"
proof -
  have "length xs = length (takeWhile is_space xs) + length ys"
    unfolding that by (metis length_append takeWhile_dropWhile_id)
  then show ?thesis by (cases ys) (auto simp: behind_sign_def)
qed

lemma span_length: "length (takeWhile P ws) + length (dropWhile P ws) = length ws"
  by (metis length_append takeWhile_dropWhile_id)

lemma strto_ref_parts:
  assumes "strto_ref base xs = (neg, b, ds, k)" and "ys = dropWhile is_space xs" and "zs = behind_sign ys"
    and "strto_prefix base zs = (b', j)"
  shows "b = b'" and "neg \<longleftrightarrow> take 1 ys = [45]" and "ds = takeWhile (valid_digit b) (drop j zs)"
    and "j \<le> length zs \<Longrightarrow> length xs = k + length (dropWhile (valid_digit b) (drop j zs))"
proof -
  have d: "drop (length (takeWhile is_space xs)) xs = ys" using assms(2) by (simp add: dropWhile_eq_drop)
  have z: "drop (if take 1 ys = [43] \<or> take 1 ys = [45] then 1 else 0) ys = zs"
    using assms(3) by (simp add: behind_sign_def)
  have all: "(neg, b, ds, k) = (take 1 ys = [45], b', takeWhile (valid_digit b') (drop j zs),
      length (takeWhile is_space xs) + (if take 1 ys = [43] \<or> take 1 ys = [45] then 1 else 0) + j +
      length (takeWhile (valid_digit b') (drop j zs)))"
    using assms(1) [symmetric] unfolding strto_ref_def Let_def d z assms(4) prod.case .
  then show b: "b = b'" and "neg \<longleftrightarrow> take 1 ys = [45]" and "ds = takeWhile (valid_digit b) (drop j zs)" by simp_all
  show "length xs = k + length (dropWhile (valid_digit b) (drop j zs))" if "j \<le> length zs"
    using all length_behind_sign [OF assms(2)] span_length [of "valid_digit b'" "drop j zs"] that
    unfolding assms(3) [symmetric] by simp
qed

lemma digit_characters: "digit_value 48 = 0" "digit_value 120 = 33" "digit_value 88 = 33"
  by code_simp+

text \<open>A leading zero is a prefix of the code and a digit for ISO C.\<close>

lemma leading_zero:
  assumes "take 1 zs = [48]" and "8 \<le> b"
  shows "takeWhile (valid_digit b) zs = 48 # takeWhile (valid_digit b) (drop 1 zs)"
    and "dropWhile (valid_digit b) zs = dropWhile (valid_digit b) (drop 1 zs)"
    and "num_value b (48 # ds) = num_value b ds"
proof -
  obtain ws where "zs = 48 # ws" using assms(1) by (cases zs) auto
  moreover have "valid_digit b 48" using assms(2) digit_characters by (simp add: valid_digit_def)
  ultimately show "takeWhile (valid_digit b) zs = 48 # takeWhile (valid_digit b) (drop 1 zs)"
    "dropWhile (valid_digit b) zs = dropWhile (valid_digit b) (drop 1 zs)" by simp_all
  show "num_value b (48 # ds) = num_value b ds" by (simp add: num_value_def digit_characters)
qed

lemma iso_integer_read:
  assumes ref: "strto_ref base xs = (neg, b, ds, k)" and iso: "iso_integer base xs = (v, n)" and base: "base \<le> 36"
  shows "v = (if neg then - int (num_value b ds) else int (num_value b ds))"
    and "0 < n \<Longrightarrow> \<not> stray_prefix base xs \<Longrightarrow> n = k"
proof -
  define ys where "ys = dropWhile is_space xs"
  define zs where "zs = behind_sign ys"
  obtain b' j where pre: "strto_prefix base zs = (b', j)" by fastforce
  note parts = strto_ref_parts [OF ref ys_def zs_def pre]
  have len: "length xs = k + length (dropWhile (valid_digit b) (drop j zs))"
    using parts(4) strto_prefix_bounds(1) [OF pre base] by blast
  define hex where "hex \<longleftrightarrow> hex_prefix base zs \<and> (case drop 2 zs of [] \<Rightarrow> False | c # _ \<Rightarrow> valid_digit 16 c)"
  define c where "c = (if hex then 16 else if base = 0 then if take 1 zs = [48] then 8 else 10 else base)"
  define ws where "ws = (if hex then drop 2 zs else zs)"
  have v: "(v, n) = (if takeWhile (valid_digit c) ws = [] then (0, 0)
      else (if neg then - int (num_value c (takeWhile (valid_digit c) ws)) else int (num_value c (takeWhile (valid_digit c) ws)),
        length xs - length (dropWhile (valid_digit c) ws)))"
    using iso parts(2) unfolding iso_integer_def Let_def ys_def [symmetric] zs_def [symmetric] hex_def [symmetric]
      c_def [symmetric] ws_def [symmetric] by (auto split: if_splits)
  have stray: "stray_prefix base xs \<longleftrightarrow> hex_prefix base zs \<and> \<not> hex"
    unfolding stray_prefix_def Let_def ys_def [symmetric] zs_def [symmetric] hex_def by (auto split: list.splits)
  have nil: "num_value x [] = 0" for x by (simp add: num_value_def)
  consider (stray) "hex_prefix base zs" "\<not> hex" | (hex) hex
    | (octal) "\<not> hex_prefix base zs" "base = 0" "take 1 zs = [48]" | (plain) "\<not> hex_prefix base zs" "\<not> (base = 0 \<and> take 1 zs = [48])"
    using hex_def by blast
  then have "v = (if neg then - int (num_value b ds) else int (num_value b ds)) \<and>
      (0 < n \<longrightarrow> \<not> stray_prefix base xs \<longrightarrow> n = k)"
  proof cases
    case stray
    then have p: "b' = 16" "j = 2" "base = 0 \<or> base = 16" "take 2 zs \<in> {[48, 120], [48, 88]}"
      using pre by (auto simp: strto_prefix_def hex_prefix_def)
    have "ds = []" using stray p(1,2) parts(1,3) unfolding hex_def by (auto split: list.splits)
    moreover obtain x us where z: "zs = 48 # x # us" "x = 120 \<or> x = 88"
      using p(4) by (cases zs; cases "tl zs") auto
    then have "\<not> valid_digit c x" "8 \<le> c" "take 1 zs = [48]" "ws = zs"
      using stray(2) p(3) digit_characters by (auto simp: c_def ws_def valid_digit_def)
    then have "takeWhile (valid_digit c) ws = [48]" using leading_zero(1) [of zs c] z by simp
    moreover have "num_value c [48] = 0" using digit_characters by (simp add: num_value_def)
    ultimately show ?thesis using v \<open>stray_prefix base xs \<longleftrightarrow> _\<close> stray nil by simp
  next
    case hex
    then have "b' = 16" "j = 2" using pre by (auto simp: strto_prefix_def hex_prefix_def hex_def)
    then have "c = b" "ws = drop j zs" using hex parts(1) by (simp_all add: c_def ws_def)
    then show ?thesis using v parts(3) len nil by (auto split: if_splits)
  next
    case octal
    then have "b' = 8" "j = 1" using pre by (auto simp: strto_prefix_def hex_prefix_def)
    moreover have "\<not> hex" using octal(1) by (simp add: hex_def)
    ultimately have "c = b" "ws = zs" "j = 1" "8 \<le> b" using octal parts(1) by (simp_all add: c_def ws_def)
    then show ?thesis using v parts(3) len leading_zero [OF octal(3), of b] by simp
  next
    case plain
    then have "b' = (if base = 0 then 10 else base)" "j = 0"
      using pre by (auto simp: strto_prefix_def hex_prefix_def split: if_splits)
    moreover have "\<not> hex" using plain(1) by (simp add: hex_def)
    ultimately have "c = b" "ws = drop j zs" using plain parts(1) by (auto simp: c_def ws_def)
    then show ?thesis using v parts(3) len nil by (auto split: if_splits)
  qed
  then show "v = (if neg then - int (num_value b ds) else int (num_value b ds))"
    and "0 < n \<Longrightarrow> \<not> stray_prefix base xs \<Longrightarrow> n = k" by blast+
qed

end
