(* ===== verification/Linux.thy ===== *)
theory Linux
  imports Sys
begin

section \<open>A concrete target for the instances\<close>

text \<open>
  The constants of Linux on x86-64 and a kernel that is left open. The general theorems are
  about every target; their instances use this one.
\<close>

definition x86_linux ::
  "(sysnr \<Rightarrow> i64 list \<Rightarrow> mem \<Rightarrow> 'w \<Rightarrow> i64 \<times> mem \<times> 'w) \<Rightarrow> 'w target" where
  "x86_linux k =
     \<lparr>nr_defined = (\<lambda>nr. nr \<notin> {''geteuid32'', ''getuid32'', ''llseek'', ''_newselect'', ''mmap2'',
        ''pselect6_time64'', ''ppoll_time64'', ''clock_gettime64'', ''clock_settime64'',
        ''clock_getres_time64'', ''timer_gettime64'', ''timer_settime64'', ''timerfd_gettime64'',
        ''timerfd_settime64''}),
      ARCH_WANT_SYS_OLD_SELECT = False, ENOSYS = 38, ENOMEM = 12, ENOENT = 2, ESRCH = 3,
      EINVAL = 22, ERANGE = 34, EBADF = 9, EOVERFLOW = 75, AT_FDCWD = - 100, AT_REMOVEDIR = 0x200,
      AT_PAGESZ = 6, SIGCHLD = 17, O_CREAT = 0x40, LINUX_REBOOT_MAGIC1 = 0xfee1dead,
      LINUX_REBOOT_MAGIC2 = 672274793, TIOCSPGRP = 0x5410, CLOCK_REALTIME = 0, PROT_READ = 1,
      PROT_WRITE = 2, MAP_ANONYMOUS = 0x20, MAP_PRIVATE = 2, SIGABRT = 6, O_RDONLY = 0,
      O_WRONLY = 1, O_RDWR = 2, O_TRUNC = 0x200, O_APPEND = 0x400, EILSEQ = 84, kcall = k\<rparr>"

lemma x86_linux_simps [simp]:
  "kcall (x86_linux k) = k" "ENOSYS (x86_linux k) = 38" "ENOMEM (x86_linux k) = 12"
  "EINVAL (x86_linux k) = 22" "ERANGE (x86_linux k) = 34" "EBADF (x86_linux k) = 9"
  "ESRCH (x86_linux k) = 3" "EILSEQ (x86_linux k) = 84" "AT_FDCWD (x86_linux k) = - 100"
  "O_CREAT (x86_linux k) = 0x40" "O_RDONLY (x86_linux k) = 0" "O_WRONLY (x86_linux k) = 1"
  "O_RDWR (x86_linux k) = 2" "O_TRUNC (x86_linux k) = 0x200" "O_APPEND (x86_linux k) = 0x400"
  by (simp_all add: x86_linux_def)

text \<open>A kernel that knows no system call, and a process with one text in its memory.\<close>

definition no_kernel :: "sysnr \<Rightarrow> i64 list \<Rightarrow> mem \<Rightarrow> 'w \<Rightarrow> i64 \<times> mem \<times> 'w" where
  "no_kernel nr args m w = (- 38, m, w)"

definition process :: "mem \<Rightarrow> 'w \<Rightarrow> 'w cstate" where
  "process m w = \<lparr>cmem = m, errno = 0, environ = 0, auxv = 0, kern = w\<rparr>"

lemma process_simps [simp]:
  "cmem (process m w) = m" "errno (process m w) = 0" "environ (process m w) = 0"
  "auxv (process m w) = 0" "kern (process m w) = w"
  by (simp_all add: process_def)

end
