(* ===== verification/NumberProps.thy ===== *)
theory NumberProps
  imports ConvFacts StrtoFacts Linux
begin

section \<open>Properties of the conversions between numbers and text\<close>

text \<open>
  Integers to decimal and hexadecimal text and back, with the number of characters written,
  and \<open>strtol\<close> with its relatives. Each statement is followed by an instance.
\<close>

lemma is_digit_nonzero: "is_digit c \<Longrightarrow> c \<noteq> 0"
  by (auto simp: is_digit_def)

lemma digits_nonzero: "0 \<notin> set (digits_in 10 n)"
  using digits_in_10 is_digit_nonzero by blast

lemma cstr_poke_self:
  "0 \<notin> set xs \<Longrightarrow> Suc (length xs) \<le> 2 ^ 64 \<Longrightarrow> cstr (poke m p (xs @ [0])) p xs"
  using bytes_at_poke_self [of "xs @ [0]" m p] by (simp add: cstr_iff_bytes)

lemma poke_within:
  "length xs \<le> n \<Longrightarrow> \<not> in_range p n a \<Longrightarrow> poke m p xs a = m a"
  using in_range_mono [of p "length xs" a n] by (auto intro: poke_outside)

text \<open>
  Property C26. \<open>utoa_r\<close> and \<open>u64toa_r\<close> write the decimal text of the number, at most 20
  digits and the terminator, so they stay within the 21 bytes of \<^verbatim>\<open>itoa_buffer\<close>, and
  return its length.
\<close>

theorem utoa_decimal:
  assumes mp: "mapped m buffer 21" and ds: "ds = digits_in 10 (unat n)"
  shows "\<exists>m'. utoa_r m n buffer = Some (of_nat (length ds), m') \<and>
    u64toa_r m n buffer = Some (of_nat (length ds), m') \<and> cstr m' buffer ds \<and>
    length ds \<le> 20 \<and> (\<forall>a. \<not> in_range buffer 21 a \<longrightarrow> m' a = m a)"
proof -
  have len: "length ds \<le> 20" unfolding ds
    using order_less_trans [OF unat_lt64 [of n]] by (intro length_decimal) simp
  then have mp': "mapped m buffer (Suc (length ds))" using mp by (elim mapped_mono) simp
  have "cstr (poke m buffer (ds @ [0])) buffer ds"
    using digits_nonzero len unfolding ds by (intro cstr_poke_self) simp_all
  moreover have "poke m buffer (ds @ [0]) a = m a" if "\<not> in_range buffer 21 a" for a
    using len that by (intro poke_within [of _ 21]) simp_all
  ultimately show ?thesis
    using utoa_r_prints [OF ds mp'] u64toa_r_prints [OF ds mp'] len by blast
qed

theorem utoa_decimal_witness:
  "\<exists>m'. utoa_r (\<lambda>_. Some 7) 305 100 = Some (3, m') \<and> cstr m' 100 [51, 48, 53]"
proof -
  have "mapped (\<lambda>_. Some 7) p k" for p k by (induction k arbitrary: p) simp_all
  moreover have ds: "digits_in 10 (unat (305 :: i64)) = [51, 48, 53]"
    by (simp add: digits_in.simps digit_def)
  ultimately show ?thesis
    using utoa_decimal [of "\<lambda>_. Some 7" 100 _ 305, OF _ refl] unfolding ds by auto
qed

text \<open>
  \<open>utoh_r\<close> writes the hexadecimal text, at most 16 digits; \<open>u64toh_r\<close> writes
  the same on 64-bit targets and through the 32-bit halves that 32-bit targets use.
\<close>

theorem utoh_hexadecimal:
  assumes mp: "mapped m buffer 17" and ds: "ds = digits_in 16 (unat n)"
  shows "utoh_r m n buffer = Some (of_nat (length ds), poke m buffer (ds @ [0])) \<and>
    u64toh_r long8 m n buffer = utoh_r m n buffer \<and> length ds \<le> 16"
proof -
  have len: "length ds \<le> 16" unfolding ds by (rule length_hexadecimal) simp
  then have "mapped m buffer (Suc (length ds))" using mp by (elim mapped_mono) simp
  from utoh_r_prints [OF ds this] len show ?thesis by (simp add: u64toh_r_eq)
qed

theorem utoh_hexadecimal_witness:
  "utoh_r (\<lambda>_. Some 7) 0xBEEF 100 = Some (4, poke (\<lambda>_. Some 7) 100 [98, 101, 101, 102, 0]) \<and>
   u64toh_r False (\<lambda>_. Some 7) 0xBEEF 100 = utoh_r (\<lambda>_. Some 7) 0xBEEF 100"
proof -
  have "mapped (\<lambda>_. Some 7) p k" for p k by (induction k arbitrary: p) simp_all
  moreover have ds: "digits_in 16 (unat (0xBEEF :: i64)) = [98, 101, 101, 102]"
    by (simp add: digits_in.simps digit_def)
  ultimately show ?thesis
    using utoh_hexadecimal [of "\<lambda>_. Some 7" 100 _ "0xBEEF" False, OF _ refl]
    unfolding ds by (simp del: poke.simps)
qed

text \<open>
  Property C27. Every \<open>long\<close>, printed by \<open>itoa_r\<close> into 21 bytes, reads back as itself with
  \<open>atol\<close>.
\<close>

theorem atol_itoa:
  assumes "mapped m buffer 21"
  shows "\<exists>len m'. itoa_r m n buffer = Some (len, m') \<and> atol m' buffer = Some n"
proof -
  let ?ds = "int_text (sint n)"
  have "mapped m buffer (Suc (length ?ds))"
    using assms length_int_text [of n] by (elim mapped_mono) simp
  then have "itoa_r m n buffer = Some (of_nat (length ?ds), poke m buffer (?ds @ [0]))"
    by (rule itoa_r_prints [OF refl])
  moreover have "bytes_at (poke m buffer (?ds @ [0])) buffer (?ds @ [0])"
    using length_int_text [of n] by (intro bytes_at_poke_self) simp
  then have "atol (poke m buffer (?ds @ [0])) buffer = Some n" by (rule atol_int_text)
  ultimately show ?thesis by blast
qed

theorem atol_itoa_witness:
  "\<exists>len m'. itoa_r (\<lambda>_. Some 7) (- 0x8000000000000000) 100 = Some (len, m') \<and>
    atol m' 100 = Some (- 0x8000000000000000)"
proof -
  have "mapped (\<lambda>_. Some 7) p k" for p k by (induction k arbitrary: p) simp_all
  then show ?thesis by (rule atol_itoa)
qed

text \<open>
  \<open>atol\<close> reads an optional minus sign and the longest run of digits; the value
  is that number modulo \<open>2 ^ 64\<close>, and no byte after the first character that is no digit is
  read.
\<close>

theorem atol_reads:
  assumes "bytes_at m s (sign @ ds @ [c])" and "\<forall>d \<in> set ds. is_digit d"
    and "\<not> is_digit c" and "sign = [] \<and> hd (ds @ [c]) \<noteq> 45 \<or> sign = [45]"
  shows "atol m s = Some (if sign = [] then of_nat (dec_value ds) else - of_nat (dec_value ds))"
  using assms by (rule atol_parses)

theorem atol_reads_witness:
  "atol [1 \<mapsto> 45, 2 \<mapsto> 52, 3 \<mapsto> 50, 4 \<mapsto> 120] 1 = Some (- 42)"
  using atol_reads [of "[1 \<mapsto> 45, 2 \<mapsto> 52, 3 \<mapsto> 50, 4 \<mapsto> 120]" 1 "[45]" "[52, 50]" 120]
  by (simp add: is_digit_def dec_value_def)

text \<open>
  Property C28. \<open>strtol\<close>, \<open>strtoul\<close> and their relatives, in an open base or one from 2 to 36, on a text
  whose number by ISO C is within the limits of the function (a text without digits has the number 0):
  that number is returned, \<open>errno\<close> is left alone, and the end pointer gets an address in the text, the one
  behind the number when the text has one and no \<^verbatim>\<open>0x\<close> without a digit behind it.
\<close>

theorem strtox_in_range:
  assumes c: "cstr (cmem s) p xs" and base: "base \<le> 36" "base \<noteq> 1"
    and iso: "iso_integer base xs = (v, n)"
    and limit: "nat \<bar>v\<bar> \<le> unat (if lower \<noteq> 0 \<and> v < 0 then - lower else upper)"
  shows "\<exists>k \<le> length xs. (0 < n \<and> \<not> stray_prefix base xs \<longrightarrow> k = n) \<and>
    strtox T p endptr (of_nat base) lower upper s = do {
      s \<leftarrow> (if endptr \<noteq> 0 then cstore64 endptr (p + of_nat k) s else Some s);
      Some (of_int v, s) }"
proof -
  obtain neg b ds k where ref: "strto_ref base xs = (neg, b, ds, k)" by (metis prod_cases4)
  note r = iso_integer_read [OF ref iso base(1)]
  have "num_value b ds \<le> unat (if lower \<noteq> 0 \<and> neg then - lower else upper)"
    using limit r(1) by (cases "num_value b ds = 0") (auto split: if_splits)
  from strtox_exact [OF c base(1) ref this, of T endptr] show ?thesis
    using r strto_ref_length [OF ref base(1)] by (intro exI [of _ k]) auto
qed

theorem strtox_in_range_witness:
  "\<exists>s'. strtox (x86_linux no_kernel) 8 400 0 LONG_MIN LONG_MAX
     (process (poke (\<lambda>_. Some 7) 8 [32, 45, 48, 120, 49, 70, 103, 0]) ()) =
   Some (- 31, s') \<and> load64 (cmem s') 400 = Some 14"
proof -
  let ?m = "poke (\<lambda>_. Some 7) 8 [32, 45, 48, 120, 49, 70, 103, 0]"
  let ?s = "process ?m ()"
  have c: "cstr (cmem ?s) 8 [32, 45, 48, 120, 49, 70, 103]" by simp
  have iso: "iso_integer 0 [32, 45, 48, 120, 49, 70, 103] = (- 31, 6)" by code_simp
  have stray: "\<not> stray_prefix 0 [32, 45, 48, 120, 49, 70, 103]" by code_simp
  have "mapped (\<lambda>_. Some 7) p k" for p k by (induction k arbitrary: p) simp_all
  then have mp: "mapped ?m 400 8" by (rule mapped_poke)
  then have st: "cstore64 400 14 ?s = Some (?s\<lparr>cmem := poke ?m 400 (le_bytes 8 14)\<rparr>)"
    by (simp add: cstore64_def store64_eq)
  have "strtox (x86_linux no_kernel) 8 400 (of_nat 0) LONG_MIN LONG_MAX ?s =
      Some (- 31, ?s\<lparr>cmem := poke ?m 400 (le_bytes 8 14)\<rparr>)"
    using strtox_in_range [OF c _ _ iso, of LONG_MIN LONG_MAX "x86_linux no_kernel" 400] stray st
    by (simp add: LONG_MIN_def del: poke.simps)
  moreover have "load64 (poke ?m 400 (le_bytes 8 14)) 400 = Some 14"
    using load64_bytes [of _ 400 14] bytes_at_poke_self [of "le_bytes 8 14" ?m 400] by simp
  ultimately show ?thesis by (simp del: poke.simps)
qed

text \<open>
  The end pointer is not what ISO C promises when there is no number, where it has to be the start of
  the text, nor when no digit follows \<^verbatim>\<open>0x\<close>, where it has to be behind the zero.
\<close>

theorem strtol_end_pointer:
  "cstr (cmem s) p [32, 45, 122] \<Longrightarrow> iso_integer 10 [32, 45, 122] = (0, 0) \<and>
     strtol T p endptr 10 s = do { s \<leftarrow> (if endptr \<noteq> 0 then cstore64 endptr (p + 2) s else Some s); Some (0, s) }"
  "cstr (cmem s) p [48, 120, 103] \<Longrightarrow> iso_integer 16 [48, 120, 103] = (0, 1) \<and>
     strtol T p endptr 16 s = do { s \<leftarrow> (if endptr \<noteq> 0 then cstore64 endptr (p + 2) s else Some s); Some (0, s) }"
proof -
  have r: "strto_ref 10 [32, 45, 122] = (True, 10, [], 2)" "iso_integer 10 [32, 45, 122] = (0, 0)"
    "strto_ref 16 [48, 120, 103] = (False, 16, [], 2)" "iso_integer 16 [48, 120, 103] = (0, 1)"
    by code_simp+
  have nil: "num_value b [] = 0" for b by (simp add: num_value_def)
  show "cstr (cmem s) p [32, 45, 122] \<Longrightarrow> iso_integer 10 [32, 45, 122] = (0, 0) \<and>
     strtol T p endptr 10 s = do { s \<leftarrow> (if endptr \<noteq> 0 then cstore64 endptr (p + 2) s else Some s); Some (0, s) }"
    using strtox_exact [OF _ _ r(1), of s p LONG_MIN LONG_MAX T endptr] r(2) by (simp add: strtol_def nil del: cstr.simps)
  show "cstr (cmem s) p [48, 120, 103] \<Longrightarrow> iso_integer 16 [48, 120, 103] = (0, 1) \<and>
     strtol T p endptr 16 s = do { s \<leftarrow> (if endptr \<noteq> 0 then cstore64 endptr (p + 2) s else Some s); Some (0, s) }"
    using strtox_exact [OF _ _ r(3), of s p LONG_MIN LONG_MAX T endptr] r(4) by (simp add: strtol_def nil del: cstr.simps)
qed

text \<open>
  Property C38. \<open>strtol\<close> and \<open>strtoll\<close> on a number that does not fit the type but fits 64 bits:
  the largest value, or the smallest for a number with a minus sign, is returned, \<open>errno\<close> is
  \<open>ERANGE\<close>, and the end pointer is behind the last digit all the same.
\<close>

theorem strtol_clamps:
  assumes c: "cstr (cmem s) p xs" and base: "base \<le> 36"
    and ref: "strto_ref base xs = (neg, b, ds, n)"
    and over: "(if neg then 2 ^ 63 else 2 ^ 63 - 1) < num_value b ds" "num_value b ds < 2 ^ 64"
  shows "strtol T p endptr (of_nat base) s = do {
      s \<leftarrow> (if endptr \<noteq> 0 then cstore64 endptr (p + of_nat n) (SET_ERRNO (ERANGE T) s)
           else Some (SET_ERRNO (ERANGE T) s));
      Some (if neg then LONG_MIN else LONG_MAX, s) } \<and>
    strtoll T p endptr (of_nat base) s = strtol T p endptr (of_nat base) s"
proof -
  let ?limit = "if neg then - LONG_MIN else LONG_MAX"
  have "unat ?limit < num_value b ds"
    using over(1) by (cases neg) (simp_all add: LONG_MIN_def LONG_MAX_def)
  moreover obtain k zs where "strto_prefix base zs = (b, k)"
    using ref by (auto simp: strto_ref_def Let_def split: prod.splits)
  then have "1 \<le> b" using base by (rule strto_prefix_bounds)
  ultimately have "foldl (strtox_step b ?limit) (0, False) ds = (of_nat (num_value b ds), True)"
    using strtox_fold_flag [of b 0 ds ?limit False] over(2) by (simp add: num_value_def)
  moreover have "LONG_MIN \<noteq> 0" "- (- LONG_MIN) = LONG_MIN" by (simp_all add: LONG_MIN_def)
  ultimately show ?thesis
    using strtox_eq [OF c base ref refl, of T endptr LONG_MIN LONG_MAX]
    by (cases neg) (simp_all add: strtol_def strtoll_def strtox_out_def SET_ERRNO_def)
qed

theorem strtol_clamps_witness:
  "strtol (x86_linux no_kernel) 8 0 16 (process (poke Map.empty 8 (45 # replicate 16 102 @ [0])) ()) =
   Some (LONG_MIN, SET_ERRNO 34 (process (poke Map.empty 8 (45 # replicate 16 102 @ [0])) ()))"
proof -
  let ?s = "process (poke Map.empty 8 (45 # replicate 16 102 @ [0])) ()"
  have "cstr (cmem ?s) 8 (45 # replicate 16 102)"
    using cstr_poke_self [of "45 # replicate 16 102" Map.empty 8] by simp
  moreover have "strto_ref 16 (45 # replicate 16 102) = (True, 16, replicate 16 102, 17)"
    by code_simp
  moreover have "num_value 16 (replicate 16 102) = 2 ^ 64 - 1"
  proof -
    have "digit_value 102 = 15" by code_simp
    moreover have "replicate 16 (102 :: byte) = [102, 102, 102, 102, 102, 102, 102, 102, 102, 102, 102, 102, 102, 102, 102, 102]"
      by code_simp
    ultimately show ?thesis by (simp add: num_value_def)
  qed
  ultimately show ?thesis
    using strtol_clamps [of ?s 8 "45 # replicate 16 102" 16 True 16 "replicate 16 102" 17 "x86_linux no_kernel" 0]
    by (simp del: poke.simps)
qed

text \<open>
  The overflow test of \<open>strtoul\<close> is not complete: for \<open>30000000000000000000\<close>,
  which does not fit 64 bits, the last wrapped product is larger than the previous value, so
  a wrong number is returned and \<open>errno\<close> is not set to \<open>ERANGE\<close>.
\<close>

theorem strtoul_missed_overflow:
  "strtoul (x86_linux no_kernel) 8 0 10 (process (poke Map.empty 8 (51 # replicate 19 48 @ [0])) ()) =
   Some (11553255926290448384, process (poke Map.empty 8 (51 # replicate 19 48 @ [0])) ())"
proof -
  let ?s = "process (poke Map.empty 8 (51 # replicate 19 48 @ [0])) ()"
  have "cstr (cmem ?s) 8 (51 # replicate 19 48)"
    using cstr_poke_self [of "51 # replicate 19 48" Map.empty 8] by simp
  moreover have "strto_ref 10 (51 # replicate 19 48) = (False, 10, 51 # replicate 19 48, 20)"
    by code_simp
  moreover have "foldl (strtox_step 10 ULONG_MAX) (0, False) (51 # replicate 19 48) =
      (11553255926290448384, False)"
    by code_simp
  ultimately show ?thesis
    using strtox_eq [of ?s 8 "51 # replicate 19 48" 10 False 10 "51 # replicate 19 48" 20
        ULONG_MAX 0 ULONG_MAX "x86_linux no_kernel" 0]
    by (simp add: strtoul_def strtox_out_def del: poke.simps)
qed

end
