(* ===== verification/CHeap.thy ===== *)
theory CHeap
  imports SysMem CStringFacts MemCopy
begin

section \<open>The allocator of stdlib.h, strdup and strndup\<close>

text \<open>
  Each allocation is a mapping of its own. The header \<^verbatim>\<open>struct nolibc_heap\<close> has 16
  bytes (the length and the padding of the maximally aligned \<^verbatim>\<open>user_p\<close>); the pointer
  given to the program is 16 bytes after the mapping's first byte, which is what
  \<^verbatim>\<open>container_of\<close> undoes.
\<close>

definition malloc :: "'w target \<Rightarrow> i64 \<Rightarrow> 'w cstate \<Rightarrow> (addr \<times> 'w cstate) option" where
  "malloc T len s =
     (let len = 16 + len;
          len = (len + 4095) AND - 4096;
          (heap, s) = mmap T 0 len (PROT_READ T OR PROT_WRITE T)
            (MAP_ANONYMOUS T OR MAP_PRIVATE T) (- 1) 0 s in
      if heap = - 1 then Some (0, s)
      else do { s \<leftarrow> cstore64 heap len s; Some (heap + 16, s) })"

definition calloc :: "'w target \<Rightarrow> i64 \<Rightarrow> i64 \<Rightarrow> 'w cstate \<Rightarrow> (addr \<times> 'w cstate) option" where
  "calloc T sz nmemb s =
     (let x = sz * nmemb in
      if sz \<noteq> 0 \<and> x div sz \<noteq> nmemb then Some (0, SET_ERRNO (ENOMEM T) s)
      else malloc T x s)"

definition free :: "'w target \<Rightarrow> addr \<Rightarrow> 'w cstate \<Rightarrow> 'w cstate option" where
  "free T ptr s =
     (if ptr = 0 then Some s
      else do {
        let heap = ptr - 16;
        len \<leftarrow> cload64 heap s;
        Some (snd (munmap T heap len s)) })"

definition realloc :: "'w target \<Rightarrow> addr \<Rightarrow> i64 \<Rightarrow> 'w cstate \<Rightarrow> (addr \<times> 'w cstate) option" where
  "realloc T old_ptr new_size s =
     (if old_ptr = 0 then malloc T new_size s
      else do {
        let heap = old_ptr - 16;
        len \<leftarrow> cload64 heap s;
        let user_p_len = len - 16;
        if new_size \<le> user_p_len then Some (old_ptr, s)
        else do {
          (ret, s) \<leftarrow> malloc T new_size s;
          if ret = 0 then Some (0, s)
          else do {
            (_, m) \<leftarrow> memcpy (cmem s) ret (heap + 16) user_p_len;
            let s = s\<lparr>cmem := m\<rparr>;
            len \<leftarrow> cload64 heap s;
            Some (ret, snd (munmap T heap len s)) } } })"

definition strdup :: "'w target \<Rightarrow> addr \<Rightarrow> 'w cstate \<Rightarrow> (addr \<times> 'w cstate) option" where
  "strdup T str s = do {
     len \<leftarrow> strlen (cmem s) str;
     (ret, s) \<leftarrow> malloc T (len + 1) s;
     if ret \<noteq> 0
     then do { (_, m) \<leftarrow> memcpy (cmem s) ret str (len + 1); Some (ret, s\<lparr>cmem := m\<rparr>) }
     else Some (ret, s) }"

definition strndup :: "'w target \<Rightarrow> addr \<Rightarrow> i64 \<Rightarrow> 'w cstate \<Rightarrow> (addr \<times> 'w cstate) option" where
  "strndup T str maxlen s = do {
     len \<leftarrow> strnlen (cmem s) str maxlen;
     (ret, s) \<leftarrow> malloc T (len + 1) s;
     if ret \<noteq> 0
     then do {
       (_, m) \<leftarrow> memcpy (cmem s) ret str len;
       m \<leftarrow> store m (ret + len) 0;
       Some (ret, s\<lparr>cmem := m\<rparr>) }
     else Some (ret, s) }"

definition abort :: "'w target \<Rightarrow> 'w cstate \<Rightarrow> 'w cstate" where
  "abort T s = (let (pid, s) = sys_getpid T s in snd (sys_kill T pid (SIGABRT T) s))"

subsection \<open>What the kernel promises\<close>

text \<open>
  \<open>granted m m' p n\<close>: an anonymous mapping of \<open>n\<close> bytes at \<open>p\<close> was added. It lies
  where nothing was mapped, it is not at address 0, it does not reach the last page (whose
  addresses are the error codes), and its bytes are zero. \<open>released\<close> is the effect of
  unmapping it. \<open>heap_call\<close> is the system call of \<open>malloc\<close>.
\<close>

definition granted :: "mem \<Rightarrow> mem \<Rightarrow> addr \<Rightarrow> nat \<Rightarrow> bool" where
  "granted m m' p n \<longleftrightarrow>
     p \<noteq> 0 \<and> unat p + n \<le> 2 ^ 64 - 4096 \<and>
     (\<forall>a. in_range p n a \<longrightarrow> m a = None \<and> m' a = Some 0) \<and>
     (\<forall>a. \<not> in_range p n a \<longrightarrow> m' a = m a)"

definition released :: "mem \<Rightarrow> mem \<Rightarrow> addr \<Rightarrow> nat \<Rightarrow> bool" where
  "released m m' p n \<longleftrightarrow> (\<forall>a. m' a = (if in_range p n a then None else m a))"

definition heap_call :: "'w target \<Rightarrow> i64 \<Rightarrow> 'w cstate \<Rightarrow> i64 \<times> mem \<times> 'w" where
  "heap_call T len s =
     kcall T (if nr_defined T ''mmap2'' then ''mmap2'' else ''mmap'')
       [0, len, scast (PROT_READ T OR PROT_WRITE T),
        scast (MAP_ANONYMOUS T OR MAP_PRIVATE T), - 1, 0] (cmem s) (kern s)"

text \<open>\<open>block_size n\<close>: the size of the mapping for a request of \<open>n\<close> bytes.\<close>

definition block_size :: "nat \<Rightarrow> nat" where
  "block_size n = (16 + n + 4095) div 4096 * 4096"

text \<open>
  \<open>heap_block s p len\<close>: \<open>p\<close> is a pointer the allocator gave out, in a block of
  \<open>len\<close> bytes.
\<close>

definition heap_block :: "'w cstate \<Rightarrow> addr \<Rightarrow> nat \<Rightarrow> bool" where
  "heap_block s p len \<longleftrightarrow>
     16 \<le> len \<and> 16 \<le> unat p \<and> unat (p - 16) + len \<le> 2 ^ 64 - 4096 \<and>
     mapped (cmem s) (p - 16) len \<and> load64 (cmem s) (p - 16) = Some (of_nat len)"

subsection \<open>Facts\<close>

lemma and_page: "(w :: i64) AND - 4096 = of_nat (unat w div 4096 * 4096)"
proof -
  have "- 4096 = NOT (mask 12 :: i64)" by (simp add: mask_eq_exp_minus_1 not_eq_complement)
  moreover have "w AND NOT (mask 12) = push_bit 12 (drop_bit 12 w)"
    by (rule bit_word_eqI) (auto simp: bit_simps)
  moreover have "drop_bit 12 w = of_nat (unat w div 4096)"
  proof -
    have "drop_bit 12 w = of_nat (unat (drop_bit 12 w))" by (rule word_of_unat [symmetric])
    also have "unat (drop_bit 12 w) = unat w div 4096"
      by (simp only: unat_drop_bit_eq) (simp add: drop_bit_eq_div)
    finally show ?thesis .
  qed
  ultimately show ?thesis by (simp add: push_bit_eq_mult)
qed

lemma block_size_bounds: "16 + n \<le> block_size n" "block_size n < 16 + n + 4096"
  using div_mult_mod_eq [of "16 + n + 4095" 4096] mod_less_divisor [of 4096 "16 + n + 4095"]
  unfolding block_size_def by linarith+

lemma malloc_length:
  assumes "unat n + 4111 < 2 ^ 64"
  shows "((16 + n) + 4095) AND - 4096 = (of_nat (block_size (unat n)) :: i64)"
proof -
  have "(16 + n) + 4095 = (of_nat (16 + unat n + 4095) :: i64)" by simp
  then have "unat ((16 + n) + 4095) = 16 + unat n + 4095"
    using assms unat_of_nat64 [of "16 + unat n + 4095"] by simp
  then show ?thesis by (simp only: and_page block_size_def)
qed

lemma sys_mmap_heap:
  "sys_mmap T 0 len (PROT_READ T OR PROT_WRITE T) (MAP_ANONYMOUS T OR MAP_PRIVATE T) (- 1) 0 s =
     (let (r, m, w) = heap_call T len s in (r, s\<lparr>cmem := m, kern := w\<rparr>))"
  by (simp add: sys_mmap_def heap_call_def my_syscall6_def syscall_insn_def)

lemma not_error_page: "unat p + n \<le> 2 ^ 64 - 4096 \<Longrightarrow> 0 < n \<Longrightarrow> \<not> - 4095 \<le> (p :: addr)"
proof
  assume "unat p + n \<le> 2 ^ 64 - 4096" "0 < n" "- 4095 \<le> p"
  moreover have "unat (- 4095 :: addr) = 2 ^ 64 - 4095"
    using unat_of_nat64 [of "2 ^ 64 - 4095"] by simp
  ultimately show False unfolding word_le_nat_alt by linarith
qed

lemma mapped_all: "(\<And>a. in_range p n a \<Longrightarrow> m a \<noteq> None) \<Longrightarrow> n \<le> 2 ^ 64 \<Longrightarrow> mapped m p n"
proof (induction n arbitrary: p)
  case (Suc n)
  have "mapped m (p + 1) n"
    using Suc.prems by (intro Suc.IH) (auto simp: in_range_Suc)
  with Suc.prems show ?case by simp
qed simp

lemma malloc_granted:
  fixes n :: i64 and T :: "'w target" and s :: "'w cstate"
  defines "blk \<equiv> block_size (unat n)"
  assumes n: "unat n + 4111 < 2 ^ 64"
    and call: "heap_call T (of_nat blk) s = (p, m', w')"
    and g: "granted (cmem s) m' p blk"
  shows "malloc T n s =
     Some (p + 16, s\<lparr>cmem := poke m' p (le_bytes 8 blk), kern := w'\<rparr>)"
proof -
  have blk: "16 + unat n \<le> blk" "blk < 2 ^ 64"
    using block_size_bounds [of "unat n"] g by (auto simp: blk_def granted_def)
  then have pe: "\<not> - 4095 \<le> p"
    using g by (intro not_error_page [of _ blk]) (auto simp: granted_def)
  have "p \<noteq> - 1" using pe by auto
  moreover have "mapped m' p blk"
    using g blk by (intro mapped_all) (auto simp: granted_def)
  then have "mapped m' p 8" using blk by (elim mapped_mono) simp
  ultimately show ?thesis
    using pe call blk unat_of_nat64 [of blk]
    unfolding malloc_def Let_def malloc_length [OF n] blk_def [symmetric]
    by (simp add: mmap_def sys_mmap_heap cstore64_def store64_eq)
qed

lemma malloc_failed:
  assumes "unat n + 4111 < 2 ^ 64" and "heap_call T (of_nat (block_size (unat n))) s = (r, m', w')"
    and "- 4095 \<le> r"
  shows "malloc T n s = Some (0, s\<lparr>cmem := m', kern := w', errno := ucast (- r)\<rparr>)"
  using assms(2,3) unfolding malloc_def Let_def malloc_length [OF assms(1)]
  by (simp add: mmap_def sys_mmap_heap SET_ERRNO_def)

lemma granted_apart:
  assumes "granted m m' p n" and "mapped m q k"
  shows "apart p n q k"
proof (rule apartI)
  fix a assume "in_range p n a"
  then have "m a = None" using assms(1) by (simp add: granted_def)
  then show "\<not> in_range q k a" using mapped_in_range [OF assms(2)] by blast
qed

lemma granted_mapped: "granted m m' p n \<Longrightarrow> i + k \<le> n \<Longrightarrow> mapped m' (p + of_nat i) k"
  by (rule mapped_all) (auto simp: granted_def dest: in_range_add)

lemma user_pointer:
  "unat p + n \<le> 2 ^ 64 - 4096 \<Longrightarrow> 16 + k \<le> n \<Longrightarrow> unat (p + 16 :: addr) = unat p + 16"
  using unat_of_nat64 [of "unat p + 16"] by simp

text \<open>What \<open>malloc\<close> gives: zeroed room for the request, and nothing else changes.\<close>

lemma malloc_result:
  fixes n :: i64
  defines "blk \<equiv> block_size (unat n)"
  assumes "unat n + 4111 < 2 ^ 64" and "heap_call T (of_nat blk) s = (p, m', w')"
    and g: "granted (cmem s) m' p blk"
    and s': "s' = s\<lparr>cmem := poke m' p (le_bytes 8 blk), kern := w'\<rparr>"
  shows "malloc T n s = Some (p + 16, s')"
    and "bytes_at (cmem s') (p + 16) (replicate (unat n) 0)"
    and "heap_block s' (p + 16) blk"
    and "cmem s a \<noteq> None \<Longrightarrow> cmem s' a = cmem s a"
proof -
  have blk: "16 + unat n \<le> blk" "blk \<le> 2 ^ 64 - 4096" "unat p + blk \<le> 2 ^ 64 - 4096"
    using block_size_bounds [of "unat n"] g assms(2) by (auto simp: blk_def granted_def)
  show "malloc T n s = Some (p + 16, s')"
    unfolding s' using assms(2-4) unfolding blk_def by (rule malloc_granted)
  have z: "bytes_at m' q (replicate k 0)" if "\<And>a. in_range q k a \<Longrightarrow> in_range p blk a" "k \<le> 2 ^ 64" for q k
    using that
  proof (induction k arbitrary: q)
    case (Suc k)
    have "bytes_at m' (q + 1) (replicate k 0)"
      using Suc.prems by (intro Suc.IH) (auto simp: in_range_Suc)
    moreover have "m' q = Some 0" using Suc.prems(1) [of q] g by (simp add: granted_def)
    ultimately show ?case by simp
  qed simp
  have "apart p 8 (p + 16) (unat n)"
    using blk unat_diff_swap [of p "p + 16"] by (auto simp: apart_def)
  then show "bytes_at (cmem s') (p + 16) (replicate (unat n) 0)"
    unfolding s' using z [of "p + 16" "unat n"] in_range_add [of 16 "unat n" blk p] blk
    by (simp add: bytes_at_poke_apart)
  show "cmem s' a = cmem s a" if "cmem s a \<noteq> None"
  proof -
    have "\<not> in_range p blk a" using that g by (auto simp: granted_def)
    moreover from this have "\<not> in_range p 8 a" using in_range_mono [of p 8 a blk] blk by auto
    ultimately show ?thesis unfolding s' using g by (simp add: granted_def poke_outside)
  qed
  have "mapped (cmem s') p blk"
    unfolding s' using granted_mapped [OF g, of 0 blk] by simp
  moreover have "load64 (cmem s') p = Some (of_nat blk)"
    unfolding s' using unat_of_nat64 [of blk] blk
    by (intro load64_bytes) (simp add: bytes_at_poke_self)
  moreover have "unat (p + 16) = unat p + 16" using blk(3,1) by (rule user_pointer)
  ultimately show "heap_block s' (p + 16) blk"
    using blk by (simp add: heap_block_def)
qed

lemma calloc_overflow:
  "2 ^ 64 \<le> unat sz * unat nmemb \<Longrightarrow> calloc T sz nmemb s = Some (0, SET_ERRNO (ENOMEM T) s)"
proof -
  assume o: "2 ^ 64 \<le> unat sz * unat nmemb"
  let ?x = "unat (sz * nmemb)"
  have a: "0 < unat sz" using o by (cases "unat sz") auto
  have "?x = unat sz * unat nmemb mod 2 ^ 64" by (simp add: unat_word_ariths)
  also have "\<dots> < unat sz * unat nmemb"
    using o mod_less_divisor [of "2 ^ 64" "unat sz * unat nmemb"] by simp
  finally have "?x div unat sz < unat nmemb"
    by (simp add: div_less_iff_less_mult [OF a] mult.commute)
  then have "(sz * nmemb) div sz \<noteq> nmemb"
    by (metis less_irrefl unat_div)
  moreover have "sz \<noteq> 0" using a by auto
  ultimately show ?thesis by (simp add: calloc_def)
qed

lemma calloc_exact:
  "unat sz * unat nmemb < 2 ^ 64 \<Longrightarrow> calloc T sz nmemb s = malloc T (sz * nmemb) s"
proof (cases "sz = 0")
  case False
  assume "unat sz * unat nmemb < 2 ^ 64"
  then have "unat (sz * nmemb) = unat sz * unat nmemb" by (simp add: unat_word_ariths)
  then have "unat ((sz * nmemb) div sz) = unat nmemb"
    using False by (simp add: unat_div unat_gt_0)
  then have "(sz * nmemb) div sz = nmemb" by (simp add: word_unat_eq_iff)
  then show ?thesis by (simp add: calloc_def)
qed (simp add: calloc_def)

text \<open>\<open>free\<close> unmaps exactly the mapping that \<open>malloc\<close> made.\<close>

lemma free_block:
  "heap_block s p blk \<Longrightarrow> free T p s = Some (snd (munmap T (p - 16) (of_nat blk) s))"
  by (auto simp: free_def heap_block_def cload64_def)

lemma munmap_memory:
  "cmem (snd (munmap T p len s)) = fst (snd (kcall T ''munmap'' [p, len] (cmem s) (kern s)))"
  by (simp add: munmap_def returning_def sysret_def SET_ERRNO_def sys_munmap_def int_result_def
      my_syscall2_def syscall_insn_def split: prod.split)

lemma released_bytes_at:
  "released m m' p n \<Longrightarrow> apart p n q (length xs) \<Longrightarrow> bytes_at m q xs \<Longrightarrow> bytes_at m' q xs"
proof (induction xs arbitrary: q)
  case (Cons x xs)
  then have "apart p n (q + 1) (length xs)" and "\<not> in_range p n q"
    using apart_Suc_right [of p n q "length xs"] by auto
  with Cons show ?case by (simp add: released_def)
qed simp

lemma mapped_bytes: "mapped m p n \<Longrightarrow> \<exists>xs. length xs = n \<and> bytes_at m p xs"
proof (induction n arbitrary: p)
  case (Suc n)
  then obtain x where "m p = Some x" and "mapped m (p + 1) n" by auto
  moreover from Suc.IH [OF this(2)] obtain xs where "length xs = n" "bytes_at m (p + 1) xs"
    by blast
  ultimately have "m p = Some x" "length xs = n" "bytes_at m (p + 1) xs" by auto
  then show ?case by (intro exI [of _ "x # xs"]) simp
qed simp

text \<open>A block that is large enough is kept.\<close>

lemma realloc_keeps:
  assumes "heap_block s p blk" and "unat n + 16 \<le> blk"
  shows "realloc T p n s = Some (p, s)"
proof -
  have p: "p \<noteq> 0" and ld: "load64 (cmem s) (p - 16) = Some (of_nat blk)"
    and blk: "16 \<le> blk" "blk < 2 ^ 64"
    using assms(1) by (auto simp: heap_block_def)
  have "unat (of_nat blk - 16 :: i64) = blk - 16"
    using blk unat_of_nat64 [of "blk - 16"] by (simp add: of_nat_diff)
  then have "n \<le> of_nat blk - 16" using assms(2) by (simp add: word_le_nat_alt)
  then show ?thesis using p ld by (simp add: realloc_def cload64_def Let_def)
qed

lemma bytes_at_mono:
  "(\<And>a. m a \<noteq> None \<Longrightarrow> m' a = m a) \<Longrightarrow> bytes_at m p xs \<Longrightarrow> bytes_at m' p xs"
  by (induction xs arbitrary: p) auto

lemma load_le_mono:
  "(\<And>a. m a \<noteq> None \<Longrightarrow> m' a = m a) \<Longrightarrow> load_le m p n = Some v \<Longrightarrow> load_le m' p n = Some v"
  by (induction n arbitrary: p v) (auto split: bind_splits)

text \<open>A block that is too small is copied into a new one, and unmapped.\<close>

text \<open>The copy into a new block leaves the old one and its header as they were.\<close>

lemma grown_copy:
  assumes hb: "heap_block s old blk" and data: "bytes_at (cmem s) old xs" "length xs = blk - 16"
    and ap: "apart p new (old - 16) blk" and new: "blk \<le> new" "new \<le> 2 ^ 64"
    and s1: "mapped (cmem s1) (p + 16) (blk - 16)" "\<And>a. cmem s a \<noteq> None \<Longrightarrow> cmem s1 a = cmem s a"
  shows "memcpy (cmem s1) (p + 16) old (of_nat blk - 16) = Some (p + 16, poke (cmem s1) (p + 16) xs)"
    and "load64 (poke (cmem s1) (p + 16) xs) (old - 16) = Some (of_nat blk)"
    and "apart (p + 16) (blk - 16) (old - 16) blk"
proof -
  have old: "load64 (cmem s) (old - 16) = Some (of_nat blk)" and blk: "16 \<le> blk" "blk < 2 ^ 64"
    using hb by (auto simp: heap_block_def)
  show ap': "apart (p + 16) (blk - 16) (old - 16) blk"
    using apart_part [OF ap, of 16 "blk - 16"] blk new by simp
  have "apart (p + 16) (blk - 16) (old - 16 + of_nat 16) (blk - 16)"
    using apart_sub [OF ap', of 0 "blk - 16" 16 "blk - 16"] blk by simp
  then have ap2: "apart (p + 16) (blk - 16) old (blk - 16)" by simp
  have ul: "unat (of_nat blk - 16 :: i64) = blk - 16"
    using blk unat_of_nat64 [of "blk - 16"] by (simp add: of_nat_diff)
  have "bytes_at (cmem s1) old xs" using s1(2) data(1) by (rule bytes_at_mono)
  then show "memcpy (cmem s1) (p + 16) old (of_nat blk - 16) = Some (p + 16, poke (cmem s1) (p + 16) xs)"
    using s1(1) data(2) ul ap2 mcpy.ok_apart [OF ap2] by (intro mcpy.copy_poke) simp_all
  obtain v where v: "load_le (cmem s) (old - 16) 8 = Some v" "(of_nat v :: i64) = of_nat blk"
    using old by (auto simp: load64_def)
  have "load_le (cmem s1) (old - 16) 8 = Some v" using s1(2) v(1) by (rule load_le_mono)
  moreover have "apart (p + 16) (length xs) (old - 16) 8"
    using data(2) blk by (intro apart_mono [OF ap']) simp_all
  ultimately show "load64 (poke (cmem s1) (p + 16) xs) (old - 16) = Some (of_nat blk)"
    using v(2) by (simp add: load64_def load_le_poke_apart)
qed

lemma realloc_moves:
  fixes n :: i64 and s :: "'w cstate"
  defines "new \<equiv> block_size (unat n)"
  assumes hb: "heap_block s old blk" and small: "blk < unat n + 16"
    and data: "bytes_at (cmem s) old xs" "length xs = blk - 16"
    and n: "unat n + 4111 < 2 ^ 64" and call: "heap_call T (of_nat new) s = (p, m', w')"
    and g: "granted (cmem s) m' p new"
    and un: "\<And>m w. released m (fst (snd (kcall T ''munmap'' [old - 16, of_nat blk] m w)))
      (old - 16) blk"
  shows "\<exists>s'. realloc T old n s = Some (p + 16, s') \<and> bytes_at (cmem s') (p + 16) xs \<and>
    mapped (cmem s') (p + 16) (unat n) \<and> (\<forall>a. in_range (old - 16) blk a \<longrightarrow> cmem s' a = None) \<and>
    (\<forall>a. cmem s a \<noteq> None \<and> \<not> in_range (old - 16) blk a \<longrightarrow> cmem s' a = cmem s a)"
proof -
  let ?s = "s\<lparr>cmem := poke m' p (le_bytes 8 new), kern := w'\<rparr>"
  note res = malloc_result [OF n call [unfolded new_def] g [unfolded new_def],
      folded new_def, of ?s, OF refl]
  have old: "old \<noteq> 0" "load64 (cmem s) (old - 16) = Some (of_nat blk)" "mapped (cmem s) (old - 16) blk"
    and blk: "16 \<le> blk" "blk < 2 ^ 64" using hb by (auto simp: heap_block_def)
  have "unat (of_nat blk - 16 :: i64) = blk - 16" using blk unat_of_nat64 [of "blk - 16"] by (simp add: of_nat_diff)
  then have big: "\<not> n \<le> of_nat blk - 16" using small blk by (simp add: word_le_nat_alt)
  have new: "16 + unat n \<le> new" "unat p + new \<le> 2 ^ 64 - 4096" "p \<noteq> 0"
    using block_size_bounds [of "unat n"] g by (auto simp: new_def granted_def)
  have p16: "unat (p + 16) = unat p + 16" using new(2,1) by (rule user_pointer)
  have "mapped (cmem ?s) (p + 16) (blk - 16)" using granted_mapped [OF g, of 16 "blk - 16"] small new by simp
  note cp = grown_copy [OF hb data granted_apart [OF g old(3)] _ _ this res(4)]
  let ?m = "poke (cmem ?s) (p + 16) xs"
  let ?f = "snd (munmap T (old - 16) (of_nat blk) (?s\<lparr>cmem := ?m\<rparr>))"
  have l: "blk \<le> new" "new \<le> 2 ^ 64" using small new by simp_all
  have "realloc T old n s = Some (p + 16, ?f)"
    using old(1,2) big res(1) p16 cp(1,2) [OF l] by (auto simp: realloc_def cload64_def Let_def)
  moreover have "bytes_at ?m (p + 16) xs" using data(2) blk by (intro bytes_at_poke_self) simp
  then have "bytes_at (cmem ?f) (p + 16) xs"
    unfolding munmap_memory using apart_sym [OF cp(3) [OF l]] data(2)
    by (intro released_bytes_at [OF un]) simp_all
  moreover have rel: "released ?m (cmem ?f) (old - 16) blk" unfolding munmap_memory by (simp add: un)
  moreover have "mapped (cmem ?f) (p + 16) (unat n)"
  proof (rule mapped_cong)
    show "mapped ?m (p + 16) (unat n)" using granted_mapped [OF g, of 16 "unat n"] new by (intro mapped_poke) simp
    have "apart (p + 16) (unat n) (old - 16) blk"
      using apart_part [OF granted_apart [OF g old(3)], of 16 "unat n"] new by simp
    then show "cmem ?f a = ?m a" if "in_range (p + 16) (unat n) a" for a
      using rel apart_in_range [OF _ that] by (simp add: released_def)
  qed simp
  moreover have "cmem ?f a = cmem s a" if a: "cmem s a \<noteq> None" "\<not> in_range (old - 16) blk a" for a
  proof -
    have "\<not> in_range p new a" using a(1) g by (auto simp: granted_def)
    then have "\<not> in_range (p + 16) (length xs) a" using in_range_add [of 16 "length xs" new p a] data(2) blk(1) l new by auto
    then show ?thesis using rel a res(4) by (simp add: released_def poke_outside)
  qed
  moreover have "cmem ?f a = None" if "in_range (old - 16) blk a" for a using rel that by (simp only: released_def if_True)
  ultimately show ?thesis by (intro exI [of _ ?f]) blast
qed

text \<open>A duplicate of a string, from the same allocator.\<close>

lemma strdup_copies:
  fixes s :: "'w cstate"
  assumes str: "cstr (cmem s) str xs" and len: "length xs + 4112 < 2 ^ 64"
    and call: "heap_call T (of_nat (block_size (Suc (length xs)))) s = (p, m', w')"
    and g: "granted (cmem s) m' p (block_size (Suc (length xs)))"
  shows "\<exists>s'. strdup T str s = Some (p + 16, s') \<and> cstr (cmem s') (p + 16) xs \<and>
    cstr (cmem s') str xs"
proof -
  let ?n = "of_nat (Suc (length xs)) :: i64" and ?k = "Suc (length xs)"
  let ?s = "s\<lparr>cmem := poke m' p (le_bytes 8 (block_size ?k)), kern := w'\<rparr>"
  have un: "unat ?n = ?k" using len by (intro unat_of_nat64) simp
  have n: "?n = of_nat (length xs) + 1" by simp
  note res = malloc_result [of ?n T s p m' w' ?s, unfolded un, OF _ call g refl]
  have fit: "16 + ?k \<le> block_size ?k" "unat p + block_size ?k \<le> 2 ^ 64 - 4096"
    using block_size_bounds [of ?k] g by (auto simp: granted_def)
  have "unat (p + 16) = unat p + 16" using fit(2,1) by (rule user_pointer)
  then have p16: "p + 16 \<noteq> 0" by auto
  have bs: "bytes_at (cmem s) str (xs @ [0])" and nz: "0 \<notin> set xs"
    using str by (auto simp: cstr_iff_bytes)
  have src: "bytes_at (cmem ?s) str (xs @ [0])"
    using res(4) bs len by (intro bytes_at_mono [of "cmem s" "cmem ?s"]) simp_all
  have "apart p (block_size ?k) str ?k"
    using cstr_mapped [OF str] by (rule granted_apart [OF g])
  then have ap: "apart (p + 16) ?k str ?k"
    using in_range_add [of 16 ?k "block_size ?k" p] fit
    by (intro apartI) (auto dest: apart_in_range)
  have "mapped m' (p + of_nat 16) ?k" using fit by (intro granted_mapped [OF g]) simp
  then have dst: "mapped (cmem ?s) (p + 16) ?k"
    using mapped_poke [of m' "p + 16" ?k] by (simp del: mapped.simps)
  let ?m = "poke (cmem ?s) (p + 16) (xs @ [0])"
  have "memcpy (cmem ?s) (p + 16) str ?n = Some (p + 16, ?m)"
    using src dst un mcpy.ok_apart [OF ap] by (intro mcpy.copy_poke) simp_all
  moreover have "malloc T ?n s = Some (p + 16, ?s)" using res(1) len by simp
  ultimately have "strdup T str s = Some (p + 16, ?s\<lparr>cmem := ?m\<rparr>)"
    using p16 strlen_eq [OF str] by (simp add: strdup_def n del: of_nat_Suc)
  moreover have "bytes_at ?m (p + 16) (xs @ [0])" using len by (intro bytes_at_poke_self) simp
  moreover have "bytes_at ?m str (xs @ [0])"
    using src ap bytes_at_poke_apart [of "p + 16" "xs @ [0]" str "xs @ [0]" "cmem ?s"]
    by (simp del: bytes_at_append)
  ultimately show ?thesis using nz by (auto simp: cstr_iff_bytes simp del: bytes_at_append)
qed

end
