(* ===== verification/SysWait.thy ===== *)
theory SysWait
  imports SysMem
begin

section \<open>sys/wait.h, the status macros of types.h and sys/sysmacros.h\<close>

text \<open>
  The kernel headers give the constants and the layout of \<^verbatim>\<open>siginfo_t\<close>; they are
  the record \<open>wait_abi\<close>.
\<close>

record wait_abi =
  P_ALL :: i32
  P_PID :: i32
  P_PGID :: i32
  WEXITED :: i32
  CLD_EXITED :: i32
  CLD_KILLED :: i32
  CLD_DUMPED :: i32
  CLD_TRAPPED :: i32
  CLD_STOPPED :: i32
  CLD_CONTINUED :: i32
  si_code_at :: addr
  si_status_at :: addr
  si_pid_at :: addr

text \<open>The status word a process sees, from the code and the status of the siginfo.\<close>

definition wait_status :: "wait_abi \<Rightarrow> i32 \<Rightarrow> i32 \<Rightarrow> i32 option" where
  "wait_status W si_code si_status =
     (if si_code = 0 then Some 0
      else if si_code = CLD_EXITED W then Some (push_bit 8 (si_status AND 0xff))
      else if si_code = CLD_KILLED W then Some (si_status AND 0x7f)
      else if si_code = CLD_DUMPED W then Some ((si_status AND 0x7f) OR 0x80)
      else if si_code = CLD_STOPPED W \<or> si_code = CLD_TRAPPED W
      then Some (push_bit 8 si_status + 0x7f)
      else if si_code = CLD_CONTINUED W then Some 0xffff
      else None)"

text \<open>\<open>waitpid_target\<close> is the choice of \<^verbatim>\<open>idtype\<close> and \<^verbatim>\<open>id\<close>.\<close>

definition waitpid_target :: "wait_abi \<Rightarrow> i32 \<Rightarrow> i32 \<times> i32" where
  "waitpid_target W pid =
     (if pid <s - 1 then (P_PGID W, - pid)
      else if pid = - 1 then (P_ALL W, 0)
      else if pid = 0 then (P_PGID W, 0)
      else (P_PID W, pid))"

definition waitpid ::
  "'w target \<Rightarrow> wait_abi \<Rightarrow> addr \<Rightarrow> i32 \<Rightarrow> addr \<Rightarrow> i32 \<Rightarrow> 'w cstate \<Rightarrow> (i32 \<times> 'w cstate) option" where
  "waitpid T W info pid status options s =
     (if pid = 0x80000000 then Some (- 1, SET_ERRNO (ESRCH T) s)
      else
        let (idtype, id) = waitpid_target W pid;
            (ret, s) = waitid T idtype id info (options OR WEXITED W) s in
        if ret \<noteq> 0 then Some (ret, s)
        else do {
          si_code \<leftarrow> cload32 (info + si_code_at W) s;
          si_status \<leftarrow> cload32 (info + si_status_at W) s;
          (case wait_status W si_code si_status of
             None \<Rightarrow> Some (- 1, s)
           | Some v \<Rightarrow> do {
               s \<leftarrow> cstore32 status v s;
               si_pid \<leftarrow> cload32 (info + si_pid_at W) s;
               Some (si_pid, s) }) })"

definition wait ::
  "'w target \<Rightarrow> wait_abi \<Rightarrow> addr \<Rightarrow> addr \<Rightarrow> 'w cstate \<Rightarrow> (i32 \<times> 'w cstate) option" where
  "wait T W info status = waitpid T W info (- 1) status 0"

text \<open>The macros on a status; a comparison is signed, as the status is an \<open>int\<close>.\<close>

definition WEXITSTATUS :: "i32 \<Rightarrow> i32" where
  "WEXITSTATUS status = signed_drop_bit 8 (status AND 0xff00)"

definition WIFEXITED :: "i32 \<Rightarrow> bool" where
  "WIFEXITED status \<longleftrightarrow> status AND 0x7f = 0"

definition WTERMSIG :: "i32 \<Rightarrow> i32" where
  "WTERMSIG status = status AND 0x7f"

definition WIFSIGNALED :: "i32 \<Rightarrow> bool" where
  "WIFSIGNALED status \<longleftrightarrow> status - 1 <s 0xff"

text \<open>
  Device numbers: \<^verbatim>\<open>dev_t\<close> and \<^verbatim>\<open>unsigned int\<close> have 32 bits.
\<close>

definition makedev :: "i32 \<Rightarrow> i32 \<Rightarrow> i32" where
  "makedev ma mi = push_bit 8 (ma AND 0xfff) OR (mi AND 0xff)"

definition major :: "i32 \<Rightarrow> i32" where
  "major dev = drop_bit 8 dev AND 0xfff"

definition minor :: "i32 \<Rightarrow> i32" where
  "minor dev = dev AND 0xff"

end
