(* ===== verification/CTime.thy ===== *)
theory CTime
  imports SysMem
begin

section \<open>time.h, sys/time.h and sys/timerfd.h\<close>

text \<open>
  On LP64 a \<^verbatim>\<open>struct timespec\<close>, a \<^verbatim>\<open>struct timeval\<close> and a
  \<^verbatim>\<open>struct __kernel_timespec\<close> are two 64-bit words, seconds first; a
  \<^verbatim>\<open>struct itimerspec\<close> is the interval at offset 0 and the value at offset 16.
  Each function with a kernel structure of its own gets its address as \<open>fp\<close>.
\<close>

definition timespec_user_to_kernel :: "addr \<Rightarrow> addr \<Rightarrow> 'w cstate \<Rightarrow> 'w cstate option" where
  "timespec_user_to_kernel ts kts s = do {
     sec \<leftarrow> cload64 ts s;
     s \<leftarrow> cstore64 kts sec s;
     nsec \<leftarrow> cload64 (ts + 8) s;
     cstore64 (kts + 8) nsec s }"

definition timespec_kernel_to_user :: "addr \<Rightarrow> addr \<Rightarrow> 'w cstate \<Rightarrow> 'w cstate option" where
  "timespec_kernel_to_user kts ts s = do {
     sec \<leftarrow> cload64 kts s;
     s \<leftarrow> cstore64 ts sec s;
     nsec \<leftarrow> cload64 (kts + 8) s;
     cstore64 (ts + 8) nsec s }"

subsection \<open>Clocks\<close>

definition sys_clock_getres :: "'w target \<Rightarrow> addr \<Rightarrow> i32 \<Rightarrow> addr \<Rightarrow> 'w cstate \<Rightarrow> (i32 \<times> 'w cstate) option" where
  "sys_clock_getres T fp clockid res s =
     (if nr_defined T ''clock_getres''
      then Some (int_result (my_syscall2 T ''clock_getres'' (scast clockid) res) s)
      else if nr_defined T ''clock_getres_time64''
      then let (ret, s) = int_result (my_syscall2 T ''clock_getres_time64'' (scast clockid) fp) s in
        do {
          s \<leftarrow> (if res \<noteq> 0 then timespec_kernel_to_user fp res s else Some s);
          Some (ret, s) }
      else Some (enosys T s))"

definition clock_getres :: "'w target \<Rightarrow> addr \<Rightarrow> i32 \<Rightarrow> addr \<Rightarrow> 'w cstate \<Rightarrow> (i32 \<times> 'w cstate) option" where
  "clock_getres T fp clockid res s = do {
     (r, s) \<leftarrow> sys_clock_getres T fp clockid res s; Some (sysret r s) }"

definition sys_clock_gettime :: "'w target \<Rightarrow> addr \<Rightarrow> i32 \<Rightarrow> addr \<Rightarrow> 'w cstate \<Rightarrow> (i32 \<times> 'w cstate) option" where
  "sys_clock_gettime T fp clockid tp s =
     (if nr_defined T ''clock_gettime''
      then Some (int_result (my_syscall2 T ''clock_gettime'' (scast clockid) tp) s)
      else if nr_defined T ''clock_gettime64''
      then let (ret, s) = int_result (my_syscall2 T ''clock_gettime64'' (scast clockid) fp) s in
        do {
          s \<leftarrow> (if tp \<noteq> 0 then timespec_kernel_to_user fp tp s else Some s);
          Some (ret, s) }
      else Some (enosys T s))"

definition clock_gettime :: "'w target \<Rightarrow> addr \<Rightarrow> i32 \<Rightarrow> addr \<Rightarrow> 'w cstate \<Rightarrow> (i32 \<times> 'w cstate) option" where
  "clock_gettime T fp clockid tp s = do {
     (r, s) \<leftarrow> sys_clock_gettime T fp clockid tp s; Some (sysret r s) }"

definition sys_clock_settime :: "'w target \<Rightarrow> addr \<Rightarrow> i32 \<Rightarrow> addr \<Rightarrow> 'w cstate \<Rightarrow> (i32 \<times> 'w cstate) option" where
  "sys_clock_settime T fp clockid tp s =
     (if nr_defined T ''clock_settime''
      then Some (int_result (my_syscall2 T ''clock_settime'' (scast clockid) tp) s)
      else if nr_defined T ''clock_settime64''
      then do {
        s \<leftarrow> timespec_user_to_kernel tp fp s;
        Some (int_result (my_syscall2 T ''clock_settime64'' (scast clockid) fp) s) }
      else Some (enosys T s))"

definition clock_settime :: "'w target \<Rightarrow> addr \<Rightarrow> i32 \<Rightarrow> addr \<Rightarrow> 'w cstate \<Rightarrow> (i32 \<times> 'w cstate) option" where
  "clock_settime T fp clockid tp s = do {
     (r, s) \<leftarrow> sys_clock_settime T fp clockid tp s; Some (sysret r s) }"

text \<open>
  \<open>fp\<close> is the address of the local \<^verbatim>\<open>tp\<close>, \<open>fp'\<close> that of the kernel structure of
  \<open>sys_clock_gettime\<close>.
\<close>

definition sys_gettimeofday ::
  "'w target \<Rightarrow> addr \<Rightarrow> addr \<Rightarrow> addr \<Rightarrow> addr \<Rightarrow> 'w cstate \<Rightarrow> (i32 \<times> 'w cstate) option" where
  "sys_gettimeofday T fp fp' tv tz s =
     (if nr_defined T ''gettimeofday''
      then Some (int_result (my_syscall2 T ''gettimeofday'' tv tz) s)
      else do {
        (ret, s) \<leftarrow> sys_clock_gettime T fp' (CLOCK_REALTIME T) fp s;
        s \<leftarrow> (if ret = 0 \<and> tv \<noteq> 0 then do {
                 sec \<leftarrow> cload64 fp s;
                 s \<leftarrow> cstore64 tv sec s;
                 nsec \<leftarrow> cload64 (fp + 8) s;
                 cstore64 (tv + 8) (c_div nsec 1000) s }
               else Some s);
        Some (ret, s) })"

definition gettimeofday ::
  "'w target \<Rightarrow> addr \<Rightarrow> addr \<Rightarrow> addr \<Rightarrow> addr \<Rightarrow> 'w cstate \<Rightarrow> (i32 \<times> 'w cstate) option" where
  "gettimeofday T fp fp' tv tz s = do {
     (r, s) \<leftarrow> sys_gettimeofday T fp fp' tv tz s; Some (sysret r s) }"

text \<open>\<open>fv\<close> is the address of the local \<^verbatim>\<open>tv\<close>.\<close>

definition time ::
  "'w target \<Rightarrow> addr \<Rightarrow> addr \<Rightarrow> addr \<Rightarrow> addr \<Rightarrow> 'w cstate \<Rightarrow> (i64 \<times> 'w cstate) option" where
  "time T fv fp fp' tptr s = do {
     (_, s) \<leftarrow> sys_gettimeofday T fp fp' fv 0 s;
     s \<leftarrow> (if tptr \<noteq> 0 then do { sec \<leftarrow> cload64 fv s; cstore64 tptr sec s } else Some s);
     sec \<leftarrow> cload64 fv s;
     Some (sec, s) }"

subsection \<open>Timers\<close>

text \<open>
  \<^verbatim>\<open>timer_gettime\<close> and \<^verbatim>\<open>timerfd_gettime\<close> have the same body with another
  system call number, and so have \<^verbatim>\<open>timer_settime\<close> and \<^verbatim>\<open>timerfd_settime\<close>.
\<close>

definition itimer_kernel_to_user :: "addr \<Rightarrow> addr \<Rightarrow> 'w cstate \<Rightarrow> 'w cstate option" where
  "itimer_kernel_to_user k u s = do {
     s \<leftarrow> timespec_kernel_to_user k u s;
     timespec_kernel_to_user (k + 16) (u + 16) s }"

definition sys_timer_gettime :: "'w target \<Rightarrow> addr \<Rightarrow> i32 \<Rightarrow> addr \<Rightarrow> 'w cstate \<Rightarrow> (i32 \<times> 'w cstate) option" where
  "sys_timer_gettime T fp timerid curr_value s =
     (if nr_defined T ''timer_gettime''
      then Some (int_result (my_syscall2 T ''timer_gettime'' (scast timerid) curr_value) s)
      else if nr_defined T ''timer_gettime64''
      then let (ret, s) = int_result (my_syscall2 T ''timer_gettime64'' (scast timerid) fp) s in
        do { s \<leftarrow> itimer_kernel_to_user fp curr_value s; Some (ret, s) }
      else Some (enosys T s))"

definition timer_gettime :: "'w target \<Rightarrow> addr \<Rightarrow> i32 \<Rightarrow> addr \<Rightarrow> 'w cstate \<Rightarrow> (i32 \<times> 'w cstate) option" where
  "timer_gettime T fp timerid curr_value s = do {
     (r, s) \<leftarrow> sys_timer_gettime T fp timerid curr_value s; Some (sysret r s) }"

definition sys_timerfd_gettime :: "'w target \<Rightarrow> addr \<Rightarrow> i32 \<Rightarrow> addr \<Rightarrow> 'w cstate \<Rightarrow> (i32 \<times> 'w cstate) option" where
  "sys_timerfd_gettime T fp fd curr_value s =
     (if nr_defined T ''timerfd_gettime''
      then Some (int_result (my_syscall2 T ''timerfd_gettime'' (scast fd) curr_value) s)
      else if nr_defined T ''timerfd_gettime64''
      then let (ret, s) = int_result (my_syscall2 T ''timerfd_gettime64'' (scast fd) fp) s in
        do { s \<leftarrow> itimer_kernel_to_user fp curr_value s; Some (ret, s) }
      else Some (enosys T s))"

definition timerfd_gettime :: "'w target \<Rightarrow> addr \<Rightarrow> i32 \<Rightarrow> addr \<Rightarrow> 'w cstate \<Rightarrow> (i32 \<times> 'w cstate) option" where
  "timerfd_gettime T fp fd curr_value s = do {
     (r, s) \<leftarrow> sys_timerfd_gettime T fp fd curr_value s; Some (sysret r s) }"

text \<open>\<open>fp\<close> is the address of \<^verbatim>\<open>knew_value\<close>, \<open>fp'\<close> that of \<^verbatim>\<open>kold_value\<close>.\<close>

definition sys_timer_settime ::
  "'w target \<Rightarrow> addr \<Rightarrow> addr \<Rightarrow> i32 \<Rightarrow> i32 \<Rightarrow> addr \<Rightarrow> addr \<Rightarrow> 'w cstate \<Rightarrow> (i32 \<times> 'w cstate) option" where
  "sys_timer_settime T fp fp' timerid flags new_value old_value s =
     (if nr_defined T ''timer_settime''
      then Some (int_result (my_syscall4 T ''timer_settime'' (scast timerid) (scast flags) new_value old_value) s)
      else if nr_defined T ''timer_settime64''
      then do {
        s \<leftarrow> timespec_user_to_kernel (new_value + 16) (fp + 16) s;
        s \<leftarrow> timespec_user_to_kernel new_value fp s;
        let (ret, s) = int_result (my_syscall4 T ''timer_settime64'' (scast timerid) (scast flags) fp fp') s in
        do {
          s \<leftarrow> (if old_value \<noteq> 0 then itimer_kernel_to_user fp' old_value s else Some s);
          Some (ret, s) } }
      else Some (enosys T s))"

definition timer_settime ::
  "'w target \<Rightarrow> addr \<Rightarrow> addr \<Rightarrow> i32 \<Rightarrow> i32 \<Rightarrow> addr \<Rightarrow> addr \<Rightarrow> 'w cstate \<Rightarrow> (i32 \<times> 'w cstate) option" where
  "timer_settime T fp fp' timerid flags new_value old_value s = do {
     (r, s) \<leftarrow> sys_timer_settime T fp fp' timerid flags new_value old_value s;
     Some (sysret r s) }"

definition sys_timerfd_settime ::
  "'w target \<Rightarrow> addr \<Rightarrow> addr \<Rightarrow> i32 \<Rightarrow> i32 \<Rightarrow> addr \<Rightarrow> addr \<Rightarrow> 'w cstate \<Rightarrow> (i32 \<times> 'w cstate) option" where
  "sys_timerfd_settime T fp fp' fd flags new_value old_value s =
     (if nr_defined T ''timerfd_settime''
      then Some (int_result (my_syscall4 T ''timerfd_settime'' (scast fd) (scast flags) new_value old_value) s)
      else if nr_defined T ''timerfd_settime64''
      then do {
        s \<leftarrow> timespec_user_to_kernel (new_value + 16) (fp + 16) s;
        s \<leftarrow> timespec_user_to_kernel new_value fp s;
        let (ret, s) = int_result (my_syscall4 T ''timerfd_settime64'' (scast fd) (scast flags) fp fp') s in
        do {
          s \<leftarrow> (if old_value \<noteq> 0 then itimer_kernel_to_user fp' old_value s else Some s);
          Some (ret, s) } }
      else Some (enosys T s))"

definition timerfd_settime ::
  "'w target \<Rightarrow> addr \<Rightarrow> addr \<Rightarrow> i32 \<Rightarrow> i32 \<Rightarrow> addr \<Rightarrow> addr \<Rightarrow> 'w cstate \<Rightarrow> (i32 \<times> 'w cstate) option" where
  "timerfd_settime T fp fp' fd flags new_value old_value s = do {
     (r, s) \<leftarrow> sys_timerfd_settime T fp fp' fd flags new_value old_value s;
     Some (sysret r s) }"

end
