(* ===== verification/SystemProps.thy ===== *)
theory SystemProps
  imports CHeap SysWait CTime Linux
begin

section \<open>Properties of the system call wrappers and of the allocator\<close>

text \<open>
  The exported functions whose body is \<^verbatim>\<open>return __sysret(sys_f(...))\<close>, each beside its
  internal function, at any arguments: those with an \<open>int\<close> result, those with a \<open>long\<close> or
  \<open>ssize_t\<close> result, those that narrow a \<open>long\<close> to \<open>int\<close> when they return it, and those
  whose internal function keeps a local structure in memory (at \<open>fp\<close> and \<open>fp'\<close>), which have
  no result when such an access is not allowed. The mode of \<open>open\<close> and \<open>openat\<close> is
  read from the variable arguments when a file may be created.
\<close>

definition int_wrappers ::
  "'w target \<Rightarrow> addr \<Rightarrow> addr \<Rightarrow> addr \<Rightarrow> i32 \<Rightarrow> i32 \<Rightarrow> i32 \<Rightarrow> i64 \<Rightarrow> i64
     \<Rightarrow> (('w cstate \<Rightarrow> i32 \<times> 'w cstate) \<times> ('w cstate \<Rightarrow> i32 \<times> 'w cstate)) list" where
  "int_wrappers T p q a u v x b c = [
      (sys_chdir T p, chdir T p), (sys_chmod T p u, chmod T p u), (sys_chown T p u v, chown T p u v),
      (sys_chroot T p, chroot T p), (sys_close T u, close T u), (sys_dup T u, dup T u),
      (sys_dup2 T u v, dup2 T u v), (sys_dup3 T u v x, dup3 T u v x),
      (sys_execve T p q a, execve T p q a), (sys_fork T, fork T), (sys_fsync T u, fsync T u),
      (sys_getdents64 T u p v, getdents64 T u p v), (sys_getpgid T u, getpgid T u),
      (sys_kill T u v, kill T u v), (sys_link T p q, link T p q), (sys_mkdir T p u, mkdir T p u),
      (sys_rmdir T p, rmdir T p), (sys_pipe2 T p u, pipe2 T p u),
      (sys_pivot_root T p q, pivot_root T p q), (sys_sched_yield T, sched_yield T),
      (sys_setpgid T u v, setpgid T u v), (sys_setsid T, setsid T),
      (sys_symlink T p q, symlink T p q), (sys_umount2 T p u, umount2 T p u),
      (sys_unlink T p, unlink T p), (sys_memfd_create T p u, memfd_create T p u),
      (sys_mount T p q a b c, mount T p q a b c), (sys_munmap T p b, munmap T p b),
      (sys_uname T p, uname T p), (sys_setns T u v, setns T u v), (sys_unshare T u, unshare T u),
      (sys_wait4 T u p v q, wait4 T u p v q), (sys_waitid T u v p x 0, waitid T u v p x),
      (sys_faccessat T u p v x, faccessat T u p v x), (sys_statx T u p v x q, statx T u p v x q),
      (sys_timerfd_create T u v, timerfd_create T u v), (sys_timer_create T u p q, timer_create T u p q),
      (sys_timer_delete T u, timer_delete T u), (sys_prctl T u b c b c, prctl T u b c b c),
      (sys_openat T u p v (if v AND O_CREAT T \<noteq> 0 then x else 0), openat T u p v x),
      (sys_open T p v (if v AND O_CREAT T \<noteq> 0 then x else 0), open_file T p v x)]"

definition long_wrappers ::
  "'w target \<Rightarrow> addr \<Rightarrow> i32 \<Rightarrow> i32 \<Rightarrow> i64
     \<Rightarrow> (('w cstate \<Rightarrow> i64 \<times> 'w cstate) \<times> ('w cstate \<Rightarrow> i64 \<times> 'w cstate)) list" where
  "long_wrappers T p u v b = [
      (sys_read T u p b, read_fd T u p b), (sys_write T u p b, write_fd T u p b),
      (sys_ioctl T u v b, ioctl T u v b), (sys_getrandom T p b u, getrandom T p b u)]"

definition narrow_wrappers ::
  "'w target \<Rightarrow> addr \<Rightarrow> i32 \<Rightarrow> i32
     \<Rightarrow> (('w cstate \<Rightarrow> i64 \<times> 'w cstate) \<times> ('w cstate \<Rightarrow> i32 \<times> 'w cstate)) list" where
  "narrow_wrappers T p u v = [
      (sys_mknod T p u v, mknod T p u v),
      (sys_reboot T (LINUX_REBOOT_MAGIC1 T) (LINUX_REBOOT_MAGIC2 T) u 0, reboot T u)]"

definition local_wrappers ::
  "'w target \<Rightarrow> addr \<Rightarrow> addr \<Rightarrow> addr \<Rightarrow> addr \<Rightarrow> addr \<Rightarrow> addr \<Rightarrow> i32 \<Rightarrow> i32
     \<Rightarrow> (('w cstate \<Rightarrow> (i32 \<times> 'w cstate) option) \<times> ('w cstate \<Rightarrow> (i32 \<times> 'w cstate) option)) list" where
  "local_wrappers T fp fp' p q a e u v = [
      (sys_poll T fp p u v, poll T fp p u v), (sys_select T fp u p q a e, select T fp u p q a e),
      (sys_clock_getres T fp u p, clock_getres T fp u p), (sys_clock_gettime T fp u p, clock_gettime T fp u p),
      (sys_clock_settime T fp u p, clock_settime T fp u p), (sys_gettimeofday T fp fp' p q, gettimeofday T fp fp' p q),
      (sys_timer_gettime T fp u p, timer_gettime T fp u p),
      (sys_timer_settime T fp fp' u v p q, timer_settime T fp fp' u v p q),
      (sys_timerfd_gettime T fp u p, timerfd_gettime T fp u p),
      (sys_timerfd_settime T fp fp' u v p q, timerfd_settime T fp fp' u v p q)]"

lemmas wrapper_defs = chdir_def chmod_def chown_def chroot_def close_def dup_def dup2_def dup3_def
  execve_def fork_def fsync_def getdents64_def getpgid_def kill_def link_def mkdir_def rmdir_def
  pipe2_def pivot_root_def sched_yield_def setpgid_def setsid_def symlink_def umount2_def unlink_def
  memfd_create_def mount_def munmap_def uname_def setns_def unshare_def wait4_def waitid_def
  faccessat_def statx_def timerfd_create_def timer_create_def timer_delete_def prctl_def openat_def
  open_file_def Let_def

lemma int_wrappers_return: "\<forall>(raw, wrap) \<in> set (int_wrappers T p q a u v x b c). wrap = returning raw"
  by (simp add: int_wrappers_def wrapper_defs)

lemma long_wrappers_return: "\<forall>(raw, wrap) \<in> set (long_wrappers T p u v b). wrap = returning raw"
  by (simp add: long_wrappers_def read_fd_def write_fd_def ioctl_def getrandom_def)

lemma narrow_wrappers_return:
  "\<forall>(raw, wrap) \<in> set (narrow_wrappers T p u v). wrap = int_result (returning raw)"
  by (simp add: narrow_wrappers_def mknod_def reboot_def)

lemma bind_sysret: "m \<bind> (\<lambda>(r, s). Some (sysret r s)) = map_option (\<lambda>(r, s). sysret r s) m"
  by (cases m) auto

lemma local_wrappers_return:
  "\<forall>(raw, wrap) \<in> set (local_wrappers T fp fp' p q a e u v).
     \<forall>s. wrap s = map_option (\<lambda>(r, s'). sysret r s') (raw s)"
  by (simp add: local_wrappers_def poll_def select_def clock_getres_def clock_gettime_def clock_settime_def
      gettimeofday_def timer_gettime_def timer_settime_def timerfd_gettime_def timerfd_settime_def
      bind_sysret)

lemma scast_negative: "(scast (n :: i32) :: i64) <s 0 \<longleftrightarrow> n <s 0"
  by (simp add: word_sless_alt sint_scast32)

lemma is_down_32: "is_down (ucast :: i64 \<Rightarrow> i32)"
  by (simp add: is_down)

lemma ucast_neg_1: "(ucast (- 1 :: i64) :: i32) = - 1"
  by code_simp

lemma ucast_minus_scast: "(ucast (- (scast n :: i64)) :: i32) = - n"
proof -
  have "(ucast (- (scast n :: i64)) :: i32) = word_of_int (- sint n)"
    by (metis is_down_32 scast_eq ucast_down_wi wi_hom_neg)
  then show ?thesis by (simp add: wi_hom_neg)
qed

text \<open>
  Property C29. The exported functions of the four lists (the 57 whose body
  is \<^verbatim>\<open>__sysret\<close> of an internal function; besides them only \<open>lseek\<close>, which comes last
  here, the macro \<open>syscall\<close>, and \<open>getpagesize\<close>, \<open>getrlimit\<close>, \<open>setrlimit\<close> and
  \<open>fstatat\<close>, which do more, use it) report errors the way \<^verbatim>\<open>src/sys.h\<close> says: when the internal function returns a
  negative value, \<open>-1\<close> is returned and \<open>errno\<close> is set to its opposite; otherwise the
  value is returned and \<open>errno\<close> is not touched. In both cases the memory and the kernel are as
  the internal function left them. \<open>lseek\<close> does so too with the result of the system call of
  its name, and when the kernel does not have that one, with the error of \<open>llseek\<close>. (Functions
  that do not call \<^verbatim>\<open>__sysret\<close> are not meant: \<open>brk\<close>, \<open>sbrk\<close>, \<open>mmap\<close>,
  \<open>usleep\<close>, \<open>msleep\<close>, \<open>sleep\<close>, \<open>getpid\<close> and its like.)
\<close>

theorem wrappers_report_errors:
  "(\<forall>(raw, wrap) \<in> set (int_wrappers T p q a u v x b c). \<forall>s r s'. raw s = (r, s') \<longrightarrow>
      wrap s = (if r <s 0 then (- 1, s'\<lparr>errno := - r\<rparr>) else (r, s'))) \<and>
   (\<forall>(raw, wrap) \<in> set (long_wrappers T p u v b). \<forall>s r s'. raw s = (r, s') \<longrightarrow>
      wrap s = (if r <s 0 then (- 1, s'\<lparr>errno := ucast (- r)\<rparr>) else (r, s'))) \<and>
   (\<forall>(raw, wrap) \<in> set (narrow_wrappers T p u v). \<forall>s r s'. raw s = (r, s') \<longrightarrow>
      wrap s = (if r <s 0 then (- 1, s'\<lparr>errno := ucast (- r)\<rparr>) else (ucast r, s'))) \<and>
   (\<forall>(raw, wrap) \<in> set (local_wrappers T fp fp' p q a e u v). \<forall>s.
      (raw s = None \<longrightarrow> wrap s = None) \<and>
      (\<forall>r s'. raw s = Some (r, s') \<longrightarrow>
        wrap s = Some (if r <s 0 then (- 1, s'\<lparr>errno := - r\<rparr>) else (r, s')))) \<and>
   (\<forall>s s1 r s2. cstore64 fp 0 s = Some s1 \<longrightarrow> sys_lseek T u b v s1 = (r, s2) \<longrightarrow>
      (r \<noteq> scast (- ENOSYS T) \<longrightarrow>
        lseek T fp u b v s = Some (if r <s 0 then (- 1, s2\<lparr>errno := ucast (- r)\<rparr>) else (r, s2))) \<and>
      (\<forall>n s3. r = scast (- ENOSYS T) \<longrightarrow> sys_llseek T u 0 b fp v s2 = (n, s3) \<longrightarrow> n <s 0 \<longrightarrow>
        lseek T fp u b v s = Some (- 1, s3\<lparr>errno := - n\<rparr>)))"
proof (intro conjI)
  show "\<forall>(raw, wrap) \<in> set (int_wrappers T p q a u v x b c). \<forall>s r s'. raw s = (r, s') \<longrightarrow>
      wrap s = (if r <s 0 then (- 1, s'\<lparr>errno := - r\<rparr>) else (r, s'))"
    using int_wrappers_return [of T p q a u v x b c] by (fastforce simp: returning_cases)
  show "\<forall>(raw, wrap) \<in> set (long_wrappers T p u v b). \<forall>s r s'. raw s = (r, s') \<longrightarrow>
      wrap s = (if r <s 0 then (- 1, s'\<lparr>errno := ucast (- r)\<rparr>) else (r, s'))"
    using long_wrappers_return [of T p u v b] by (fastforce simp: returning_cases)
  show "\<forall>(raw, wrap) \<in> set (narrow_wrappers T p u v). \<forall>s r s'. raw s = (r, s') \<longrightarrow>
      wrap s = (if r <s 0 then (- 1, s'\<lparr>errno := ucast (- r)\<rparr>) else (ucast r, s'))"
    using narrow_wrappers_return [of T p u v] by (clarsimp simp: int_result_def split_beta) (auto simp: returning_cases ucast_neg_1)
  show "\<forall>(raw, wrap) \<in> set (local_wrappers T fp fp' p q a e u v). \<forall>s.
      (raw s = None \<longrightarrow> wrap s = None) \<and>
      (\<forall>r s'. raw s = Some (r, s') \<longrightarrow>
        wrap s = Some (if r <s 0 then (- 1, s'\<lparr>errno := - r\<rparr>) else (r, s')))"
    using local_wrappers_return [of T fp fp' p q a e u v] by (fastforce simp: sysret_def SET_ERRNO_def)
  show "\<forall>s s1 r s2. cstore64 fp 0 s = Some s1 \<longrightarrow> sys_lseek T u b v s1 = (r, s2) \<longrightarrow>
      (r \<noteq> scast (- ENOSYS T) \<longrightarrow>
        lseek T fp u b v s = Some (if r <s 0 then (- 1, s2\<lparr>errno := ucast (- r)\<rparr>) else (r, s2))) \<and>
      (\<forall>n s3. r = scast (- ENOSYS T) \<longrightarrow> sys_llseek T u 0 b fp v s2 = (n, s3) \<longrightarrow> n <s 0 \<longrightarrow>
        lseek T fp u b v s = Some (- 1, s3\<lparr>errno := - n\<rparr>))"
    by (simp add: lseek_def sysret_def SET_ERRNO_def scast_negative ucast_minus_scast)
qed

theorem wrappers_report_errors_witness:
  "close (x86_linux no_kernel) 5 (process Map.empty ()) = (- 1, (process Map.empty ())\<lparr>errno := 38\<rparr>)"
proof -
  let ?T = "x86_linux no_kernel :: unit target" and ?s = "process Map.empty ()"
  have "sys_close ?T 5 ?s = (- 38, ?s)"
    by (simp add: sys_close_def int_result_def my_syscall1_def syscall_insn_def x86_linux_def
        no_kernel_def process_def)
  moreover have "(sys_close ?T 5, close ?T 5) \<in> set (int_wrappers ?T 0 0 0 5 0 0 0 0)"
    by (simp add: int_wrappers_def)
  ultimately have "close ?T 5 ?s = (if (- 38 :: i32) <s 0 then (- 1, ?s\<lparr>errno := - (- 38)\<rparr>) else (- 38, ?s))"
    using bspec [OF conjunct1 [OF wrappers_report_errors [where T = ?T and p = 0 and q = 0 and a = 0
        and u = 5 and v = 0 and x = 0 and b = 0 and c = 0]], of "(sys_close ?T 5, close ?T 5)"] by simp
  moreover have "(- 38 :: i32) <s 0" by code_simp
  ultimately show ?thesis by simp
qed

text \<open>The macro \<^verbatim>\<open>syscall\<close> is the wrapper of the instruction for up to six arguments, and no program for more.\<close>

theorem syscall_dispatches:
  "syscall T nr args s = (if length args \<le> 6 then Some (returning (syscall_insn T nr args) s) else None)"
proof (cases "length args \<le> 6")
  case True
  then consider "args = []" | a where "args = [a]" | a b where "args = [a, b]" | a b c where "args = [a, b, c]"
    | a b c d where "args = [a, b, c, d]" | a b c d e where "args = [a, b, c, d, e]"
    | a b c d e f where "args = [a, b, c, d, e, f]"
    by (auto simp: numeral_eq_Suc le_Suc_eq length_Suc_conv)
  then show ?thesis
    by cases (simp_all add: syscall_def syscall_narg_def my_syscall0_def my_syscall1_def my_syscall2_def my_syscall3_def
      my_syscall4_def my_syscall5_def my_syscall6_def)
next
  case False
  then have "(List.map Inl (() # List.map (\<lambda>_. ()) args) @ List.map Inr [6, 5, 4, 3, 2, 1, 0 :: nat]) ! 7 = Inl ()"
    by (simp add: nth_append nth_Cons')
  with False show ?thesis by (simp add: syscall_def syscall_narg_def)
qed

text \<open>
  On a target without any of the system calls a function knows, it fails with
  \<open>ENOSYS\<close> and the kernel is not entered.
\<close>

theorem missing_syscall_enosys:
  assumes "\<And>nr. \<not> nr_defined T nr"
    and "raw \<in> set [sys_chmod T p u, sys_chown T p u v, sys_dup2 T u v, sys_fork T, sys_link T p q,
      sys_mkdir T p u, sys_rmdir T p, sys_symlink T p q, sys_unlink T p, sys_statx T u p v x q,
      sys_wait4 T u p v q]"
  shows "raw s = (- ENOSYS T, s)"
  using assms(2)
  by (auto simp: assms(1) enosys_def sys_chmod_def sys_chown_def sys_dup2_def sys_fork_def
      sys_link_def sys_mkdir_def sys_rmdir_def sys_symlink_def sys_unlink_def sys_statx_def
      sys_wait4_def)

theorem missing_syscall_enosys_witness:
  "sys_unlink ((x86_linux no_kernel)\<lparr>nr_defined := \<lambda>_. False\<rparr>) 8 (process Map.empty ()) =
     (- 38, process Map.empty ())"
proof -
  let ?T = "(x86_linux no_kernel)\<lparr>nr_defined := \<lambda>_. False\<rparr> :: unit target"
  have "sys_unlink ?T 8 (process Map.empty ()) = (- ENOSYS ?T, process Map.empty ())"
    by (rule missing_syscall_enosys [where p = 8]) simp_all
  then show ?thesis by (simp add: x86_linux_def)
qed

subsection \<open>The program break\<close>

text \<open>
  When the kernel grants the new break, \<open>sbrk\<close> returns its new end. (The manual
  page of \<open>sbrk\<close> promises the previous one.)
\<close>

theorem sbrk_returns_new_end:
  assumes "kcall T ''brk'' [0] (cmem s) (kern s) = (cur, m', w')" and "cur \<noteq> 0"
    and "kcall T ''brk'' [cur + inc] m' w' = (cur + inc, m'', w'')"
  shows "sbrk T inc s = (cur + inc, s\<lparr>cmem := m'', kern := w''\<rparr>)"
  using assms by (simp add: sbrk_def sys_brk_def my_syscall1_def syscall_insn_def)

text \<open>A kernel with a program break, which grants every request: the world is the break.\<close>

definition break_kernel :: "sysnr \<Rightarrow> i64 list \<Rightarrow> mem \<Rightarrow> i64 \<Rightarrow> i64 \<times> mem \<times> i64" where
  "break_kernel nr args m w = (if hd args = 0 then (w, m, w) else (hd args, m, hd args))"

theorem sbrk_returns_new_end_witness:
  "fst (sbrk (x86_linux break_kernel) 0x100 (process Map.empty 0x1000)) = 0x1100"
  using sbrk_returns_new_end [where T = "x86_linux break_kernel" and s = "process Map.empty 0x1000"
      and cur = "0x1000" and inc = "0x100"]
  by (simp add: x86_linux_def break_kernel_def)

text \<open>
  A kernel that refuses a new break answers with the old one, which is not 0, and
  \<open>brk\<close> then reports success.
\<close>

theorem brk_hides_refusal:
  assumes "kcall T ''brk'' [a] (cmem s) (kern s) = (cur, m', w')" and "cur \<noteq> 0" and "cur \<noteq> a"
  shows "brk T a s = (0, s\<lparr>cmem := m', kern := w'\<rparr>)"
  using assms by (simp add: brk_def sys_brk_def my_syscall1_def syscall_insn_def)

definition full_kernel :: "sysnr \<Rightarrow> i64 list \<Rightarrow> mem \<Rightarrow> i64 \<Rightarrow> i64 \<times> mem \<times> i64" where
  "full_kernel nr args m w = (w, m, w)"

theorem brk_hides_refusal_witness:
  "fst (brk (x86_linux full_kernel) 0x2000 (process Map.empty 0x1000)) = 0"
  using brk_hides_refusal [of "x86_linux full_kernel" "0x2000" "process Map.empty 0x1000" "0x1000"
      Map.empty "0x1000"]
  by (simp add: x86_linux_def full_kernel_def)

subsection \<open>Mappings and the heap\<close>

text \<open>
  \<open>mmap\<close> returns the kernel's address, except for the error codes in the last
  page, which become \<^verbatim>\<open>MAP_FAILED\<close> with \<open>errno\<close> between 1 and 4095.
\<close>

theorem mmap_reports_errors:
  assumes "sys_mmap T a len prot flags fd offset s = (r, s')"
  shows "(r < - 4095 \<longrightarrow> mmap T a len prot flags fd offset s = (r, s')) \<and>
    (- 4095 \<le> r \<longrightarrow> (\<exists>e. mmap T a len prot flags fd offset s = (- 1, s'\<lparr>errno := e\<rparr>) \<and>
      1 \<le> unat e \<and> unat e \<le> 4095 \<and> r = - ucast e))"
proof -
  have "\<exists>e :: i32. ucast (- r) = e \<and> 1 \<le> unat e \<and> unat e \<le> 4095 \<and> r = - ucast e"
    if "- 4095 \<le> r"
  proof -
    have "unat (- 4095 :: i64) = 2 ^ 64 - 4095"
      using unat_of_nat64 [of "2 ^ 64 - 4095"] by simp
    then have ge: "2 ^ 64 - 4095 \<le> unat r" using that by (simp add: word_le_nat_alt)
    then have "r \<noteq> 0" by auto
    then have n: "unat (- r) = 2 ^ 64 - unat r"
      using unat_diff_swap [of 0 r] by simp
    have "unat r < 2 ^ 64" by simp
    then have b: "1 \<le> unat (- r)" "unat (- r) \<le> 4095" unfolding n using ge by linarith+
    have "ucast (- r) = (of_nat (unat (- r)) :: i32)" by simp
    then have u: "unat (ucast (- r) :: i32) = unat (- r)"
      using b unat_of_nat_lt [of "unat (- r)", where 'a = 32] by simp
    have "ucast (ucast (- r) :: i32) = (of_nat (unat (ucast (- r) :: i32)) :: i64)" by simp
    also have "\<dots> = - r" unfolding u by simp
    finally show ?thesis using b u by auto
  qed
  then show ?thesis
    using assms by (auto simp: mmap_def SET_ERRNO_def not_le)
qed

theorem mmap_reports_errors_witness:
  "fst (mmap (x86_linux no_kernel) 0 4096 3 0x22 (- 1) 0 (process Map.empty ())) = - 1"
proof -
  have "sys_mmap (x86_linux no_kernel) 0 4096 3 0x22 (- 1) 0 (process Map.empty ()) =
      (- 38, process Map.empty ())"
    by (simp add: sys_mmap_def my_syscall6_def syscall_insn_def x86_linux_def no_kernel_def process_def)
  then show ?thesis using mmap_reports_errors [of "x86_linux no_kernel"] by fastforce
qed

text \<open>
  A kernel that maps zeroed pages from the address its world holds, and unmaps them.
\<close>

definition page_kernel :: "sysnr \<Rightarrow> i64 list \<Rightarrow> mem \<Rightarrow> i64 \<Rightarrow> i64 \<times> mem \<times> i64" where
  "page_kernel nr args m w =
     (if nr = ''mmap''
      then (w, (\<lambda>a. if in_range w (unat (args ! 1)) a then Some 0 else m a), w + args ! 1)
      else (0, (\<lambda>a. if in_range (args ! 0) (unat (args ! 1)) a then None else m a), w))"

lemma page_kernel_heap_call:
  "heap_call (x86_linux page_kernel) len (process m w) =
     (w, (\<lambda>a. if in_range w (unat len) a then Some 0 else m a), w + len)"
  by (simp add: heap_call_def x86_linux_def page_kernel_def)

lemma page_kernel_granted:
  "p \<noteq> 0 \<Longrightarrow> unat p + n \<le> 2 ^ 64 - 4096 \<Longrightarrow> (\<And>a. in_range p n a \<Longrightarrow> m a = None) \<Longrightarrow>
   granted m (\<lambda>a. if in_range p n a then Some 0 else m a) p n"
  by (simp add: granted_def)

text \<open>
  Property C24. When the kernel maps the pages, \<open>malloc\<close> returns a pointer to zeroed room for
  the request, in a block whose size the header records, and no byte that was mapped before
  changes.
\<close>

theorem malloc_allocates:
  assumes "unat n + 4111 < 2 ^ 64"
    and "heap_call T (of_nat (block_size (unat n))) s = (p, m', w')"
    and "granted (cmem s) m' p (block_size (unat n))"
  shows "\<exists>s'. malloc T n s = Some (p + 16, s') \<and>
    bytes_at (cmem s') (p + 16) (replicate (unat n) 0) \<and>
    heap_block s' (p + 16) (block_size (unat n)) \<and> kern s' = w' \<and> errno s' = errno s \<and>
    (\<forall>a. cmem s a \<noteq> None \<longrightarrow> cmem s' a = cmem s a)"
  using malloc_result [OF assms refl] by auto

theorem malloc_allocates_witness:
  "\<exists>s'. malloc (x86_linux page_kernel) 3 (process Map.empty 0x10000) = Some (0x10010, s') \<and>
    heap_block s' 0x10010 4096"
  using malloc_allocates [where T = "x86_linux page_kernel" and n = 3 and
      s = "process Map.empty 0x10000"]
  by (auto simp: page_kernel_heap_call page_kernel_granted block_size_def)

text \<open>
  Property C40. \<open>calloc\<close> allocates the product of its arguments when that fits a
  \<^verbatim>\<open>size_t\<close>, and fails with \<open>ENOMEM\<close> when it does not.
\<close>

theorem calloc_checks_product:
  "calloc T sz nmemb s =
     (if unat sz * unat nmemb < 2 ^ 64 then malloc T (of_nat (unat sz * unat nmemb)) s
      else Some (0, s\<lparr>errno := ENOMEM T\<rparr>))"
proof (cases "unat sz * unat nmemb < 2 ^ 64")
  case True
  then show ?thesis using calloc_exact [of sz nmemb T s] by simp
next
  case False
  then show ?thesis using calloc_overflow [of sz nmemb T s] by (simp add: SET_ERRNO_def)
qed

text \<open>
  Property C25. \<open>realloc\<close> of a block that is too small copies its contents to a new block, unmaps
  all of the old one, its header included, and leaves all other memory that was mapped as it was; of a
  block that is large enough, it returns the same pointer and changes nothing. In both cases there is
  room for the request.
\<close>

theorem realloc_preserves:
  fixes n :: i64 and s :: "'w cstate"
  assumes hb: "heap_block s old blk"
    and data: "bytes_at (cmem s) old xs" "length xs = blk - 16"
    and n: "unat n + 4111 < 2 ^ 64"
    and call: "heap_call T (of_nat (block_size (unat n))) s = (p, m', w')"
    and g: "granted (cmem s) m' p (block_size (unat n))"
    and un: "\<And>m w. released m (fst (snd (kcall T ''munmap'' [old - 16, of_nat blk] m w))) (old - 16) blk"
  shows "\<exists>q s'. realloc T old n s = Some (q, s') \<and> bytes_at (cmem s') q xs \<and>
    mapped (cmem s') q (unat n) \<and>
    (if unat n + 16 \<le> blk then q = old \<and> s' = s
     else q = p + 16 \<and> (\<forall>a. in_range (old - 16) blk a \<longrightarrow> cmem s' a = None) \<and>
       (\<forall>a. cmem s a \<noteq> None \<and> \<not> in_range (old - 16) blk a \<longrightarrow> cmem s' a = cmem s a))"
proof (cases "unat n + 16 \<le> blk")
  case True
  then have "mapped (cmem s) old (unat n)"
    using hb mapped_part [of "cmem s" "old - 16" blk 16 "unat n"] by (simp add: heap_block_def)
  with True realloc_keeps [OF hb True, of T] data(1) show ?thesis by auto
next
  case False
  then have "blk < unat n + 16" by simp
  from realloc_moves [OF hb this data n call g un] False show ?thesis by auto
qed

text \<open>A state with one block of a page at \<open>0x10010\<close>.\<close>

definition one_block :: mem where
  "one_block = poke (\<lambda>a. if in_range 0x10000 4096 a then Some 0 else None) 0x10000 (le_bytes 8 4096)"

lemma one_block_range: "one_block a \<noteq> None \<longleftrightarrow> in_range 0x10000 4096 a"
proof (cases "in_range 0x10000 8 a")
  case True
  then have "in_range 0x10000 4096 a" by (rule in_range_mono) simp
  moreover have "mapped (\<lambda>a. if in_range 0x10000 4096 a then Some 0 else None) 0x10000 4096"
    by (rule mapped_all) simp_all
  then have "mapped one_block 0x10000 4096" unfolding one_block_def by (rule mapped_poke)
  ultimately show ?thesis using mapped_in_range by blast
next
  case False
  then show ?thesis by (simp add: one_block_def poke_outside)
qed

lemma one_block_heap: "heap_block (process one_block w) 0x10010 4096"
proof -
  have "mapped one_block 0x10000 4096" by (rule mapped_all) (simp_all only: one_block_range, simp)
  moreover have "bytes_at one_block 0x10000 (le_bytes 8 (unat (4096 :: i64)))"
    unfolding one_block_def using bytes_at_poke_self [of "le_bytes 8 4096"] by simp
  then have "load64 one_block 0x10000 = Some 4096" by (rule load64_bytes)
  ultimately show ?thesis by (simp add: heap_block_def)
qed

theorem realloc_preserves_witness:
  "\<exists>s'. realloc (x86_linux page_kernel) 0x10010 5000 (process one_block 0x20000) = Some (0x20010, s') \<and>
     (\<forall>a. in_range 0x10000 4096 a \<longrightarrow> cmem s' a = None)"
proof -
  have "mapped one_block 0x10010 4080"
    using in_range_add [of 16 4080 4096 "0x10000"] by (intro mapped_all) (simp_all only: one_block_range, simp_all)
  then obtain xs where xs: "length xs = 4080" "bytes_at one_block 0x10010 xs"
    using mapped_bytes by blast
  have g: "granted one_block (\<lambda>a. if in_range 0x20000 8192 a then Some 0 else one_block a) 0x20000 8192"
  proof (rule page_kernel_granted)
    have "apart 0x20000 8192 0x10000 4096" by (simp add: apart_def)
    then show "in_range 0x20000 8192 a \<Longrightarrow> one_block a = None" for a
      using one_block_range [of a] by (auto dest: apart_in_range)
  qed simp_all
  have "block_size (unat (5000 :: i64)) = 8192" by (simp add: block_size_def)
  then show ?thesis
    using realloc_preserves [OF one_block_heap [of "0x20000"], of xs 5000 "x86_linux page_kernel"]
      xs g by (simp add: page_kernel_heap_call) (auto simp: x86_linux_def page_kernel_def released_def)
qed

text \<open>
  \<open>free\<close> gives back exactly the mapping of the block: afterwards nothing of the
  block is mapped, and all other memory is as it was.
\<close>

theorem free_unmaps:
  assumes "heap_block s p blk"
    and "released (cmem s) (fst (snd (kcall T ''munmap'' [p - 16, of_nat blk] (cmem s) (kern s))))
      (p - 16) blk"
  shows "\<exists>s'. free T p s = Some s' \<and>
    (\<forall>a. cmem s' a = (if in_range (p - 16) blk a then None else cmem s a))"
  using free_block [OF assms(1), of T] assms(2)
    munmap_memory [of T "p - 16" "of_nat blk" s] by (simp add: released_def)

theorem free_unmaps_witness:
  "\<exists>s'. free (x86_linux page_kernel) 0x10010 (process one_block 0x20000) = Some s' \<and>
    (\<forall>a. cmem s' a = (if in_range 0x10000 4096 a then None else one_block a))"
  using free_unmaps [OF one_block_heap, where T = "x86_linux page_kernel"]
  by (simp add: page_kernel_def released_def cong: if_cong)

text \<open>
  \<open>strdup\<close> returns a new copy of the string and keeps the original.
\<close>

theorem strdup_duplicates:
  fixes s :: "'w cstate"
  assumes "cstr (cmem s) str xs" and "length xs + 4112 < 2 ^ 64"
    and "heap_call T (of_nat (block_size (Suc (length xs)))) s = (p, m', w')"
    and "granted (cmem s) m' p (block_size (Suc (length xs)))"
  shows "\<exists>s'. strdup T str s = Some (p + 16, s') \<and> cstr (cmem s') (p + 16) xs \<and>
    cstr (cmem s') str xs"
  using assms by (rule strdup_copies)

theorem strdup_duplicates_witness:
  "\<exists>s'. strdup (x86_linux page_kernel) 8 (process [8 \<mapsto> 97, 9 \<mapsto> 0] 0x10000) = Some (0x10010, s') \<and>
    cstr (cmem s') 0x10010 [97]"
proof -
  have "granted [8 \<mapsto> 97, 9 \<mapsto> 0] (\<lambda>a. if in_range 0x10000 4096 a then Some 0 else [8 \<mapsto> 97, 9 \<mapsto> 0] a)
      0x10000 4096"
    by (rule page_kernel_granted) (auto simp: in_range_def)
  then show ?thesis
    using strdup_duplicates [where T = "x86_linux page_kernel" and str = 8 and xs = "[97]" and
        s = "process [8 \<mapsto> 97, 9 \<mapsto> 0] 0x10000"]
    by (auto simp: page_kernel_heap_call block_size_def)
qed

end
