(* ===== verification/ProcessProps.thy ===== *)
theory ProcessProps
  imports SysWait Strto Linux
begin

section \<open>Properties of the process environment and of wait statuses\<close>

text \<open>
  \<open>getenv\<close>, \<open>getauxval\<close>, \<open>waitpid\<close> with the status macros, and device numbers. Each
  statement is followed by an instance on a small memory.
\<close>

subsection \<open>Environment and auxiliary vector\<close>

text \<open>
  \<open>env_at m p es\<close>: at \<open>p\<close> lies the NULL-terminated array of the strings \<open>es\<close>, each with its
  address. \<open>env_lookup\<close> is the address of the value of the first entry that starts with
  the name and an equals sign.
\<close>

fun env_at :: "mem \<Rightarrow> addr \<Rightarrow> (addr \<times> byte list) list \<Rightarrow> bool" where
  "env_at m p [] = (load64 m p = Some 0)"
| "env_at m p ((e, xs) # es) = (load64 m p = Some e \<and> e \<noteq> 0 \<and> cstr m e xs \<and> env_at m (p + 8) es)"

fun env_lookup :: "byte list \<Rightarrow> (addr \<times> byte list) list \<Rightarrow> addr" where
  "env_lookup name [] = 0"
| "env_lookup name ((e, xs) # es) =
     (if take (length name + 1) xs = name @ [61] then e + of_nat (length name + 1)
      else env_lookup name es)"

fun common :: "byte list \<Rightarrow> byte list \<Rightarrow> nat" where
  "common (x # xs) (y # ys) = (if x = y then Suc (common xs ys) else 0)"
| "common _ _ = 0"

lemma common_le: "common xs ys \<le> length xs"
  by (induction xs ys rule: common.induct) auto

lemma common_le': "common xs ys \<le> length ys"
  by (induction xs ys rule: common.induct) auto

lemma common_hit:
  "common ns xs = length ns \<and> common ns xs < length xs \<and> xs ! common ns xs = 61 \<longleftrightarrow>
   take (length ns + 1) xs = ns @ [61]"
proof (induction ns arbitrary: xs)
  case Nil
  then show ?case by (cases xs) simp_all
next
  case (Cons n ns)
  then show ?case by (cases xs) auto
qed

lemma common_nth:
  "i < length ns \<Longrightarrow> i \<le> common ns xs \<Longrightarrow>
   i < common ns xs \<longleftrightarrow> i < length xs \<and> ns ! i = xs ! i"
proof (induction ns xs arbitrary: i rule: common.induct)
  case (1 x xs y ys)
  then show ?case by (cases i) (auto split: if_splits)
qed auto

lemma cstr_nth:
  "cstr m p xs \<Longrightarrow> i \<le> length xs \<Longrightarrow> m (p + of_nat i) = Some (if i < length xs then xs ! i else 0)"
  using bytes_at_nth [of m p "xs @ [0]" i] by (auto simp: cstr_iff_bytes nth_append)

lemma getenv_match_eq:
  assumes n: "cstr m name ns" and e: "cstr m entry xs" and len: "length ns < 2 ^ 31 - 1"
  shows "i \<le> common ns xs \<Longrightarrow> getenv_match m name entry (of_nat i) = Some (of_nat (common ns xs))"
proof (induction "common ns xs - i" arbitrary: i rule: less_induct)
  case less
  have i: "i \<le> length ns" "i \<le> length xs"
    using less.prems common_le [of ns xs] common_le' [of ns xs] by auto
  have sc: "(scast (of_nat i :: i32) :: i64) = of_nat i"
    using i(1) len by (intro scast_of_nat32) simp
  have a: "m (name + of_nat i) = Some (if i < length ns then ns ! i else 0)"
    using n i(1) by (rule cstr_nth)
  have b: "m (entry + of_nat i) = Some (if i < length xs then xs ! i else 0)"
    using e i(2) by (rule cstr_nth)
  show ?case
  proof (cases "i < length ns")
    case False
    then have "i = common ns xs" using less.prems common_le [of ns xs] by simp
    with False a sc show ?thesis by (subst getenv_match.simps) simp
  next
    case True
    then have nz: "ns ! i \<noteq> 0" using cstr_nonzero [OF n] by (metis nth_mem)
    show ?thesis
    proof (cases "i < common ns xs")
      case less': True
      then have "i < length xs" "ns ! i = xs ! i"
        using common_nth [OF True less.prems] by auto
      moreover have "getenv_match m name entry (of_nat (Suc i)) = Some (of_nat (common ns xs))"
        using less' by (intro less.hyps) simp_all
      ultimately show ?thesis
        using True a b sc nz by (subst getenv_match.simps) (simp add: add.commute)
    next
      case False
      then have "\<not> (i < length xs \<and> ns ! i = xs ! i)" "i = common ns xs"
        using common_nth [OF True less.prems] less.prems by auto
      with True a b sc nz show ?thesis by (subst getenv_match.simps) auto
    qed
  qed
qed

lemma getenv_loop_eq:
  assumes n: "cstr m name ns" and len: "length ns < 2 ^ 31 - 1"
  shows "env_at m (env + 8 * of_nat idx) es \<Longrightarrow> idx + length es < 2 ^ 31 \<Longrightarrow>
    getenv_loop m env name (of_nat idx) = Some (env_lookup ns es)"
proof (induction es arbitrary: idx)
  case Nil
  then have "(scast (of_nat idx :: i32) :: i64) = of_nat idx" by (intro scast_of_nat32) simp
  with Nil show ?case by (subst getenv_loop.simps) simp
next
  case (Cons exs es)
  obtain e xs where exs: "exs = (e, xs)" by fastforce
  let ?k = "common ns xs"
  have sc: "(scast (of_nat idx :: i32) :: i64) = of_nat idx"
    using Cons.prems(2) by (intro scast_of_nat32) simp
  have env: "load64 m (env + 8 * of_nat idx) = Some e" "e \<noteq> 0" and xs: "cstr m e xs"
    using Cons.prems(1) exs by auto
  have k: "?k \<le> length ns" "?k \<le> length xs" by (rule common_le, rule common_le')
  have mt: "getenv_match m name e 0 = Some (of_nat ?k)"
    using getenv_match_eq [OF n xs len, of 0] by simp
  have sk: "(scast (of_nat ?k :: i32) :: i64) = of_nat ?k"
    using k(1) len by (intro scast_of_nat32) simp
  have sk': "(scast (of_nat ?k + 1 :: i32) :: i64) = of_nat (?k + 1)"
    using scast_of_nat32 [of "?k + 1"] k(1) len by (simp add: add.commute)
  have a: "m (name + of_nat ?k) = Some (if ?k < length ns then ns ! ?k else 0)"
    using n k(1) by (rule cstr_nth)
  have b: "m (e + of_nat ?k) = Some (if ?k < length xs then xs ! ?k else 0)"
    using xs k(2) by (rule cstr_nth)
  have nz: "?k < length ns \<Longrightarrow> ns ! ?k \<noteq> 0" using cstr_nonzero [OF n] by (metis nth_mem)
  have rec: "getenv_loop m env name (of_nat idx + 1) = Some (env_lookup ns es)"
    using Cons.IH [of "Suc idx"] Cons.prems exs by (simp add: algebra_simps)
  show ?case
  proof (cases "take (length ns + 1) xs = ns @ [61]")
    case True
    then have "?k = length ns" "?k < length xs" "xs ! ?k = 61" using common_hit [of ns xs] by auto
    with True env mt sc sk sk' a b show ?thesis
      by (subst getenv_loop.simps) (simp add: exs)
  next
    case False
    then have "\<not> (?k = length ns \<and> ?k < length xs \<and> xs ! ?k = 61)" using common_hit [of ns xs] by blast
    with False env mt sc sk sk' a b nz k rec show ?thesis
      by (subst getenv_loop.simps) (auto simp: exs)
  qed
qed

text \<open>
  \<open>getenv\<close> returns the address of the value of the first entry of the
  environment that starts with the name and an equals sign, NULL when no entry does.
\<close>

theorem getenv_finds:
  assumes "cstr (cmem s) name ns" and "length ns < 2 ^ 31 - 1" and "environ s \<noteq> 0"
    and "env_at (cmem s) (environ s) es" and "length es < 2 ^ 31"
  shows "getenv name s = Some (env_lookup ns es)"
  using getenv_loop_eq [OF assms(1,2), of "environ s" 0 es] assms(3-5) by (simp add: getenv_def)

theorem getenv_finds_witness:
  "\<exists>m. getenv 10 ((process m ())\<lparr>environ := 1000\<rparr>) = Some 2002"
proof -
  let ?m = "poke (poke [10 \<mapsto> 65, 11 \<mapsto> 0, 2000 \<mapsto> 65, 2001 \<mapsto> 61, 2002 \<mapsto> 49, 2003 \<mapsto> 0] 1000
    (le_bytes 8 2000)) 1008 (le_bytes 8 0) :: mem"
  have "load_le ?m 1000 8 = Some 2000" "load_le ?m 1008 8 = Some 0" by code_simp+
  then have "env_at ?m 1000 [(2000, [65, 61, 49])]"
    by (simp add: load64_def poke_outside in_range_def)
  moreover have "cstr ?m 10 [65]" by (simp add: poke_outside in_range_def)
  ultimately have "getenv 10 ((process ?m ())\<lparr>environ := 1000\<rparr>) = Some (env_lookup [65] [(2000, [65, 61, 49])])"
    by (intro getenv_finds) simp_all
  then show ?thesis by auto
qed

text \<open>
  The auxiliary vector at \<open>p\<close> holds the entries \<open>es\<close>, none of them the pair of zeros that
  ends it. \<open>aux_lookup\<close> is the value of the first entry of a type.
\<close>

fun auxv_at :: "mem \<Rightarrow> addr \<Rightarrow> (i64 \<times> i64) list \<Rightarrow> bool" where
  "auxv_at m p [] = (load64 m p = Some 0 \<and> load64 m (p + 8) = Some 0)"
| "auxv_at m p ((t, v) # es) = (load64 m p = Some t \<and> load64 m (p + 8) = Some v \<and>
     (t, v) \<noteq> (0, 0) \<and> auxv_at m (p + 16) es)"

fun aux_lookup :: "i64 \<Rightarrow> (i64 \<times> i64) list \<Rightarrow> i64" where
  "aux_lookup type [] = 0"
| "aux_lookup type ((t, v) # es) = (if t = type then v else aux_lookup type es)"

lemma getauxval_loop_eq: "auxv_at (cmem s) p es \<Longrightarrow> getauxval_loop p type s = Some (aux_lookup type es)"
proof (induction es arbitrary: p)
  case Nil
  then show ?case by (subst getauxval_loop.simps) (simp add: cload64_def)
next
  case (Cons e es)
  obtain t v where "e = (t, v)" by fastforce
  with Cons show ?case by (subst getauxval_loop.simps) (auto simp: cload64_def)
qed

text \<open>
  \<open>getauxval\<close> returns the value of the first entry of the type, 0 when there is
  none; \<open>getpagesize\<close> is the value of \<^verbatim>\<open>AT_PAGESZ\<close> or fails with \<open>ENOENT\<close>.
\<close>

theorem getauxval_finds:
  assumes "auxv s \<noteq> 0" and "auxv_at (cmem s) (auxv s) es"
  shows "getauxval type s = Some (aux_lookup type es) \<and>
    getpagesize T s = Some (let n = (ucast (aux_lookup (AT_PAGESZ T) es) :: i32) in
      sysret (if n = 0 then - ENOENT T else n) s)"
  using getauxval_loop_eq [OF assms(2)] assms(1) by (simp add: getauxval_def getpagesize_def Let_def)

theorem getauxval_finds_witness:
  "\<exists>m. getauxval 6 ((process m ())\<lparr>auxv := 1000\<rparr>) = Some 4096"
proof -
  let ?m = "poke (poke (poke (poke (\<lambda>_. Some 7) 1000 (le_bytes 8 6)) 1008 (le_bytes 8 4096))
    1016 (le_bytes 8 0)) 1024 (le_bytes 8 0) :: mem"
  have "load_le ?m 1000 8 = Some 6" "load_le ?m 1008 8 = Some 4096" "load_le ?m 1016 8 = Some 0"
    "load_le ?m 1024 8 = Some 0" by code_simp+
  then have "auxv_at ?m 1000 [(6, 4096)]" by (simp add: load64_def)
  then show ?thesis
    using getauxval_finds [of "(process ?m ())\<lparr>auxv := 1000\<rparr>" "[(6, 4096)]" 6] by fastforce
qed

subsection \<open>Wait statuses\<close>

lemma status_masks:
  "(0xff :: i32) = mask 8" "(0x7f :: i32) = mask 7" "(0xfff :: i32) = mask 12"
  "(0xff00 :: i32) = push_bit 8 (mask 8)" "(0xfffff :: i32) = mask 20"
  by code_simp+

lemma status_exited [simp]:
  "WIFEXITED (push_bit 8 (st AND 0xff))" "WEXITSTATUS (push_bit 8 (st AND 0xff)) = st AND 0xff"
proof -
  have "push_bit 8 (st AND mask 8) AND mask 7 = (0 :: i32)"
    by (rule bit_word_eqI) (auto simp: bit_simps)
  then show "WIFEXITED (push_bit 8 (st AND 0xff))" by (simp add: WIFEXITED_def status_masks)
  have "signed_drop_bit 8 (push_bit 8 (st AND mask 8) AND push_bit 8 (mask 8)) = (st AND mask 8 :: i32)"
    by (rule bit_word_eqI) (auto simp: bit_simps)
  then show "WEXITSTATUS (push_bit 8 (st AND 0xff)) = st AND 0xff"
    by (simp add: WEXITSTATUS_def status_masks)
qed

lemma status_killed:
  "0 < unat sig \<Longrightarrow> unat sig < 128 \<Longrightarrow>
    sig AND 0x7f = sig \<and> \<not> WIFEXITED sig \<and> WIFSIGNALED sig \<and> WTERMSIG sig = sig" for sig :: i32
proof -
  assume "0 < unat sig" "unat sig < 128"
  moreover have "\<forall>n \<in> set [1..<128]. (of_nat n :: i32) AND 0x7f = of_nat n \<and> (of_nat n :: i32) \<noteq> 0 \<and>
      (of_nat n :: i32) - 1 <s 0xff" by code_simp
  ultimately have "of_nat (unat sig) AND 0x7f = sig \<and> sig \<noteq> 0 \<and> sig - 1 <s 0xff"
    by (metis One_nat_def Suc_leI atLeastLessThan_iff set_upt word_of_unat)
  then show ?thesis by (simp add: WIFEXITED_def WIFSIGNALED_def WTERMSIG_def)
qed

lemma waitpid_stores:
  assumes "pid \<noteq> 0x80000000" and "waitpid_target W pid = (which, wid)"
    and "waitid T which wid info (options OR WEXITED W) s = (0, s')"
    and "load32 (cmem s') (info + si_code_at W) = Some code"
    and "load32 (cmem s') (info + si_status_at W) = Some st"
    and ch: "load32 (cmem s') (info + si_pid_at W) = Some child"
    and v: "wait_status W code st = Some v"
    and mp: "mapped (cmem s') status 4" and ap: "apart status 4 (info + si_pid_at W) 4"
  shows "\<exists>m'. waitpid T W info pid status options s = Some (child, s'\<lparr>cmem := m'\<rparr>) \<and>
    load32 m' status = Some v"
proof -
  let ?m = "poke (cmem s') status (le_bytes 4 (unat v))"
  have st: "store32 (cmem s') status v = Some ?m" using mp by (rule store32_eq)
  have "load32 ?m (info + si_pid_at W) = Some child"
    using ch ap by (simp add: load32_def load_le_poke_apart)
  with assms st show ?thesis
    using load32_store32 [OF st]
    by (auto simp: waitpid_def cload32_def cstore32_def)
qed

text \<open>
  Property C34. When the kernel reports a child that exited or was killed, \<open>waitpid\<close> returns
  the child and stores a status that the macros read back: the low byte of the exit status,
  or the signal.
\<close>

theorem waitpid_status:
  assumes "pid \<noteq> 0x80000000" and "waitpid_target W pid = (which, wid)"
    and "waitid T which wid info (options OR WEXITED W) s = (0, s')"
    and "load32 (cmem s') (info + si_code_at W) = Some code"
    and "load32 (cmem s') (info + si_status_at W) = Some st"
    and "load32 (cmem s') (info + si_pid_at W) = Some child"
    and "mapped (cmem s') status 4" and "apart status 4 (info + si_pid_at W) 4"
    and codes: "code = CLD_EXITED W \<or> code = CLD_KILLED W \<and> 0 < unat st \<and> unat st < 128"
    and ks: "distinct [0, CLD_EXITED W, CLD_KILLED W]"
  shows "\<exists>v m'. waitpid T W info pid status options s = Some (child, s'\<lparr>cmem := m'\<rparr>) \<and>
    load32 m' status = Some v \<and>
    (if code = CLD_EXITED W then WIFEXITED v \<and> WEXITSTATUS v = st AND 0xff
     else \<not> WIFEXITED v \<and> WIFSIGNALED v \<and> WTERMSIG v = st)"
proof (cases "code = CLD_EXITED W")
  case True
  with ks have "wait_status W code st = Some (push_bit 8 (st AND 0xff))"
    by (simp add: wait_status_def)
  from waitpid_stores [OF assms(1-6) this assms(7,8)] True status_exited [of st] show ?thesis by auto
next
  case False
  with codes ks have k: "code = CLD_KILLED W" "0 < unat st" "unat st < 128" by auto
  with ks False have "wait_status W code st = Some st"
    using status_killed [of st] by (simp add: wait_status_def)
  from waitpid_stores [OF assms(1-6) this assms(7,8)] False k status_killed [of st]
  show ?thesis by auto
qed

definition linux_wait :: wait_abi where
  "linux_wait = \<lparr>P_ALL = 0, P_PID = 1, P_PGID = 2, WEXITED = 4, CLD_EXITED = 1, CLD_KILLED = 2,
     CLD_DUMPED = 3, CLD_TRAPPED = 4, CLD_STOPPED = 5, CLD_CONTINUED = 6, si_code_at = 8,
     si_status_at = 24, si_pid_at = 16\<rparr>"

text \<open>A kernel whose answer to every call is that of its world: a return value.\<close>

definition answer_kernel :: "sysnr \<Rightarrow> i64 list \<Rightarrow> mem \<Rightarrow> i64 \<Rightarrow> i64 \<times> mem \<times> i64" where
  "answer_kernel nr args m w = (w, m, w)"

definition siginfo_mem :: "i32 \<Rightarrow> i32 \<Rightarrow> mem" where
  "siginfo_mem code st = poke (poke (poke (\<lambda>_. Some 0) 1008 (le_bytes 4 (unat code)))
     1016 (le_bytes 4 77)) 1024 (le_bytes 4 (unat st))"

lemma answer_waitid:
  "waitid (x86_linux answer_kernel) which wid info options (process m 0) = (0, process m 0)"
  by (simp add: waitid_def sys_waitid_def int_result_def my_syscall5_def syscall_insn_def x86_linux_def
      answer_kernel_def process_def returning_def sysret_def)

theorem waitpid_status_witness:
  "\<exists>m'. waitpid (x86_linux answer_kernel) linux_wait 1000 (- 1) 2000 0 (process (siginfo_mem 2 9) 0) =
     Some (77, process m' 0)"
proof -
  let ?m = "siginfo_mem 2 9"
  have "load_le ?m 1008 4 = Some 2" "load_le ?m 1016 4 = Some 77" "load_le ?m 1024 4 = Some 9"
    by code_simp+
  moreover have "mapped (\<lambda>_. Some 0) p k" for p k by (induction k arbitrary: p) simp_all
  then have "mapped ?m 2000 4" by (simp add: siginfo_mem_def del: mapped.simps)
  ultimately have "\<exists>v m'. waitpid (x86_linux answer_kernel) linux_wait 1000 (- 1) 2000 0 (process ?m 0) =
      Some (77, (process ?m 0)\<lparr>cmem := m'\<rparr>) \<and> load32 m' 2000 = Some v \<and>
      (if (2 :: i32) = CLD_EXITED linux_wait then WIFEXITED v \<and> WEXITSTATUS v = 9 AND 0xff
       else \<not> WIFEXITED v \<and> WIFSIGNALED v \<and> WTERMSIG v = 9)"
    by (intro waitpid_status [where which = 0 and wid = 0])
      (simp_all add: answer_waitid linux_wait_def waitpid_target_def load32_def apart_def)
  then show ?thesis by (auto simp: process_def)
qed

text \<open>
  A process that exited with status 0 also counts as killed by a signal:
  \<open>WIFSIGNALED\<close> compares a signed number.
\<close>

theorem success_counts_as_signaled:
  "wait_status W (CLD_EXITED W) 0 = Some 0 \<and> WIFEXITED 0 \<and> WIFSIGNALED 0"
proof -
  have "WIFSIGNALED 0" by code_simp
  then show ?thesis by (simp add: wait_status_def WIFEXITED_def)
qed

text \<open>
  Device numbers: the major and minor numbers come back out of \<open>makedev\<close>,
  12 and 8 bits of them, and a device number is determined by the two.
\<close>

theorem makedev_roundtrip:
  "major (makedev ma mi) = ma AND 0xfff \<and> minor (makedev ma mi) = mi AND 0xff \<and>
   makedev (major dev) (minor dev) = dev AND 0xfffff"
  unfolding major_def minor_def makedev_def status_masks
  by (intro conjI; rule bit_word_eqI; auto simp: bit_simps)

end
