(* ===== verification/Stdio.thy ===== *)
theory Stdio
  imports SysMem Conv CString
begin

section \<open>stdio.h: streams\<close>

text \<open>
  A \<^verbatim>\<open>FILE *\<close> is the complement of a file descriptor and points to nothing. The locals
  and literals whose address is used are given by the record \<open>stdio_data\<close>: the character
  of \<open>fgetc\<close> and \<open>fputc\<close>, the 21-byte \<^verbatim>\<open>tmpbuf\<close> of \<open>printf\<close>, the pointer
  \<^verbatim>\<open>state\<close> of \<open>vsnprintf\<close>, the static buffer of \<open>strerror\<close>, the string
  literals.
\<close>

record stdio_data =
  char_slot :: addr
  tmpbuf :: addr
  state_slot :: addr
  strerror_buf :: addr
  lit_space :: addr
  lit_null :: addr
  lit_empty :: addr
  lit_colon :: addr
  lit_perror :: addr

subsection \<open>Streams and descriptors\<close>

definition stdin :: addr where "stdin = NOT 0"
definition stdout :: addr where "stdout = NOT 1"
definition stderr :: addr where "stderr = NOT 2"

definition fdopen :: "'w target \<Rightarrow> i32 \<Rightarrow> 'w cstate \<Rightarrow> addr \<times> 'w cstate" where
  "fdopen T fd s = (if fd <s 0 then (0, SET_ERRNO (EBADF T) s) else (scast (NOT fd), s))"

definition fopen_flags :: "'w target \<Rightarrow> byte \<Rightarrow> i32 option" where
  "fopen_flags T c =
     (if c = 114 then Some (O_RDONLY T)
      else if c = 119 then Some (O_WRONLY T OR O_CREAT T OR O_TRUNC T)
      else if c = 97 then Some (O_WRONLY T OR O_CREAT T OR O_APPEND T)
      else None)"

definition fopen :: "'w target \<Rightarrow> addr \<Rightarrow> addr \<Rightarrow> 'w cstate \<Rightarrow> (addr \<times> 'w cstate) option" where
  "fopen T pathname mode s = do {
     c \<leftarrow> load (cmem s) mode;
     (case fopen_flags T c of
        None \<Rightarrow> Some (0, SET_ERRNO (EINVAL T) s)
      | Some flags \<Rightarrow> do {
          c1 \<leftarrow> load (cmem s) (mode + 1);
          let flags = (if c1 = 43
                       then (flags AND NOT (O_RDONLY T OR O_WRONLY T)) OR O_RDWR T else flags);
              (fd, s) = open_file T pathname flags 438 s in
          Some (fdopen T fd s) }) }"

definition fileno :: "'w target \<Rightarrow> addr \<Rightarrow> 'w cstate \<Rightarrow> i32 \<times> 'w cstate" where
  "fileno T stream s =
     (if 0 \<le>s stream then (- 1, SET_ERRNO (EBADF T) s) else (ucast (NOT stream), s))"

definition fflush :: "'w target \<Rightarrow> addr \<Rightarrow> 'w cstate \<Rightarrow> i32 \<times> 'w cstate" where
  "fflush T stream s = (if 0 <s stream then (- 1, SET_ERRNO (EBADF T) s) else (0, s))"

definition fclose :: "'w target \<Rightarrow> addr \<Rightarrow> 'w cstate \<Rightarrow> i32 \<times> 'w cstate" where
  "fclose T stream s =
     (if 0 \<le>s stream then (- 1, SET_ERRNO (EBADF T) s)
      else let (r, s) = close T (ucast (NOT stream)) s in
        if r \<noteq> 0 then (- 1, s) else (0, s))"

subsection \<open>Characters\<close>

definition fgetc :: "'w target \<Rightarrow> stdio_data \<Rightarrow> addr \<Rightarrow> 'w cstate \<Rightarrow> (i32 \<times> 'w cstate) option" where
  "fgetc T D stream s =
     (let (fd, s) = fileno T stream s;
          (r, s) = read_fd T fd (char_slot D) 1 s in
      if r \<le>s 0 then Some (- 1, s)
      else do { ch \<leftarrow> load (cmem s) (char_slot D); Some (ucast ch, s) })"

definition getchar :: "'w target \<Rightarrow> stdio_data \<Rightarrow> 'w cstate \<Rightarrow> (i32 \<times> 'w cstate) option" where
  "getchar T D = fgetc T D stdin"

definition fputc :: "'w target \<Rightarrow> stdio_data \<Rightarrow> i32 \<Rightarrow> addr \<Rightarrow> 'w cstate \<Rightarrow> (i32 \<times> 'w cstate) option" where
  "fputc T D c stream s = do {
     m \<leftarrow> store (cmem s) (char_slot D) (ucast c);
     let s = s\<lparr>cmem := m\<rparr>;
     let (fd, s) = fileno T stream s;
         (r, s) = write_fd T fd (char_slot D) 1 s in
     if r \<le>s 0 then Some (- 1, s)
     else do { ch \<leftarrow> load (cmem s) (char_slot D); Some (ucast ch, s) } }"

definition putchar :: "'w target \<Rightarrow> stdio_data \<Rightarrow> i32 \<Rightarrow> 'w cstate \<Rightarrow> (i32 \<times> 'w cstate) option" where
  "putchar T D c = fputc T D c stdout"

subsection \<open>Strings and blocks\<close>

partial_function (option) fwrite_all_loop ::
  "'w target \<Rightarrow> i32 \<Rightarrow> addr \<Rightarrow> i64 \<Rightarrow> 'w cstate \<Rightarrow> (i32 \<times> 'w cstate) option" where
  "fwrite_all_loop T fd buf sz s =
     (if sz \<noteq> 0
      then let (ret, s) = write_fd T fd buf sz s in
        if ret \<le>s 0 then Some (- 1, s)
        else fwrite_all_loop T fd (buf + ret) (sz - ret) s
      else Some (0, s))"

text \<open>\<open>fwrite_all\<close> is \<^verbatim>\<open>_fwrite\<close>.\<close>

definition fwrite_all :: "'w target \<Rightarrow> addr \<Rightarrow> i64 \<Rightarrow> addr \<Rightarrow> 'w cstate \<Rightarrow> (i32 \<times> 'w cstate) option" where
  "fwrite_all T buf sz stream s =
     (let (fd, s) = fileno T stream s in fwrite_all_loop T fd buf sz s)"

partial_function (option) fwrite_loop ::
  "'w target \<Rightarrow> addr \<Rightarrow> i64 \<Rightarrow> i64 \<Rightarrow> addr \<Rightarrow> i64 \<Rightarrow> 'w cstate \<Rightarrow> (i64 \<times> 'w cstate) option" where
  "fwrite_loop T p sz nmemb stream written s =
     (if written < nmemb
      then do {
        (r, s) \<leftarrow> fwrite_all T p sz stream s;
        if r \<noteq> 0 then Some (written, s)
        else fwrite_loop T (p + sz) sz nmemb stream (written + 1) s }
      else Some (written, s))"

definition fwrite ::
  "'w target \<Rightarrow> addr \<Rightarrow> i64 \<Rightarrow> i64 \<Rightarrow> addr \<Rightarrow> 'w cstate \<Rightarrow> (i64 \<times> 'w cstate) option" where
  "fwrite T p sz nmemb stream = fwrite_loop T p sz nmemb stream 0"

definition fputs :: "'w target \<Rightarrow> addr \<Rightarrow> addr \<Rightarrow> 'w cstate \<Rightarrow> (i32 \<times> 'w cstate) option" where
  "fputs T p stream s = do {
     len \<leftarrow> strlen (cmem s) p;
     fwrite_all T p len stream s }"

definition puts :: "'w target \<Rightarrow> stdio_data \<Rightarrow> addr \<Rightarrow> 'w cstate \<Rightarrow> (i32 \<times> 'w cstate) option" where
  "puts T D p s = do {
     (r, s) \<leftarrow> fputs T p stdout s;
     if r = - 1 then Some (- 1, s) else putchar T D 10 s }"

partial_function (option) fgets_loop ::
  "'w target \<Rightarrow> stdio_data \<Rightarrow> addr \<Rightarrow> i32 \<Rightarrow> addr \<Rightarrow> i32 \<Rightarrow> 'w cstate \<Rightarrow> (i32 \<times> 'w cstate) option" where
  "fgets_loop T D p sz stream ofs s =
     (if ofs + 1 <s sz
      then do {
        (c, s) \<leftarrow> fgetc T D stream s;
        if c = - 1 then Some (ofs, s)
        else do {
          m \<leftarrow> store (cmem s) (p + scast ofs) (ucast c);
          let s = s\<lparr>cmem := m\<rparr>; ofs = ofs + 1 in
          if c = 10 then Some (ofs, s) else fgets_loop T D p sz stream ofs s } }
      else Some (ofs, s))"

definition fgets ::
  "'w target \<Rightarrow> stdio_data \<Rightarrow> addr \<Rightarrow> i32 \<Rightarrow> addr \<Rightarrow> 'w cstate \<Rightarrow> (addr \<times> 'w cstate) option" where
  "fgets T D p sz stream s = do {
     (ofs, s) \<leftarrow> fgets_loop T D p sz stream 0 s;
     s \<leftarrow> (if ofs <s sz
           then do { m \<leftarrow> store (cmem s) (p + scast ofs) 0; Some (s\<lparr>cmem := m\<rparr>) }
           else Some s);
     Some (if ofs \<noteq> 0 then p else 0, s) }"

definition setvbuf :: "i32 \<Rightarrow> i32" where
  "setvbuf mode = (if mode = 0 \<or> mode = 1 \<or> mode = 2 then 0 else - 1)"

text \<open>The buffer of \<open>strerror\<close> starts with the six characters \<^verbatim>\<open>errno=\<close>.\<close>

definition strerror :: "stdio_data \<Rightarrow> i32 \<Rightarrow> 'w cstate \<Rightarrow> (addr \<times> 'w cstate) option" where
  "strerror D e s = do {
     (_, m) \<leftarrow> i64toa_r (cmem s) (scast e) (strerror_buf D + 6);
     Some (strerror_buf D, s\<lparr>cmem := m\<rparr>) }"

end
