(* ===== verification/Printf.thy ===== *)
theory Printf
  imports Stdio Strto
begin

section \<open>stdio.h: formatted output and input\<close>

text \<open>
  Variable arguments are a list of 64-bit slots; \<open>va_int\<close> reads one as an
  \<^verbatim>\<open>unsigned int\<close>, \<open>va_long\<close> as a \<open>long\<close> or a pointer. Reading past the last one
  is undefined, the value \<open>None\<close>.
\<close>

fun va_long :: "i64 list \<Rightarrow> (i64 \<times> i64 list) option" where
  "va_long [] = None"
| "va_long (v # args) = Some (v, args)"

fun va_int :: "i64 list \<Rightarrow> (i64 \<times> i64 list) option" where
  "va_int [] = None"
| "va_int (v # args) = Some (ucast (ucast v :: i32), args)"

subsection \<open>The output engine\<close>

text \<open>
  A callback gets the state word, the address and the number of the bytes to emit, and
  answers 0 on success.
\<close>

type_synonym 'w printf_cb = "i64 \<Rightarrow> addr \<Rightarrow> i64 \<Rightarrow> 'w cstate \<Rightarrow> (i32 \<times> 'w cstate) option"

text \<open>The width, from the character \<open>c\<close> on: the new character, offset and width.\<close>

partial_function (option) printf_width ::
  "mem \<Rightarrow> addr \<Rightarrow> byte \<Rightarrow> i64 \<Rightarrow> i32 \<Rightarrow> (byte \<times> i64 \<times> i32) option" where
  "printf_width m fmt c ofs width =
     (if 48 \<le>s c \<and> c \<le>s 57
      then do {
        c' \<leftarrow> load m (fmt + ofs);
        printf_width m fmt c' (ofs + 1) (width * 10 + (scast c - 48)) }
      else Some (c, ofs, width))"

text \<open>The value of a conversion \<^verbatim>\<open>c\<close>, \<^verbatim>\<open>d\<close>, \<^verbatim>\<open>u\<close>, \<^verbatim>\<open>x\<close> or \<^verbatim>\<open>p\<close>.\<close>

definition printf_value :: "byte \<Rightarrow> byte \<Rightarrow> i64 list \<Rightarrow> (i64 \<times> i64 list) option" where
  "printf_value c lpref args = do {
     (v, args) \<leftarrow> (if c = 112 \<or> lpref \<noteq> 0 then va_long args else va_int args);
     Some (if c = 100 \<and> lpref = 0 then scast (ucast v :: i32) else v, args) }"

text \<open>Its text, written to \<^verbatim>\<open>tmpbuf\<close>.\<close>

definition printf_conv :: "mem \<Rightarrow> addr \<Rightarrow> byte \<Rightarrow> i64 \<Rightarrow> mem option" where
  "printf_conv m out c v =
     (if c = 99 then do { m \<leftarrow> store m out (ucast v); store m (out + 1) 0 }
      else if c = 100 then do { (_, m) \<leftarrow> i64toa_r m v out; Some m }
      else if c = 117 then do { (_, m) \<leftarrow> u64toa_r m v out; Some m }
      else if c = 112 then do {
        m \<leftarrow> store m out 48;
        m \<leftarrow> store m (out + 1) 120;
        (_, m) \<leftarrow> u64toh_r True m v (out + 2);
        Some m }
      else do { (_, m) \<leftarrow> u64toh_r True m v out; Some m })"

text \<open>\<^verbatim>\<open>while (width-- > w)\<close>.\<close>

partial_function (option) printf_pad ::
  "'w printf_cb \<Rightarrow> i64 \<Rightarrow> addr \<Rightarrow> i64 \<Rightarrow> i32 \<Rightarrow> i32 \<Rightarrow> 'w cstate \<Rightarrow> (i32 \<times> 'w cstate) option" where
  "printf_pad cb state space w width written s =
     (if w < ucast width
      then do {
        (r, s) \<leftarrow> cb state space 1 s;
        if r \<noteq> 0 then Some (written, s)
        else printf_pad cb state space w (width - 1) (written + 1) s }
      else Some (written, s))"

text \<open>
  The code at \<^verbatim>\<open>flush_str\<close>: whether to leave the loop, the room left, the count.
\<close>

definition printf_flush ::
  "'w printf_cb \<Rightarrow> i64 \<Rightarrow> addr \<Rightarrow> i64 \<Rightarrow> i32 \<Rightarrow> addr \<Rightarrow> i64 \<Rightarrow> i32 \<Rightarrow> 'w cstate
     \<Rightarrow> (bool \<times> i64 \<times> i32 \<times> 'w cstate) option" where
  "printf_flush cb state space n width outstr len written s =
     (if n \<noteq> 0
      then let w = (if len < n then len else n); n = n - w in
        do {
          (written, s) \<leftarrow> printf_pad cb state space w width written s;
          (r, s) \<leftarrow> cb state outstr w s;
          if r \<noteq> 0 then Some (True, n, written, s)
          else Some (False, n, written + ucast len, s) }
      else Some (False, n, written + ucast len, s))"

text \<open>
  What an escape sequence yields after its width, for the final character \<open>c\<close>: the string
  to emit, if there is one; otherwise whether the character is kept verbatim, and the
  length prefix a modifier leaves.
\<close>

definition printf_escape ::
  "stdio_data \<Rightarrow> byte \<Rightarrow> byte \<Rightarrow> i64 list \<Rightarrow> 'w cstate
     \<Rightarrow> (addr option \<times> bool \<times> byte \<times> i64 list \<times> 'w cstate) option" where
  "printf_escape D c lpref args s =
     (if c = 99 \<or> c = 100 \<or> c = 117 \<or> c = 120 \<or> c = 112
      then do {
        (v, args) \<leftarrow> printf_value c lpref args;
        m \<leftarrow> printf_conv (cmem s) (tmpbuf D) c v;
        Some (Some (tmpbuf D), False, lpref, args, s\<lparr>cmem := m\<rparr>) }
      else if c = 115
      then do {
        (outstr, args) \<leftarrow> va_long args;
        Some (Some (if outstr = 0 then lit_null D else outstr), False, lpref, args, s) }
      else if c = 109
      then do {
        (outstr, s) \<leftarrow> strerror D (errno s) s;
        Some (Some outstr, False, lpref, args, s) }
      else if c = 37 then Some (None, True, lpref, args, s)
      else Some (None, False, if c = 108 then lpref + 1 else if c = 106 then 2 else lpref, args, s))"

text \<open>
  One turn of the main loop, as a function of the loop's variables; the first component of
  the result says that the loop is left.
\<close>

record 'w printf_vars =
  pv_fmt :: addr
  pv_ofs :: i64
  pv_escape :: bool
  pv_lpref :: byte
  pv_written :: i32
  pv_n :: i64
  pv_args :: "i64 list"
  pv_state :: "'w cstate"

definition printf_turn ::
  "'w printf_cb \<Rightarrow> stdio_data \<Rightarrow> i64 \<Rightarrow> 'w printf_vars \<Rightarrow> (bool \<times> 'w printf_vars) option" where
  "printf_turn cb D state v = do {
     c \<leftarrow> load (cmem (pv_state v)) (pv_fmt v + pv_ofs v);
     let v = v\<lparr>pv_ofs := pv_ofs v + 1\<rparr> in
     if pv_escape v
     then do {
       let v = v\<lparr>pv_escape := False\<rparr>;
       (c, ofs, width) \<leftarrow> printf_width (cmem (pv_state v)) (pv_fmt v) c (pv_ofs v) 0;
       (out, verbatim, lpref, args, s) \<leftarrow> printf_escape D c (pv_lpref v) (pv_args v) (pv_state v);
       let v = v\<lparr>pv_ofs := ofs, pv_lpref := lpref, pv_args := args, pv_state := s\<rparr>;
           next = v\<lparr>pv_fmt := pv_fmt v + pv_ofs v, pv_ofs := 0\<rparr> in
       (case out of
          Some outstr \<Rightarrow> do {
            len \<leftarrow> strlen (cmem s) outstr;
            (stop, n, written, s) \<leftarrow>
              printf_flush cb state (lit_space D) (pv_n v) width outstr len (pv_written v) s;
            Some (stop \<or> c = 0, next\<lparr>pv_n := n, pv_written := written, pv_state := s\<rparr>) }
        | None \<Rightarrow>
            if verbatim then Some (False, v)
            else if c = 0 then Some (True, v)
            else Some (False, next\<lparr>pv_escape := True\<rparr>)) }
     else if c = 0 \<or> c = 37
     then do {
       (stop, n, written, s) \<leftarrow>
         printf_flush cb state (lit_space D) (pv_n v) 0 (pv_fmt v) (pv_ofs v - 1) (pv_written v)
           (pv_state v);
       Some (stop \<or> c = 0,
         v\<lparr>pv_fmt := pv_fmt v + pv_ofs v, pv_ofs := 0, pv_escape := True, pv_lpref := 0,
           pv_n := n, pv_written := written, pv_state := s\<rparr>) }
     else Some (False, v) }"

partial_function (option) printf_loop ::
  "'w printf_cb \<Rightarrow> stdio_data \<Rightarrow> i64 \<Rightarrow> 'w printf_vars \<Rightarrow> (i32 \<times> 'w cstate) option" where
  "printf_loop cb D state v = do {
     (fin, v) \<leftarrow> printf_turn cb D state v;
     if fin then Some (pv_written v, pv_state v) else printf_loop cb D state v }"

text \<open>\<open>nolibc_printf\<close> is \<^verbatim>\<open>__nolibc_printf\<close>.\<close>

definition nolibc_printf ::
  "'w printf_cb \<Rightarrow> stdio_data \<Rightarrow> i64 \<Rightarrow> i64 \<Rightarrow> addr \<Rightarrow> i64 list \<Rightarrow> 'w cstate
     \<Rightarrow> (i32 \<times> 'w cstate) option" where
  "nolibc_printf cb D state n fmt args s = printf_loop cb D state
     \<lparr>pv_fmt = fmt, pv_ofs = 0, pv_escape = False, pv_lpref = 0, pv_written = 0, pv_n = n,
      pv_args = args, pv_state = s\<rparr>"

subsection \<open>The callers\<close>

definition SIZE_MAX :: i64 where "SIZE_MAX = - 1"

definition fprintf_cb :: "'w target \<Rightarrow> 'w printf_cb" where
  "fprintf_cb T state buf sz = fwrite_all T buf sz state"

text \<open>The variadic functions pass their arguments on.\<close>

definition vfprintf ::
  "'w target \<Rightarrow> stdio_data \<Rightarrow> addr \<Rightarrow> addr \<Rightarrow> i64 list \<Rightarrow> 'w cstate \<Rightarrow> (i32 \<times> 'w cstate) option" where
  "vfprintf T D stream fmt args = nolibc_printf (fprintf_cb T) D stream SIZE_MAX fmt args"

definition vprintf ::
  "'w target \<Rightarrow> stdio_data \<Rightarrow> addr \<Rightarrow> i64 list \<Rightarrow> 'w cstate \<Rightarrow> (i32 \<times> 'w cstate) option" where
  "vprintf T D fmt args = vfprintf T D stdout fmt args"

definition fprintf ::
  "'w target \<Rightarrow> stdio_data \<Rightarrow> addr \<Rightarrow> addr \<Rightarrow> i64 list \<Rightarrow> 'w cstate \<Rightarrow> (i32 \<times> 'w cstate) option" where
  "fprintf T D stream fmt args = vfprintf T D stream fmt args"

definition printf ::
  "'w target \<Rightarrow> stdio_data \<Rightarrow> addr \<Rightarrow> i64 list \<Rightarrow> 'w cstate \<Rightarrow> (i32 \<times> 'w cstate) option" where
  "printf T D fmt args = vfprintf T D stdout fmt args"

definition vdprintf ::
  "'w target \<Rightarrow> stdio_data \<Rightarrow> i32 \<Rightarrow> addr \<Rightarrow> i64 list \<Rightarrow> 'w cstate \<Rightarrow> (i32 \<times> 'w cstate) option" where
  "vdprintf T D fd fmt args s =
     (let (stream, s) = fdopen T fd s in
      if stream = 0 then Some (- 1, s) else vfprintf T D stream fmt args s)"

definition dprintf ::
  "'w target \<Rightarrow> stdio_data \<Rightarrow> i32 \<Rightarrow> addr \<Rightarrow> i64 list \<Rightarrow> 'w cstate \<Rightarrow> (i32 \<times> 'w cstate) option" where
  "dprintf T D fd fmt args = vdprintf T D fd fmt args"

definition sprintf_cb :: "'w printf_cb" where
  "sprintf_cb state buf sz s = do {
     p \<leftarrow> cload64 state s;
     (_, m) \<leftarrow> memcpy (cmem s) p buf sz;
     let s = s\<lparr>cmem := m\<rparr>;
     p \<leftarrow> cload64 state s;
     s \<leftarrow> cstore64 state (p + sz) s;
     Some (0, s) }"

definition vsnprintf ::
  "stdio_data \<Rightarrow> addr \<Rightarrow> i64 \<Rightarrow> addr \<Rightarrow> i64 list \<Rightarrow> 'w cstate \<Rightarrow> (i32 \<times> 'w cstate) option" where
  "vsnprintf D buf sz fmt args s = do {
     s \<leftarrow> cstore64 (state_slot D) buf s;
     (ret, s) \<leftarrow> nolibc_printf sprintf_cb D (state_slot D) sz fmt args s;
     if ret <s 0 then Some (ret, s)
     else do {
       m \<leftarrow> store (cmem s) (buf + (if scast ret < sz then scast ret else sz - 1)) 0;
       Some (ret, s\<lparr>cmem := m\<rparr>) } }"

definition snprintf ::
  "stdio_data \<Rightarrow> addr \<Rightarrow> i64 \<Rightarrow> addr \<Rightarrow> i64 list \<Rightarrow> 'w cstate \<Rightarrow> (i32 \<times> 'w cstate) option" where
  "snprintf D buf sz fmt args = vsnprintf D buf sz fmt args"

definition vsprintf ::
  "stdio_data \<Rightarrow> addr \<Rightarrow> addr \<Rightarrow> i64 list \<Rightarrow> 'w cstate \<Rightarrow> (i32 \<times> 'w cstate) option" where
  "vsprintf D buf fmt args = vsnprintf D buf SIZE_MAX fmt args"

definition sprintf ::
  "stdio_data \<Rightarrow> addr \<Rightarrow> addr \<Rightarrow> i64 list \<Rightarrow> 'w cstate \<Rightarrow> (i32 \<times> 'w cstate) option" where
  "sprintf D buf fmt args = vsprintf D buf fmt args"

definition perror :: "'w target \<Rightarrow> stdio_data \<Rightarrow> addr \<Rightarrow> 'w cstate \<Rightarrow> 'w cstate option" where
  "perror T D msg s = do {
     named \<leftarrow> (if msg \<noteq> 0 then do { c \<leftarrow> load (cmem s) msg; Some (c \<noteq> 0) } else Some False);
     let args = [if named then msg else lit_empty D,
                 if named then lit_colon D else lit_empty D, ucast (errno s)] in
     do { (_, s) \<leftarrow> fprintf T D stderr (lit_perror D) args s; Some s } }"

end
