(* ===== verification/StreamFacts.thy ===== *)
theory StreamFacts
  imports Stdio MemCopy
begin

section \<open>What the stream functions compute\<close>

text \<open>
  The kernel's side is the predicates \<open>writes\<close> and \<open>reads\<close> on a target: a descriptor
  takes a non-empty part of what it is given, and hands out the bytes of an input one by one.
  Under them the retry loop of \<open>fwrite_all\<close> delivers everything and \<open>fgets\<close> returns a
  line.
\<close>

subsection \<open>Casts, numbers and memory\<close>

lemma unat_ucast32 [simp]: "unat (ucast (w :: i32) :: i64) = unat w"
proof -
  have "unat w < 2 ^ 64" by (rule order_less_trans [OF unat_lt32]) simp
  then show ?thesis by (simp add: unsigned_ucast_eq take_bit_nat_eq_self)
qed

lemma ucast_of_nat32 [simp]: "(ucast (of_nat n :: i64) :: i32) = of_nat n"
  by (rule bit_word_eqI) (simp add: bit_simps)

lemma of_nat8_zero: "l < 256 \<Longrightarrow> (of_nat l :: byte) = 0 \<longleftrightarrow> l = 0"
  by (simp add: unat_of_nat_lt flip: unat_eq_0)

lemma ucast_down_up32 [simp]: "(ucast (ucast (w :: i32) :: i64) :: i32) = w"
  by (rule bit_word_eqI) (auto simp: bit_simps)

lemma sint_of_nat32: "n < 2 ^ 31 \<Longrightarrow> sint (of_nat n :: i32) = int n"
  by (subst signed_of_nat) (simp add: signed_take_bit_int_eq_self)


lemma sle_of_nat32: "a < 2 ^ 31 \<Longrightarrow> b < 2 ^ 31 \<Longrightarrow> (of_nat a :: i32) \<le>s of_nat b \<longleftrightarrow> a \<le> b"
  by (simp add: word_sle_eq sint_of_nat32)

lemma slt_of_nat32: "a < 2 ^ 31 \<Longrightarrow> b < 2 ^ 31 \<Longrightarrow> (of_nat a :: i32) <s of_nat b \<longleftrightarrow> a < b"
  by (simp add: word_sless_alt sint_of_nat32)

lemma of_nat_positive: "0 < k \<Longrightarrow> k < 2 ^ 63 \<Longrightarrow> \<not> (of_nat k :: i64) \<le>s 0 \<and> \<not> (of_nat k :: i64) <s 0"
proof -
  assume k: "0 < k" "k < 2 ^ 63"
  then have "sint (of_nat k :: i64) = int k"
    by (subst signed_of_nat) (simp add: signed_take_bit_int_eq_self)
  with k show ?thesis by (simp add: word_sle_eq word_sless_alt)
qed

lemma ucast_byte_not_eof: "(ucast (c :: byte) :: i32) \<noteq> - 1"
proof
  assume "(ucast c :: i32) = - 1"
  then have "uint (ucast c :: i32) = uint (- 1 :: i32)" by simp
  then show False using uint_lt8 [of c] by (simp add: unsigned_minus_1_eq_mask mask_eq_exp_minus_1)
qed

lemma ucast_byte_back [simp]: "(ucast (ucast (c :: byte) :: i32) :: byte) = c"
  by (rule bit_word_eqI) (auto simp: bit_simps)

lemma ucast_byte_newline: "(ucast (c :: byte) :: i32) = 10 \<longleftrightarrow> c = 10"
proof
  assume "(ucast c :: i32) = 10"
  then have "(ucast (ucast c :: i32) :: byte) = ucast (10 :: i32)" by simp
  then show "c = 10" by simp
qed simp

subsection \<open>Delivering bytes\<close>

definition writes :: "'w target \<Rightarrow> i32 \<Rightarrow> ('w \<Rightarrow> byte list) \<Rightarrow> bool" where
  "writes T fd out \<longleftrightarrow> (\<forall>m w p ys. ys \<noteq> [] \<longrightarrow> bytes_at m p ys \<longrightarrow> length ys < 2 ^ 63 \<longrightarrow>
     (\<exists>k w'. 0 < k \<and> k \<le> length ys \<and>
       kcall T ''write'' [scast fd, p, of_nat (length ys)] m w = (of_nat k, m, w') \<and>
       out w' = out w @ take k ys))"

lemma write_short:
  assumes "writes T fd out" and "ys \<noteq> []" and "bytes_at (cmem s) p ys" and "length ys < 2 ^ 63"
  shows "\<exists>k w'. 0 < k \<and> k \<le> length ys \<and> out w' = out (kern s) @ take k ys \<and>
    write_fd T fd p (of_nat (length ys)) s = (of_nat k, s\<lparr>kern := w'\<rparr>)"
proof -
  obtain k w' where k: "0 < k" "k \<le> length ys" "out w' = out (kern s) @ take k ys"
    "kcall T ''write'' [scast fd, p, of_nat (length ys)] (cmem s) (kern s) = (of_nat k, cmem s, w')"
    using assms unfolding writes_def by blast
  have "\<not> (of_nat k :: i64) <s 0" using of_nat_positive [of k] k assms(4) by simp
  with k show ?thesis
    by (auto simp: write_fd_def returning_cases sys_write_def my_syscall3_def syscall_insn_def
        returning_def sysret_def)
qed

lemma fwrite_all_loop_writes:
  assumes w: "writes T fd out"
  shows "bytes_at (cmem s) p ys \<Longrightarrow> length ys < 2 ^ 63 \<Longrightarrow>
    \<exists>w'. fwrite_all_loop T fd p (of_nat (length ys)) s = Some (0, s\<lparr>kern := w'\<rparr>) \<and>
      out w' = out (kern s) @ ys"
proof (induction "length ys" arbitrary: ys p s rule: less_induct)
  case less
  show ?case
  proof (cases "ys = []")
    case True
    then show ?thesis by (subst fwrite_all_loop.simps) (auto intro: exI [of _ "kern s"])
  next
    case False
    have nz: "(of_nat (length ys) :: i64) \<noteq> 0"
      using False less.prems(2) by (simp flip: unat_eq_0)
    obtain k w1 where k: "0 < k" "k \<le> length ys" "out w1 = out (kern s) @ take k ys"
      "write_fd T fd p (of_nat (length ys)) s = (of_nat k, s\<lparr>kern := w1\<rparr>)"
      using write_short [OF w False less.prems] by blast
    have "bytes_at (cmem s) p (take k ys @ drop k ys)" using less.prems(1) by simp
    then have b: "bytes_at (cmem s) (p + of_nat k) (drop k ys)"
      using k(2) by (simp only: bytes_at_append) simp
    have "\<exists>w'. fwrite_all_loop T fd (p + of_nat k) (of_nat (length (drop k ys))) (s\<lparr>kern := w1\<rparr>) =
        Some (0, s\<lparr>kern := w1\<rparr>\<lparr>kern := w'\<rparr>) \<and> out w' = out (kern (s\<lparr>kern := w1\<rparr>)) @ drop k ys"
      using k False less.prems(2) b by (intro less.hyps) simp_all
    moreover have "(of_nat (length ys) - of_nat k :: i64) = of_nat (length (drop k ys))"
      using k(2) by simp
    moreover have "\<not> (of_nat k :: i64) \<le>s 0" using of_nat_positive [of k] k less.prems(2) by simp
    ultimately show ?thesis using nz k
      by (subst fwrite_all_loop.simps) (auto simp del: length_drop)
  qed
qed

lemma fwrite_all_writes:
  assumes "writes T (ucast (NOT stream)) out" and "stream <s 0"
    and "bytes_at (cmem s) p ys" and "length ys < 2 ^ 63"
  shows "\<exists>w'. fwrite_all T p (of_nat (length ys)) stream s = Some (0, s\<lparr>kern := w'\<rparr>) \<and>
    out w' = out (kern s) @ ys"
proof -
  have "\<not> 0 \<le>s stream" using assms(2) by (simp add: word_sle_eq word_sless_alt)
  then show ?thesis using fwrite_all_loop_writes [OF assms(1,3,4)]
    by (simp add: fwrite_all_def fileno_def)
qed

subsection \<open>fwrite\<close>

lemma fwrite_loop_writes:
  assumes w: "writes T (ucast (NOT stream)) out" and st: "stream <s 0"
  shows "bytes_at (cmem s) p ys \<Longrightarrow> length ys = k * unat sz \<Longrightarrow> length ys < 2 ^ 63 \<Longrightarrow>
    n = unat nmemb \<Longrightarrow> k \<le> n \<Longrightarrow>
    \<exists>w'. fwrite_loop T p sz nmemb stream (of_nat (n - k)) s = Some (nmemb, s\<lparr>kern := w'\<rparr>) \<and>
      out w' = out (kern s) @ ys"
proof (induction k arbitrary: p ys s)
  case 0
  then show ?case by (subst fwrite_loop.simps) (auto intro: exI [of _ "kern s"])
next
  case (Suc k)
  let ?b = "unat sz"
  have nn: "n - Suc k < 2 ^ 64" using Suc.prems(4) unat_lt64 [of nmemb] less_imp_diff_less by auto
  then have lt: "of_nat (n - Suc k) < nmemb"
    using unat_of_nat64 [OF nn] Suc.prems(4,5) by (simp add: word_less_nat_alt del: of_nat_diff)
  have nx: "(of_nat (n - Suc k) + 1 :: i64) = of_nat (n - k)"
    using Suc.prems(5) by (simp add: of_nat_diff algebra_simps)
  have "bytes_at (cmem s) p (take ?b ys @ drop ?b ys)" using Suc.prems(1) by simp
  then have b: "bytes_at (cmem s) p (take ?b ys)" "bytes_at (cmem s) (p + sz) (drop ?b ys)"
    using Suc.prems(2) by (simp_all only: bytes_at_append) simp_all
  have "length (take ?b ys) = ?b" and "?b < 2 ^ 63" using Suc.prems(2,3) by simp_all
  then obtain w1 where w1: "fwrite_all T p sz stream s = Some (0, s\<lparr>kern := w1\<rparr>)"
    "out w1 = out (kern s) @ take ?b ys"
    using fwrite_all_writes [OF w st b(1)] by auto
  have "\<exists>w'. fwrite_loop T (p + sz) sz nmemb stream (of_nat (n - k)) (s\<lparr>kern := w1\<rparr>) =
      Some (nmemb, s\<lparr>kern := w1\<rparr>\<lparr>kern := w'\<rparr>) \<and> out w' = out (kern (s\<lparr>kern := w1\<rparr>)) @ drop ?b ys"
    using Suc.prems b by (intro Suc.IH) simp_all
  with lt nx w1 show ?case by (subst fwrite_loop.simps) auto
qed

subsection \<open>fgets\<close>

definition reads :: "'w target \<Rightarrow> i32 \<Rightarrow> ('w \<Rightarrow> byte list) \<Rightarrow> bool" where
  "reads T fd inp \<longleftrightarrow> (\<forall>m w p. m p \<noteq> None \<longrightarrow>
     (\<exists>w'. inp w' = tl (inp w) \<and> kcall T ''read'' [scast fd, p, 1] m w =
        (if inp w = [] then (0, m, w') else (1, m(p \<mapsto> hd (inp w)), w'))))"

fun line_of :: "nat \<Rightarrow> byte list \<Rightarrow> byte list" where
  "line_of 0 cs = []"
| "line_of k [] = []"
| "line_of (Suc k) (c # cs) = c # (if c = 10 then [] else line_of k cs)"

lemma line_of_Nil [simp]: "line_of k [] = []"
  by (cases k) simp_all

lemma length_line_of: "length (line_of k cs) \<le> k"
  by (induction k cs rule: line_of.induct) auto

lemma fgetc_reads:
  assumes r: "reads T (ucast (NOT stream)) inp" and st: "stream <s 0"
    and mp: "cmem s (char_slot D) \<noteq> None"
  shows "\<exists>w'. inp w' = tl (inp (kern s)) \<and> fgetc T D stream s =
    Some (if inp (kern s) = [] then (- 1, s\<lparr>kern := w'\<rparr>)
      else (ucast (hd (inp (kern s))),
            s\<lparr>cmem := (cmem s)(char_slot D \<mapsto> hd (inp (kern s))), kern := w'\<rparr>))"
proof -
  obtain w' where w': "inp w' = tl (inp (kern s))"
    "kcall T ''read'' [scast (ucast (NOT stream) :: i32), char_slot D, 1] (cmem s) (kern s) =
      (if inp (kern s) = [] then (0, cmem s, w')
       else (1, (cmem s)(char_slot D \<mapsto> hd (inp (kern s))), w'))"
    using r mp unfolding reads_def by blast
  have "\<not> 0 \<le>s stream" using st by (simp add: word_sle_eq word_sless_alt)
  moreover have "\<not> (1 :: i64) \<le>s 0" "\<not> (1 :: i64) <s 0" by code_simp+
  ultimately show ?thesis using w'
    by (intro exI [of _ w']) (simp add: fgetc_def fileno_def read_fd_def returning_def sys_read_def
        my_syscall3_def syscall_insn_def sysret_def)
qed

text \<open>One turn of \<open>fgets\<close> with room for at least one more character.\<close>

lemma fgets_loop_turn:
  assumes r: "reads T (ucast (NOT stream)) inp" and st: "stream <s 0"
    and slot: "\<not> in_range p n (char_slot D)" "cmem s (char_slot D) \<noteq> None" and n: "n < 2 ^ 31" "length pre + 1 < sz" "sz \<le> n"
    and mp: "mapped (cmem s) p n" "bytes_at (cmem s) p pre"
  obtains w' s1 where "inp w' = tl (inp (kern s))"
    "fgets_loop T D p (of_nat sz) stream (of_nat (length pre)) s =
      (case inp (kern s) of [] \<Rightarrow> Some (of_nat (length pre), s\<lparr>kern := w'\<rparr>)
       | c # _ \<Rightarrow> if c = 10 then Some (of_nat (Suc (length pre)), s1)
         else fgets_loop T D p (of_nat sz) stream (of_nat (Suc (length pre))) s1)"
    "inp (kern s) \<noteq> [] \<Longrightarrow> kern s1 = w' \<and> bytes_at (cmem s1) p (pre @ [hd (inp (kern s))]) \<and> mapped (cmem s1) p n \<and>
       cmem s1 (char_slot D) \<noteq> None \<and> (\<forall>a. \<not> in_range p n a \<and> a \<noteq> char_slot D \<longrightarrow> cmem s1 a = cmem s a)"
proof -
  let ?inp = "inp (kern s)" and ?ofs = "of_nat (length pre) :: i32" and ?q = "p + of_nat (length pre)"
  let ?m1 = "(cmem s)(char_slot D \<mapsto> hd ?inp)"
  have lt: "?ofs + 1 <s (of_nat sz :: i32)"
    using slt_of_nat32 [of "length pre + 1" sz] n by (simp add: add.commute)
  obtain w' where w': "inp w' = tl ?inp" "fgetc T D stream s =
    Some (if ?inp = [] then (- 1, s\<lparr>kern := w'\<rparr>)
      else (ucast (hd ?inp), s\<lparr>cmem := ?m1, kern := w'\<rparr>))"
    using fgetc_reads [OF r st slot(2)] by blast
  let ?s1 = "s\<lparr>kern := w', cmem := ?m1(?q \<mapsto> hd ?inp)\<rparr>"
  have sc: "(scast ?ofs :: i64) = of_nat (length pre)" using n by (intro scast_of_nat32) simp
  have q: "in_range p n ?q" using n by (simp add: in_range_def)
  have mq: "?m1 ?q \<noteq> None" using mapped_update [OF mp(1)] q mapped_in_range by blast
  show thesis
  proof (rule that [OF w'(1), of ?s1])
    show "fgets_loop T D p (of_nat sz) stream ?ofs s =
      (case ?inp of [] \<Rightarrow> Some (?ofs, s\<lparr>kern := w'\<rparr>)
       | c # _ \<Rightarrow> if c = 10 then Some (of_nat (Suc (length pre)), ?s1)
         else fgets_loop T D p (of_nat sz) stream (of_nat (Suc (length pre))) ?s1)"
    proof (cases ?inp)
      case Nil
      with w' lt show ?thesis by (subst fgets_loop.simps) auto
    next
      case (Cons c cs)
      have suc: "(of_nat (Suc (length pre)) :: i32) = ?ofs + 1" by simp
      have "store ?m1 ?q c = Some (?m1(?q \<mapsto> c))" using mq by (simp add: store_def)
      then show ?thesis using lt w'(2) sc Cons ucast_byte_not_eof [of c] unfolding suc
        by (subst fgets_loop.simps) (simp add: Let_def ucast_byte_newline)
    qed
    have "bytes_at ?m1 p pre"
      using mp(2) n slot(1) in_range_mono [of p "length pre" "char_slot D" n] by (subst bytes_at_update) auto
    moreover have "\<not> in_range p (length pre) ?q" using n by (intro not_in_range_after) simp
    ultimately have "bytes_at (cmem ?s1) p (pre @ [hd ?inp])" by (simp add: bytes_at_update)
    then show "kern ?s1 = w' \<and> bytes_at (cmem ?s1) p (pre @ [hd ?inp]) \<and> mapped (cmem ?s1) p n \<and>
        cmem ?s1 (char_slot D) \<noteq> None \<and> (\<forall>a. \<not> in_range p n a \<and> a \<noteq> char_slot D \<longrightarrow> cmem ?s1 a = cmem s a)"
      using mp(1) q by auto
  qed
qed

lemma fgets_loop_reads:
  assumes r: "reads T (ucast (NOT stream)) inp" and st: "stream <s 0"
    and slot: "\<not> in_range p n (char_slot D)" and n: "n < 2 ^ 31"
  shows "bytes_at (cmem s) p pre \<Longrightarrow> length pre + k < n \<Longrightarrow> mapped (cmem s) p n \<Longrightarrow>
    cmem s (char_slot D) \<noteq> None \<Longrightarrow> l = line_of k (inp (kern s)) \<Longrightarrow>
    sz = of_nat (length pre + k + 1) \<Longrightarrow>
    \<exists>s'. fgets_loop T D p sz stream (of_nat (length pre)) s = Some (of_nat (length pre + length l), s') \<and>
      bytes_at (cmem s') p (pre @ l) \<and> mapped (cmem s') p n \<and>
      inp (kern s') = drop (length l) (inp (kern s)) \<and>
      (\<forall>a. \<not> in_range p n a \<and> a \<noteq> char_slot D \<longrightarrow> cmem s' a = cmem s a)"
proof (induction k arbitrary: pre s l)
  case 0
  have "\<not> (of_nat (length pre) + 1 :: i32) <s sz"
    using slt_of_nat32 [of "length pre + 1" "length pre + 1"] 0 n by (simp add: add.commute)
  with 0 show ?case by (subst fgets_loop.simps) auto
next
  case (Suc k)
  let ?inp = "inp (kern s)"
  have b: "length pre + 1 < length pre + Suc k + 1" "length pre + Suc k + 1 \<le> n" using Suc.prems(2) by simp_all
  obtain w' s1 where w': "inp w' = tl ?inp"
    and step: "fgets_loop T D p sz stream (of_nat (length pre)) s =
      (case ?inp of [] \<Rightarrow> Some (of_nat (length pre), s\<lparr>kern := w'\<rparr>)
       | c # _ \<Rightarrow> if c = 10 then Some (of_nat (Suc (length pre)), s1)
         else fgets_loop T D p sz stream (of_nat (Suc (length pre))) s1)"
    and s1: "?inp \<noteq> [] \<Longrightarrow> kern s1 = w' \<and> bytes_at (cmem s1) p (pre @ [hd ?inp]) \<and> mapped (cmem s1) p n \<and>
       cmem s1 (char_slot D) \<noteq> None \<and> (\<forall>a. \<not> in_range p n a \<and> a \<noteq> char_slot D \<longrightarrow> cmem s1 a = cmem s a)"
    using fgets_loop_turn [OF r st slot Suc.prems(4) n b Suc.prems(3,1)] unfolding Suc.prems(6) by blast
  show ?case
  proof (cases ?inp)
    case Nil
    with Suc.prems w' step show ?thesis by auto
  next
    case (Cons c cs)
    show ?thesis
    proof (cases "c = 10")
      case True
      with step s1 w' Cons Suc.prems(5) show ?thesis by auto
    next
      case False
      have l: "l = c # line_of k cs" using Suc.prems(5) Cons False by simp
      have "\<exists>s'. fgets_loop T D p sz stream (of_nat (length (pre @ [c]))) s1 =
            Some (of_nat (length (pre @ [c]) + length (line_of k cs)), s') \<and>
          bytes_at (cmem s') p ((pre @ [c]) @ line_of k cs) \<and> mapped (cmem s') p n \<and>
          inp (kern s') = drop (length (line_of k cs)) (inp (kern s1)) \<and>
          (\<forall>a. \<not> in_range p n a \<and> a \<noteq> char_slot D \<longrightarrow> cmem s' a = cmem s1 a)"
        using Suc.prems s1 w' Cons by (intro Suc.IH) simp_all
      with step False l s1 w' Cons show ?thesis by auto
    qed
  qed
qed

end
