(* ===== verification/PrintfFacts.thy ===== *)
theory PrintfFacts
  imports Printf StreamFacts ConvFacts
begin

section \<open>What the printf engine emits\<close>

text \<open>
  A format is read as a list of pieces: literal text, \<^verbatim>\<open>%%\<close>, numbers and strings with a
  width and length prefixes. The locale \<open>printf_sink\<close> is the contract of a callback, with the
  bytes it has accepted so far; under it the engine emits the text of the pieces in their
  order and returns its length. The callbacks of \<open>fprintf\<close> and \<open>snprintf\<close> are its
  interpretations.
\<close>

subsection \<open>The text of a conversion\<close>

definition conv_text :: "byte \<Rightarrow> i64 \<Rightarrow> byte list" where
  "conv_text c v =
     (if c = 99 then (if ucast v = (0 :: byte) then [] else [ucast v])
      else if c = 100 then int_text (sint v)
      else if c = 117 then digits_in 10 (unat v)
      else if c = 112 then 48 # 120 # digits_in 16 (unat v)
      else digits_in 16 (unat v))"

lemma conv_text_bounds: "length (conv_text c v) \<le> 20" "0 \<notin> set (conv_text c v)"
proof -
  have "length (digits_in 16 (unat v)) \<le> 16" by (rule length_hexadecimal) simp
  moreover have "length (digits_in 10 (unat v)) \<le> 20"
    using order_less_trans [OF unat_lt64 [of v]] by (intro length_decimal) simp
  ultimately show "length (conv_text c v) \<le> 20"
    using length_int_text [of v] by (simp add: conv_text_def)
  show "0 \<notin> set (conv_text c v)"
    using digits_in_nonzero by (auto simp: conv_text_def int_text_def split: if_splits)
qed

lemma poke_frame:
  "mapped m p n \<Longrightarrow> length xs < n \<Longrightarrow> n \<le> 2 ^ 64 \<Longrightarrow> 0 \<notin> set xs \<Longrightarrow> m' = poke m p (xs @ [0]) \<Longrightarrow>
   cstr m' p xs \<and> (\<forall>a. \<not> in_range p n a \<longrightarrow> m' a = m a) \<and> mapped m' p n"
  using bytes_at_poke_self [of "xs @ [0]" m p] in_range_mono [of p "Suc (length xs)" _ n]
  by (auto simp: cstr_iff_bytes simp del: bytes_at_append intro!: poke_outside)

lemma printf_conv_prints:
  assumes mp: "mapped m out 21"
  shows "printf_conv m out c v = Some (poke m out (conv_text c v @ [0])) \<or>
    c = 99 \<and> conv_text c v = [] \<and> printf_conv m out c v = Some (poke m out [0, 0])"
proof -
  let ?t = "conv_text c v"
  have sub: "mapped m out (Suc (length ?t))"
    using mp conv_text_bounds(1) [of c v] by (elim mapped_mono) simp
  consider "c = 99" | "c = 100" | "c = 117" | "c = 112" | "c \<noteq> 99" "c \<noteq> 100" "c \<noteq> 117" "c \<noteq> 112"
    by blast
  then show ?thesis
  proof cases
    case 1
    have "mapped m out 2" using mp by (elim mapped_mono) simp
    with 1 show ?thesis by (auto simp: printf_conv_def conv_text_def numeral_2_eq_2)
  next
    case 2
    then show ?thesis using i64toa_r_prints [OF _ sub] by (simp add: printf_conv_def conv_text_def)
  next
    case 3
    then show ?thesis using u64toa_r_prints [OF _ sub] by (simp add: printf_conv_def conv_text_def)
  next
    case 4
    let ?h = "digits_in 16 (unat v)"
    have t: "?t = 48 # 120 # ?h" "conv_text 112 v = 48 # 120 # ?h" using 4 by (simp_all add: conv_text_def)
    with sub have m: "m out \<noteq> None" "m (out + 1) \<noteq> None"
      "mapped (m(out \<mapsto> 48, out + 1 \<mapsto> 120)) (out + 2) (Suc (length ?h))"
      by (auto simp: add.assoc)
    from utoh_r_prints [OF refl m(3)] m(1,2) 4 show ?thesis
      by (auto simp: printf_conv_def u64toh_r_eq t add.assoc)
  next
    case 5
    then show ?thesis using utoh_r_prints [OF _ sub]
      by (simp add: printf_conv_def conv_text_def u64toh_r_eq)
  qed
qed

lemma printf_conv_text:
  assumes mp: "mapped m out 21"
  shows "\<exists>m'. printf_conv m out c v = Some m' \<and> cstr m' out (conv_text c v) \<and>
    (\<forall>a. \<not> in_range out 21 a \<longrightarrow> m' a = m a) \<and> mapped m' out 21"
proof -
  let ?t = "conv_text c v"
  have fr: "cstr (poke m out (?t @ [0])) out ?t \<and>
      (\<forall>a. \<not> in_range out 21 a \<longrightarrow> poke m out (?t @ [0]) a = m a) \<and> mapped (poke m out (?t @ [0])) out 21"
    using conv_text_bounds [of c v] mp by (intro poke_frame) simp_all
  have "poke m out [0, 0] a = m a" if "\<not> in_range out 21 a" for a
    using that in_range_mono [of out 2 a 21] by (intro poke_outside) (auto simp flip: numeral_2_eq_2)
  moreover have "cstr (poke m out [0, 0]) out []" by simp
  ultimately show ?thesis using printf_conv_prints [OF mp, of c v] fr mp by (metis mapped_poke)
qed
subsection \<open>The contract of a callback\<close>

text \<open>
  \<open>emit n width ys\<close> is what one flush sends when there is room for \<open>n\<close> bytes, \<open>tally\<close>
  what it adds to the count. A sink owns the addresses its callback writes to.
\<close>

definition emit :: "nat \<Rightarrow> nat \<Rightarrow> byte list \<Rightarrow> byte list" where
  "emit n width ys =
     (if n = 0 then [] else replicate (width - min (length ys) n) 32 @ take n ys)"

definition tally :: "nat \<Rightarrow> nat \<Rightarrow> byte list \<Rightarrow> nat" where
  "tally n width ys = (if n = 0 then 0 else width - min (length ys) n) + length ys"

locale printf_sink =
  fixes cb :: "'w printf_cb" and st :: i64 and acc :: "byte list \<Rightarrow> 'w cstate \<Rightarrow> bool"
    and own :: "addr \<Rightarrow> bool" and room :: nat
  assumes emits: "acc xs s \<Longrightarrow> bytes_at (cmem s) p ys \<Longrightarrow>
      (\<And>a. in_range p (length ys) a \<Longrightarrow> \<not> own a) \<Longrightarrow> length xs + length ys \<le> room \<Longrightarrow>
      \<exists>s'. cb st p (of_nat (length ys)) s = Some (0, s') \<and> acc (xs @ ys) s' \<and>
        (\<forall>a. \<not> own a \<longrightarrow> cmem s' a = cmem s a)"
    and keeps: "acc xs s \<Longrightarrow> (\<And>a. own a \<Longrightarrow> m a = cmem s a) \<Longrightarrow> acc xs (s\<lparr>cmem := m\<rparr>)"
begin

lemma pad:
  "acc xs s \<Longrightarrow> cmem s space = Some 32 \<Longrightarrow> \<not> own space \<Longrightarrow> unat w + k = max (unat w) (unat width) \<Longrightarrow>
   length xs + k \<le> room \<Longrightarrow>
   \<exists>s'. printf_pad cb st space w width written s = Some (written + of_nat k, s') \<and>
     acc (xs @ replicate k 32) s' \<and> (\<forall>a. \<not> own a \<longrightarrow> cmem s' a = cmem s a)"
proof (induction k arbitrary: xs s width written)
  case 0
  then have "\<not> w < ucast width"
    by (simp add: word_less_nat_alt)
  with 0 show ?case by (subst printf_pad.simps) auto
next
  case (Suc k)
  then have gt: "unat width = Suc (unat w + k)" by auto
  then have lt: "w < ucast width"
    by (simp add: word_less_nat_alt)
  obtain s1 where s1: "cb st space 1 s = Some (0, s1)" "acc (xs @ [32]) s1"
    "\<forall>a. \<not> own a \<longrightarrow> cmem s1 a = cmem s a"
    using emits [of xs s space "[32]"] Suc.prems by (auto simp: in_range_Suc)
  have "unat (width - 1) = unat w + k"
    using gt by (subst unat_sub) (simp_all add: word_le_nat_alt)
  then have "\<exists>s'. printf_pad cb st space w (width - 1) (written + 1) s1 = Some (written + 1 + of_nat k, s') \<and>
     acc ((xs @ [32]) @ replicate k 32) s' \<and> (\<forall>a. \<not> own a \<longrightarrow> cmem s' a = cmem s1 a)"
    using s1 Suc.prems by (intro Suc.IH) auto
  with lt s1 show ?case by (subst printf_pad.simps) (auto simp: algebra_simps)
qed

lemma flush:
  assumes acc: "acc xs s" and sp: "cmem s space = Some 32" "\<not> own space"
    and ys: "bytes_at (cmem s) outstr ys" "\<And>a. in_range outstr (length ys) a \<Longrightarrow> \<not> own a"
    and len: "length ys < 2 ^ 64"
    and rm: "length xs + length (emit (unat n) (unat width) ys) \<le> room"
  shows "\<exists>s'. printf_flush cb st space n width outstr (of_nat (length ys)) written s =
      Some (False, n - (if of_nat (length ys) < n then of_nat (length ys) else n),
        written + of_nat (tally (unat n) (unat width) ys), s') \<and>
    acc (xs @ emit (unat n) (unat width) ys) s' \<and> (\<forall>a. \<not> own a \<longrightarrow> cmem s' a = cmem s a)"
proof (cases "n = 0")
  case True
  with acc show ?thesis
    by (auto simp: printf_flush_def emit_def tally_def)
next
  case False
  then have n: "unat n \<noteq> 0" by (simp add: unat_eq_0)
  let ?w = "if of_nat (length ys) < n then of_nat (length ys) else n"
  let ?k = "unat width - min (length ys) (unat n)" and ?ts = "take (unat n) ys"
  have w: "unat ?w = min (length ys) (unat n)" "?w = of_nat (length ?ts)"
    using len by (auto simp: word_less_nat_alt min_def)
  have bd: "length xs + ?k \<le> room" "length xs + ?k + length ?ts \<le> room"
    using rm n by (simp_all add: emit_def)
  have mx: "unat ?w + ?k = max (unat ?w) (unat width)"
    by (simp only: w(1) max_def) arith
  obtain s1 where s1: "printf_pad cb st space ?w width written s = Some (written + of_nat ?k, s1)"
    "acc (xs @ replicate ?k 32) s1" "\<forall>a. \<not> own a \<longrightarrow> cmem s1 a = cmem s a"
    using pad [OF acc sp mx bd(1)] by blast
  have src: "\<And>a. in_range outstr (length ?ts) a \<Longrightarrow> \<not> own a"
    using ys(2) in_range_mono [of outstr "length ?ts" _ "length ys"] by simp
  have "bytes_at (cmem s) outstr (?ts @ drop (unat n) ys)" using ys(1) by simp
  then have "bytes_at (cmem s) outstr ?ts" by (simp only: bytes_at_append)
  then have "bytes_at (cmem s1) outstr ?ts"
    using s1(3) src bytes_at_cong [of outstr ?ts "cmem s1" "cmem s"] by blast
  then obtain s2 where "cb st outstr (of_nat (length ?ts)) s1 = Some (0, s2)"
    "acc ((xs @ replicate ?k 32) @ ?ts) s2" "\<forall>a. \<not> own a \<longrightarrow> cmem s2 a = cmem s1 a"
    using emits [OF s1(2), of outstr ?ts] src bd by auto
  with False n s1 w(2) show ?thesis
    by (auto simp: printf_flush_def Let_def emit_def tally_def add.assoc simp del: length_take)
qed

end

subsection \<open>Format strings\<close>

datatype piece =
    Lit "byte list"
  | Percent
  | Num nat "byte list" byte i64
  | Str nat "byte list" addr "byte list"

primrec piece_fmt :: "piece \<Rightarrow> byte list" where
  "piece_fmt (Lit t) = t"
| "piece_fmt Percent = [37, 37]"
| "piece_fmt (Num l ds c v) = 37 # replicate l 108 @ ds @ [c]"
| "piece_fmt (Str l ds p t) = 37 # replicate l 108 @ ds @ [115]"

primrec piece_args :: "piece \<Rightarrow> i64 list" where
  "piece_args (Lit t) = []"
| "piece_args Percent = []"
| "piece_args (Num l ds c v) = [v]"
| "piece_args (Str l ds p t) = [p]"

definition num_value :: "nat \<Rightarrow> byte \<Rightarrow> i64 \<Rightarrow> i64" where
  "num_value l c v =
     (if c = 112 \<or> 0 < l then v
      else if c = 100 then scast (ucast v :: i32)
      else ucast (ucast v :: i32))"

primrec piece_out :: "piece \<Rightarrow> nat \<times> byte list" where
  "piece_out (Lit t) = (0, t)"
| "piece_out Percent = (0, [37])"
| "piece_out (Num l ds c v) = (dec_value ds, conv_text c (num_value l c v))"
| "piece_out (Str l ds p t) = (dec_value ds, t)"

fun chunks_out :: "nat \<Rightarrow> (nat \<times> byte list) list \<Rightarrow> byte list" where
  "chunks_out n [] = []"
| "chunks_out n ((w, t) # cs) = emit n w t @ chunks_out (n - length t) cs"

fun chunks_len :: "nat \<Rightarrow> (nat \<times> byte list) list \<Rightarrow> nat" where
  "chunks_len n [] = 0"
| "chunks_len n ((w, t) # cs) = tally n w t + chunks_len (n - length t) cs"

lemma chunks_merge:
  "chunks_out n ((0, a) # (0, b) # cs) = chunks_out n ((0, a @ b) # cs)"
  "chunks_len n ((0, a) # (0, b) # cs) = chunks_len n ((0, a @ b) # cs)"
  by (auto simp: emit_def tally_def)

subsection \<open>Single steps\<close>

lemma printf_digit: "48 \<le>s c \<and> c \<le>s 57 \<longleftrightarrow> is_digit c" for c :: byte
  by (rule every_byte) code_simp

lemma printf_digit_value: "is_digit c \<longrightarrow> (scast c - 48 :: i32) = of_nat (unat c - 48)" for c :: byte
  by (rule every_byte) code_simp

lemma printf_width_eq:
  "bytes_at m (fmt + ofs) (tl (ds @ [c])) \<Longrightarrow> \<forall>d \<in> set ds. is_digit d \<Longrightarrow> \<not> is_digit c \<Longrightarrow>
   printf_width m fmt (hd (ds @ [c])) ofs (of_nat k) =
     Some (c, ofs + of_nat (length ds), of_nat (foldl (\<lambda>n c. n * 10 + (unat c - 48)) k ds))"
proof (induction ds arbitrary: ofs k)
  case Nil
  then show ?case by (subst printf_width.simps) (simp add: printf_digit [simplified])
next
  case (Cons d ds)
  let ?k = "k * 10 + (unat d - 48)"
  have h: "m (fmt + ofs) = Some (hd (ds @ [c]))" "bytes_at m (fmt + (ofs + 1)) (tl (ds @ [c]))"
    using Cons.prems(1) by (cases ds; simp add: add.assoc)+
  have "printf_width m fmt d ofs (of_nat k) = printf_width m fmt (hd (ds @ [c])) (ofs + 1) (of_nat ?k)"
    using Cons.prems(2) h(1) printf_digit_value [of d]
    by (subst printf_width.simps) (simp add: printf_digit)
  also have "\<dots> = Some (c, ofs + 1 + of_nat (length ds), of_nat (foldl (\<lambda>n c. n * 10 + (unat c - 48)) ?k ds))"
    using Cons.prems h(2) by (intro Cons.IH) auto
  finally show ?case by (simp add: add.assoc)
qed

lemma printf_width_dec:
  "bytes_at m fmt (ds @ [c]) \<Longrightarrow> \<forall>d \<in> set ds. is_digit d \<Longrightarrow> \<not> is_digit c \<Longrightarrow>
   m fmt = Some (hd (ds @ [c])) \<and>
   printf_width m fmt (hd (ds @ [c])) 1 0 = Some (c, 1 + of_nat (length ds), of_nat (dec_value ds))"
  using printf_width_eq [of m fmt 1 ds c 0] by (cases ds) (auto simp: dec_value_def)

definition pvars ::
  "addr \<Rightarrow> i64 \<Rightarrow> bool \<Rightarrow> byte \<Rightarrow> i32 \<Rightarrow> i64 \<Rightarrow> i64 list \<Rightarrow> 'w cstate \<Rightarrow> 'w printf_vars" where
  "pvars f ofs esc l w n as s =
     \<lparr>pv_fmt = f, pv_ofs = ofs, pv_escape = esc, pv_lpref = l, pv_written = w, pv_n = n,
      pv_args = as, pv_state = s\<rparr>"

lemma turn_literal:
  "cmem s (f + ofs) = Some c \<Longrightarrow> c \<noteq> 0 \<Longrightarrow> c \<noteq> 37 \<Longrightarrow>
   printf_turn cb D st (pvars f ofs False l w n as s) = Some (False, pvars f (ofs + 1) False l w n as s)"
  by (simp add: printf_turn_def pvars_def)

lemma loop_literals:
  "bytes_at (cmem s) (f + ofs) t \<Longrightarrow> 0 \<notin> set t \<Longrightarrow> 37 \<notin> set t \<Longrightarrow>
   printf_loop cb D st (pvars f ofs False l w n as s) =
   printf_loop cb D st (pvars f (ofs + of_nat (length t)) False l w n as s)"
proof (induction t arbitrary: ofs)
  case (Cons c t)
  then have "printf_loop cb D st (pvars f ofs False l w n as s) =
      printf_loop cb D st (pvars f (ofs + 1) False l w n as s)"
    by (subst printf_loop.simps) (simp add: turn_literal)
  moreover have "printf_loop cb D st (pvars f (ofs + 1) False l w n as s) =
      printf_loop cb D st (pvars f (ofs + 1 + of_nat (length t)) False l w n as s)"
    using Cons.prems by (intro Cons.IH) (simp_all add: add.assoc)
  ultimately show ?case by (simp add: add.assoc)
qed simp

lemma turn_modifier:
  "cmem s f = Some 108 \<Longrightarrow>
   printf_turn cb D st (pvars f 0 True l w n as s) = Some (False, pvars (f + 1) 0 True (l + 1) w n as s)"
proof -
  assume c: "cmem s f = Some 108"
  have "printf_width (cmem s) f 108 1 0 = Some (108, 1, 0)"
    using printf_digit [of 108] by (subst printf_width.simps) (simp add: is_digit_def)
  with c show ?thesis by (simp add: printf_turn_def pvars_def printf_escape_def)
qed

lemma loop_modifiers:
  "bytes_at (cmem s) f (replicate k 108) \<Longrightarrow>
   printf_loop cb D st (pvars f 0 True l w n as s) =
   printf_loop cb D st (pvars (f + of_nat k) 0 True (l + of_nat k) w n as s)"
proof (induction k arbitrary: f l)
  case (Suc k)
  then have "printf_loop cb D st (pvars f 0 True l w n as s) =
      printf_loop cb D st (pvars (f + 1) 0 True (l + 1) w n as s)"
    by (subst printf_loop.simps) (simp add: turn_modifier)
  with Suc.IH [of "f + 1" "l + 1"] Suc.prems show ?case by (simp add: add.assoc)
qed simp

lemma turn_percent:
  "cmem s f = Some 37 \<Longrightarrow>
   printf_turn cb D st (pvars f 0 True l w n as s) = Some (False, pvars f 1 False l w n as s)"
proof -
  assume c: "cmem s f = Some 37"
  have "printf_width (cmem s) f 37 1 0 = Some (37, 1, 0)"
    using printf_digit [of 37] by (subst printf_width.simps) (simp add: is_digit_def)
  with c show ?thesis by (simp add: printf_turn_def pvars_def printf_escape_def)
qed

lemma turn_emit:
  assumes b: "bytes_at (cmem s) f (ds @ [c])" and ds: "\<forall>d \<in> set ds. is_digit d" and c: "\<not> is_digit c" "c \<noteq> 0"
    and e: "printf_escape D c l as s = Some (Some outstr, False, l', as', s1)"
    and len: "strlen (cmem s1) outstr = Some len"
    and fl: "printf_flush cb st (lit_space D) n (of_nat (dec_value ds)) outstr len w s1 = Some (False, n', w', s2)"
  shows "printf_turn cb D st (pvars f 0 True l w n as s) =
    Some (False, pvars (f + (1 + of_nat (length ds))) 0 False l' w' n' as' s2)"
  using printf_width_dec [OF b ds c(1)] e len fl c(2)
  by (simp add: printf_turn_def pvars_def)

context printf_sink begin

definition stable :: "stdio_data \<Rightarrow> addr \<Rightarrow> nat \<Rightarrow> bool" where
  "stable D p k \<longleftrightarrow> (\<forall>a. in_range p k a \<longrightarrow> \<not> own a \<and> \<not> in_range (tmpbuf D) 21 a)"

definition ready :: "stdio_data \<Rightarrow> mem \<Rightarrow> byte list \<Rightarrow> 'w cstate \<Rightarrow> bool" where
  "ready D m0 xs s \<longleftrightarrow> acc xs s \<and>
     (\<forall>a. \<not> own a \<and> \<not> in_range (tmpbuf D) 21 a \<longrightarrow> cmem s a = m0 a) \<and>
     mapped (cmem s) (tmpbuf D) 21 \<and> (\<forall>a. in_range (tmpbuf D) 21 a \<longrightarrow> \<not> own a) \<and>
     m0 (lit_space D) = Some 32 \<and> stable D (lit_space D) 1"

lemma stable_bytes:
  "ready D m0 xs s \<Longrightarrow> stable D p (length ys) \<Longrightarrow> bytes_at (cmem s) p ys = bytes_at m0 p ys"
  by (rule bytes_at_cong) (auto simp: ready_def stable_def)

lemma stable_part:
  "stable D p k \<Longrightarrow> i + j \<le> k \<Longrightarrow> k \<le> 2 ^ 64 \<Longrightarrow> stable D (p + of_nat i) j"
  using in_range_add [of i j k p] by (auto simp: stable_def)

lemma ready_flush:
  assumes r: "ready D m0 xs s"
    and ys: "bytes_at (cmem s) outstr ys" "\<And>a. in_range outstr (length ys) a \<Longrightarrow> \<not> own a"
    and len: "length ys < 2 ^ 64" and N: "N < 2 ^ 64" and wd: "wd < 2 ^ 32"
    and rm: "length xs + length (emit N wd ys) \<le> room"
  shows "\<exists>s'. printf_flush cb st (lit_space D) (of_nat N) (of_nat wd) outstr (of_nat (length ys)) w s =
      Some (False, of_nat (N - length ys), w + of_nat (tally N wd ys), s') \<and>
    ready D m0 (xs @ emit N wd ys) s'"
proof -
  have sp: "cmem s (lit_space D) = Some 32" "\<not> own (lit_space D)"
    using r by (auto simp: ready_def stable_def)
  have n: "unat (of_nat N :: i64) = N" "unat (of_nat wd :: i32) = wd" using N wd by simp_all
  have "(of_nat N :: i64) - (if of_nat (length ys) < (of_nat N :: i64) then of_nat (length ys) else of_nat N) =
      of_nat (N - length ys)"
    using N len by (auto simp: word_less_nat_alt of_nat_diff)
  moreover have "\<exists>s'. printf_flush cb st (lit_space D) (of_nat N) (of_nat wd) outstr (of_nat (length ys)) w s =
      Some (False, (of_nat N :: i64) - (if of_nat (length ys) < (of_nat N :: i64) then of_nat (length ys) else of_nat N),
        w + of_nat (tally N wd ys), s') \<and>
    acc (xs @ emit N wd ys) s' \<and> (\<forall>a. \<not> own a \<longrightarrow> cmem s' a = cmem s a)"
    using flush [of xs s "lit_space D" outstr ys "of_nat N" "of_nat wd" w] r sp ys len rm n
    by (simp add: ready_def)
  ultimately obtain s' where s': "printf_flush cb st (lit_space D) (of_nat N) (of_nat wd) outstr (of_nat (length ys)) w s =
      Some (False, of_nat (N - length ys), w + of_nat (tally N wd ys), s')"
    "acc (xs @ emit N wd ys) s'" "\<forall>a. \<not> own a \<longrightarrow> cmem s' a = cmem s a" by auto
  moreover have "mapped (cmem s') (tmpbuf D) 21"
    using r s'(3) by (intro mapped_cong [of _ 21 "cmem s'" "cmem s"]) (auto simp: ready_def)
  ultimately show ?thesis using r by (auto simp: ready_def)
qed

end

primrec piece_ok :: "stdio_data \<Rightarrow> mem \<Rightarrow> (addr \<Rightarrow> nat \<Rightarrow> bool) \<Rightarrow> piece \<Rightarrow> bool" where
  "piece_ok D m still (Lit t) = (0 \<notin> set t \<and> 37 \<notin> set t)"
| "piece_ok D m still Percent = True"
| "piece_ok D m still (Num l ds c v) =
     (l < 256 \<and> (\<forall>d \<in> set ds. is_digit d) \<and> dec_value ds < 2 ^ 32 \<and> c \<in> {99, 100, 117, 120, 112})"
| "piece_ok D m still (Str l ds p t) =
     (l < 256 \<and> (\<forall>d \<in> set ds. is_digit d) \<and> dec_value ds < 2 ^ 32 \<and>
      cstr m (if p = 0 then lit_null D else p) t \<and>
      still (if p = 0 then lit_null D else p) (Suc (length t)))"

context printf_sink begin

lemma turn_flush:
  assumes r: "ready D m0 xs s" and b: "bytes_at m0 f (pend @ [c])" and c: "c = 0 \<or> c = 37"
    and st: "stable D f (Suc (length pend))" and len: "length pend < 2 ^ 64" and N: "N < 2 ^ 64"
    and rm: "length xs + length (emit N 0 pend) \<le> room"
  shows "\<exists>s'. printf_turn cb D st (pvars f (of_nat (length pend)) False l w (of_nat N) as s) =
      Some (c = 0, pvars (f + (1 + of_nat (length pend))) 0 True 0 (w + of_nat (tally N 0 pend))
        (of_nat (N - length pend)) as s') \<and> ready D m0 (xs @ emit N 0 pend) s'"
proof -
  have "bytes_at (cmem s) f (pend @ [c])" using stable_bytes [OF r, of f "pend @ [c]"] st b by simp
  then have "bytes_at (cmem s) f pend" and ch: "cmem s (f + of_nat (length pend)) = Some c" by auto
  moreover have "\<And>a. in_range f (length pend) a \<Longrightarrow> \<not> own a"
    using st in_range_mono [of f "length pend" _ "Suc (length pend)"] by (auto simp: stable_def)
  ultimately obtain s' where "printf_flush cb st (lit_space D) (of_nat N) (of_nat 0) f (of_nat (length pend)) w s =
      Some (False, of_nat (N - length pend), w + of_nat (tally N 0 pend), s')"
    "ready D m0 (xs @ emit N 0 pend) s'"
    using ready_flush [OF r, of f pend N 0 w] len N rm by auto
  then show ?thesis using c ch
    by (auto simp: printf_turn_def pvars_def algebra_simps)
qed

lemma turn_num:
  assumes r: "ready D m0 xs s" and b: "bytes_at m0 f (ds @ [c])" and ds: "\<forall>d \<in> set ds. is_digit d"
    and c: "c \<in> {99, 100, 117, 120, 112}" and wd: "dec_value ds < 2 ^ 32" and l: "k < 256"
    and st: "stable D f (Suc (length ds))" and N: "N < 2 ^ 64"
    and t: "t = conv_text c (num_value k c v)"
    and rm: "length xs + length (emit N (dec_value ds) t) \<le> room"
  shows "\<exists>s'. printf_turn cb D st (pvars f 0 True (of_nat k) w (of_nat N) (v # as) s) =
      Some (False, pvars (f + (1 + of_nat (length ds))) 0 False (of_nat k)
        (w + of_nat (tally N (dec_value ds) t)) (of_nat (N - length t)) as s') \<and>
    ready D m0 (xs @ emit N (dec_value ds) t) s'"
proof -
  let ?v = "num_value k c v" and ?out = "tmpbuf D"
  have b': "bytes_at (cmem s) f (ds @ [c])" using stable_bytes [OF r, of f "ds @ [c]"] st b by simp
  have mp: "mapped (cmem s) ?out 21" using r by (simp add: ready_def)
  obtain m where m: "printf_conv (cmem s) ?out c ?v = Some m" "cstr m ?out t"
    "\<And>a. \<not> in_range ?out 21 a \<Longrightarrow> m a = cmem s a" "mapped m ?out 21"
    using printf_conv_text [OF mp, of c ?v] t by blast
  have val: "printf_value c (of_nat k) (v # as) = Some (?v, as)"
    using c by (auto simp: printf_value_def num_value_def of_nat8_zero [OF l])
  have esc: "printf_escape D c (of_nat k) (v # as) s = Some (Some ?out, False, of_nat k, as, s\<lparr>cmem := m\<rparr>)"
    using c val m(1) by (auto simp: printf_escape_def)
  have "acc xs (s\<lparr>cmem := m\<rparr>)"
    using r m(3) by (intro keeps) (auto simp: ready_def)
  then have r': "ready D m0 xs (s\<lparr>cmem := m\<rparr>)"
    using r m by (auto simp: ready_def)
  have tl: "length t \<le> 20" using conv_text_bounds(1) t by simp
  have "\<And>a. in_range ?out (length t) a \<Longrightarrow> \<not> own a"
    using r tl in_range_mono [of ?out "length t" _ 21] by (auto simp: ready_def)
  moreover have "bytes_at (cmem (s\<lparr>cmem := m\<rparr>)) ?out t" using m(2) by (simp add: cstr_iff_bytes)
  ultimately obtain s' where "printf_flush cb st (lit_space D) (of_nat N) (of_nat (dec_value ds)) ?out
      (of_nat (length t)) w (s\<lparr>cmem := m\<rparr>) =
      Some (False, of_nat (N - length t), w + of_nat (tally N (dec_value ds) t), s')"
    "ready D m0 (xs @ emit N (dec_value ds) t) s'"
    using ready_flush [OF r', of ?out t N "dec_value ds" w] tl N wd rm by auto
  moreover have "strlen (cmem (s\<lparr>cmem := m\<rparr>)) ?out = Some (of_nat (length t))"
    using strlen_eq [OF m(2)] by simp
  moreover have "\<not> is_digit c" "c \<noteq> 0" using c by (auto simp: is_digit_def)
  ultimately show ?thesis using turn_emit [OF b' ds _ _ esc] by blast
qed

lemma turn_str:
  assumes r: "ready D m0 xs s" and b: "bytes_at m0 f (ds @ [115])" and ds: "\<forall>d \<in> set ds. is_digit d"
    and wd: "dec_value ds < 2 ^ 32"
    and st: "stable D f (Suc (length ds))" and N: "N < 2 ^ 64"
    and q: "q = (if p = 0 then lit_null D else p)" and t: "cstr m0 q t" "stable D q (Suc (length t))"
    and rm: "length xs + length (emit N (dec_value ds) t) \<le> room"
  shows "\<exists>s'. printf_turn cb D st (pvars f 0 True l w (of_nat N) (p # as) s) =
      Some (False, pvars (f + (1 + of_nat (length ds))) 0 False l
        (w + of_nat (tally N (dec_value ds) t)) (of_nat (N - length t)) as s') \<and>
    ready D m0 (xs @ emit N (dec_value ds) t) s'"
proof -
  have b': "bytes_at (cmem s) f (ds @ [115])" using stable_bytes [OF r, of f "ds @ [115]"] st b by simp
  have esc: "printf_escape D 115 l (p # as) s = Some (Some q, False, l, as, s)"
    by (simp add: printf_escape_def q)
  have "bytes_at (cmem s) q (t @ [0])"
    using stable_bytes [OF r, of q "t @ [0]"] t by (simp add: cstr_iff_bytes del: bytes_at_append)
  then have t': "cstr (cmem s) q t" using t(1) by (simp add: cstr_iff_bytes)
  have "\<And>a. in_range q (length t) a \<Longrightarrow> \<not> own a"
    using t(2) in_range_mono [of q "length t" _ "Suc (length t)"] by (auto simp: stable_def)
  moreover have "bytes_at (cmem s) q t" using t' by (simp add: cstr_iff_bytes)
  ultimately obtain s' where "printf_flush cb st (lit_space D) (of_nat N) (of_nat (dec_value ds)) q
      (of_nat (length t)) w s =
      Some (False, of_nat (N - length t), w + of_nat (tally N (dec_value ds) t), s')"
    "ready D m0 (xs @ emit N (dec_value ds) t) s'"
    using ready_flush [OF r, of q t N "dec_value ds" w] cstr_length [OF t'] N wd rm by auto
  moreover have "\<not> is_digit 115" "(115 :: byte) \<noteq> 0" by (auto simp: is_digit_def)
  ultimately show ?thesis using turn_emit [OF b' ds _ _ esc strlen_eq [OF t']] by blast
qed

end

lemma emit_Nil [simp]: "emit n 0 [] = []" "tally n 0 [] = 0"
  by (simp_all add: emit_def tally_def)

lemma loop_turn: "printf_turn cb D st v = Some (False, v') \<Longrightarrow> printf_loop cb D st v = printf_loop cb D st v'"
  by (subst printf_loop.simps) simp

context printf_sink begin

lemma stable_next:
  assumes "stable D f (length (xs @ ys))" and "length (xs @ ys) \<le> 2 ^ 64" and "q = f + of_nat (length xs)"
  shows "stable D q (length ys)"
  using stable_part [OF assms(1), of "length xs" "length ys"] assms(2,3) by simp

lemma bytes_next: "bytes_at m f (xs @ ys) \<Longrightarrow> q = f + of_nat (length xs) \<Longrightarrow> bytes_at m q ys"
  by simp

abbreviation pieces_fmt :: "piece list \<Rightarrow> byte list" where
  "pieces_fmt ps \<equiv> concat (map piece_fmt ps)"

lemma escape:
  assumes r: "ready D m0 xs s" and b: "bytes_at m0 f (pend @ 37 # replicate k 108 @ ys)"
    and st: "stable D f (length (pend @ 37 # replicate k 108 @ ys))"
    and len: "length (pend @ 37 # replicate k 108 @ ys) < 2 ^ 64" and N: "N < 2 ^ 64"
    and rm: "length xs + length (emit N 0 pend) \<le> room"
  shows "\<exists>s' q. printf_loop cb D st (pvars f (of_nat (length pend)) False l w (of_nat N) as s) =
      printf_loop cb D st (pvars q 0 True (of_nat k) (w + of_nat (tally N 0 pend))
        (of_nat (N - length pend)) as s') \<and>
    ready D m0 (xs @ emit N 0 pend) s' \<and> bytes_at m0 q ys \<and> stable D q (length ys)"
proof -
  let ?f = "f + (1 + of_nat (length pend))" and ?ls = "replicate k 108 :: byte list"
  have b': "bytes_at m0 ?f (?ls @ ys)" using bytes_next [of m0 f "pend @ [37]" "?ls @ ys" ?f] b by simp
  have st': "stable D ?f (length (?ls @ ys))"
    using stable_next [of D f "pend @ [37]" "?ls @ ys" ?f] st len by simp
  have "stable D f (Suc (length pend))"
    using stable_part [OF st, of 0 "Suc (length pend)"] len by simp
  then obtain s' where s': "printf_turn cb D st (pvars f (of_nat (length pend)) False l w (of_nat N) as s) =
      Some (False, pvars ?f 0 True 0 (w + of_nat (tally N 0 pend)) (of_nat (N - length pend)) as s')"
    "ready D m0 (xs @ emit N 0 pend) s'"
    using turn_flush [OF r, of f pend 37 N l w as] b len N rm by auto
  have "bytes_at (cmem s') ?f (?ls @ ys)" using stable_bytes [OF s'(2) st'] b' by simp
  then have "bytes_at (cmem s') ?f ?ls" by (simp only: bytes_at_append)
  then have "printf_loop cb D st (pvars f (of_nat (length pend)) False l w (of_nat N) as s) =
      printf_loop cb D st (pvars (?f + of_nat k) 0 True (of_nat k) (w + of_nat (tally N 0 pend))
        (of_nat (N - length pend)) as s')"
    using s'(1) loop_modifiers [of s' ?f k cb D st 0] by (subst printf_loop.simps) simp
  moreover have "bytes_at m0 (?f + of_nat k) ys" using bytes_next [OF b'] by simp
  moreover have "stable D (?f + of_nat k) (length ys)" using stable_next [OF st'] len by simp
  ultimately show ?thesis using s'(2) by blast
qed

lemma directive_turn:
  assumes r: "ready D m0 xs s" and x: "piece_ok D m0 (stable D) x" "piece_out x = (wd, t)"
    and fmt: "piece_fmt x = 37 # replicate k 108 @ ds @ [c]" "x = Num k ds c v \<or> x = Str k ds p t"
    and b: "bytes_at m0 q (ds @ [c])" and st: "stable D q (Suc (length ds))" and N: "N < 2 ^ 64"
    and rm: "length xs + length (emit N wd t) \<le> room"
  shows "\<exists>s'. printf_turn cb D st (pvars q 0 True (of_nat k) w (of_nat N) (piece_args x @ as) s) =
      Some (False, pvars (q + (1 + of_nat (length ds))) 0 False (of_nat k)
        (w + of_nat (tally N wd t)) (of_nat (N - length t)) as s') \<and>
    ready D m0 (xs @ emit N wd t) s'"
  using fmt(2)
proof
  assume "x = Num k ds c v"
  with assms show ?thesis using turn_num [OF r b _ _ _ _ st N, of k t v w as] by auto
next
  assume "x = Str k ds p t"
  with assms show ?thesis using turn_str [OF r _ _ _ st N refl, of p t "of_nat k" w as] by auto
qed

lemma directive:
  assumes r: "ready D m0 xs s" and x: "piece_ok D m0 (stable D) x" "piece_out x = (wd, t)"
    and fmt: "piece_fmt x = 37 # replicate k 108 @ ds @ [c]" "x = Num k ds c v \<or> x = Str k ds p t"
    and b: "bytes_at m0 f (pend @ piece_fmt x @ ys)"
    and st: "stable D f (length (pend @ piece_fmt x @ ys))"
    and len: "length (pend @ piece_fmt x @ ys) < 2 ^ 64" and N: "N < 2 ^ 64"
    and rm: "length xs + length (emit N 0 pend) + length (emit (N - length pend) wd t) \<le> room"
  shows "\<exists>s' q. printf_loop cb D st
        (pvars f (of_nat (length pend)) False l w (of_nat N) (piece_args x @ as) s) =
      printf_loop cb D st (pvars q (of_nat (length ([] :: byte list))) False (of_nat k)
        (w + of_nat (tally N 0 pend) + of_nat (tally (N - length pend) wd t))
        (of_nat (N - length pend - length t)) as s') \<and>
    ready D m0 ((xs @ emit N 0 pend) @ emit (N - length pend) wd t) s' \<and>
    bytes_at m0 q ([] @ ys) \<and> stable D q (length ([] @ ys))"
proof -
  let ?N = "N - length pend" and ?as = "piece_args x @ as"
  obtain s1 q where s1: "printf_loop cb D st (pvars f (of_nat (length pend)) False l w (of_nat N) ?as s) =
      printf_loop cb D st (pvars q 0 True (of_nat k) (w + of_nat (tally N 0 pend)) (of_nat ?N) ?as s1)"
    "ready D m0 (xs @ emit N 0 pend) s1" "bytes_at m0 q ((ds @ [c]) @ ys)"
    "stable D q (length ((ds @ [c]) @ ys))"
    using escape [OF r, of f pend k "(ds @ [c]) @ ys" N l w ?as] b st len N rm fmt(1) by auto
  let ?q = "q + (1 + of_nat (length ds))"
  have sq: "stable D q (Suc (length ds))"
    using stable_part [OF s1(4), of 0 "Suc (length ds)"] len fmt(1) by simp
  have bq: "bytes_at m0 q (ds @ [c])" using s1(3) by (simp only: bytes_at_append)
  have N': "?N < 2 ^ 64" and rm': "length (xs @ emit N 0 pend) + length (emit ?N wd t) \<le> room"
    using N rm by simp_all
  obtain s2 where s2: "printf_turn cb D st (pvars q 0 True (of_nat k) (w + of_nat (tally N 0 pend))
      (of_nat ?N) ?as s1) = Some (False, pvars ?q 0 False (of_nat k)
      (w + of_nat (tally N 0 pend) + of_nat (tally ?N wd t)) (of_nat (?N - length t)) as s2)"
    "ready D m0 ((xs @ emit N 0 pend) @ emit ?N wd t) s2"
    using directive_turn [OF s1(2) x fmt bq sq N' rm'] by blast
  have "bytes_at m0 ?q ys" using bytes_next [OF s1(3)] by simp
  moreover have "stable D ?q (length ys)" using stable_next [OF s1(4)] len fmt(1) by simp
  ultimately show ?thesis using s1(1) s2 by (subst s1(1)) (auto simp: loop_turn)
qed

lemma percent:
  assumes r: "ready D m0 xs s" and b: "bytes_at m0 f (pend @ piece_fmt Percent @ ys)"
    and st: "stable D f (length (pend @ piece_fmt Percent @ ys))"
    and len: "length (pend @ piece_fmt Percent @ ys) < 2 ^ 64" and N: "N < 2 ^ 64"
    and rm: "length xs + length (emit N 0 pend) \<le> room"
  shows "\<exists>s' q. printf_loop cb D st (pvars f (of_nat (length pend)) False l w (of_nat N) as s) =
      printf_loop cb D st (pvars q (of_nat (length [37 :: byte])) False 0
        (w + of_nat (tally N 0 pend)) (of_nat (N - length pend)) as s') \<and>
    ready D m0 (xs @ emit N 0 pend) s' \<and> bytes_at m0 q ([37] @ ys) \<and> stable D q (length ([37] @ ys))"
proof -
  obtain s1 q where s1: "printf_loop cb D st (pvars f (of_nat (length pend)) False l w (of_nat N) as s) =
      printf_loop cb D st (pvars q 0 True (of_nat 0) (w + of_nat (tally N 0 pend))
        (of_nat (N - length pend)) as s1)"
    "ready D m0 (xs @ emit N 0 pend) s1" "bytes_at m0 q ([37] @ ys)" "stable D q (length ([37] @ ys))"
    using escape [OF r, of f pend 0 "[37] @ ys" N l w as] b st len N rm by auto
  have "bytes_at (cmem s1) q ([37] @ ys)" using stable_bytes [OF s1(2) s1(4)] s1(3) by simp
  then have "printf_loop cb D st (pvars q 0 True (of_nat 0) (w + of_nat (tally N 0 pend))
        (of_nat (N - length pend)) as s1) =
      printf_loop cb D st (pvars q 1 False 0 (w + of_nat (tally N 0 pend)) (of_nat (N - length pend)) as s1)"
    by (intro loop_turn) (simp add: turn_percent)
  with s1 show ?thesis by auto
qed

lemma run:
  "ready D m0 xs s \<Longrightarrow> bytes_at m0 f (pend @ pieces_fmt ps @ [0]) \<Longrightarrow>
   stable D f (length (pend @ pieces_fmt ps @ [0])) \<Longrightarrow>
   length (pend @ pieces_fmt ps @ [0]) < 2 ^ 64 \<Longrightarrow> N < 2 ^ 64 \<Longrightarrow>
   \<forall>x \<in> set ps. piece_ok D m0 (stable D) x \<Longrightarrow>
   length xs + length (chunks_out N ((0, pend) # map piece_out ps)) \<le> room \<Longrightarrow>
   \<exists>s'. printf_loop cb D st (pvars f (of_nat (length pend)) False l w (of_nat N)
       (concat (map piece_args ps)) s) =
     Some (w + of_nat (chunks_len N ((0, pend) # map piece_out ps)), s') \<and>
     ready D m0 (xs @ chunks_out N ((0, pend) # map piece_out ps)) s'"
proof (induction ps arbitrary: xs s f pend l w N)
  case Nil
  then obtain s' where "printf_turn cb D st (pvars f (of_nat (length pend)) False l w (of_nat N) [] s) =
      Some (True, pvars (f + (1 + of_nat (length pend))) 0 True 0 (w + of_nat (tally N 0 pend))
        (of_nat (N - length pend)) [] s')" "ready D m0 (xs @ emit N 0 pend) s'"
    using turn_flush [of D m0 xs s f pend 0 N l w "[]"] by auto
  then show ?case by (subst printf_loop.simps) (simp add: pvars_def)
next
  case (Cons x ps)
  let ?rest = "pieces_fmt ps @ [0]" and ?as = "concat (map piece_args ps)" and ?N = "N - length pend"
  note r = Cons.prems(1) and N = Cons.prems(5) and rm = Cons.prems(7)
  have b: "bytes_at m0 f (pend @ piece_fmt x @ ?rest)"
    and stb: "stable D f (length (pend @ piece_fmt x @ ?rest))"
    and len: "length (pend @ piece_fmt x @ ?rest) < 2 ^ 64" using Cons.prems(2-4) by simp_all
  have ok: "piece_ok D m0 (stable D) x" "\<forall>x \<in> set ps. piece_ok D m0 (stable D) x"
    using Cons.prems(6) by simp_all
  consider t where "x = Lit t" | "x = Percent"
    | k ds c v p wd t where "piece_fmt x = 37 # replicate k 108 @ ds @ [c]"
        "x = Num k ds c v \<or> x = Str k ds p t" "piece_out x = (wd, t)"
    by (cases x) auto
  then show ?case
  proof cases
    case 1
    then have t: "0 \<notin> set t" "37 \<notin> set t" using ok by simp_all
    have "bytes_at (cmem s) f (pend @ t @ ?rest)" using stable_bytes [OF r stb] b 1 by simp
    then have bt: "bytes_at (cmem s) (f + of_nat (length pend)) t" by simp
    have "\<exists>s'. printf_loop cb D st (pvars f (of_nat (length (pend @ t))) False l w (of_nat N) ?as s) =
        Some (w + of_nat (chunks_len N ((0, pend @ t) # map piece_out ps)), s') \<and>
        ready D m0 (xs @ chunks_out N ((0, pend @ t) # map piece_out ps)) s'"
      using Cons.prems 1 ok chunks_merge(1) [of N pend t]
      by (intro Cons.IH) (simp_all del: chunks_out.simps)
    then show ?thesis
      using loop_literals [OF bt t, of cb D st l w "of_nat N" ?as] 1
      by (simp add: chunks_merge del: chunks_out.simps chunks_len.simps)
  next
    case 2
    obtain s1 q where s1: "printf_loop cb D st (pvars f (of_nat (length pend)) False l w (of_nat N) ?as s) =
        printf_loop cb D st (pvars q (of_nat (length [37 :: byte])) False 0
          (w + of_nat (tally N 0 pend)) (of_nat ?N) ?as s1)" "ready D m0 (xs @ emit N 0 pend) s1"
      "bytes_at m0 q ([37] @ ?rest)" "stable D q (length ([37] @ ?rest))"
      using percent [OF r, of f pend ?rest N l w ?as] b stb len N rm 2 by auto
    show ?thesis
      using Cons.IH [OF s1(2,3,4) _ _ ok(2), of ?N 0 "w + of_nat (tally N 0 pend)"] s1(1) len N rm 2
      by (auto simp: add.assoc)
  next
    case 3
    obtain s1 q where s1: "printf_loop cb D st
          (pvars f (of_nat (length pend)) False l w (of_nat N) (piece_args x @ ?as) s) =
        printf_loop cb D st (pvars q (of_nat (length ([] :: byte list))) False (of_nat k)
          (w + of_nat (tally N 0 pend) + of_nat (tally ?N wd t)) (of_nat (?N - length t)) ?as s1)"
      "ready D m0 ((xs @ emit N 0 pend) @ emit ?N wd t) s1"
      "bytes_at m0 q ([] @ ?rest)" "stable D q (length ([] @ ?rest))"
      using directive [OF r ok(1) 3(3,1,2) b stb len N, of l w ?as] rm 3(3) by auto
    show ?thesis
      using Cons.IH [OF s1(2,3,4) _ _ ok(2), of "?N - length t" "of_nat k"
          "w + of_nat (tally N 0 pend) + of_nat (tally ?N wd t)"] s1(1) len N rm 3(3)
      by (auto simp: add.assoc)
  qed
qed

end

context printf_sink begin

lemma prints:
  assumes r: "ready D m0 xs s" and b: "bytes_at m0 f (pieces_fmt ps @ [0])"
    and st: "stable D f (length (pieces_fmt ps @ [0]))" and len: "length (pieces_fmt ps @ [0]) < 2 ^ 64"
    and ok: "\<forall>x \<in> set ps. piece_ok D m0 (stable D) x"
    and rm: "length xs + length (chunks_out (unat n) (map piece_out ps)) \<le> room"
  shows "\<exists>s'. nolibc_printf cb D st n f (concat (map piece_args ps)) s =
      Some (of_nat (chunks_len (unat n) (map piece_out ps)), s') \<and>
    ready D m0 (xs @ chunks_out (unat n) (map piece_out ps)) s'"
  using run [of D m0 xs s f "[]" ps "unat n" 0 0] assms
  by (simp add: nolibc_printf_def pvars_def)

end

subsection \<open>The text of a whole format\<close>

definition padded :: "piece \<Rightarrow> byte list" where
  "padded x = (case piece_out x of (w, t) \<Rightarrow> replicate (w - length t) 32 @ t)"

definition plain :: "piece \<Rightarrow> byte list" where
  "plain x = snd (piece_out x)"

lemma chunks_all:
  "length (concat (map padded ps)) \<le> n \<Longrightarrow>
   chunks_out n (map piece_out ps) = concat (map padded ps) \<and>
   chunks_len n (map piece_out ps) = length (concat (map padded ps))"
proof (induction ps arbitrary: n)
  case (Cons x ps)
  obtain w t where x: "piece_out x = (w, t)" by fastforce
  have "length (concat (map padded ps)) \<le> n - length t"
    using Cons.prems x by (simp add: padded_def [of x])
  from Cons.IH [OF this] Cons.prems x show ?case
    by (cases "n = 0") (auto simp: padded_def [of x] emit_def tally_def)
qed simp

lemma chunks_take:
  "\<forall>x \<in> set ps. fst (piece_out x) = 0 \<Longrightarrow>
   chunks_out n (map piece_out ps) = take n (concat (map plain ps)) \<and>
   chunks_len n (map piece_out ps) = length (concat (map plain ps))"
proof (induction ps arbitrary: n)
  case (Cons x ps)
  obtain t where "piece_out x = (0, t)" using Cons.prems by (cases "piece_out x") auto
  with Cons show ?case by (auto simp: plain_def emit_def tally_def)
qed simp

subsection \<open>The two callbacks\<close>

definition filed ::
  "'w target \<Rightarrow> addr \<Rightarrow> ('w \<Rightarrow> byte list) \<Rightarrow> 'w cstate \<Rightarrow> byte list \<Rightarrow> 'w cstate \<Rightarrow> bool" where
  "filed T stream out s0 xs s \<longleftrightarrow>
     writes T (ucast (NOT stream)) out \<and> stream <s 0 \<and> out (kern s) = out (kern s0) @ xs \<and>
     errno s = errno s0 \<and> environ s = environ s0 \<and> auxv s = auxv s0"

interpretation fout: printf_sink "fprintf_cb T" stream "filed T stream out s0"
  "\<lambda>a. False" "2 ^ 63 - 1" for T stream out s0
proof (unfold_locales, goal_cases)
  case (1 xs s p ys)
  then have "length ys < 2 ^ 63" by simp
  then obtain w' where "fwrite_all T p (of_nat (length ys)) stream s = Some (0, s\<lparr>kern := w'\<rparr>)"
    "out w' = out (kern s) @ ys"
    using fwrite_all_writes [of T stream out s p ys] 1 by (auto simp: filed_def)
  with 1 show ?case by (simp add: fprintf_cb_def filed_def)
next
  case (2 xs s m)
  then show ?case by (simp add: filed_def)
qed

definition buffered :: "addr \<Rightarrow> nat \<Rightarrow> addr \<Rightarrow> byte list \<Rightarrow> 'w cstate \<Rightarrow> bool" where
  "buffered buf cap slot xs s \<longleftrightarrow>
     load64 (cmem s) slot = Some (buf + of_nat (length xs)) \<and> bytes_at (cmem s) buf xs \<and>
     mapped (cmem s) buf cap \<and> mapped (cmem s) slot 8 \<and> apart buf cap slot 8 \<and>
     cap < 2 ^ 64 \<and> length xs \<le> cap"

lemma sprintf_cb_appends:
  assumes b: "buffered buf cap slot xs s" and ys: "bytes_at (cmem s) p ys"
    and own: "\<And>a. in_range p (length ys) a \<Longrightarrow> \<not> (in_range buf cap a \<or> in_range slot 8 a)"
    and rm: "length xs + length ys \<le> cap"
  shows "\<exists>s'. sprintf_cb slot p (of_nat (length ys)) s = Some (0, s') \<and>
    buffered buf cap slot (xs @ ys) s' \<and>
    (\<forall>a. \<not> (in_range buf cap a \<or> in_range slot 8 a) \<longrightarrow> cmem s' a = cmem s a)"
proof -
  let ?d = "buf + of_nat (length xs)" and ?n = "length ys" and ?v = "buf + of_nat (length (xs @ ys))"
  let ?m1 = "poke (cmem s) ?d ys" and ?bs = "le_bytes 8 (unat ?v)"
  let ?m2 = "poke ?m1 slot ?bs"
  have cap: "cap < 2 ^ 64" and ap: "apart buf cap slot 8" and mp: "mapped (cmem s) buf cap" "mapped (cmem s) slot 8"
    and sl: "load64 (cmem s) slot = Some ?d" using b by (simp_all add: buffered_def)
  have nw: "unat (of_nat ?n :: i64) = ?n" using rm cap by simp
  have inb: "in_range buf cap a" if "in_range ?d ?n a" for a
    using in_range_add [of "length xs" ?n cap buf a] that rm cap by simp
  have "apart ?d ?n p ?n" using own inb by (intro apartI) blast
  moreover have "mapped (cmem s) ?d ?n" using mapped_part [OF mp(1) rm] .
  ultimately have cp: "memcpy (cmem s) ?d p (of_nat ?n) = Some (?d, ?m1)"
    using ys nw by (intro mcpy.copy_poke mcpy.ok_apart) simp_all
  have dap: "apart ?d ?n slot 8" using apart_part [OF ap rm] cap by simp
  have "load64 ?m1 slot = Some ?d"
    using sl dap by (simp add: load64_def load_le_poke_apart)
  moreover have st: "store64 ?m1 slot ?v = Some ?m2" using mp(2) by (intro store64_eq) simp
  ultimately have "sprintf_cb slot p (of_nat ?n) s = Some (0, s\<lparr>cmem := ?m2\<rparr>)"
    using sl cp by (simp add: sprintf_cb_def cload64_def cstore64_def add.assoc)
  moreover have "buffered buf cap slot (xs @ ys) (s\<lparr>cmem := ?m2\<rparr>)"
  proof -
    have "bytes_at ?m1 buf xs"
      using b bytes_at_poke_apart [OF apart_next [of "length xs" ?n buf]] rm cap by (simp add: buffered_def)
    moreover have "bytes_at ?m1 ?d ys" using rm cap by (intro bytes_at_poke_self) simp
    ultimately have "bytes_at ?m1 buf (xs @ ys)" by simp
    moreover have "apart slot 8 buf (length (xs @ ys))"
      using apart_mono [OF apart_sym [OF ap], of 8 "length (xs @ ys)"] rm by simp
    ultimately have "bytes_at ?m2 buf (xs @ ys)"
      using bytes_at_poke_apart [of slot ?bs buf "xs @ ys" ?m1] by (simp del: bytes_at_append)
    with load64_store64 [OF st] ap mp rm cap show ?thesis by (simp add: buffered_def)
  qed
  moreover have "?m2 a = cmem s a" if "\<not> (in_range buf cap a \<or> in_range slot 8 a)" for a
    using that inb by (subst poke_outside, simp)+ auto
  ultimately show ?thesis by (intro exI [of _ "s\<lparr>cmem := ?m2\<rparr>"]) simp
qed

interpretation sout: printf_sink sprintf_cb slot "buffered buf cap slot"
  "\<lambda>a. in_range buf cap a \<or> in_range slot 8 a" cap for slot buf cap
proof (unfold_locales, goal_cases)
  case (1 xs s p ys)
  then show ?case by (intro sprintf_cb_appends)
next
  case (2 xs s m)
  have "load_le m slot 8 = load_le (cmem s) slot 8" using 2 by (intro load_le_cong) auto
  moreover have "bytes_at m buf xs = bytes_at (cmem s) buf xs"
    using 2 in_range_mono [of buf "length xs" _ cap] by (intro bytes_at_cong) (auto simp: buffered_def)
  moreover have "mapped m buf cap" "mapped m slot 8"
    using 2 mapped_cong [of buf cap m "cmem s"] mapped_cong [of slot 8 m "cmem s"]
    by (auto simp: buffered_def)
  ultimately show ?case using 2(1) by (simp add: buffered_def load64_def)
qed

definition print_ready :: "stdio_data \<Rightarrow> mem \<Rightarrow> bool" where
  "print_ready D m \<longleftrightarrow> mapped m (tmpbuf D) 21 \<and> m (lit_space D) = Some 32 \<and>
     apart (lit_space D) 1 (tmpbuf D) 21"

lemma piece_ok_mono:
  "piece_ok D m still x \<Longrightarrow> (\<And>p k. still p k \<Longrightarrow> still' p k) \<Longrightarrow> piece_ok D m still' x"
  by (cases x) auto

lemma plain_nonzero: "piece_ok D m still x \<Longrightarrow> 0 \<notin> set (plain x)"
  using conv_text_bounds(2) cstr_nonzero by (cases x) (auto simp: plain_def)

text \<open>
  A whole call of \<open>fprintf\<close> on a stream the kernel takes everything from: what it sends, and that the
  process is else as before, up to the library's scratch buffer.
\<close>

definition same_but :: "addr \<Rightarrow> nat \<Rightarrow> 'w cstate \<Rightarrow> 'w cstate \<Rightarrow> bool" where
  "same_but p n s s' \<longleftrightarrow> errno s' = errno s \<and> environ s' = environ s \<and> auxv s' = auxv s \<and>
     (\<forall>a. \<not> in_range p n a \<longrightarrow> cmem s' a = cmem s a)"

lemma fprintf_pieces:
  assumes w: "writes T (ucast (NOT stream)) out" and stream: "stream <s 0"
    and rdy: "print_ready D (cmem s)"
    and fmt: "bytes_at (cmem s) fmt (concat (map piece_fmt ps) @ [0])"
      "apart fmt (length (concat (map piece_fmt ps) @ [0])) (tmpbuf D) 21"
      "length (concat (map piece_fmt ps) @ [0]) < 2 ^ 64"
    and ok: "\<forall>x \<in> set ps. piece_ok D (cmem s) (\<lambda>p k. apart p k (tmpbuf D) 21) x"
    and line: "line = concat (map padded ps)" "length line < 2 ^ 63"
  shows "\<exists>s'. fprintf T D stream fmt (concat (map piece_args ps)) s = Some (of_nat (length line), s') \<and>
    out (kern s') = out (kern s) @ line \<and> same_but (tmpbuf D) 21 s s' \<and> print_ready D (cmem s')"
proof -
  have st: "fout.stable D p k" if "apart p k (tmpbuf D) 21" for p k
    using apart_in_range [OF that] by (simp add: fout.stable_def)
  have "fout.ready T stream out s D (cmem s) [] s"
    using w stream rdy st by (simp add: fout.ready_def print_ready_def filed_def)
  moreover have "\<forall>x \<in> set ps. piece_ok D (cmem s) (fout.stable D) x"
    using ok st piece_ok_mono by blast
  moreover have chunks: "chunks_out (unat SIZE_MAX) (map piece_out ps) = line"
    "chunks_len (unat SIZE_MAX) (map piece_out ps) = length line"
    using chunks_all [of ps "unat SIZE_MAX"] line by (simp_all add: SIZE_MAX_def)
  ultimately have "\<exists>s'. nolibc_printf (fprintf_cb T) D stream SIZE_MAX fmt (concat (map piece_args ps)) s =
      Some (of_nat (length line), s') \<and> fout.ready T stream out s D (cmem s) line s'"
    using fout.prints [of T stream out s D "cmem s" "[]" s fmt ps SIZE_MAX]
      fmt st [OF fmt(2)] line(2) by simp
  moreover have "\<not> in_range (tmpbuf D) 21 (lit_space D)"
    using rdy apart_in_range [of "lit_space D" 1 "tmpbuf D" 21 "lit_space D"] by (simp add: print_ready_def)
  ultimately show ?thesis
    using rdy by (auto simp: fprintf_def vfprintf_def fout.ready_def filed_def same_but_def print_ready_def)
qed

lemma snprintf_start:
  fixes n :: i64
  assumes buf: "mapped (cmem s) buf (unat n)" "mapped (cmem s) (state_slot D) 8"
    and frames: "apart buf (unat n) (state_slot D) 8" "apart (tmpbuf D) 21 buf (unat n)"
      "apart (tmpbuf D) 21 (state_slot D) 8"
    and rdy: "print_ready D (cmem s)"
    and still: "still = (\<lambda>p k. apart p k (tmpbuf D) 21 \<and> apart p k buf (unat n) \<and> apart p k (state_slot D) 8)"
    and space: "still (lit_space D) 1"
    and s1: "s1 = s\<lparr>cmem := poke (cmem s) (state_slot D) (le_bytes 8 (unat buf))\<rparr>"
  shows "cstore64 (state_slot D) buf s = Some s1"
    and "sout.ready buf (unat n) (state_slot D) D (cmem s) [] s1"
    and "still p k \<Longrightarrow> sout.stable buf (unat n) (state_slot D) D p k"
proof -
  let ?slot = "state_slot D" and ?n = "unat n"
  have st: "sout.stable buf ?n ?slot D p k" if "still p k" for p k
    using that apart_in_range still by (auto simp: sout.stable_def)
  then show "still p k \<Longrightarrow> sout.stable buf (unat n) (state_slot D) D p k" .
  have tmp: "in_range (tmpbuf D) 21 a \<Longrightarrow> \<not> in_range buf ?n a \<and> \<not> in_range ?slot 8 a" for a
    using frames(2,3) apart_in_range by blast
  show "cstore64 (state_slot D) buf s = Some s1" using buf(2) by (simp add: cstore64_def store64_eq s1)
  have m1: "cmem s1 a = cmem s a" if "\<not> in_range ?slot 8 a" for a using that by (simp add: poke_outside s1)
  have "load64 (cmem s1) ?slot = Some buf" unfolding s1 by simp (intro load64_bytes bytes_at_poke_self, simp)
  then have "buffered buf ?n ?slot [] s1" using buf frames(1) by (simp add: buffered_def s1)
  then show "sout.ready buf (unat n) (state_slot D) D (cmem s) [] s1"
    using rdy st [OF space] tmp m1 by (simp add: sout.ready_def print_ready_def s1)
qed

text \<open>The terminator that \<open>vsnprintf\<close> stores behind the text.\<close>

lemma snprintf_finish:
  assumes n: "0 < (n :: i64)" and b: "sout.ready buf (unat n) slot D m (take (unat n) line) s"
    and line: "length line < 2 ^ 31" "0 \<notin> set line" and k: "k = min (length line) (unat n - 1)"
  shows "(if scast (of_nat (length line) :: i32) < n then scast (of_nat (length line) :: i32) else n - 1) = (of_nat k :: i64)"
    and "cmem s (buf + of_nat k) \<noteq> None" and "in_range buf (unat n) (buf + of_nat k)"
    and "cstr ((cmem s)(buf + of_nat k \<mapsto> 0)) buf (take (unat n - 1) line)"
proof -
  let ?n = "unat n" and ?out = "take (unat n) line"
  have n1: "0 < ?n" using n by (simp add: word_less_nat_alt)
  show "(if scast (of_nat (length line) :: i32) < n then scast (of_nat (length line) :: i32) else n - 1) = (of_nat k :: i64)"
    using line(1) n1 scast_of_nat32 [OF line(1)] by (auto simp: k word_less_nat_alt min_def of_nat_diff)
  have b2: "bytes_at (cmem s) buf ?out" "mapped (cmem s) buf ?n"
    using b by (simp_all add: sout.ready_def buffered_def)
  have "unat (of_nat k :: i64) = k" using line(1) k by (intro unat_of_nat64) simp
  then show ink: "in_range buf ?n (buf + of_nat k)" using n1 k by (simp add: in_range_def)
  then show "cmem s (buf + of_nat k) \<noteq> None" using b2(2) mapped_in_range by blast
  have tk: "take (?n - 1) line = take k line" "take k ?out = take k line" by (simp_all add: k min_def)
  then have "?out = take k line @ drop k ?out" using append_take_drop_id [of k ?out] by simp
  then have "bytes_at (cmem s) buf (take k line)" using b2(1) by (metis bytes_at_append)
  moreover have len: "length (take k line) = k" by (simp add: k)
  moreover have "\<not> in_range buf k (buf + of_nat k)" using line(1) k by (intro not_in_range_after) simp
  ultimately have "bytes_at ((cmem s)(buf + of_nat k \<mapsto> 0)) buf (take k line)"
    using bytes_at_update [of buf "take k line"] by simp
  moreover have "0 \<notin> set (take k line)" using line(2) by (auto dest: in_set_takeD)
  ultimately show "cstr ((cmem s)(buf + of_nat k \<mapsto> 0)) buf (take (?n - 1) line)"
    using len tk(1) by (simp add: cstr_iff_bytes)
qed

text \<open>
  Where the terminator goes: \<open>size - 1\<close> wraps around when the size is 0, and the byte before the
  buffer is overwritten.
\<close>

lemma snprintf_body:
  fixes n :: i64
  assumes buf: "mapped (cmem s) buf (unat n)" "mapped (cmem s) (state_slot D) 8"
    and frames: "apart buf (unat n) (state_slot D) 8" "apart (tmpbuf D) 21 buf (unat n)"
      "apart (tmpbuf D) 21 (state_slot D) 8"
    and rdy: "print_ready D (cmem s)"
    and still: "still = (\<lambda>p k. apart p k (tmpbuf D) 21 \<and> apart p k buf (unat n) \<and> apart p k (state_slot D) 8)"
    and space: "still (lit_space D) 1"
    and fmt: "bytes_at (cmem s) fmt (concat (map piece_fmt ps) @ [0])"
      "still fmt (length (concat (map piece_fmt ps) @ [0]))"
      "length (concat (map piece_fmt ps) @ [0]) < 2 ^ 64"
    and ok: "\<forall>x \<in> set ps. piece_ok D (cmem s) still x \<and> fst (piece_out x) = 0"
    and line: "line = concat (map plain ps)" "length line < 2 ^ 31"
  shows "\<exists>s2. sout.ready buf (unat n) (state_slot D) D (cmem s) (take (unat n) line) s2 \<and>
    snprintf D buf n fmt (concat (map piece_args ps)) s = do {
      m \<leftarrow> store (cmem s2) (buf + (if scast (of_nat (length line) :: i32) < n then scast (of_nat (length line) :: i32) else n - 1)) 0;
      Some (of_nat (length line), s2\<lparr>cmem := m\<rparr>) }"
proof -
  let ?slot = "state_slot D" and ?n = "unat n"
  let ?s1 = "s\<lparr>cmem := poke (cmem s) ?slot (le_bytes 8 (unat buf))\<rparr>"
  note st = snprintf_start [OF buf frames rdy still space refl]
  have "\<forall>x \<in> set ps. piece_ok D (cmem s) (sout.stable buf ?n ?slot D) x"
    using ok st(3) piece_ok_mono by blast
  moreover have "chunks_out ?n (map piece_out ps) = take ?n line" "chunks_len ?n (map piece_out ps) = length line"
    using chunks_take [of ps ?n] ok line(1) by simp_all
  ultimately obtain s2 where s2: "nolibc_printf sprintf_cb D ?slot n fmt (concat (map piece_args ps)) ?s1 =
      Some (of_nat (length line), s2)" "sout.ready buf ?n ?slot D (cmem s) (take ?n line) s2"
    using sout.prints [of buf ?n ?slot D "cmem s" "[]" ?s1 fmt ps n] st(2) fmt st(3) [OF fmt(2)] line(2) by auto
  have "\<not> (of_nat (length line) :: i32) <s 0" using line(2) by (simp add: word_sless_alt sint_of_nat32)
  then show ?thesis using st(1) s2 by (intro exI [of _ s2]) (simp add: snprintf_def vsnprintf_def)
qed

lemma snprintf_pieces:
  fixes n :: i64
  assumes n: "0 < n" and buf: "mapped (cmem s) buf (unat n)" "mapped (cmem s) (state_slot D) 8"
    and frames: "apart buf (unat n) (state_slot D) 8" "apart (tmpbuf D) 21 buf (unat n)"
      "apart (tmpbuf D) 21 (state_slot D) 8"
    and rdy: "print_ready D (cmem s)"
    and still: "still = (\<lambda>p k. apart p k (tmpbuf D) 21 \<and> apart p k buf (unat n) \<and> apart p k (state_slot D) 8)"
    and space: "still (lit_space D) 1"
    and fmt: "bytes_at (cmem s) fmt (concat (map piece_fmt ps) @ [0])"
      "still fmt (length (concat (map piece_fmt ps) @ [0]))"
      "length (concat (map piece_fmt ps) @ [0]) < 2 ^ 64"
    and ok: "\<forall>x \<in> set ps. piece_ok D (cmem s) still x \<and> fst (piece_out x) = 0"
    and line: "line = concat (map plain ps)" "length line < 2 ^ 31"
  shows "\<exists>s'. snprintf D buf n fmt (concat (map piece_args ps)) s = Some (of_nat (length line), s') \<and>
    cstr (cmem s') buf (take (unat n - 1) line) \<and>
    (\<forall>a. \<not> in_range buf (unat n) a \<and> \<not> in_range (state_slot D) 8 a \<and> \<not> in_range (tmpbuf D) 21 a \<longrightarrow>
      cmem s' a = cmem s a)"
proof -
  let ?slot = "state_slot D" and ?n = "unat n" and ?k = "min (length line) (unat n - 1)"
  obtain s2 where s2: "sout.ready buf ?n ?slot D (cmem s) (take ?n line) s2"
    "snprintf D buf n fmt (concat (map piece_args ps)) s = do {
      m \<leftarrow> store (cmem s2) (buf + (if scast (of_nat (length line) :: i32) < n then scast (of_nat (length line) :: i32) else n - 1)) 0;
      Some (of_nat (length line), s2\<lparr>cmem := m\<rparr>) }"
    using snprintf_body [OF assms(2-)] by blast
  have "\<forall>x \<in> set ps. 0 \<notin> set (plain x)" using ok plain_nonzero by blast
  then have "0 \<notin> set line" using line(1) by auto
  note fin = snprintf_finish [OF n s2(1) line(2) this refl]
  have "snprintf D buf n fmt (concat (map piece_args ps)) s =
      Some (of_nat (length line), s2\<lparr>cmem := (cmem s2)(buf + of_nat ?k \<mapsto> 0)\<rparr>)"
    using s2(2) fin(1,2) by simp
  moreover have "((cmem s2)(buf + of_nat ?k \<mapsto> 0)) a = cmem s a"
    if "\<not> in_range buf ?n a" "\<not> in_range ?slot 8 a" "\<not> in_range (tmpbuf D) 21 a" for a
    using that s2(1) fin(3) by (auto simp: sout.ready_def)
  ultimately show ?thesis using fin(4) by auto
qed

lemma snprintf_nothing:
  assumes slot: "mapped (cmem s) (state_slot D) 8" "apart (tmpbuf D) 21 (state_slot D) 8"
    and prev: "cmem s (buf - 1) \<noteq> None" "still (buf - 1) 1"
    and n: "n = (0 :: i64)"
    and rdy: "print_ready D (cmem s)"
    and still: "still = (\<lambda>p k. apart p k (tmpbuf D) 21 \<and> apart p k buf (unat n) \<and> apart p k (state_slot D) 8)"
    and space: "still (lit_space D) 1"
    and fmt: "bytes_at (cmem s) fmt (concat (map piece_fmt ps) @ [0])"
      "still fmt (length (concat (map piece_fmt ps) @ [0]))"
      "length (concat (map piece_fmt ps) @ [0]) < 2 ^ 64"
    and ok: "\<forall>x \<in> set ps. piece_ok D (cmem s) still x \<and> fst (piece_out x) = 0"
    and line: "line = concat (map plain ps)" "length line < 2 ^ 31"
  shows "\<exists>s'. snprintf D buf n fmt (concat (map piece_args ps)) s = Some (of_nat (length line), s') \<and>
    cmem s' (buf - 1) = Some 0 \<and>
    (\<forall>a. a \<noteq> buf - 1 \<and> \<not> in_range (state_slot D) 8 a \<and> \<not> in_range (tmpbuf D) 21 a \<longrightarrow> cmem s' a = cmem s a)"
proof -
  let ?slot = "state_slot D"
  have "mapped (cmem s) buf (unat n)" "apart buf (unat n) ?slot 8" "apart (tmpbuf D) 21 buf (unat n)"
    using n by (simp_all add: apart_def)
  then obtain s2 where s2: "sout.ready buf (unat n) ?slot D (cmem s) (take (unat n) line) s2"
    "snprintf D buf n fmt (concat (map piece_args ps)) s = do {
      m \<leftarrow> store (cmem s2) (buf + (if scast (of_nat (length line) :: i32) < n then scast (of_nat (length line) :: i32) else n - 1)) 0;
      Some (of_nat (length line), s2\<lparr>cmem := m\<rparr>) }"
    using snprintf_body [OF _ slot(1) _ _ slot(2) rdy still space fmt ok line] by blast
  have at: "cmem s2 a = cmem s a" if "\<not> in_range ?slot 8 a" "\<not> in_range (tmpbuf D) 21 a" for a
  proof -
    have "\<not> in_range buf (unat n) a" using n by (simp add: in_range_def)
    then show ?thesis using that s2(1) by (auto simp: sout.ready_def)
  qed
  have "\<not> in_range ?slot 8 (buf - 1)" "\<not> in_range (tmpbuf D) 21 (buf - 1)"
    using prev(2) still apart_in_range [of "buf - 1" 1 _ _ "buf - 1"] by auto
  then have "cmem s2 (buf - 1) \<noteq> None" using at prev(1) by simp
  then have "snprintf D buf n fmt (concat (map piece_args ps)) s =
      Some (of_nat (length line), s2\<lparr>cmem := (cmem s2)(buf - 1 \<mapsto> 0)\<rparr>)"
    using s2(2) n by simp
  then show ?thesis using at by auto
qed

end
