(* ===== verification/StdioProps.thy ===== *)
theory StdioProps
  imports PrintfFacts Linux
begin

section \<open>Properties of streams and of formatted output\<close>

text \<open>
  The statements are about every target whose kernel keeps the contract \<open>writes\<close> or
  \<open>reads\<close> on the descriptor of the stream. Each is followed by an instance.
\<close>

text \<open>
  A kernel with an input and an output that writes at most two bytes at a time and reads one.
\<close>

definition tty_kernel ::
  "sysnr \<Rightarrow> i64 list \<Rightarrow> mem \<Rightarrow> byte list \<times> byte list \<Rightarrow> i64 \<times> mem \<times> byte list \<times> byte list" where
  "tty_kernel nr args m w =
     (case w of (inp, out) \<Rightarrow>
      if nr = ''write''
      then let k = min 2 (unat (args ! 2)) in
        (of_nat k, m, inp, out @ map (\<lambda>i. the (m (args ! 1 + of_nat i))) [0..<k])
      else if nr = ''read''
      then (if inp = [] then (0, m, inp, out) else (1, m(args ! 1 \<mapsto> hd inp), tl inp, out))
      else (- 38, m, inp, out))"

lemma bytes_at_map:
  "bytes_at m p ys \<Longrightarrow> k \<le> length ys \<Longrightarrow> map (\<lambda>i. the (m (p + of_nat i))) [0..<k] = take k ys"
  by (rule nth_equalityI) (simp_all add: bytes_at_nth)

lemma tty_writes: "writes (x86_linux tty_kernel) fd snd"
  unfolding writes_def
proof (intro allI impI)
  fix m :: mem and w :: "byte list \<times> byte list" and p ys
  assume ys: "ys \<noteq> []" "bytes_at m p ys" "length ys < 2 ^ 63"
  let ?k = "min 2 (length ys)"
  have "tty_kernel ''write'' [scast fd, p, of_nat (length ys)] m w =
      (of_nat ?k, m, fst w, snd w @ take ?k ys)"
    using bytes_at_map [OF ys(2), of ?k] ys(3) by (cases w) (simp add: tty_kernel_def Let_def)
  moreover have "0 < ?k" using ys(1) by simp
  ultimately show "\<exists>k w'. 0 < k \<and> k \<le> length ys \<and> kcall (x86_linux tty_kernel) ''write''
      [scast fd, p, of_nat (length ys)] m w = (of_nat k, m, w') \<and> snd w' = snd w @ take k ys"
    by (intro exI [of _ ?k] exI [of _ "(fst w, snd w @ take ?k ys)"]) simp
qed

lemma tty_reads: "reads (x86_linux tty_kernel) fd fst"
  unfolding reads_def
proof (intro allI impI)
  fix m :: mem and w :: "byte list \<times> byte list" and p
  show "\<exists>w'. fst w' = tl (fst w) \<and> kcall (x86_linux tty_kernel) ''read'' [scast fd, p, 1] m w =
      (if fst w = [] then (0, m, w') else (1, m(p \<mapsto> hd (fst w)), w'))"
    by (cases w) (auto simp: tty_kernel_def intro: exI [of _ "(tl (fst w), snd w)"])
qed

definition demo_data :: stdio_data where
  "demo_data = \<lparr>char_slot = 8, tmpbuf = 20, state_slot = 48, strerror_buf = 56, lit_space = 80,
     lit_null = 82, lit_empty = 90, lit_colon = 92, lit_perror = 96\<rparr>"

lemma stdout_negative: "stdout <s 0"
  by code_simp

subsection \<open>Streams\<close>

text \<open>
  A stream made from a descriptor gives that descriptor back; \<open>fclose\<close> on it is
  \<open>close\<close> on the descriptor; NULL and every value that is not a stream are refused with
  \<open>EBADF\<close> and without a system call.
\<close>

theorem streams_are_descriptors:
  "(0 \<le>s fd \<longrightarrow> fdopen T fd s = (scast (NOT fd), s) \<and> fileno T (scast (NOT fd)) s = (fd, s) \<and>
     fclose T (scast (NOT fd)) s = (if fst (close T fd s) = 0 then 0 else - 1, snd (close T fd s))) \<and>
   (0 \<le>s stream \<longrightarrow> fileno T stream s = (- 1, s\<lparr>errno := EBADF T\<rparr>) \<and>
     fclose T stream s = (- 1, s\<lparr>errno := EBADF T\<rparr>))"
proof -
  have "NOT (scast (NOT fd) :: i64) = scast fd" by (rule bit_word_eqI) (auto simp: bit_simps)
  moreover have "(ucast (scast fd :: i64) :: i32) = fd" by (rule bit_word_eqI) (auto simp: bit_simps)
  moreover have "(scast (NOT fd) :: i64) <s 0" if "0 \<le>s fd"
  proof -
    have "sint (NOT fd) = NOT (sint fd)"
      using sint_lt [of fd] sint_ge [of fd]
      by (simp add: signed_not_eq signed_take_bit_int_eq_self not_int_def)
    moreover have "sint (scast (NOT fd) :: i64) = sint (NOT fd)"
      by (rule sint_up_scast) (simp add: is_up)
    ultimately show ?thesis using that by (simp add: word_sless_alt word_sle_eq not_int_def)
  qed
  ultimately show ?thesis
    by (auto simp: fdopen_def fileno_def fclose_def SET_ERRNO_def word_sless_alt word_sle_eq
        split: prod.split)
qed

theorem streams_are_descriptors_witness:
  "fileno (x86_linux no_kernel) (fst (fdopen (x86_linux no_kernel) 5 (process Map.empty ()))) (process Map.empty ()) =
     (5, process Map.empty ())"
proof -
  have "(0 :: i32) \<le>s 5" by code_simp
  then show ?thesis using streams_are_descriptors [of 5 "x86_linux no_kernel" "process Map.empty ()"] by simp
qed

text \<open>
  Property C21. \<open>fwrite\<close> delivers all its elements in order, however short the writes of the
  kernel are, and returns their number.
\<close>

theorem fwrite_delivers:
  fixes out :: "'w \<Rightarrow> byte list"
  assumes "writes T (ucast (NOT stream)) out" and "stream <s 0" and "bytes_at (cmem s) p ys"
    and "length ys = unat nmemb * unat sz" and "length ys < 2 ^ 63"
  shows "\<exists>w'. fwrite T p sz nmemb stream s = Some (nmemb, s\<lparr>kern := w'\<rparr>) \<and> out w' = out (kern s) @ ys"
  using fwrite_loop_writes [OF assms(1-5) refl order_refl] by (simp add: fwrite_def)

theorem fwrite_delivers_witness:
  "\<exists>w'. fwrite (x86_linux tty_kernel) 8 3 1 stdout (process [8 \<mapsto> 97, 9 \<mapsto> 98, 10 \<mapsto> 99] ([], [62])) =
     Some (1, process [8 \<mapsto> 97, 9 \<mapsto> 98, 10 \<mapsto> 99] w') \<and> snd w' = [62, 97, 98, 99]"
  using fwrite_delivers [OF tty_writes stdout_negative,
      of "process [8 \<mapsto> 97, 9 \<mapsto> 98, 10 \<mapsto> 99] ([], [62])" 8 "[97, 98, 99]" 1 3]
  by (auto simp: process_def)

text \<open>
  Property C22. \<open>fgets\<close> reads up to and including a newline, the end of the input or
  \<open>size - 1\<close> characters, terminates the text, leaves the rest of the input unread, and
  returns NULL only when it read nothing.
\<close>

theorem fgets_reads_line:
  fixes inp :: "'w \<Rightarrow> byte list"
  assumes r: "reads T (ucast (NOT stream)) inp" and st: "stream <s 0"
    and n: "sz = of_nat n" "0 < n" "n < 2 ^ 31"
    and mp: "mapped (cmem s) p n" "cmem s (char_slot D) \<noteq> None" "\<not> in_range p n (char_slot D)"
    and l: "l = line_of (n - 1) (inp (kern s))"
  shows "\<exists>s'. fgets T D p sz stream s = Some (if l = [] then 0 else p, s') \<and>
    bytes_at (cmem s') p (l @ [0]) \<and> inp (kern s') = drop (length l) (inp (kern s))"
proof -
  have len: "length l < n" using length_line_of [of "n - 1" "inp (kern s)"] l n(2) by simp
  obtain s1 where s1: "fgets_loop T D p sz stream 0 s = Some (of_nat (length l), s1)"
    "bytes_at (cmem s1) p l" "mapped (cmem s1) p n"
    "inp (kern s1) = drop (length l) (inp (kern s))"
    using fgets_loop_reads [OF r st mp(3) n(3), of s "[]" "n - 1" l sz] n mp(1,2) l by auto
  let ?q = "p + of_nat (length l)"
  have "in_range p n ?q" using len n(3) by (simp add: in_range_def)
  then have q: "cmem s1 ?q \<noteq> None" using s1(3) mapped_in_range by blast
  have "(of_nat (length l) :: i32) <s sz"
    using len n(1,3) by (simp add: word_sless_alt sint_of_nat32)
  moreover have "(scast (of_nat (length l) :: i32) :: i64) = of_nat (length l)"
    using len n(3) by (intro scast_of_nat32) simp
  moreover have "(of_nat (length l) :: i32) = 0 \<longleftrightarrow> l = []"
    using len n(3) of_nat32_nonzero [of "length l"] by (cases "l = []") simp_all
  ultimately have "fgets T D p sz stream s = Some (if l = [] then 0 else p, s1\<lparr>cmem := (cmem s1)(?q \<mapsto> 0)\<rparr>)"
    using s1(1) q by (simp add: fgets_def)
  moreover have "\<not> in_range p (length l) ?q" using len n(3) by (intro not_in_range_after) simp
  ultimately show ?thesis using s1 by (auto simp: bytes_at_update)
qed

theorem fgets_reads_line_witness:
  "\<exists>s'. fgets (x86_linux tty_kernel) demo_data 4096 80 stdin
      (process (\<lambda>_. Some 7) ([104, 105, 10, 121], [])) = Some (4096, s') \<and>
    bytes_at (cmem s') 4096 [104, 105, 10, 0] \<and> fst (kern s') = [121]"
proof -
  have "stdin <s 0" by code_simp
  moreover have "line_of (80 - 1) [104, 105, 10, 121] = [104, 105, 10]" by code_simp
  moreover have "mapped (\<lambda>_. Some 7) 4096 80" by (rule mapped_total)
  ultimately show ?thesis
    using fgets_reads_line [OF tty_reads, of stdin 80 80 "process (\<lambda>_. Some 7) ([104, 105, 10, 121], [])"
        4096 demo_data "[104, 105, 10]"]
    by (auto simp: in_range_def demo_data_def)
qed

subsection \<open>Formatted output\<close>

text \<open>
  Property C3. \<open>fprintf\<close> sends the text its format describes to the stream, padded to the
  widths, whatever the lengths of the kernel's writes, and returns its length; memory other
  than \<^verbatim>\<open>tmpbuf\<close> is left alone. A format is given by its pieces.
\<close>

theorem fprintf_prints:
  fixes out :: "'w \<Rightarrow> byte list"
  assumes w: "writes T (ucast (NOT stream)) out" and stream: "stream <s 0"
    and rdy: "print_ready D (cmem s)"
    and fmt: "bytes_at (cmem s) fmt (concat (map piece_fmt ps) @ [0])"
      "apart fmt (length (concat (map piece_fmt ps) @ [0])) (tmpbuf D) 21"
      "length (concat (map piece_fmt ps) @ [0]) < 2 ^ 64"
    and ok: "\<forall>x \<in> set ps. piece_ok D (cmem s) (\<lambda>p k. apart p k (tmpbuf D) 21) x"
    and line: "line = concat (map padded ps)" "length line < 2 ^ 63"
  shows "\<exists>s'. fprintf T D stream fmt (concat (map piece_args ps)) s = Some (of_nat (length line), s') \<and>
    out (kern s') = out (kern s) @ line \<and>
    (\<forall>a. \<not> in_range (tmpbuf D) 21 a \<longrightarrow> cmem s' a = cmem s a)"
  using fprintf_pieces [OF assms] by (auto simp: same_but_def)

definition demo_mem :: mem where
  "demo_mem = poke (poke ((\<lambda>_. Some 7)(80 \<mapsto> 32)) 100 [37, 51, 100, 37, 37, 0]) 120 [37, 115, 33, 0, 97, 98, 99, 100, 0]"

lemma demo_ready: "print_ready demo_data demo_mem"
proof -
  have "mapped demo_mem 20 21" unfolding demo_mem_def by (intro mapped_poke mapped_update mapped_total)
  then show ?thesis by (simp add: print_ready_def demo_data_def demo_mem_def apart_def poke_outside in_range_def)
qed

theorem fprintf_prints_witness:
  "\<exists>s'. fprintf (x86_linux tty_kernel) demo_data stdout 100 [5] (process demo_mem ([], [])) = Some (4, s') \<and>
    snd (kern s') = [32, 32, 53, 37]"
proof -
  let ?ps = "[Num 0 [51] 100 5, Percent]" and ?s = "process demo_mem ([] :: byte list, [] :: byte list)"
  have "digits_in 10 5 = [53]" by (simp add: digits_in.simps digit_def)
  moreover have "sint (scast (ucast (5 :: i64) :: i32) :: i64) = 5" by code_simp
  ultimately have line: "concat (map padded ?ps) = [32, 32, 53, 37]"
    by (simp add: padded_def conv_text_def num_value_def int_text_def dec_value_def numeral_3_eq_3)
  have fmt: "bytes_at demo_mem 100 [37, 51, 100, 37, 37, 0]"
    by (simp add: demo_mem_def)
  have "\<exists>s'. fprintf (x86_linux tty_kernel) demo_data stdout 100 (concat (map piece_args ?ps)) ?s = Some (of_nat (length [32, 32, 53, 37 :: byte]), s') \<and>
      snd (kern s') = snd (kern ?s) @ [32, 32, 53, 37] \<and>
      (\<forall>a. \<not> in_range (tmpbuf demo_data) 21 a \<longrightarrow> cmem s' a = cmem ?s a)"
    using demo_ready fmt line
    by (intro fprintf_prints [where ps = ?ps, OF tty_writes stdout_negative])
      (simp_all add: demo_data_def apart_def is_digit_def dec_value_def)
  then show ?thesis by auto
qed

text \<open>
  Property C5. \<open>snprintf\<close> without widths returns the length of the whole text, and, into a
  buffer of at least one byte, never writes outside it: it stores as much of the text as fits in
  \<open>size - 1\<close> characters and terminates it. With size 0 it stores a zero in the byte before the buffer
  and nothing else. \<open>still\<close> is the set of blocks the call must not touch.
\<close>

theorem snprintf_truncates:
  fixes n :: i64
  assumes buf: "mapped (cmem s) buf (unat n)" "mapped (cmem s) (state_slot D) 8"
    and frames: "apart buf (unat n) (state_slot D) 8" "apart (tmpbuf D) 21 buf (unat n)"
      "apart (tmpbuf D) 21 (state_slot D) 8"
    and prev: "n = 0 \<Longrightarrow> cmem s (buf - 1) \<noteq> None \<and> still (buf - 1) 1"
    and rdy: "print_ready D (cmem s)"
    and still: "still = (\<lambda>p k. apart p k (tmpbuf D) 21 \<and> apart p k buf (unat n) \<and> apart p k (state_slot D) 8)"
    and space: "still (lit_space D) 1"
    and fmt: "bytes_at (cmem s) fmt (concat (map piece_fmt ps) @ [0])"
      "still fmt (length (concat (map piece_fmt ps) @ [0]))"
      "length (concat (map piece_fmt ps) @ [0]) < 2 ^ 64"
    and ok: "\<forall>x \<in> set ps. piece_ok D (cmem s) still x \<and> fst (piece_out x) = 0"
    and line: "line = concat (map plain ps)" "length line < 2 ^ 31"
  shows "\<exists>s'. snprintf D buf n fmt (concat (map piece_args ps)) s = Some (of_nat (length line), s') \<and>
    (if n = 0
     then cmem s' (buf - 1) = Some 0 \<and>
       (\<forall>a. a \<noteq> buf - 1 \<and> \<not> in_range (state_slot D) 8 a \<and> \<not> in_range (tmpbuf D) 21 a \<longrightarrow> cmem s' a = cmem s a)
     else cstr (cmem s') buf (take (unat n - 1) line) \<and>
       (\<forall>a. \<not> in_range buf (unat n) a \<and> \<not> in_range (state_slot D) 8 a \<and> \<not> in_range (tmpbuf D) 21 a \<longrightarrow>
         cmem s' a = cmem s a))"
proof (cases "n = 0")
  case True
  then show ?thesis
    using snprintf_nothing [OF buf(2) frames(3) _ _ True rdy still space fmt ok line] prev by simp
next
  case False
  then have "0 < n" by (simp add: word_neq_0_conv)
  from snprintf_pieces [OF this buf frames rdy still space fmt ok line] False show ?thesis by simp
qed

theorem snprintf_truncates_witness:
  "\<exists>s'. snprintf demo_data 200 4 120 [124] (process demo_mem ()) = Some (5, s') \<and>
    cstr (cmem s') 200 [97, 98, 99]"
proof -
  let ?ps = "[Str 0 [] 124 [97, 98, 99, 100], Lit [33]]"
  have line: "concat (map plain ?ps) = [97, 98, 99, 100, 33]" by (simp add: plain_def)
  have b: "bytes_at demo_mem 120 [37, 115, 33, 0]" "cstr demo_mem 124 [97, 98, 99, 100]"
    by (simp_all add: demo_mem_def)
  have mp: "mapped demo_mem p k" for p k
    unfolding demo_mem_def by (intro mapped_poke mapped_update mapped_total)
  have "\<exists>s'. snprintf demo_data 200 4 120 (concat (map piece_args ?ps)) (process demo_mem ()) =
        Some (of_nat (length [97, 98, 99, 100, 33 :: byte]), s') \<and>
      (if (4 :: i64) = 0
       then cmem s' (200 - 1) = Some 0 \<and>
         (\<forall>a. a \<noteq> 200 - 1 \<and> \<not> in_range (state_slot demo_data) 8 a \<and> \<not> in_range (tmpbuf demo_data) 21 a \<longrightarrow>
           cmem s' a = cmem (process demo_mem ()) a)
       else cstr (cmem s') 200 (take (unat (4 :: i64) - 1) [97, 98, 99, 100, 33]) \<and>
         (\<forall>a. \<not> in_range 200 (unat (4 :: i64)) a \<and> \<not> in_range (state_slot demo_data) 8 a \<and>
           \<not> in_range (tmpbuf demo_data) 21 a \<longrightarrow> cmem s' a = cmem (process demo_mem ()) a))"
    using demo_ready b line mp
    by (intro snprintf_truncates [where ps = ?ps, OF _ _ _ _ _ _ _ refl])
      (simp_all add: demo_data_def apart_def dec_value_def)
  then show ?thesis by auto
qed

end
