(* ===== verification/HeapMachine.thy ===== *)
theory HeapMachine
  imports CHeap
begin

section \<open>The allocator as a state machine\<close>

text \<open>
  The operations of \<^verbatim>\<open>src/stdlib.h\<close> as the steps of a program that uses them, the
  invariant of its states, an abstract allocator, and the simulation between the two.
\<close>

subsection \<open>The machine\<close>

text \<open>
  What the allocator relies on, for page-aligned ranges and lengths that are multiples of the page
  size: \<^verbatim>\<open>mmap\<close> fails without an effect or adds a zeroed mapping where nothing was
  mapped, \<^verbatim>\<open>munmap\<close> of mapped pages removes them.
\<close>

definition page_kernel :: "'w target \<Rightarrow> bool" where
  "page_kernel T \<longleftrightarrow>
     (\<forall>n s r m w. 4096 dvd n \<longrightarrow> 0 < n \<longrightarrow> n < 2 ^ 64 \<longrightarrow> heap_call T (of_nat n) s = (r, m, w) \<longrightarrow>
        - 4095 \<le> r \<and> m = cmem s \<or> r AND 4095 = 0 \<and> granted (cmem s) m r n) \<and>
     (\<forall>n p m w. 4096 dvd n \<longrightarrow> n < 2 ^ 64 \<longrightarrow> p AND 4095 = 0 \<longrightarrow> mapped m p n \<longrightarrow>
        released m (fst (snd (kcall T ''munmap'' [p, of_nat n] m w))) p n)"

text \<open>
  The length \<open>malloc\<close> asks the kernel for, with the wrap-around of \<^verbatim>\<open>size_t\<close>; requests for which
  there is none; the bytes of an area.
\<close>

definition block_len :: "i64 \<Rightarrow> nat" where
  "block_len n = unat (((16 + n) + 4095) AND - 4096)"

definition fits :: "i64 \<Rightarrow> bool" where
  "fits n \<longleftrightarrow> unat n + 4111 < 2 ^ 64"

definition contents :: "mem \<Rightarrow> addr \<Rightarrow> nat \<Rightarrow> byte list" where
  "contents m p n = List.map (\<lambda>i. the (m (p + of_nat i))) [0..<n]"

text \<open>
  A program that uses the allocator: it requests, releases and resizes blocks (or requests one
  by resizing NULL), of any size, writes into its blocks, and does anything else that leaves them
  alone. The events carry the results. The second component of a state holds the live blocks: pointers
  handed out and the length of their mappings. \<open>op_fits\<close> is the bound on a request that the properties
  need.
\<close>

datatype heap_op = Malloc i64 addr | Release addr | Resize addr i64 addr | Put addr nat byte | Other

fun op_fits :: "heap_op \<Rightarrow> bool" where
  "op_fits (Malloc n p) = fits n"
| "op_fits (Resize p n q) = fits n"
| "op_fits op = True"

type_synonym 'w heap_state = "'w cstate \<times> (addr \<rightharpoonup> nat)"

inductive heap_step :: "'w target \<Rightarrow> 'w heap_state \<Rightarrow> heap_op \<Rightarrow> 'w heap_state \<Rightarrow> bool"
  for T where
  alloc: "malloc T n s = Some (p, s') \<Longrightarrow>
    heap_step T (s, L) (Malloc n p) (s', if p = 0 then L else L(p \<mapsto> block_len n))"
| release: "p = 0 \<or> p \<in> dom L \<Longrightarrow> free T p s = Some s' \<Longrightarrow>
    heap_step T (s, L) (Release p) (s', L(p := None))"
| resize: "p = 0 \<or> p \<in> dom L \<Longrightarrow> realloc T p n s = Some (q, s') \<Longrightarrow>
    heap_step T (s, L) (Resize p n q)
      (s', if q = 0 \<or> q = p then L else L(p := None, q \<mapsto> block_len n))"
| put: "L p = Some blk \<Longrightarrow> i < blk - 16 \<Longrightarrow>
    heap_step T (s, L) (Put p i b) (s\<lparr>cmem := (cmem s)(p + of_nat i \<mapsto> b)\<rparr>, L)"
| other: "(\<And>p blk a. L p = Some blk \<Longrightarrow> in_range (p - 16) blk a \<Longrightarrow> cmem s' a = cmem s a) \<Longrightarrow>
    heap_step T (s, L) Other (s', L)"

inductive_cases heap_step_MallocE: "heap_step T \<sigma> (Malloc n p) \<sigma>'"
inductive_cases heap_step_ReleaseE: "heap_step T \<sigma> (Release p) \<sigma>'"

inductive heap_run :: "'w target \<Rightarrow> 'w heap_state \<Rightarrow> heap_op list \<Rightarrow> 'w heap_state \<Rightarrow> bool"
  for T where
  none: "heap_run T \<sigma> [] \<sigma>"
| more: "heap_step T \<sigma> op \<sigma>' \<Longrightarrow> heap_run T \<sigma>' ops \<sigma>'' \<Longrightarrow> heap_run T \<sigma> (op # ops) \<sigma>''"

text \<open>
  The invariant: each live block is a mapping of its own, with its length in the header, and two
  blocks have no byte in common.
\<close>

definition own_pages :: "addr \<Rightarrow> nat \<Rightarrow> bool" where
  "own_pages p blk \<longleftrightarrow> (p - 16) AND 4095 = 0 \<and> 4096 dvd blk"

definition heap_inv :: "'w heap_state \<Rightarrow> bool" where
  "heap_inv \<sigma> \<longleftrightarrow>
     (\<forall>p blk. snd \<sigma> p = Some blk \<longrightarrow> heap_block (fst \<sigma>) p blk \<and> own_pages p blk) \<and>
     (\<forall>p q b c. snd \<sigma> p = Some b \<longrightarrow> snd \<sigma> q = Some c \<longrightarrow> p \<noteq> q \<longrightarrow> apart (p - 16) b (q - 16) c)"

subsection \<open>The specification\<close>

text \<open>
  An allocator promises its client a map from pointers to byte sequences: a new area is not
  live before, is at least as large as requested and consists of zeros, a resized one keeps its bytes, a write changes one
  byte, and nothing else changes. \<open>heap_abs\<close> is what the client sees of a state.
\<close>

definition heap_abs :: "'w heap_state \<Rightarrow> addr \<rightharpoonup> byte list" where
  "heap_abs \<sigma> = (\<lambda>p. map_option (\<lambda>blk. contents (cmem (fst \<sigma>)) p (blk - 16)) (snd \<sigma> p))"

inductive spec_step :: "(addr \<rightharpoonup> byte list) \<Rightarrow> heap_op \<Rightarrow> (addr \<rightharpoonup> byte list) \<Rightarrow> bool" where
  "p \<noteq> 0 \<Longrightarrow> p \<notin> dom H \<Longrightarrow> unat n \<le> k \<Longrightarrow> spec_step H (Malloc n p) (H(p \<mapsto> replicate k 0))"
| "spec_step H (Malloc n 0) H"
| "spec_step H (Release p) (H(p := None))"
| "spec_step H (Resize p n 0) H"
| "H p = Some xs \<Longrightarrow> unat n \<le> length xs \<Longrightarrow> spec_step H (Resize p n p) H"
| "H p = Some xs \<Longrightarrow> q \<noteq> 0 \<Longrightarrow> q \<notin> dom H \<Longrightarrow> unat n \<le> length xs + k \<Longrightarrow>
    spec_step H (Resize p n q) (H(p := None, q \<mapsto> xs @ replicate k 0))"
| "H p = Some xs \<Longrightarrow> i < length xs \<Longrightarrow> spec_step H (Put p i b) (H(p \<mapsto> xs[i := b]))"
| "spec_step H Other H"
| "spec_step H (Malloc n q) H' \<Longrightarrow> spec_step H (Resize 0 n q) H'"

inductive spec_run :: "(addr \<rightharpoonup> byte list) \<Rightarrow> heap_op list \<Rightarrow> (addr \<rightharpoonup> byte list) \<Rightarrow> bool" where
  "spec_run H [] H"
| "spec_step H op H' \<Longrightarrow> spec_run H' ops H'' \<Longrightarrow> spec_run H (op # ops) H''"

inductive_cases spec_step_MallocE: "spec_step H (Malloc n p) H'"
inductive_simps spec_run_none: "spec_run H [] H'"
inductive_simps spec_run_more: "spec_run H (op # ops) H'"

lemma spec_run_single: "spec_run H [op] H' \<longleftrightarrow> spec_step H op H'"
  by (simp add: spec_run_none spec_run_more)

subsection \<open>Blocks and their bytes\<close>

lemma contents_bytes: "bytes_at m p xs \<Longrightarrow> contents m p (length xs) = xs"
  by (rule nth_equalityI) (simp_all add: contents_def bytes_at_nth)

lemma length_contents [simp]: "length (contents m p n) = n"
  by (simp add: contents_def)

lemma contents_cong:
  "(\<And>a. in_range p n a \<Longrightarrow> m' a = m a) \<Longrightarrow> n \<le> 2 ^ 64 \<Longrightarrow> contents m' p n = contents m p n"
  unfolding contents_def
proof (rule map_cong [OF refl])
  fix i assume m: "\<And>a. in_range p n a \<Longrightarrow> m' a = m a" and "n \<le> 2 ^ 64" "i \<in> set [0..<n]"
  then have "in_range p n (p + of_nat i)" by (simp add: in_range_def)
  then show "the (m' (p + of_nat i)) = the (m (p + of_nat i))" by (simp add: m)
qed

lemma block_size_pages: "4096 dvd block_size n" "0 < block_size n"
  using block_size_bounds [of n] by (simp_all add: block_size_def)

lemma block_len_fits: "fits n \<Longrightarrow> block_len n = block_size (unat n)"
proof -
  assume "fits n"
  then have n: "unat n + 4111 < 2 ^ 64" by (simp only: fits_def)
  moreover have "block_size (unat n) < 2 ^ 64" using n block_size_bounds(2) [of "unat n"] by linarith
  ultimately show ?thesis unfolding block_len_def by (simp only: malloc_length unat_of_nat64)
qed

lemma heap_block_cong:
  assumes "heap_block s p blk" and "\<And>a. in_range (p - 16) blk a \<Longrightarrow> cmem s' a = cmem s a"
  shows "heap_block s' p blk"
proof -
  have blk: "16 \<le> blk" "blk < 2 ^ 64" using assms(1) by (auto simp: heap_block_def)
  have "load_le (cmem s') (p - 16) 8 = load_le (cmem s) (p - 16) 8"
    using assms(2) blk by (intro load_le_cong) (auto dest: in_range_mono [where k = blk])
  moreover have "mapped (cmem s') (p - 16) blk"
    using assms blk by (intro mapped_cong [of "p - 16" blk "cmem s'" "cmem s"]) (auto simp: heap_block_def)
  ultimately show ?thesis using assms(1) by (simp add: heap_block_def load64_def)
qed

lemma user_in_block:
  assumes "heap_block s p blk" and "in_range p (blk - 16) a"
  shows "in_range (p - 16) blk a"
  using in_range_add [of 16 "blk - 16" blk "p - 16" a] assms by (simp add: heap_block_def)

definition fresh :: "'w cstate \<Rightarrow> 'w cstate \<Rightarrow> addr \<Rightarrow> nat \<Rightarrow> bool" where
  "fresh s s' q blk \<longleftrightarrow>
     q \<noteq> 0 \<and> heap_block s' q blk \<and> own_pages q blk \<and>
     (\<forall>a. in_range (q - 16) blk a \<longrightarrow> cmem s a = None)"

lemma malloc_cases:
  fixes n :: i64 and s :: "'w cstate"
  assumes "page_kernel T" and n: "fits n"
  shows "\<exists>r s'. malloc T n s = Some (r, s') \<and>
    (r = 0 \<and> cmem s' = cmem s \<or>
     fresh s s' r (block_size (unat n)) \<and>
     contents (cmem s') r (block_size (unat n) - 16) = replicate (block_size (unat n) - 16) 0 \<and>
     (\<forall>a. cmem s a \<noteq> None \<longrightarrow> cmem s' a = cmem s a))"
proof -
  let ?k = "block_size (unat n)"
  have nn: "unat n + 4111 < 2 ^ 64" using n by (simp add: fits_def)
  have k: "?k < 2 ^ 64" "16 + unat n \<le> ?k" using block_size_bounds [of "unat n"] nn by linarith+
  obtain p m w where call: "heap_call T (of_nat ?k) s = (p, m, w)" by (cases "heap_call T (of_nat ?k) s") auto
  from assms(1) block_size_pages [of "unat n"] k(1) call
  consider "- 4095 \<le> p" "m = cmem s" | "p AND 4095 = 0" "granted (cmem s) m p ?k"
    unfolding page_kernel_def by blast
  then show ?thesis
  proof cases
    case 1
    then show ?thesis using malloc_failed [OF nn call] by simp
  next
    case 2
    let ?s = "s\<lparr>cmem := poke m p (le_bytes 8 ?k), kern := w\<rparr>"
    note res = malloc_result [OF nn call 2(2) refl]
    have un: "unat (p + 16) = unat p + 16"
      using 2(2) k(2) by (intro user_pointer) (auto simp: granted_def)
    then have "p + 16 \<noteq> 0" by auto
    then have "fresh s ?s (p + 16) ?k"
      using res(3) 2 block_size_pages by (auto simp: fresh_def own_pages_def granted_def)
    moreover have "contents (cmem ?s) (p + 16) (?k - 16) = replicate (?k - 16) 0"
    proof (rule nth_equalityI)
      fix i assume "i < length (contents (cmem ?s) (p + 16) (?k - 16))"
      then have i: "i < ?k - 16" by simp
      have a: "in_range (p + 16) (?k - 16) (p + 16 + of_nat i)" using i k by (simp add: in_range_def)
      then have "in_range p ?k (p + 16 + of_nat i)" using in_range_add [of 16 "?k - 16" ?k p] k by simp
      then have "m (p + 16 + of_nat i) = Some 0" using 2(2) by (simp add: granted_def)
      moreover have "\<not> in_range p 8 (p + 16 + of_nat i)"
      proof -
        have "p + 16 + of_nat i = p + of_nat (16 + i)" by simp
        then show ?thesis using unat_of_nat64 [of "16 + i"] i k unfolding in_range_def by simp
      qed
      ultimately show "contents (cmem ?s) (p + 16) (?k - 16) ! i = replicate (?k - 16) 0 ! i"
        using i by (simp add: contents_def poke_outside)
    qed simp
    ultimately show ?thesis using res(1,4) by blast
  qed
qed

lemma free_cases:
  assumes "page_kernel T" and hb: "heap_block s p blk" and "own_pages p blk"
  shows "\<exists>s'. free T p s = Some s' \<and> released (cmem s) (cmem s') (p - 16) blk"
proof -
  have "mapped (cmem s) (p - 16) blk" "blk < 2 ^ 64" using hb by (auto simp: heap_block_def)
  then have "released (cmem s) (cmem (snd (munmap T (p - 16) (of_nat blk) s))) (p - 16) blk"
    using assms(1,3) unfolding munmap_memory page_kernel_def own_pages_def by blast
  then show ?thesis using free_block [OF hb] by blast
qed

lemma contents_mapped: "mapped m p n \<Longrightarrow> bytes_at m p (contents m p n)"
proof -
  assume "mapped m p n"
  then obtain xs where "length xs = n" "bytes_at m p xs" using mapped_bytes by blast
  then show ?thesis using contents_bytes by metis
qed

lemma user_mapped:
  assumes "heap_block s p blk"
  shows "mapped (cmem s) p (blk - 16)"
  using assms mapped_part [of "cmem s" "p - 16" blk 16 "blk - 16"] by (simp add: heap_block_def)

lemma unmapped_apart:
  assumes "\<And>a. in_range p n a \<Longrightarrow> m a = None" and "mapped m q k"
  shows "apart p n q k"
  using assms(1) mapped_in_range [OF assms(2)] by (intro apartI) blast

lemma contents_poke:
  assumes "contents m q (length xs + k) = replicate (length xs + k) 0" and "length xs + k \<le> 2 ^ 64"
  shows "contents (poke m q xs) q (length xs + k) = xs @ replicate k 0"
proof (rule nth_equalityI)
  fix i assume "i < length (contents (poke m q xs) q (length xs + k))"
  then have i: "i < length xs + k" by simp
  show "contents (poke m q xs) q (length xs + k) ! i = (xs @ replicate k 0) ! i"
  proof (cases "i < length xs")
    case True
    have "bytes_at (poke m q xs) q xs" using assms(2) by (intro bytes_at_poke_self) simp
    then show ?thesis using True i by (simp add: contents_def nth_append bytes_at_nth)
  next
    case False
    then have "\<not> in_range q (length xs) (q + of_nat i)"
      using i assms(2) unat_of_nat64 [of i] by (simp add: in_range_def)
    moreover have "the (m (q + of_nat i)) = 0"
      using arg_cong [OF assms(1), of "\<lambda>xs. xs ! i"] i by (simp add: contents_def)
    ultimately show ?thesis using False i by (simp add: contents_def nth_append poke_outside)
  qed
qed simp

lemma heap_block_header:
  assumes hb: "heap_block s p blk" and out: "\<And>a. \<not> in_range p (blk - 16) a \<Longrightarrow> cmem s' a = cmem s a"
    and mp: "mapped (cmem s') (p - 16) blk"
  shows "heap_block s' p blk"
proof -
  have blk: "16 \<le> blk" "blk < 2 ^ 64" using hb by (auto simp: heap_block_def)
  have ap: "apart p (blk - 16) (p - 16) 16"
    using apart_next [of 16 "blk - 16" "p - 16"] blk by simp
  have "load_le (cmem s') (p - 16) 8 = load_le (cmem s) (p - 16) 8"
    using apart_in_range [OF apart_sym [OF ap]] by (intro load_le_cong out) (auto dest: in_range_mono [where k = 16])
  then show ?thesis using hb mp by (simp add: heap_block_def load64_def)
qed

text \<open>
  The outcomes of \<open>realloc\<close>. Before it releases the old block \<open>p\<close>, the new block \<open>q\<close>, which
  \<open>malloc\<close> placed where nothing was mapped, gets its bytes.
\<close>

lemma fresh_apart:
  assumes fr: "fresh s s1 q new" and mp: "mapped (cmem s) p' k"
  shows "apart (q - 16) new p' k" and "i \<le> new - 16 \<Longrightarrow> apart q i p' k"
proof -
  show ap: "apart (q - 16) new p' k" using fr mp unfolding fresh_def by (intro unmapped_apart [where m = "cmem s"]) auto
  have hb: "heap_block s1 q new" using fr by (simp add: fresh_def)
  assume "i \<le> new - 16"
  then have "in_range (q - 16) new a" if "in_range q i a" for a
    using that hb by (intro user_in_block [OF hb]) (auto simp: heap_block_def elim: in_range_mono)
  then show "apart q i p' k" using apart_in_range [OF ap] by (intro apartI) blast
qed

lemma copied_block:
  assumes hb: "heap_block s p blk" and fr: "fresh s s1 q new" and new: "blk < new"
    and z: "contents (cmem s1) q (new - 16) = replicate (new - 16) 0"
    and keep: "\<forall>a. cmem s a \<noteq> None \<longrightarrow> cmem s1 a = cmem s a"
    and xs: "xs = contents (cmem s) p (blk - 16)"
  shows "memcpy (cmem s1) q p (of_nat blk - 16) = Some (q, poke (cmem s1) q xs)"
    and "heap_block (s1\<lparr>cmem := poke (cmem s1) q xs\<rparr>) q new"
    and "contents (poke (cmem s1) q xs) q (new - 16) = xs @ replicate (new - blk) 0"
    and "cmem s a \<noteq> None \<Longrightarrow> poke (cmem s1) q xs a = cmem s a"
proof -
  have blk: "16 \<le> blk" "blk < 2 ^ 64" using hb by (auto simp: heap_block_def)
  have nb: "heap_block s1 q new" "new < 2 ^ 64" using fr by (auto simp: fresh_def heap_block_def)
  have l: "new - 16 = length xs + (new - blk)" "length xs \<le> new - 16" using new blk xs by simp_all
  have "unat (of_nat blk - 16 :: i64) = blk - 16"
    using blk unat_of_nat64 [of "blk - 16"] by (simp add: of_nat_diff)
  moreover have "bytes_at (cmem s1) p xs"
    unfolding xs using contents_mapped [OF user_mapped [OF hb]] keep by (auto intro: bytes_at_mono [of "cmem s"])
  moreover have "mapped (cmem s1) q (length xs)" using user_mapped [OF nb(1)] l(2) by (rule mapped_mono)
  moreover have "apart q (length xs) p (blk - 16)" using fresh_apart(2) [OF fr user_mapped [OF hb] l(2)] .
  ultimately show "memcpy (cmem s1) q p (of_nat blk - 16) = Some (q, poke (cmem s1) q xs)"
    using xs mcpy.ok_apart by (intro mcpy.copy_poke) simp_all
  show "heap_block (s1\<lparr>cmem := poke (cmem s1) q xs\<rparr>) q new"
  proof (rule heap_block_header [OF nb(1)])
    show "mapped (cmem (s1\<lparr>cmem := poke (cmem s1) q xs\<rparr>)) (q - 16) new" using nb(1) by (simp add: heap_block_def)
    fix a assume "\<not> in_range q (new - 16) a"
    then show "cmem (s1\<lparr>cmem := poke (cmem s1) q xs\<rparr>) a = cmem s1 a"
      using in_range_mono [of q "length xs" a "new - 16"] l(2) by (auto intro!: poke_outside)
  qed
  show "contents (poke (cmem s1) q xs) q (new - 16) = xs @ replicate (new - blk) 0"
    unfolding l(1)
  proof (rule contents_poke)
    show "contents (cmem s1) q (length xs + (new - blk)) = replicate (length xs + (new - blk)) 0" using z by (simp only: l(1))
    show "length xs + (new - blk) \<le> 2 ^ 64" using nb(2) l(1) by linarith
  qed
  assume a: "cmem s a \<noteq> None"
  then have "mapped (cmem s) a 1" by auto
  then have "apart q (length xs) a 1" using fresh_apart(2) [OF fr _ l(2)] by blast
  then have "\<not> in_range q (length xs) a" using apart_in_range by fastforce
  then show "poke (cmem s1) q xs a = cmem s a" using keep a by (simp add: poke_outside)
qed

lemma realloc_grows:
  assumes K: "page_kernel T" and hb: "heap_block s p blk" and own: "own_pages p blk" and small: "blk < unat n + 16"
    and m: "malloc T n s = Some (q, s1)" and fr: "fresh s s1 q new" and new: "blk < new"
    and z: "contents (cmem s1) q (new - 16) = replicate (new - 16) 0"
    and keep: "\<forall>a. cmem s a \<noteq> None \<longrightarrow> cmem s1 a = cmem s a"
  shows "\<exists>s'. realloc T p n s = Some (q, s') \<and> fresh s s' q new \<and>
    contents (cmem s') q (new - 16) = contents (cmem s) p (blk - 16) @ replicate (new - blk) 0 \<and>
    (\<forall>a. cmem s a \<noteq> None \<longrightarrow> \<not> in_range (p - 16) blk a \<longrightarrow> cmem s' a = cmem s a)"
proof -
  let ?xs = "contents (cmem s) p (blk - 16)"
  let ?m = "poke (cmem s1) q ?xs"
  let ?s2 = "s1\<lparr>cmem := ?m\<rparr>"
  let ?s' = "snd (munmap T (p - 16) (of_nat blk) ?s2)"
  note cp = copied_block [OF hb fr new z keep refl]
  have blk: "16 \<le> blk" "blk < 2 ^ 64" "p \<noteq> 0" "load64 (cmem s) (p - 16) = Some (of_nat blk)"
    "mapped (cmem s) (p - 16) blk" using hb by (auto simp: heap_block_def)
  have at_p: "?m a = cmem s a" if "in_range (p - 16) blk a" for a using cp(4) mapped_in_range [OF blk(5) that] .
  have "load_le ?m (p - 16) 8 = load_le (cmem s) (p - 16) 8"
    using at_p blk(1) by (intro load_le_cong) (auto dest: in_range_mono [where k = blk])
  then have ld: "load64 ?m (p - 16) = Some (of_nat blk)" using blk(4) by (simp add: load64_def)
  have "mapped ?m (p - 16) blk" using at_p blk by (intro mapped_cong [OF _ _ blk(5)]) auto
  then have rel: "released ?m (cmem ?s') (p - 16) blk"
    using K own blk(2) unfolding munmap_memory page_kernel_def own_pages_def by simp
  then have at: "cmem ?s' a = ?m a" if "\<not> in_range (p - 16) blk a" for a using that by (simp add: released_def)
  have at_q: "cmem ?s' a = cmem ?s2 a" if "in_range (q - 16) new a" for a
    using apart_in_range [OF fresh_apart(1) [OF fr blk(5)] that] at by simp
  have "unat (of_nat blk - 16 :: i64) = blk - 16" using blk unat_of_nat64 [of "blk - 16"] by (simp add: of_nat_diff)
  then have "\<not> n \<le> of_nat blk - 16" using small blk by (simp add: word_le_nat_alt)
  moreover have "q \<noteq> 0" using fr by (simp add: fresh_def)
  ultimately have "realloc T p n s = Some (q, ?s')"
    using blk m cp(1) ld by (auto simp: realloc_def cload64_def Let_def)
  moreover have "heap_block ?s' q new" using cp(2) at_q by (rule heap_block_cong)
  then have "fresh s ?s' q new" using fr by (simp add: fresh_def)
  moreover have "contents (cmem ?s') q (new - 16) = contents ?m q (new - 16)"
  proof (rule contents_cong)
    fix a assume "in_range q (new - 16) a"
    then show "cmem ?s' a = ?m a" using at_q user_in_block [OF cp(2)] by simp
  qed (use fr in \<open>auto simp: fresh_def heap_block_def\<close>)
  ultimately show ?thesis using at cp(3,4) by auto
qed

lemma realloc_cases:
  fixes s :: "'w cstate" and n :: i64
  defines "new \<equiv> block_size (unat n)"
  assumes K: "page_kernel T" and hb: "heap_block s p blk" and own: "own_pages p blk" and n: "fits n"
  shows "\<exists>q s'. realloc T p n s = Some (q, s') \<and>
    (q = p \<and> s' = s \<and> unat n + 16 \<le> blk \<or>
     q = 0 \<and> cmem s' = cmem s \<or>
     fresh s s' q new \<and> blk < unat n + 16 \<and>
     contents (cmem s') q (new - 16) = contents (cmem s) p (blk - 16) @ replicate (new - blk) 0 \<and>
     (\<forall>a. cmem s a \<noteq> None \<longrightarrow> \<not> in_range (p - 16) blk a \<longrightarrow> cmem s' a = cmem s a))"
proof (cases "unat n + 16 \<le> blk")
  case True
  then show ?thesis using realloc_keeps [OF hb True] by blast
next
  case False
  then have small: "blk < unat n + 16" by simp
  obtain q s1 where m: "malloc T n s = Some (q, s1)" and
    cs: "q = 0 \<and> cmem s1 = cmem s \<or> fresh s s1 q new \<and>
       contents (cmem s1) q (new - 16) = replicate (new - 16) 0 \<and>
       (\<forall>a. cmem s a \<noteq> None \<longrightarrow> cmem s1 a = cmem s a)"
    using malloc_cases [OF K n, of s] unfolding new_def by blast
  show ?thesis
  proof (cases "q = 0")
    case True
    have blk: "16 \<le> blk" "blk < 2 ^ 64" "p \<noteq> 0" "load64 (cmem s) (p - 16) = Some (of_nat blk)"
      using hb by (auto simp: heap_block_def)
    then have "unat (of_nat blk - 16 :: i64) = blk - 16" using unat_of_nat64 [of "blk - 16"] by (simp add: of_nat_diff)
    then have "\<not> n \<le> of_nat blk - 16" using small blk by (simp add: word_le_nat_alt)
    then have "realloc T p n s = Some (0, s1)" "cmem s1 = cmem s"
      using True m cs blk by (auto simp: realloc_def cload64_def Let_def fresh_def)
    then show ?thesis by blast
  next
    case q: False
    have "blk < new" using block_size_bounds [of "unat n"] small by (simp add: new_def)
    then show ?thesis using realloc_grows [OF K hb own small m] cs q small by blast
  qed
qed

subsection \<open>Invariant and simulation\<close>

lemma heap_invD:
  assumes "heap_inv (s, L)" and "L p = Some blk"
  shows "heap_block s p blk" and "own_pages p blk" and "mapped (cmem s) (p - 16) blk" and "0 < blk" and "blk < 2 ^ 64"
proof -
  show hb: "heap_block s p blk" and "own_pages p blk"
    using assms by (auto simp: heap_inv_def)
  then show "mapped (cmem s) (p - 16) blk" and "0 < blk" and "blk < 2 ^ 64" by (auto simp: heap_block_def)
qed

lemma heap_invD_apart:
  "heap_inv (s, L) \<Longrightarrow> L p = Some b \<Longrightarrow> L q = Some c \<Longrightarrow> p \<noteq> q \<Longrightarrow> apart (p - 16) b (q - 16) c"
  unfolding heap_inv_def by fastforce

lemma heap_inv_frame:
  assumes inv: "heap_inv (s, L)"
    and at: "\<And>p blk a. L p = Some blk \<Longrightarrow> in_range (p - 16) blk a \<Longrightarrow> cmem s' a = cmem s a"
  shows "heap_inv (s', L)" and "heap_abs (s', L) = heap_abs (s, L)"
proof -
  have "heap_block s' p blk" if "L p = Some blk" for p blk
    using heap_invD(1) [OF inv that] at [OF that] by (rule heap_block_cong)
  then show "heap_inv (s', L)" using inv by (simp add: heap_inv_def)
  have "contents (cmem s') p (blk - 16) = contents (cmem s) p (blk - 16)" if l: "L p = Some blk" for p blk
  proof (rule contents_cong)
    fix a assume "in_range p (blk - 16) a"
    then show "cmem s' a = cmem s a" by (intro at [OF l] user_in_block [OF heap_invD(1) [OF inv l]])
  qed (use heap_invD(5) [OF inv l] in simp)
  then show "heap_abs (s', L) = heap_abs (s, L)"
    by (auto simp: heap_abs_def fun_eq_iff map_option_case split: option.splits)
qed

lemma heap_inv_remove:
  assumes "heap_inv (s, L)"
  shows "heap_inv (s, L(p := None))" and "heap_abs (s, L(p := None)) = (heap_abs (s, L))(p := None)"
  using assms by (auto simp: heap_inv_def heap_abs_def fun_eq_iff)

lemma heap_inv_add:
  assumes inv: "heap_inv (s', L)" and fr: "fresh s s' q blk"
    and old: "\<And>p b a. L p = Some b \<Longrightarrow> in_range (p - 16) b a \<Longrightarrow> cmem s a \<noteq> None"
  shows "heap_inv (s', L(q \<mapsto> blk))" and "q \<notin> dom L"
    and "heap_abs (s', L(q \<mapsto> blk)) = (heap_abs (s', L))(q \<mapsto> contents (cmem s') q (blk - 16))"
proof -
  have ap: "apart (q - 16) blk (p - 16) b" if "L p = Some b" for p b
    using fr old [OF that] unfolding fresh_def by (intro apartI) blast
  have "0 < blk" using fr by (auto simp: fresh_def heap_block_def)
  then show "q \<notin> dom L"
    using ap [of q] heap_invD(4) [OF inv, of q] by (auto simp: apart_def)
  show "heap_inv (s', L(q \<mapsto> blk))"
    using inv fr ap apart_sym [OF ap] by (auto simp: heap_inv_def fresh_def)
  show "heap_abs (s', L(q \<mapsto> blk)) = (heap_abs (s', L))(q \<mapsto> contents (cmem s') q (blk - 16))"
    by (auto simp: heap_abs_def fun_eq_iff)
qed

lemma dom_abs: "dom (heap_abs (s, L)) = dom L"
  by (auto simp: heap_abs_def dom_def)

lemma put_block:
  assumes inv: "heap_inv (s, L)" and l: "L p = Some blk" and i: "i < blk - 16"
    and s': "s' = s\<lparr>cmem := (cmem s)(p + of_nat i \<mapsto> b)\<rparr>"
  shows "heap_inv (s', L)" and "heap_abs (s', L) = (heap_abs (s, L))(p \<mapsto> (contents (cmem s) p (blk - 16))[i := b])"
proof -
  note hb = heap_invD [OF inv l]
  have ir: "in_range p (blk - 16) (p + of_nat i)" using i hb(5) by (simp add: in_range_def)
  have "heap_block s' p blk"
    using hb(1,3) ir by (intro heap_block_header [OF hb(1)]) (auto simp: s')
  moreover have oth: "cmem s' a = cmem s a" if "L q = Some c" "q \<noteq> p" "in_range (q - 16) c a" for q c a
  proof -
    have "\<not> in_range (q - 16) c (p + of_nat i)"
      using apart_in_range [OF heap_invD_apart [OF inv l that(1)]] that(2) user_in_block [OF hb(1) ir] by blast
    then have "a \<noteq> p + of_nat i" using that(3) by auto
    then show ?thesis by (simp add: s')
  qed
  then have "heap_block s' q c" if "L q = Some c" "q \<noteq> p" for q c
    using that heap_invD(1) [OF inv that(1)] by (intro heap_block_cong [of s q c s']) auto
  ultimately have "\<forall>q c. L q = Some c \<longrightarrow> heap_block s' q c" using l by (metis option.inject)
  then show "heap_inv (s', L)" using inv by (simp add: heap_inv_def)
  have rest: "contents (cmem s') q (c - 16) = contents (cmem s) q (c - 16)" if lq: "L q = Some c" "q \<noteq> p" for q c
  proof (rule contents_cong)
    fix a assume "in_range q (c - 16) a"
    then show "cmem s' a = cmem s a" by (intro oth [OF lq] user_in_block [OF heap_invD(1) [OF inv lq(1)]])
  qed (use heap_invD(5) [OF inv lq(1)] in simp)
  have "contents (cmem s') p (blk - 16) = (contents (cmem s) p (blk - 16))[i := b]"
  proof (rule nth_equalityI)
    fix j assume "j < length (contents (cmem s') p (blk - 16))"
    then have j: "j < blk - 16" by simp
    have "(of_nat j :: addr) = of_nat i \<longleftrightarrow> j = i"
      using j i hb(5) unat_of_nat64 [of j] unat_of_nat64 [of i] by (metis diff_le_self less_le_trans less_trans)
    then show "contents (cmem s') p (blk - 16) ! j = (contents (cmem s) p (blk - 16))[i := b] ! j"
      using j i by (auto simp: contents_def s' nth_list_update)
  qed simp
  with rest l show "heap_abs (s', L) = (heap_abs (s, L))(p \<mapsto> (contents (cmem s) p (blk - 16))[i := b])"
    by (auto simp: heap_abs_def fun_eq_iff map_option_case split: option.splits)
qed

text \<open>Live blocks are mapped, and when one goes the others stay as they are.\<close>

lemma live_mapped: "heap_inv (s, L) \<Longrightarrow> L q = Some b \<Longrightarrow> in_range (q - 16) b a \<Longrightarrow> cmem s a \<noteq> None"
  using mapped_in_range [OF heap_invD(3)] .

lemma heap_drop:
  assumes inv: "heap_inv (s, L)" and l: "L p = Some blk"
    and keep: "\<And>a. cmem s a \<noteq> None \<Longrightarrow> \<not> in_range (p - 16) blk a \<Longrightarrow> cmem s' a = cmem s a"
  shows "heap_inv (s', L(p := None))" and "heap_abs (s', L(p := None)) = (heap_abs (s, L))(p := None)"
proof -
  have "cmem s' a = cmem s a" if "(L(p := None)) q = Some c" "in_range (q - 16) c a" for q c a
  proof -
    have q: "q \<noteq> p" "L q = Some c" using that(1) by (auto split: if_splits)
    then have "\<not> in_range (p - 16) blk a" using apart_in_range [OF heap_invD_apart [OF inv _ l] that(2)] by blast
    then show ?thesis using keep live_mapped [OF inv q(2) that(2)] by blast
  qed
  then show "heap_inv (s', L(p := None))" "heap_abs (s', L(p := None)) = (heap_abs (s, L))(p := None)"
    using heap_inv_frame [OF heap_inv_remove(1) [OF inv], of p s'] heap_inv_remove(2) [OF inv, of p] by auto
qed

lemma alloc_simulates:
  assumes K: "page_kernel T" and m: "malloc T n s = Some (p, s')" "fits n" and inv: "heap_inv (s, L)"
    and L': "L' = (if p = 0 then L else L(p \<mapsto> block_len n))"
  shows "heap_inv (s', L') \<and> spec_step (heap_abs (s, L)) (Malloc n p) (heap_abs (s', L'))"
proof -
  let ?k = "block_size (unat n) - 16"
  note L' = L' [unfolded block_len_fits [OF m(2)]]
  have r: "p = 0 \<and> cmem s' = cmem s \<or>
      fresh s s' p (block_size (unat n)) \<and> contents (cmem s') p ?k = replicate ?k 0 \<and>
      (\<forall>a. cmem s a \<noteq> None \<longrightarrow> cmem s' a = cmem s a)"
    using malloc_cases [OF K m(2), of s] m(1) by auto
  have fr: "heap_inv (s', L)" "heap_abs (s', L) = heap_abs (s, L)"
    using heap_inv_frame [OF inv, of s'] r live_mapped [OF inv] by auto
  show ?thesis
  proof (cases "p = 0")
    case True
    then show ?thesis using fr spec_step.intros(2) L' by simp
  next
    case False
    then have f: "fresh s s' p (block_size (unat n))" and z: "contents (cmem s') p ?k = replicate ?k 0"
      using r by auto
    note add = heap_inv_add [OF fr(1) f live_mapped [OF inv]]
    have "unat n \<le> ?k" using block_size_bounds [of "unat n"] by linarith
    then show ?thesis
      using False add fr(2) z spec_step.intros(1) [of p "heap_abs (s, L)" n ?k] L' by (simp add: dom_abs)
  qed
qed

lemma release_simulates:
  assumes K: "page_kernel T" and f: "p = 0 \<or> p \<in> dom L" "free T p s = Some s'" and inv: "heap_inv (s, L)"
  shows "heap_inv (s', L(p := None)) \<and> spec_step (heap_abs (s, L)) (Release p) (heap_abs (s', L(p := None)))"
proof (cases "p = 0")
  case True
  then have "L p = None" using heap_invD(1) [OF inv, of 0] by (cases "L 0") (auto simp: heap_block_def)
  moreover have "s' = s" using f(2) True by (simp add: free_def)
  ultimately show ?thesis using inv heap_inv_remove [OF inv, of p] spec_step.intros(3) by simp
next
  case False
  then obtain blk where l: "L p = Some blk" using f(1) by auto
  have rel: "released (cmem s) (cmem s') (p - 16) blk"
    using free_cases [OF K heap_invD(1,2) [OF inv l]] f(2) by auto
  have "heap_inv (s', L(p := None))" "heap_abs (s', L(p := None)) = (heap_abs (s, L))(p := None)"
    using rel by (intro heap_drop [OF inv l]; simp add: released_def)+
  then show ?thesis using spec_step.intros(3) [of "heap_abs (s, L)" p] by simp
qed

lemma resize_simulates:
  assumes K: "page_kernel T" and l: "L p = Some blk" and n: "fits n" and ra: "realloc T p n s = Some (q, s')"
    and inv: "heap_inv (s, L)" and L': "L' = (if q = 0 \<or> q = p then L else L(p := None, q \<mapsto> block_len n))"
  shows "heap_inv (s', L') \<and> spec_step (heap_abs (s, L)) (Resize p n q) (heap_abs (s', L'))"
proof -
  let ?new = "block_size (unat n)" and ?xs = "contents (cmem s) p (blk - 16)" and ?L = "L(p := None)"
  note L' = L' [unfolded block_len_fits [OF n]]
  have absp: "heap_abs (s, L) p = Some ?xs" using l by (simp add: heap_abs_def)
  have r: "q = p \<and> s' = s \<and> unat n + 16 \<le> blk \<or> q = 0 \<and> cmem s' = cmem s \<or>
     fresh s s' q ?new \<and> blk < unat n + 16 \<and> contents (cmem s') q (?new - 16) = ?xs @ replicate (?new - blk) 0 \<and>
     (\<forall>a. cmem s a \<noteq> None \<longrightarrow> \<not> in_range (p - 16) blk a \<longrightarrow> cmem s' a = cmem s a)"
    using realloc_cases [OF K heap_invD(1,2) [OF inv l] n] ra by auto
  then show ?thesis
  proof (elim disjE conjE)
    assume "q = p" "s' = s" "unat n + 16 \<le> blk"
    then show ?thesis using inv spec_step.intros(5) [of "heap_abs (s, L)" p, OF absp, of n] L' by simp
  next
    assume q: "q = 0" and m: "cmem s' = cmem s"
    have "heap_inv (s', L)" "heap_abs (s', L) = heap_abs (s, L)" using heap_inv_frame [OF inv, of s'] m by auto
    then show ?thesis using q spec_step.intros(4) L' by simp
  next
    assume f: "fresh s s' q ?new" and small: "blk < unat n + 16"
      and c: "contents (cmem s') q (?new - 16) = ?xs @ replicate (?new - blk) 0"
      and keep: "\<forall>a. cmem s a \<noteq> None \<longrightarrow> \<not> in_range (p - 16) blk a \<longrightarrow> cmem s' a = cmem s a"
    have dr: "heap_inv (s', ?L)" "heap_abs (s', ?L) = (heap_abs (s, L))(p := None)"
      using heap_drop [OF inv l, of s'] keep by blast+
    have old: "cmem s a \<noteq> None" if "?L k = Some b" "in_range (k - 16) b a" for k b a
      using that live_mapped [OF inv, of k b a] by (auto split: if_splits)
    note add = heap_inv_add [OF dr(1) f old]
    have "cmem s (q - 16) = None" using f block_size_pages(2) [of "unat n"] by (simp add: fresh_def)
    then have qp: "q \<noteq> p" using live_mapped [OF inv l, of "p - 16"] heap_invD(4) [OF inv l] by auto
    then have ne: "q \<notin> dom L" using add(2) by auto
    have "unat n \<le> length ?xs + (?new - blk)" "q \<noteq> 0"
      using block_size_bounds [of "unat n"] small f by (auto simp: fresh_def)
    then show ?thesis
      using add(1,3) dr(2) c ne qp spec_step.intros(6) [of "heap_abs (s, L)" p, OF absp, of q n "?new - blk"] L'
      by (simp add: dom_abs)
  qed
qed

lemma resize_null_simulates:
  assumes K: "page_kernel T" and n: "fits n" and ra: "realloc T 0 n s = Some (q, s')"
    and inv: "heap_inv (s, L)" and L': "L' = (if q = 0 then L else L(0 := None, q \<mapsto> block_len n))"
  shows "heap_inv (s', L') \<and> spec_step (heap_abs (s, L)) (Resize 0 n q) (heap_abs (s', L'))"
proof -
  have "L 0 = None" using heap_invD(1) [OF inv, of 0] by (cases "L 0") (auto simp: heap_block_def)
  then have "L(0 := None) = L" by (simp add: fun_upd_idem)
  then have "heap_inv (s', L') \<and> spec_step (heap_abs (s, L)) (Malloc n q) (heap_abs (s', L'))"
    using ra L' by (intro alloc_simulates [OF K _ n inv]) (simp_all add: realloc_def)
  then show ?thesis using spec_step.intros(9) by blast
qed

lemma heap_step_simulates:
  assumes K: "page_kernel T" and "heap_step T \<sigma> op \<sigma>'" and "heap_inv \<sigma>" and "op_fits op"
  shows "heap_inv \<sigma>' \<and> spec_step (heap_abs \<sigma>) op (heap_abs \<sigma>')"
  using assms(2-4)
proof (induction rule: heap_step.induct)
  case (alloc n s p s' L)
  then show ?case by (intro alloc_simulates [OF K _ _ _ refl]) simp_all
next
  case (release p L s s')
  then show ?case by (intro release_simulates [OF K])
next
  case (resize p L n s q s')
  show ?case
  proof (cases "p = 0")
    case True
    then show ?thesis
      using resize resize_null_simulates [OF K _ _ _ refl, of n s q s' L] by (cases "q = 0") simp_all
  next
    case False
    then obtain blk where "L p = Some blk" using resize by auto
    with resize show ?thesis by (intro resize_simulates [OF K _ _ _ _ refl]) simp_all
  qed
next
  case (put L p blk i s b)
  note pb = put_block [OF put.prems(1) put.hyps refl, of b]
  have "heap_abs (s, L) p = Some (contents (cmem s) p (blk - 16))" using put.hyps(1) by (simp add: heap_abs_def)
  then show ?case using pb spec_step.intros(7) put.hyps(2) by simp
next
  case (other L s' s)
  then show ?case using heap_inv_frame [of s L s'] spec_step.intros(8) by metis
qed

lemma heap_run_simulates:
  assumes "page_kernel T"
  shows "heap_run T \<sigma> ops \<sigma>' \<Longrightarrow> heap_inv \<sigma> \<Longrightarrow> list_all op_fits ops \<Longrightarrow> heap_inv \<sigma>' \<and> spec_run (heap_abs \<sigma>) ops (heap_abs \<sigma>')"
proof (induction rule: heap_run.induct)
  case (more \<sigma> op \<sigma>' ops \<sigma>'')
  then show ?case using heap_step_simulates [OF assms more.hyps(1)] by (auto intro: spec_run.intros)
qed (simp add: spec_run.intros)

lemma heap_inv_start: "heap_inv (s, Map.empty)" "heap_abs (s, Map.empty) = Map.empty"
  by (simp_all add: heap_inv_def heap_abs_def)

end
