(* ===== verification/HeapProps.thy ===== *)
theory HeapProps
  imports HeapMachine Linux
begin

section \<open>Properties of the allocator in use\<close>

text \<open>
  A kernel that maps the pages of the address in its world, when they are free, and then goes on to
  the next ones. It meets the contract, so the properties apply to the model of the code on it.
\<close>

definition bump_kernel :: "sysnr \<Rightarrow> i64 list \<Rightarrow> mem \<Rightarrow> addr \<Rightarrow> i64 \<times> mem \<times> addr" where
  "bump_kernel nr args m w =
     (if nr = ''mmap''
      then let len = args ! 1 in
        if w \<noteq> 0 \<and> w AND 4095 = 0 \<and> unat w + unat len \<le> 2 ^ 64 - 4096 \<and>
           list_all (\<lambda>i. m (w + of_nat i) = None) [0..<unat len]
        then (w, (\<lambda>a. if in_range w (unat len) a then Some 0 else m a), w + len)
        else (- 12, m, w)
      else if nr = ''munmap''
      then (0, (\<lambda>a. if in_range (args ! 0) (unat (args ! 1)) a then None else m a), w)
      else (- 38, m, w))"

lemma heap_call_bump:
  "heap_call (x86_linux bump_kernel) len s = bump_kernel ''mmap'' [0, len, 3, 34, - 1, 0] (cmem s) (kern s)"
  by (simp add: heap_call_def) (simp add: x86_linux_def)

lemma page_kernel_bump: "page_kernel (x86_linux bump_kernel)"
proof -
  have "granted m (\<lambda>a. if in_range w n a then Some 0 else m a) w n"
    if "w \<noteq> 0" "unat w + n \<le> 2 ^ 64 - 4096" and free: "list_all (\<lambda>i. m (w + of_nat i) = None) [0..<n]" for m w n
  proof -
    have "m a = None" if r: "in_range w n a" for a
    proof -
      have "\<forall>i \<in> set [0..<n]. m (w + of_nat i) = None" using free by (simp only: list_all_iff)
      moreover have "unat (a - w) \<in> set [0..<n]" using r by (simp add: in_range_def)
      ultimately have "m (w + of_nat (unat (a - w))) = None" by (rule bspec)
      then show ?thesis by simp
    qed
    then show ?thesis using that(1,2) by (simp add: granted_def)
  qed
  moreover have "(- 4095 :: i64) \<le> - 12" by code_simp
  ultimately show ?thesis
    unfolding page_kernel_def heap_call_bump bump_kernel_def
    by (auto simp: Let_def released_def unat_of_nat64 split: if_splits)
qed

text \<open>A first run: a request of five bytes and a write.\<close>

lemma first_run:
  "\<exists>s'. heap_run (x86_linux bump_kernel) (process Map.empty 0x10000, Map.empty)
     [Malloc 5 0x10010, Put 0x10010 4 7] (s', [0x10010 \<mapsto> 4096])"
proof -
  let ?T = "x86_linux bump_kernel" and ?s = "process Map.empty 0x10000 :: addr cstate"
  let ?m = "\<lambda>a. if in_range 0x10000 4096 a then Some 0 else None"
  have n: "unat (5 :: i64) = 5" by simp
  have blk: "block_size 5 = 4096" by (simp add: block_size_def)
  have a: "(0x10000 :: addr) AND 4095 = 0" by code_simp
  have call: "heap_call ?T (of_nat 4096) ?s = (0x10000, ?m, 0x11000)"
    using a by (simp add: heap_call_bump bump_kernel_def list_all_iff)
  have "granted Map.empty ?m 0x10000 4096" by (simp add: granted_def)
  then obtain s1 where m: "malloc ?T 5 ?s = Some (0x10010, s1)"
    using malloc_granted [of 5 ?T ?s "0x10000" ?m "0x11000"] call n blk by auto
  have "heap_step ?T (?s, Map.empty) (Malloc 5 0x10010) (s1, [0x10010 \<mapsto> 4096])"
    using heap_step.alloc [of ?T 5 ?s "0x10010" s1 Map.empty, OF m] n blk
    by (simp add: block_len_fits fits_def)
  moreover have "heap_step ?T (s1, [0x10010 \<mapsto> 4096]) (Put 0x10010 4 7)
      (s1\<lparr>cmem := (cmem s1)(0x10010 + of_nat 4 \<mapsto> 7)\<rparr>, [0x10010 \<mapsto> 4096])"
    by (rule heap_step.put [where blk = 4096]) simp_all
  ultimately show ?thesis by (blast intro: heap_run.intros)
qed

text \<open>
  Property C2. In every state a program can reach through \<open>malloc\<close>, \<open>realloc\<close>,
  \<open>free\<close> and writes to its blocks, when no size requested is within 4111 bytes of \<open>2 ^ 64\<close>
  (where the rounding wraps around), two live blocks have no byte in common, each is mapped, and
  the header in front of each holds the length of its mapping.
\<close>

theorem live_blocks_disjoint:
  assumes "page_kernel T" and "heap_run T (s, Map.empty) ops (s', L)" and "list_all op_fits ops"
    and "L p = Some b"
  shows "mapped (cmem s') (p - 16) b \<and> load64 (cmem s') (p - 16) = Some (of_nat b) \<and>
    (\<forall>q c. L q = Some c \<and> q \<noteq> p \<longrightarrow> apart (p - 16) b (q - 16) c)"
proof -
  have inv: "heap_inv (s', L)"
    using heap_run_simulates [OF assms(1,2) heap_inv_start(1) assms(3)] by blast
  then show ?thesis
    using heap_invD(1) [OF inv assms(4)] heap_invD_apart [OF inv assms(4)]
    by (auto simp: heap_block_def)
qed

theorem live_blocks_disjoint_witness:
  "\<exists>s'. mapped (cmem (s' :: addr cstate)) 0x10000 4096 \<and> load64 (cmem s') 0x10000 = Some 4096"
proof -
  obtain s' where run: "heap_run (x86_linux bump_kernel) (process Map.empty 0x10000, Map.empty)
     [Malloc 5 0x10010, Put 0x10010 4 7] (s', [0x10010 \<mapsto> 4096])" using first_run by blast
  show ?thesis
    using live_blocks_disjoint [OF page_kernel_bump run, of "0x10010" 4096]
    by (auto intro!: exI [of _ s'] simp: fits_def simp del: mapped.simps)
qed

text \<open>
  Property C1. The allocator refines its specification: what a program sees of its blocks through a
  sequence of requests, releases, resizes and writes, in which no size requested is within 4111 bytes
  of \<open>2 ^ 64\<close>, is a run of a map from pointers to byte sequences, in which a new area is fresh, zero
  and at least as large as requested, \<open>realloc\<close> keeps the bytes, and no operation on one block changes
  another. Without the bound this is false, as \<open>oversize_breaks_spec\<close> shows.
\<close>

theorem allocator_refines_spec:
  assumes "page_kernel T" and "heap_run T (s, Map.empty) ops \<sigma>" and "list_all op_fits ops"
  shows "spec_run Map.empty ops (heap_abs \<sigma>)"
  using heap_run_simulates [OF assms(1,2) heap_inv_start(1) assms(3)] by (simp add: heap_inv_start(2))

theorem allocator_refines_spec_witness:
  "\<exists>H. spec_run Map.empty [Malloc 5 0x10010, Put 0x10010 4 7] H \<and> dom H = {0x10010}"
proof -
  obtain s' where run: "heap_run (x86_linux bump_kernel) (process Map.empty 0x10000, Map.empty)
     [Malloc 5 0x10010, Put 0x10010 4 7] (s', [0x10010 \<mapsto> 4096])" using first_run by blast
  show ?thesis
    using allocator_refines_spec [OF page_kernel_bump run] dom_abs [of s' "[0x10010 \<mapsto> 4096]"]
    by (auto simp: fits_def intro!: exI [of _ "heap_abs (s', [0x10010 \<mapsto> 4096])"])
qed

text \<open>
  A request for \<open>2 ^ 64 - 1\<close> bytes: the sum wraps around, one page is mapped and its pointer
  returned, which no step of the specification allows.
\<close>

theorem oversize_breaks_spec:
  "\<exists>s'. heap_run (x86_linux bump_kernel) (process Map.empty 0x10000, Map.empty)
      [Malloc (- 1) 0x10010] (s', [0x10010 \<mapsto> 4096]) \<and>
    \<not> spec_run Map.empty [Malloc (- 1) 0x10010] (heap_abs (s', [0x10010 \<mapsto> 4096]))"
proof -
  let ?T = "x86_linux bump_kernel" and ?s = "process Map.empty 0x10000 :: addr cstate"
  let ?m = "\<lambda>a. if in_range 0x10000 4096 a then Some 0 else None"
  have len: "((16 + - 1) + 4095) AND - 4096 = (4096 :: i64)" "block_len (- 1) = 4096" by code_simp+
  have a: "(0x10000 :: addr) AND 4095 = 0" by code_simp
  have call: "heap_call ?T 4096 ?s = (0x10000, ?m, 0x11000)"
    using a by (simp add: heap_call_bump bump_kernel_def list_all_iff)
  have "mapped ?m 0x10000 8" by (rule mapped_all) (auto dest: in_range_mono [where k = 4096])
  moreover have "\<not> - 4095 \<le> (0x10000 :: addr)" by code_simp
  ultimately obtain s1 where m: "malloc ?T (- 1) ?s = Some (0x10010, s1)"
    unfolding malloc_def Let_def len(1) using call by (auto simp: mmap_def sys_mmap_heap cstore64_def store64_eq)
  have "heap_step ?T (?s, Map.empty) (Malloc (- 1) 0x10010) (s1, [0x10010 \<mapsto> 4096])"
    using heap_step.alloc [of ?T "- 1" ?s "0x10010" s1 Map.empty, OF m] len(2) by simp
  moreover have "\<not> spec_run Map.empty [Malloc (- 1) 0x10010] (heap_abs (s1, [0x10010 \<mapsto> 4096]))"
  proof
    assume "spec_run Map.empty [Malloc (- 1) 0x10010] (heap_abs (s1, [0x10010 \<mapsto> 4096]))"
    then have "spec_step Map.empty (Malloc (- 1) 0x10010) (heap_abs (s1, [0x10010 \<mapsto> 4096]))"
      by (auto simp: spec_run_single)
    then obtain k where "unat (- 1 :: i64) \<le> k" "heap_abs (s1, [0x10010 \<mapsto> 4096]) = [0x10010 \<mapsto> replicate k 0]"
      by (rule spec_step_MallocE) simp_all
    moreover have "unat (- 1 :: i64) = 2 ^ 64 - 1" using unat_of_nat64 [of "2 ^ 64 - 1"] by simp
    moreover have "heap_abs (s1, [0x10010 \<mapsto> 4096]) 0x10010 = Some (contents (cmem s1) 0x10010 4080)"
      by (simp add: heap_abs_def)
    ultimately have eq: "replicate k 0 = contents (cmem s1) 0x10010 4080" "2 ^ 64 - 1 \<le> k" by simp_all
    from arg_cong [OF eq(1), of length] eq(2) show False by simp
  qed
  ultimately show ?thesis by (blast intro: heap_run.intros)
qed

text \<open>
  Property C23. In every state reached by requests of such sizes, each request of the allocator that does not exceed the
  address space, and each release or resize of a live block, returns: none of them reads or
  writes memory that is not mapped.
\<close>

theorem allocator_returns:
  assumes "page_kernel T" and "heap_run T (s, Map.empty) ops (s', L)" and "list_all op_fits ops"
    and "unat n + 4111 < 2 ^ 64"
  shows "(\<exists>r. malloc T n s' = Some r) \<and>
    (\<forall>p \<in> dom L. (\<exists>r. free T p s' = Some r) \<and> (\<exists>r. realloc T p n s' = Some r))"
proof -
  have inv: "heap_inv (s', L)"
    using heap_run_simulates [OF assms(1,2) heap_inv_start(1) assms(3)] by blast
  have n: "fits n" using assms(4) by (simp add: fits_def)
  have "(\<exists>r. free T p s' = Some r) \<and> (\<exists>r. realloc T p n s' = Some r)" if "L p = Some b" for p b
    using free_cases [OF assms(1) heap_invD(1,2) [OF inv that]]
      realloc_cases [OF assms(1) heap_invD(1,2) [OF inv that] n] by blast
  then show ?thesis using malloc_cases [OF assms(1) n, of s'] by blast
qed

theorem allocator_returns_witness:
  "\<exists>s'. heap_run (x86_linux bump_kernel) (process Map.empty 0x10000, Map.empty)
      [Malloc 5 0x10010, Put 0x10010 4 7] (s', [0x10010 \<mapsto> 4096]) \<and>
     (\<exists>r. free (x86_linux bump_kernel) 0x10010 s' = Some r) \<and>
     (\<exists>r. realloc (x86_linux bump_kernel) 0x10010 9000 s' = Some r)"
proof -
  obtain s' where run: "heap_run (x86_linux bump_kernel) (process Map.empty 0x10000, Map.empty)
     [Malloc 5 0x10010, Put 0x10010 4 7] (s', [0x10010 \<mapsto> 4096])" using first_run by blast
  then show ?thesis using allocator_returns [OF page_kernel_bump run, of 9000] by (auto simp: fits_def)
qed

end
