(* ===== verification/Machine.thy ===== *)
theory Machine
  imports CPrelude
begin

section \<open>The machines of the inline assembly\<close>

text \<open>
  The headers \<^verbatim>\<open>src/arch-*.h\<close> enter the kernel by an assembler statement for each
  machine. The instructions of these statements are the datatype \<open>insn\<close>, with registers by
  name and operands of the machine's word type \<^typ>\<open>'i\<close>; a statement with its register
  variables, outputs and clobbers is the record \<open>asm_stmt\<close>. The memory a statement uses is
  the stack, a cell for each word by the address of its first byte.
\<close>

type_synonym regname = string

text \<open>
  \<open>Add d s v\<close> is \<open>d := s + v\<close>; \<open>Load d v b\<close> and \<open>Store s v b\<close> access the cell at
  \<open>b + v\<close>. \<open>Push\<close> and \<open>Pop\<close> occur on machines with 32 bits. \<open>UnlessFlag\<close> skips the
  next instruction when the flag is clear: the branch of PowerPC over the next instruction, and
  the annulling branch of SPARC whose delay slot runs only when it is taken. \<open>Trap\<close> enters the
  kernel. The last four transfer control and end a list: \<open>CallPush p n ra f\<close> pushes the return
  address \<open>ra\<close> of \<open>n\<close> bytes, \<open>CallLink r ra f\<close> leaves it in a register, \<open>CallReg r ra t\<close> does
  so and goes to the address in \<open>t\<close>, \<open>Jump\<close> has no return.
\<close>

datatype 'i insn =
    Trap
  | UnlessFlag
  | Neg regname
  | Mov regname regname
  | Li regname 'i
  | Add regname regname 'i
  | Eor regname regname
  | And regname regname
  | Ori regname 'i
  | Push regname regname
  | Pop regname regname
  | Load regname 'i regname
  | Store regname 'i regname
  | Zero 'i regname
  | CallPush regname 'i 'i 'i
  | CallLink regname 'i 'i
  | CallReg regname 'i regname
  | Jump 'i

record 'i asm_stmt =
  ins :: "(regname \<times> 'i) list"
  code :: "'i insn list"
  outs :: "regname list"
  clob :: "regname list"
  result :: "(regname \<Rightarrow> 'i) \<Rightarrow> 'i"

text \<open>\<open>pc\<close> is the address of the last transfer of control.\<close>

record ('i, 'w) cpu =
  pc :: 'i
  regs :: "regname \<Rightarrow> 'i"
  flag :: bool
  cells :: "'i \<Rightarrow> 'i"
  world :: 'w

subsection \<open>The kernel side of a trap\<close>

text \<open>
  The kernel is a parameter: how many arguments a system call has and what it does. Its result
  is an error when it is one of the 4095 last numbers. An \<open>abi\<close> says where the kernel looks
  for the number and the arguments (registers, then cells relative to the stack pointer), where
  the result goes, and how an error is reported: as the negative number itself, by a flag, or
  by a register, with the positive number. \<open>destroys\<close> are the registers whose values the kernel does
  not keep beside these.
\<close>

record ('i, 'w) kernel =
  arity :: "'i \<Rightarrow> nat"
  service :: "'i \<Rightarrow> 'i list \<Rightarrow> 'w \<Rightarrow> 'i \<times> 'w"

datatype errors = Negative | ByFlag | ByReg regname

record 'i abi =
  nr_in :: regname
  args_in :: "regname list"
  stack_in :: "'i list"
  sp_in :: regname
  result_in :: regname
  errors_by :: errors
  destroys :: "regname list"

definition is_err :: "'a::len word \<Rightarrow> bool" where
  "is_err r \<longleftrightarrow> - 4095 \<le> r"

definition arg_values :: "'a::len word abi \<Rightarrow> ('a word, 'w) cpu \<Rightarrow> 'a word list" where
  "arg_values A c =
     List.map (regs c) (args_in A) @ List.map (\<lambda>v. cells c (regs c (sp_in A) + v)) (stack_in A)"

text \<open>The kernel destroys the registers of the list; \<open>junk\<close> is what it leaves there.\<close>

definition spoil :: "(regname \<Rightarrow> 'i) \<Rightarrow> regname list \<Rightarrow> (regname \<Rightarrow> 'i) \<Rightarrow> regname \<Rightarrow> 'i" where
  "spoil junk rs f = (\<lambda>x. if x \<in> set rs then junk x else f x)"

definition trap ::
  "('a::len word, 'w) kernel \<Rightarrow> 'a word abi \<Rightarrow> (regname \<Rightarrow> 'a word) \<Rightarrow>
   ('a word, 'w) cpu \<Rightarrow> ('a word, 'w) cpu" where
  "trap K A junk c =
     (let n = regs c (nr_in A);
          (r, w) = service K n (take (arity K n) (arg_values A c)) (world c);
          f = spoil junk (destroys A) (regs c);
          res = result_in A in
      case errors_by A of
        Negative \<Rightarrow> c\<lparr>regs := f(res := r), world := w\<rparr>
      | ByFlag \<Rightarrow>
          c\<lparr>regs := f(res := (if is_err r then - r else r)), flag := is_err r, world := w\<rparr>
      | ByReg e \<Rightarrow>
          c\<lparr>regs := f(res := (if is_err r then - r else r), e := (if is_err r then 1 else 0)),
            world := w\<rparr>)"

subsection \<open>The instructions\<close>

fun step ::
  "('a::len word, 'w) kernel \<Rightarrow> 'a word abi \<Rightarrow> (regname \<Rightarrow> 'a word) \<Rightarrow>
   'a word insn \<Rightarrow> ('a word, 'w) cpu \<Rightarrow> ('a word, 'w) cpu" where
  "step K A junk Trap c = trap K A junk c"
| "step K A junk UnlessFlag c = c"
| "step K A junk (Neg r) c = c\<lparr>regs := (regs c)(r := - regs c r)\<rparr>"
| "step K A junk (Mov d s) c = c\<lparr>regs := (regs c)(d := regs c s)\<rparr>"
| "step K A junk (Li d v) c = c\<lparr>regs := (regs c)(d := v)\<rparr>"
| "step K A junk (Add d s v) c = c\<lparr>regs := (regs c)(d := regs c s + v)\<rparr>"
| "step K A junk (Eor d s) c = c\<lparr>regs := (regs c)(d := regs c d XOR regs c s)\<rparr>"
| "step K A junk (And d s) c = c\<lparr>regs := (regs c)(d := regs c d AND regs c s)\<rparr>"
| "step K A junk (Ori d v) c = c\<lparr>regs := (regs c)(d := regs c d OR v)\<rparr>"
| "step K A junk (Push s p) c =
     c\<lparr>regs := (regs c)(p := regs c p - 4), cells := (cells c)(regs c p - 4 := regs c s)\<rparr>"
| "step K A junk (Pop d p) c =
     c\<lparr>regs := (regs c)(p := regs c p + 4, d := cells c (regs c p))\<rparr>"
| "step K A junk (Load d v b) c = c\<lparr>regs := (regs c)(d := cells c (regs c b + v))\<rparr>"
| "step K A junk (Store s v b) c = c\<lparr>cells := (cells c)(regs c b + v := regs c s)\<rparr>"
| "step K A junk (Zero v b) c = c\<lparr>cells := (cells c)(regs c b + v := 0)\<rparr>"
| "step K A junk (CallPush p n ra f) c =
     c\<lparr>regs := (regs c)(p := regs c p - n), cells := (cells c)(regs c p - n := ra), pc := f\<rparr>"
| "step K A junk (CallLink r ra f) c = c\<lparr>regs := (regs c)(r := ra), pc := f\<rparr>"
| "step K A junk (CallReg r ra t) c = c\<lparr>regs := (regs c)(r := ra), pc := regs c t\<rparr>"
| "step K A junk (Jump f) c = c\<lparr>pc := f\<rparr>"

fun transfers :: "'i insn \<Rightarrow> bool" where
  "transfers (CallPush p n ra f) = True"
| "transfers (CallLink r ra f) = True"
| "transfers (CallReg r ra t) = True"
| "transfers (Jump f) = True"
| "transfers i = False"

fun exec ::
  "('a::len word, 'w) kernel \<Rightarrow> 'a word abi \<Rightarrow> (regname \<Rightarrow> 'a word) \<Rightarrow>
   'a word insn list \<Rightarrow> ('a word, 'w) cpu \<Rightarrow> ('a word, 'w) cpu" where
  "exec K A junk [] c = c"
| "exec K A junk (i # is) c =
     (if transfers i then step K A junk i c
      else if i = UnlessFlag then exec K A junk (if flag c then is else tl is) c
      else exec K A junk is (step K A junk i c))"

fun assign :: "(regname \<times> 'i) list \<Rightarrow> (regname \<Rightarrow> 'i) \<Rightarrow> regname \<Rightarrow> 'i" where
  "assign [] f = f"
| "assign ((r, v) # rs) f = assign rs (f(r := v))"

text \<open>A statement gives the value of the macro and the machine after it.\<close>

definition run_stmt ::
  "('a::len word, 'w) kernel \<Rightarrow> 'a word abi \<Rightarrow> (regname \<Rightarrow> 'a word) \<Rightarrow> 'a word asm_stmt \<Rightarrow>
   ('a word, 'w) cpu \<Rightarrow> 'a word \<times> ('a word, 'w) cpu" where
  "run_stmt K A junk st c =
     (let c = exec K A junk (code st) (c\<lparr>regs := assign (ins st) (regs c)\<rparr>)
      in (result st (regs c), c))"

subsection \<open>What a statement promises\<close>

text \<open>
  \<open>calls_kernel\<close>: the statement performs the system call \<open>num\<close> with the arguments
  \<open>args\<close> and gives its result. It keeps what the compiler relies on: a register that is
  neither an output nor declared as clobbered holds what it held when the statement began,
  the stack is changed only below the stack pointer, and control goes on behind the statement. Which
  registers the kernel destroys is in the \<open>abi\<close>; the lists of the statement are only what it declares.
\<close>

definition below :: "'a::len word \<Rightarrow> 'a word set" where
  "below p = {p - 4, p - 8, p - 12, p - 16}"

definition calls_kernel ::
  "('a::len word, 'w) kernel \<Rightarrow> 'a word abi \<Rightarrow> 'a word asm_stmt \<Rightarrow> 'a word \<Rightarrow> 'a word list \<Rightarrow> bool" where
  "calls_kernel K A st num args \<longleftrightarrow>
     (\<forall>junk c v c'. run_stmt K A junk st c = (v, c') \<longrightarrow>
        (v, world c') = service K num args (world c) \<and>
        (\<forall>x. x \<notin> set (outs st) \<and> x \<notin> set (clob st) \<longrightarrow> regs c' x = assign (ins st) (regs c) x) \<and>
        (\<forall>a. a \<notin> below (regs c (sp_in A)) \<longrightarrow> cells c' a = cells c a) \<and> pc c' = pc c)"

named_theorems stmt_defs

lemma small_nonzero:
  assumes "32 \<le> LENGTH('a::len)" and "0 < n" and "n < 2 ^ 32"
  shows "(of_nat n :: 'a word) \<noteq> 0"
proof
  have "(2 :: nat) ^ 32 \<le> 2 ^ LENGTH('a)" using assms(1) by (rule power_increasing) simp
  with assms(3) have "n < 2 ^ LENGTH('a)" by (rule less_le_trans)
  moreover assume "(of_nat n :: 'a word) = 0"
  then have "unat (of_nat n :: 'a word) = 0" by simp
  ultimately show False using assms(2) by simp
qed

end
