(* ===== verification/ArchMacros.thy ===== *)
theory ArchMacros
  imports Machine
begin

section \<open>The system call macros of each machine\<close>

text \<open>
  \<^verbatim>\<open>my_syscall0\<close> to \<^verbatim>\<open>my_syscall6\<close> of each \<^verbatim>\<open>src/arch-*.h\<close>. The list
  \<open>ins\<close> holds the register variables and constraints of the statement with their values; a
  register variable without a value is not listed. An operand the compiler may put anywhere has
  the name it has in the template (\<open>%7\<close>, \<open>_arg6\<close>). \<open>outs\<close> are the outputs, \<open>clob\<close> the
  clobbered registers, \<open>result\<close> the value of the macro. The macros take their arguments as
  words: the cast to \<open>long\<close> is the caller's.
\<close>

text \<open>
  In Thumb mode \<open>r7\<close> holds the frame pointer: the number is passed in \<open>r6\<close>, swapped with
  \<open>r7\<close> before the trap, and \<open>r7\<close> is restored after it.
\<close>

definition syscall_reg :: "bool \<Rightarrow> regname" where
  "syscall_reg thumb = (if thumb then ''r6'' else ''r7'')"

definition thumb_set_r7 :: "bool \<Rightarrow> 'i insn list" where
  "thumb_set_r7 thumb =
     (if thumb then [Eor ''r7'' ''r6'', Eor ''r6'' ''r7'', Eor ''r7'' ''r6''] else [])"

definition thumb_reset_r7 :: "bool \<Rightarrow> 'i insn list" where
  "thumb_reset_r7 thumb = (if thumb then [Mov ''r7'' ''r6''] else [])"

subsection \<open>src/arch-x86_64.h\<close>

definition x86_64_syscall0 :: "'a::len word \<Rightarrow> 'a word asm_stmt" where
  "x86_64_syscall0 num =
     \<lparr>ins = [(''rax'', num)],
      code = [Trap],
      outs = [''rax''], clob = [''rcx'', ''r11''],
      result = (\<lambda>r. r ''rax'')\<rparr>"

definition x86_64_syscall1 :: "'a::len word \<Rightarrow> 'a word \<Rightarrow> 'a word asm_stmt" where
  "x86_64_syscall1 num arg1 =
     \<lparr>ins = [(''rax'', num), (''rdi'', arg1)],
      code = [Trap],
      outs = [''rax''], clob = [''rcx'', ''r11''],
      result = (\<lambda>r. r ''rax'')\<rparr>"

definition x86_64_syscall2 ::
  "'a::len word \<Rightarrow> 'a word \<Rightarrow> 'a word \<Rightarrow> 'a word asm_stmt" where
  "x86_64_syscall2 num arg1 arg2 =
     \<lparr>ins = [(''rax'', num), (''rdi'', arg1), (''rsi'', arg2)],
      code = [Trap],
      outs = [''rax''], clob = [''rcx'', ''r11''],
      result = (\<lambda>r. r ''rax'')\<rparr>"

definition x86_64_syscall3 ::
  "'a::len word \<Rightarrow> 'a word \<Rightarrow> 'a word \<Rightarrow> 'a word \<Rightarrow> 'a word asm_stmt" where
  "x86_64_syscall3 num arg1 arg2 arg3 =
     \<lparr>ins = [(''rax'', num), (''rdi'', arg1), (''rsi'', arg2), (''rdx'', arg3)],
      code = [Trap],
      outs = [''rax''], clob = [''rcx'', ''r11''],
      result = (\<lambda>r. r ''rax'')\<rparr>"

definition x86_64_syscall4 ::
  "'a::len word \<Rightarrow> 'a word \<Rightarrow> 'a word \<Rightarrow> 'a word \<Rightarrow> 'a word \<Rightarrow> 'a word asm_stmt" where
  "x86_64_syscall4 num arg1 arg2 arg3 arg4 =
     \<lparr>ins = [(''rax'', num), (''rdi'', arg1), (''rsi'', arg2), (''rdx'', arg3),
             (''r10'', arg4)],
      code = [Trap],
      outs = [''rax''], clob = [''rcx'', ''r11''],
      result = (\<lambda>r. r ''rax'')\<rparr>"

definition x86_64_syscall5 ::
  "'a::len word \<Rightarrow> 'a word \<Rightarrow> 'a word \<Rightarrow> 'a word \<Rightarrow> 'a word \<Rightarrow> 'a word \<Rightarrow> 'a word asm_stmt" where
  "x86_64_syscall5 num arg1 arg2 arg3 arg4 arg5 =
     \<lparr>ins = [(''rax'', num), (''rdi'', arg1), (''rsi'', arg2), (''rdx'', arg3),
             (''r10'', arg4), (''r8'', arg5)],
      code = [Trap],
      outs = [''rax''], clob = [''rcx'', ''r11''],
      result = (\<lambda>r. r ''rax'')\<rparr>"

definition x86_64_syscall6 ::
  "'a::len word \<Rightarrow> 'a word \<Rightarrow> 'a word \<Rightarrow> 'a word \<Rightarrow> 'a word \<Rightarrow> 'a word \<Rightarrow> 'a word \<Rightarrow> 'a word asm_stmt" where
  "x86_64_syscall6 num arg1 arg2 arg3 arg4 arg5 arg6 =
     \<lparr>ins = [(''rax'', num), (''rdi'', arg1), (''rsi'', arg2), (''rdx'', arg3),
             (''r10'', arg4), (''r8'', arg5), (''r9'', arg6)],
      code = [Trap],
      outs = [''rax''], clob = [''rcx'', ''r11''],
      result = (\<lambda>r. r ''rax'')\<rparr>"

definition x86_64_macro :: "'a::len word \<Rightarrow> 'a word list \<Rightarrow> 'a word asm_stmt option" where
  "x86_64_macro num args =
     (case args of
        [] \<Rightarrow> Some (x86_64_syscall0 num)
      | [a1] \<Rightarrow> Some (x86_64_syscall1 num a1)
      | [a1, a2] \<Rightarrow> Some (x86_64_syscall2 num a1 a2)
      | [a1, a2, a3] \<Rightarrow> Some (x86_64_syscall3 num a1 a2 a3)
      | [a1, a2, a3, a4] \<Rightarrow> Some (x86_64_syscall4 num a1 a2 a3 a4)
      | [a1, a2, a3, a4, a5] \<Rightarrow> Some (x86_64_syscall5 num a1 a2 a3 a4 a5)
      | [a1, a2, a3, a4, a5, a6] \<Rightarrow> Some (x86_64_syscall6 num a1 a2 a3 a4 a5 a6)
      | _ \<Rightarrow> None)"

subsection \<open>src/arch-i386.h\<close>

definition i386_syscall0 :: "'a::len word \<Rightarrow> 'a word asm_stmt" where
  "i386_syscall0 num =
     \<lparr>ins = [(''eax'', num)],
      code = [Trap],
      outs = [''eax''], clob = [],
      result = (\<lambda>r. r ''eax'')\<rparr>"

definition i386_syscall1 :: "'a::len word \<Rightarrow> 'a word \<Rightarrow> 'a word asm_stmt" where
  "i386_syscall1 num arg1 =
     \<lparr>ins = [(''eax'', num), (''ebx'', arg1)],
      code = [Trap],
      outs = [''eax''], clob = [],
      result = (\<lambda>r. r ''eax'')\<rparr>"

definition i386_syscall2 ::
  "'a::len word \<Rightarrow> 'a word \<Rightarrow> 'a word \<Rightarrow> 'a word asm_stmt" where
  "i386_syscall2 num arg1 arg2 =
     \<lparr>ins = [(''eax'', num), (''ebx'', arg1), (''ecx'', arg2)],
      code = [Trap],
      outs = [''eax''], clob = [],
      result = (\<lambda>r. r ''eax'')\<rparr>"

definition i386_syscall3 ::
  "'a::len word \<Rightarrow> 'a word \<Rightarrow> 'a word \<Rightarrow> 'a word \<Rightarrow> 'a word asm_stmt" where
  "i386_syscall3 num arg1 arg2 arg3 =
     \<lparr>ins = [(''eax'', num), (''ebx'', arg1), (''ecx'', arg2), (''edx'', arg3)],
      code = [Trap],
      outs = [''eax''], clob = [],
      result = (\<lambda>r. r ''eax'')\<rparr>"

definition i386_syscall4 ::
  "'a::len word \<Rightarrow> 'a word \<Rightarrow> 'a word \<Rightarrow> 'a word \<Rightarrow> 'a word \<Rightarrow> 'a word asm_stmt" where
  "i386_syscall4 num arg1 arg2 arg3 arg4 =
     \<lparr>ins = [(''eax'', num), (''ebx'', arg1), (''ecx'', arg2), (''edx'', arg3),
             (''esi'', arg4)],
      code = [Trap],
      outs = [''eax''], clob = [],
      result = (\<lambda>r. r ''eax'')\<rparr>"

definition i386_syscall5 ::
  "'a::len word \<Rightarrow> 'a word \<Rightarrow> 'a word \<Rightarrow> 'a word \<Rightarrow> 'a word \<Rightarrow> 'a word \<Rightarrow> 'a word asm_stmt" where
  "i386_syscall5 num arg1 arg2 arg3 arg4 arg5 =
     \<lparr>ins = [(''eax'', num), (''ebx'', arg1), (''ecx'', arg2), (''edx'', arg3),
             (''esi'', arg4), (''edi'', arg5)],
      code = [Trap],
      outs = [''eax''], clob = [],
      result = (\<lambda>r. r ''eax'')\<rparr>"

definition i386_syscall6 ::
  "'a::len word \<Rightarrow> 'a word \<Rightarrow> 'a word \<Rightarrow> 'a word \<Rightarrow> 'a word \<Rightarrow> 'a word \<Rightarrow> 'a word \<Rightarrow> 'a word asm_stmt" where
  "i386_syscall6 num arg1 arg2 arg3 arg4 arg5 arg6 =
     \<lparr>ins = [(''eax'', num), (''ebx'', arg1), (''ecx'', arg2), (''edx'', arg3),
             (''esi'', arg4), (''edi'', arg5), (''_arg6'', arg6)],
      code = [Push ''_arg6'' ''esp'', Push ''ebp'' ''esp'', Load ''ebp'' 4 ''esp'', Trap,
              Pop ''ebp'' ''esp'', Add ''esp'' ''esp'' 4],
      outs = [''eax''], clob = [],
      result = (\<lambda>r. r ''eax'')\<rparr>"

definition i386_macro :: "'a::len word \<Rightarrow> 'a word list \<Rightarrow> 'a word asm_stmt option" where
  "i386_macro num args =
     (case args of
        [] \<Rightarrow> Some (i386_syscall0 num)
      | [a1] \<Rightarrow> Some (i386_syscall1 num a1)
      | [a1, a2] \<Rightarrow> Some (i386_syscall2 num a1 a2)
      | [a1, a2, a3] \<Rightarrow> Some (i386_syscall3 num a1 a2 a3)
      | [a1, a2, a3, a4] \<Rightarrow> Some (i386_syscall4 num a1 a2 a3 a4)
      | [a1, a2, a3, a4, a5] \<Rightarrow> Some (i386_syscall5 num a1 a2 a3 a4 a5)
      | [a1, a2, a3, a4, a5, a6] \<Rightarrow> Some (i386_syscall6 num a1 a2 a3 a4 a5 a6)
      | _ \<Rightarrow> None)"

subsection \<open>src/arch-arm.h\<close>

definition arm_syscall0 :: "bool \<Rightarrow> 'a::len word \<Rightarrow> 'a word asm_stmt" where
  "arm_syscall0 thumb num =
     \<lparr>ins = [(syscall_reg thumb, num)],
      code = thumb_set_r7 thumb @ [Trap] @ thumb_reset_r7 thumb,
      outs = [''r0'', syscall_reg thumb], clob = [''lr''],
      result = (\<lambda>r. r ''r0'')\<rparr>"

definition arm_syscall1 :: "bool \<Rightarrow> 'a::len word \<Rightarrow> 'a word \<Rightarrow> 'a word asm_stmt" where
  "arm_syscall1 thumb num arg1 =
     \<lparr>ins = [(syscall_reg thumb, num), (''r0'', arg1)],
      code = thumb_set_r7 thumb @ [Trap] @ thumb_reset_r7 thumb,
      outs = [''r0'', syscall_reg thumb], clob = [''lr''],
      result = (\<lambda>r. r ''r0'')\<rparr>"

definition arm_syscall2 ::
  "bool \<Rightarrow> 'a::len word \<Rightarrow> 'a word \<Rightarrow> 'a word \<Rightarrow> 'a word asm_stmt" where
  "arm_syscall2 thumb num arg1 arg2 =
     \<lparr>ins = [(syscall_reg thumb, num), (''r0'', arg1), (''r1'', arg2)],
      code = thumb_set_r7 thumb @ [Trap] @ thumb_reset_r7 thumb,
      outs = [''r0'', syscall_reg thumb], clob = [''lr''],
      result = (\<lambda>r. r ''r0'')\<rparr>"

definition arm_syscall3 ::
  "bool \<Rightarrow> 'a::len word \<Rightarrow> 'a word \<Rightarrow> 'a word \<Rightarrow> 'a word \<Rightarrow> 'a word asm_stmt" where
  "arm_syscall3 thumb num arg1 arg2 arg3 =
     \<lparr>ins = [(syscall_reg thumb, num), (''r0'', arg1), (''r1'', arg2), (''r2'', arg3)],
      code = thumb_set_r7 thumb @ [Trap] @ thumb_reset_r7 thumb,
      outs = [''r0'', syscall_reg thumb], clob = [''lr''],
      result = (\<lambda>r. r ''r0'')\<rparr>"

definition arm_syscall4 ::
  "bool \<Rightarrow> 'a::len word \<Rightarrow> 'a word \<Rightarrow> 'a word \<Rightarrow> 'a word \<Rightarrow> 'a word \<Rightarrow> 'a word asm_stmt" where
  "arm_syscall4 thumb num arg1 arg2 arg3 arg4 =
     \<lparr>ins = [(syscall_reg thumb, num), (''r0'', arg1), (''r1'', arg2), (''r2'', arg3),
             (''r3'', arg4)],
      code = thumb_set_r7 thumb @ [Trap] @ thumb_reset_r7 thumb,
      outs = [''r0'', syscall_reg thumb], clob = [''lr''],
      result = (\<lambda>r. r ''r0'')\<rparr>"

definition arm_syscall5 ::
  "bool \<Rightarrow> 'a::len word \<Rightarrow> 'a word \<Rightarrow> 'a word \<Rightarrow> 'a word \<Rightarrow> 'a word \<Rightarrow> 'a word \<Rightarrow> 'a word asm_stmt" where
  "arm_syscall5 thumb num arg1 arg2 arg3 arg4 arg5 =
     \<lparr>ins = [(syscall_reg thumb, num), (''r0'', arg1), (''r1'', arg2), (''r2'', arg3),
             (''r3'', arg4), (''r4'', arg5)],
      code = thumb_set_r7 thumb @ [Trap] @ thumb_reset_r7 thumb,
      outs = [''r0'', syscall_reg thumb], clob = [''lr''],
      result = (\<lambda>r. r ''r0'')\<rparr>"

definition arm_syscall6 ::
  "bool \<Rightarrow> 'a::len word \<Rightarrow> 'a word \<Rightarrow> 'a word \<Rightarrow> 'a word \<Rightarrow> 'a word \<Rightarrow> 'a word \<Rightarrow> 'a word \<Rightarrow> 'a word asm_stmt" where
  "arm_syscall6 thumb num arg1 arg2 arg3 arg4 arg5 arg6 =
     \<lparr>ins = [(syscall_reg thumb, num), (''r0'', arg1), (''r1'', arg2), (''r2'', arg3),
             (''r3'', arg4), (''r4'', arg5), (''r5'', arg6)],
      code = thumb_set_r7 thumb @ [Trap] @ thumb_reset_r7 thumb,
      outs = [''r0'', syscall_reg thumb], clob = [''lr''],
      result = (\<lambda>r. r ''r0'')\<rparr>"

definition arm_macro :: "bool \<Rightarrow> 'a::len word \<Rightarrow> 'a word list \<Rightarrow> 'a word asm_stmt option" where
  "arm_macro thumb num args =
     (case args of
        [] \<Rightarrow> Some (arm_syscall0 thumb num)
      | [a1] \<Rightarrow> Some (arm_syscall1 thumb num a1)
      | [a1, a2] \<Rightarrow> Some (arm_syscall2 thumb num a1 a2)
      | [a1, a2, a3] \<Rightarrow> Some (arm_syscall3 thumb num a1 a2 a3)
      | [a1, a2, a3, a4] \<Rightarrow> Some (arm_syscall4 thumb num a1 a2 a3 a4)
      | [a1, a2, a3, a4, a5] \<Rightarrow> Some (arm_syscall5 thumb num a1 a2 a3 a4 a5)
      | [a1, a2, a3, a4, a5, a6] \<Rightarrow> Some (arm_syscall6 thumb num a1 a2 a3 a4 a5 a6)
      | _ \<Rightarrow> None)"

subsection \<open>src/arch-aarch64.h\<close>

definition aarch64_syscall0 :: "'a::len word \<Rightarrow> 'a word asm_stmt" where
  "aarch64_syscall0 num =
     \<lparr>ins = [(''x8'', num)],
      code = [Trap],
      outs = [''x0''], clob = [],
      result = (\<lambda>r. r ''x0'')\<rparr>"

definition aarch64_syscall1 :: "'a::len word \<Rightarrow> 'a word \<Rightarrow> 'a word asm_stmt" where
  "aarch64_syscall1 num arg1 =
     \<lparr>ins = [(''x8'', num), (''x0'', arg1)],
      code = [Trap],
      outs = [''x0''], clob = [],
      result = (\<lambda>r. r ''x0'')\<rparr>"

definition aarch64_syscall2 ::
  "'a::len word \<Rightarrow> 'a word \<Rightarrow> 'a word \<Rightarrow> 'a word asm_stmt" where
  "aarch64_syscall2 num arg1 arg2 =
     \<lparr>ins = [(''x8'', num), (''x0'', arg1), (''x1'', arg2)],
      code = [Trap],
      outs = [''x0''], clob = [],
      result = (\<lambda>r. r ''x0'')\<rparr>"

definition aarch64_syscall3 ::
  "'a::len word \<Rightarrow> 'a word \<Rightarrow> 'a word \<Rightarrow> 'a word \<Rightarrow> 'a word asm_stmt" where
  "aarch64_syscall3 num arg1 arg2 arg3 =
     \<lparr>ins = [(''x8'', num), (''x0'', arg1), (''x1'', arg2), (''x2'', arg3)],
      code = [Trap],
      outs = [''x0''], clob = [],
      result = (\<lambda>r. r ''x0'')\<rparr>"

definition aarch64_syscall4 ::
  "'a::len word \<Rightarrow> 'a word \<Rightarrow> 'a word \<Rightarrow> 'a word \<Rightarrow> 'a word \<Rightarrow> 'a word asm_stmt" where
  "aarch64_syscall4 num arg1 arg2 arg3 arg4 =
     \<lparr>ins = [(''x8'', num), (''x0'', arg1), (''x1'', arg2), (''x2'', arg3), (''x3'', arg4)],
      code = [Trap],
      outs = [''x0''], clob = [],
      result = (\<lambda>r. r ''x0'')\<rparr>"

definition aarch64_syscall5 ::
  "'a::len word \<Rightarrow> 'a word \<Rightarrow> 'a word \<Rightarrow> 'a word \<Rightarrow> 'a word \<Rightarrow> 'a word \<Rightarrow> 'a word asm_stmt" where
  "aarch64_syscall5 num arg1 arg2 arg3 arg4 arg5 =
     \<lparr>ins = [(''x8'', num), (''x0'', arg1), (''x1'', arg2), (''x2'', arg3), (''x3'', arg4),
             (''x4'', arg5)],
      code = [Trap],
      outs = [''x0''], clob = [],
      result = (\<lambda>r. r ''x0'')\<rparr>"

definition aarch64_syscall6 ::
  "'a::len word \<Rightarrow> 'a word \<Rightarrow> 'a word \<Rightarrow> 'a word \<Rightarrow> 'a word \<Rightarrow> 'a word \<Rightarrow> 'a word \<Rightarrow> 'a word asm_stmt" where
  "aarch64_syscall6 num arg1 arg2 arg3 arg4 arg5 arg6 =
     \<lparr>ins = [(''x8'', num), (''x0'', arg1), (''x1'', arg2), (''x2'', arg3), (''x3'', arg4),
             (''x4'', arg5), (''x5'', arg6)],
      code = [Trap],
      outs = [''x0''], clob = [],
      result = (\<lambda>r. r ''x0'')\<rparr>"

definition aarch64_macro :: "'a::len word \<Rightarrow> 'a word list \<Rightarrow> 'a word asm_stmt option" where
  "aarch64_macro num args =
     (case args of
        [] \<Rightarrow> Some (aarch64_syscall0 num)
      | [a1] \<Rightarrow> Some (aarch64_syscall1 num a1)
      | [a1, a2] \<Rightarrow> Some (aarch64_syscall2 num a1 a2)
      | [a1, a2, a3] \<Rightarrow> Some (aarch64_syscall3 num a1 a2 a3)
      | [a1, a2, a3, a4] \<Rightarrow> Some (aarch64_syscall4 num a1 a2 a3 a4)
      | [a1, a2, a3, a4, a5] \<Rightarrow> Some (aarch64_syscall5 num a1 a2 a3 a4 a5)
      | [a1, a2, a3, a4, a5, a6] \<Rightarrow> Some (aarch64_syscall6 num a1 a2 a3 a4 a5 a6)
      | _ \<Rightarrow> None)"

subsection \<open>src/arch-mips.h\<close>

definition mips_clobbers :: "regname list" where
  "mips_clobbers = [''at'', ''v1'', ''hi'', ''lo'', ''t0'', ''t1'', ''t2'', ''t3'', ''t4'', ''t5'', ''t6'', ''t7'', ''t8'', ''t9'']"

definition mips_syscall0 :: "'a::len word \<Rightarrow> 'a word asm_stmt" where
  "mips_syscall0 num =
     \<lparr>ins = [(''v0'', num)],
      code = [Add ''sp'' ''sp'' (- 32), Trap, Add ''sp'' ''sp'' 32],
      outs = [''v0'', ''a3''], clob = mips_clobbers,
      result = (\<lambda>r. if r ''a3'' \<noteq> 0 then - r ''v0'' else r ''v0'')\<rparr>"

definition mips_syscall1 :: "'a::len word \<Rightarrow> 'a word \<Rightarrow> 'a word asm_stmt" where
  "mips_syscall1 num arg1 =
     \<lparr>ins = [(''v0'', num), (''a0'', arg1)],
      code = [Add ''sp'' ''sp'' (- 32), Trap, Add ''sp'' ''sp'' 32],
      outs = [''v0'', ''a3''], clob = mips_clobbers,
      result = (\<lambda>r. if r ''a3'' \<noteq> 0 then - r ''v0'' else r ''v0'')\<rparr>"

definition mips_syscall2 ::
  "'a::len word \<Rightarrow> 'a word \<Rightarrow> 'a word \<Rightarrow> 'a word asm_stmt" where
  "mips_syscall2 num arg1 arg2 =
     \<lparr>ins = [(''v0'', num), (''a0'', arg1), (''a1'', arg2)],
      code = [Add ''sp'' ''sp'' (- 32), Trap, Add ''sp'' ''sp'' 32],
      outs = [''v0'', ''a3''], clob = mips_clobbers,
      result = (\<lambda>r. if r ''a3'' \<noteq> 0 then - r ''v0'' else r ''v0'')\<rparr>"

definition mips_syscall3 ::
  "'a::len word \<Rightarrow> 'a word \<Rightarrow> 'a word \<Rightarrow> 'a word \<Rightarrow> 'a word asm_stmt" where
  "mips_syscall3 num arg1 arg2 arg3 =
     \<lparr>ins = [(''v0'', num), (''a0'', arg1), (''a1'', arg2), (''a2'', arg3)],
      code = [Add ''sp'' ''sp'' (- 32), Trap, Add ''sp'' ''sp'' 32],
      outs = [''v0'', ''a3''], clob = mips_clobbers,
      result = (\<lambda>r. if r ''a3'' \<noteq> 0 then - r ''v0'' else r ''v0'')\<rparr>"

definition mips_syscall4 ::
  "'a::len word \<Rightarrow> 'a word \<Rightarrow> 'a word \<Rightarrow> 'a word \<Rightarrow> 'a word \<Rightarrow> 'a word asm_stmt" where
  "mips_syscall4 num arg1 arg2 arg3 arg4 =
     \<lparr>ins = [(''v0'', num), (''a0'', arg1), (''a1'', arg2), (''a2'', arg3), (''a3'', arg4)],
      code = [Add ''sp'' ''sp'' (- 32), Trap, Add ''sp'' ''sp'' 32],
      outs = [''v0'', ''a3''], clob = mips_clobbers,
      result = (\<lambda>r. if r ''a3'' \<noteq> 0 then - r ''v0'' else r ''v0'')\<rparr>"

definition mips_syscall5 ::
  "'a::len word \<Rightarrow> 'a word \<Rightarrow> 'a word \<Rightarrow> 'a word \<Rightarrow> 'a word \<Rightarrow> 'a word \<Rightarrow> 'a word asm_stmt" where
  "mips_syscall5 num arg1 arg2 arg3 arg4 arg5 =
     \<lparr>ins = [(''v0'', num), (''a0'', arg1), (''a1'', arg2), (''a2'', arg3), (''a3'', arg4),
             (''%7'', arg5)],
      code = [Add ''sp'' ''sp'' (- 32), Store ''%7'' 16 ''sp'', Trap, Add ''sp'' ''sp'' 32],
      outs = [''v0'', ''a3''], clob = mips_clobbers,
      result = (\<lambda>r. if r ''a3'' \<noteq> 0 then - r ''v0'' else r ''v0'')\<rparr>"

definition mips_syscall6 ::
  "'a::len word \<Rightarrow> 'a word \<Rightarrow> 'a word \<Rightarrow> 'a word \<Rightarrow> 'a word \<Rightarrow> 'a word \<Rightarrow> 'a word \<Rightarrow> 'a word asm_stmt" where
  "mips_syscall6 num arg1 arg2 arg3 arg4 arg5 arg6 =
     \<lparr>ins = [(''v0'', num), (''a0'', arg1), (''a1'', arg2), (''a2'', arg3), (''a3'', arg4),
             (''%7'', arg5), (''%8'', arg6)],
      code = [Add ''sp'' ''sp'' (- 32),
              Store ''%7'' 16 ''sp'', Store ''%8'' 20 ''sp'', Trap, Add ''sp'' ''sp'' 32],
      outs = [''v0'', ''a3''], clob = mips_clobbers,
      result = (\<lambda>r. if r ''a3'' \<noteq> 0 then - r ''v0'' else r ''v0'')\<rparr>"

definition mips_macro :: "'a::len word \<Rightarrow> 'a word list \<Rightarrow> 'a word asm_stmt option" where
  "mips_macro num args =
     (case args of
        [] \<Rightarrow> Some (mips_syscall0 num)
      | [a1] \<Rightarrow> Some (mips_syscall1 num a1)
      | [a1, a2] \<Rightarrow> Some (mips_syscall2 num a1 a2)
      | [a1, a2, a3] \<Rightarrow> Some (mips_syscall3 num a1 a2 a3)
      | [a1, a2, a3, a4] \<Rightarrow> Some (mips_syscall4 num a1 a2 a3 a4)
      | [a1, a2, a3, a4, a5] \<Rightarrow> Some (mips_syscall5 num a1 a2 a3 a4 a5)
      | [a1, a2, a3, a4, a5, a6] \<Rightarrow> Some (mips_syscall6 num a1 a2 a3 a4 a5 a6)
      | _ \<Rightarrow> None)"

subsection \<open>src/arch-powerpc.h\<close>

definition powerpc_clobbers :: "regname list" where
  "powerpc_clobbers = [''r12'', ''r11'', ''r10'', ''r9'']"

definition powerpc_syscall0 :: "'a::len word \<Rightarrow> 'a word asm_stmt" where
  "powerpc_syscall0 num =
     \<lparr>ins = [(''r0'', num)],
      code = [Trap, UnlessFlag, Neg ''r3''],
      outs = [''r3'', ''r0''], clob = powerpc_clobbers @ [''r8'', ''r7'', ''r6'', ''r5'', ''r4''],
      result = (\<lambda>r. r ''r3'')\<rparr>"

definition powerpc_syscall1 :: "'a::len word \<Rightarrow> 'a word \<Rightarrow> 'a word asm_stmt" where
  "powerpc_syscall1 num arg1 =
     \<lparr>ins = [(''r0'', num), (''r3'', arg1)],
      code = [Trap, UnlessFlag, Neg ''r3''],
      outs = [''r3'', ''r0''], clob = powerpc_clobbers @ [''r8'', ''r7'', ''r6'', ''r5'', ''r4''],
      result = (\<lambda>r. r ''r3'')\<rparr>"

definition powerpc_syscall2 ::
  "'a::len word \<Rightarrow> 'a word \<Rightarrow> 'a word \<Rightarrow> 'a word asm_stmt" where
  "powerpc_syscall2 num arg1 arg2 =
     \<lparr>ins = [(''r0'', num), (''r3'', arg1), (''r4'', arg2)],
      code = [Trap, UnlessFlag, Neg ''r3''],
      outs = [''r3'', ''r0'', ''r4''], clob = powerpc_clobbers @ [''r8'', ''r7'', ''r6'', ''r5''],
      result = (\<lambda>r. r ''r3'')\<rparr>"

definition powerpc_syscall3 ::
  "'a::len word \<Rightarrow> 'a word \<Rightarrow> 'a word \<Rightarrow> 'a word \<Rightarrow> 'a word asm_stmt" where
  "powerpc_syscall3 num arg1 arg2 arg3 =
     \<lparr>ins = [(''r0'', num), (''r3'', arg1), (''r4'', arg2), (''r5'', arg3)],
      code = [Trap, UnlessFlag, Neg ''r3''],
      outs = [''r3'', ''r0'', ''r4'', ''r5''], clob = powerpc_clobbers @ [''r8'', ''r7'', ''r6''],
      result = (\<lambda>r. r ''r3'')\<rparr>"

definition powerpc_syscall4 ::
  "'a::len word \<Rightarrow> 'a word \<Rightarrow> 'a word \<Rightarrow> 'a word \<Rightarrow> 'a word \<Rightarrow> 'a word asm_stmt" where
  "powerpc_syscall4 num arg1 arg2 arg3 arg4 =
     \<lparr>ins = [(''r0'', num), (''r3'', arg1), (''r4'', arg2), (''r5'', arg3), (''r6'', arg4)],
      code = [Trap, UnlessFlag, Neg ''r3''],
      outs = [''r3'', ''r0'', ''r4'', ''r5'', ''r6''], clob = powerpc_clobbers @ [''r8'', ''r7''],
      result = (\<lambda>r. r ''r3'')\<rparr>"

definition powerpc_syscall5 ::
  "'a::len word \<Rightarrow> 'a word \<Rightarrow> 'a word \<Rightarrow> 'a word \<Rightarrow> 'a word \<Rightarrow> 'a word \<Rightarrow> 'a word asm_stmt" where
  "powerpc_syscall5 num arg1 arg2 arg3 arg4 arg5 =
     \<lparr>ins = [(''r0'', num), (''r3'', arg1), (''r4'', arg2), (''r5'', arg3), (''r6'', arg4),
             (''r7'', arg5)],
      code = [Trap, UnlessFlag, Neg ''r3''],
      outs = [''r3'', ''r0'', ''r4'', ''r5'', ''r6'', ''r7''], clob = powerpc_clobbers @ [''r8''],
      result = (\<lambda>r. r ''r3'')\<rparr>"

definition powerpc_syscall6 ::
  "'a::len word \<Rightarrow> 'a word \<Rightarrow> 'a word \<Rightarrow> 'a word \<Rightarrow> 'a word \<Rightarrow> 'a word \<Rightarrow> 'a word \<Rightarrow> 'a word asm_stmt" where
  "powerpc_syscall6 num arg1 arg2 arg3 arg4 arg5 arg6 =
     \<lparr>ins = [(''r0'', num), (''r3'', arg1), (''r4'', arg2), (''r5'', arg3), (''r6'', arg4),
             (''r7'', arg5), (''r8'', arg6)],
      code = [Trap, UnlessFlag, Neg ''r3''],
      outs = [''r3'', ''r0'', ''r4'', ''r5'', ''r6'', ''r7'', ''r8''], clob = powerpc_clobbers,
      result = (\<lambda>r. r ''r3'')\<rparr>"

definition powerpc_macro :: "'a::len word \<Rightarrow> 'a word list \<Rightarrow> 'a word asm_stmt option" where
  "powerpc_macro num args =
     (case args of
        [] \<Rightarrow> Some (powerpc_syscall0 num)
      | [a1] \<Rightarrow> Some (powerpc_syscall1 num a1)
      | [a1, a2] \<Rightarrow> Some (powerpc_syscall2 num a1 a2)
      | [a1, a2, a3] \<Rightarrow> Some (powerpc_syscall3 num a1 a2 a3)
      | [a1, a2, a3, a4] \<Rightarrow> Some (powerpc_syscall4 num a1 a2 a3 a4)
      | [a1, a2, a3, a4, a5] \<Rightarrow> Some (powerpc_syscall5 num a1 a2 a3 a4 a5)
      | [a1, a2, a3, a4, a5, a6] \<Rightarrow> Some (powerpc_syscall6 num a1 a2 a3 a4 a5 a6)
      | _ \<Rightarrow> None)"

subsection \<open>src/arch-riscv.h\<close>

definition riscv_syscall0 :: "'a::len word \<Rightarrow> 'a word asm_stmt" where
  "riscv_syscall0 num =
     \<lparr>ins = [(''a7'', num)],
      code = [Trap],
      outs = [''a0''], clob = [],
      result = (\<lambda>r. r ''a0'')\<rparr>"

definition riscv_syscall1 :: "'a::len word \<Rightarrow> 'a word \<Rightarrow> 'a word asm_stmt" where
  "riscv_syscall1 num arg1 =
     \<lparr>ins = [(''a7'', num), (''a0'', arg1)],
      code = [Trap],
      outs = [''a0''], clob = [],
      result = (\<lambda>r. r ''a0'')\<rparr>"

definition riscv_syscall2 ::
  "'a::len word \<Rightarrow> 'a word \<Rightarrow> 'a word \<Rightarrow> 'a word asm_stmt" where
  "riscv_syscall2 num arg1 arg2 =
     \<lparr>ins = [(''a7'', num), (''a0'', arg1), (''a1'', arg2)],
      code = [Trap],
      outs = [''a0''], clob = [],
      result = (\<lambda>r. r ''a0'')\<rparr>"

definition riscv_syscall3 ::
  "'a::len word \<Rightarrow> 'a word \<Rightarrow> 'a word \<Rightarrow> 'a word \<Rightarrow> 'a word asm_stmt" where
  "riscv_syscall3 num arg1 arg2 arg3 =
     \<lparr>ins = [(''a7'', num), (''a0'', arg1), (''a1'', arg2), (''a2'', arg3)],
      code = [Trap],
      outs = [''a0''], clob = [],
      result = (\<lambda>r. r ''a0'')\<rparr>"

definition riscv_syscall4 ::
  "'a::len word \<Rightarrow> 'a word \<Rightarrow> 'a word \<Rightarrow> 'a word \<Rightarrow> 'a word \<Rightarrow> 'a word asm_stmt" where
  "riscv_syscall4 num arg1 arg2 arg3 arg4 =
     \<lparr>ins = [(''a7'', num), (''a0'', arg1), (''a1'', arg2), (''a2'', arg3), (''a3'', arg4)],
      code = [Trap],
      outs = [''a0''], clob = [],
      result = (\<lambda>r. r ''a0'')\<rparr>"

definition riscv_syscall5 ::
  "'a::len word \<Rightarrow> 'a word \<Rightarrow> 'a word \<Rightarrow> 'a word \<Rightarrow> 'a word \<Rightarrow> 'a word \<Rightarrow> 'a word asm_stmt" where
  "riscv_syscall5 num arg1 arg2 arg3 arg4 arg5 =
     \<lparr>ins = [(''a7'', num), (''a0'', arg1), (''a1'', arg2), (''a2'', arg3), (''a3'', arg4),
             (''a4'', arg5)],
      code = [Trap],
      outs = [''a0''], clob = [],
      result = (\<lambda>r. r ''a0'')\<rparr>"

definition riscv_syscall6 ::
  "'a::len word \<Rightarrow> 'a word \<Rightarrow> 'a word \<Rightarrow> 'a word \<Rightarrow> 'a word \<Rightarrow> 'a word \<Rightarrow> 'a word \<Rightarrow> 'a word asm_stmt" where
  "riscv_syscall6 num arg1 arg2 arg3 arg4 arg5 arg6 =
     \<lparr>ins = [(''a7'', num), (''a0'', arg1), (''a1'', arg2), (''a2'', arg3), (''a3'', arg4),
             (''a4'', arg5), (''a5'', arg6)],
      code = [Trap],
      outs = [''a0''], clob = [],
      result = (\<lambda>r. r ''a0'')\<rparr>"

definition riscv_macro :: "'a::len word \<Rightarrow> 'a word list \<Rightarrow> 'a word asm_stmt option" where
  "riscv_macro num args =
     (case args of
        [] \<Rightarrow> Some (riscv_syscall0 num)
      | [a1] \<Rightarrow> Some (riscv_syscall1 num a1)
      | [a1, a2] \<Rightarrow> Some (riscv_syscall2 num a1 a2)
      | [a1, a2, a3] \<Rightarrow> Some (riscv_syscall3 num a1 a2 a3)
      | [a1, a2, a3, a4] \<Rightarrow> Some (riscv_syscall4 num a1 a2 a3 a4)
      | [a1, a2, a3, a4, a5] \<Rightarrow> Some (riscv_syscall5 num a1 a2 a3 a4 a5)
      | [a1, a2, a3, a4, a5, a6] \<Rightarrow> Some (riscv_syscall6 num a1 a2 a3 a4 a5 a6)
      | _ \<Rightarrow> None)"

subsection \<open>src/arch-s390.h\<close>

definition s390_syscall0 :: "'a::len word \<Rightarrow> 'a word asm_stmt" where
  "s390_syscall0 num =
     \<lparr>ins = [(''1'', num)],
      code = [Trap],
      outs = [''2''], clob = [],
      result = (\<lambda>r. r ''2'')\<rparr>"

definition s390_syscall1 :: "'a::len word \<Rightarrow> 'a word \<Rightarrow> 'a word asm_stmt" where
  "s390_syscall1 num arg1 =
     \<lparr>ins = [(''1'', num), (''2'', arg1)],
      code = [Trap],
      outs = [''2''], clob = [],
      result = (\<lambda>r. r ''2'')\<rparr>"

definition s390_syscall2 ::
  "'a::len word \<Rightarrow> 'a word \<Rightarrow> 'a word \<Rightarrow> 'a word asm_stmt" where
  "s390_syscall2 num arg1 arg2 =
     \<lparr>ins = [(''1'', num), (''2'', arg1), (''3'', arg2)],
      code = [Trap],
      outs = [''2''], clob = [],
      result = (\<lambda>r. r ''2'')\<rparr>"

definition s390_syscall3 ::
  "'a::len word \<Rightarrow> 'a word \<Rightarrow> 'a word \<Rightarrow> 'a word \<Rightarrow> 'a word asm_stmt" where
  "s390_syscall3 num arg1 arg2 arg3 =
     \<lparr>ins = [(''1'', num), (''2'', arg1), (''3'', arg2), (''4'', arg3)],
      code = [Trap],
      outs = [''2''], clob = [],
      result = (\<lambda>r. r ''2'')\<rparr>"

definition s390_syscall4 ::
  "'a::len word \<Rightarrow> 'a word \<Rightarrow> 'a word \<Rightarrow> 'a word \<Rightarrow> 'a word \<Rightarrow> 'a word asm_stmt" where
  "s390_syscall4 num arg1 arg2 arg3 arg4 =
     \<lparr>ins = [(''1'', num), (''2'', arg1), (''3'', arg2), (''4'', arg3), (''5'', arg4)],
      code = [Trap],
      outs = [''2''], clob = [],
      result = (\<lambda>r. r ''2'')\<rparr>"

definition s390_syscall5 ::
  "'a::len word \<Rightarrow> 'a word \<Rightarrow> 'a word \<Rightarrow> 'a word \<Rightarrow> 'a word \<Rightarrow> 'a word \<Rightarrow> 'a word asm_stmt" where
  "s390_syscall5 num arg1 arg2 arg3 arg4 arg5 =
     \<lparr>ins = [(''1'', num), (''2'', arg1), (''3'', arg2), (''4'', arg3), (''5'', arg4),
             (''6'', arg5)],
      code = [Trap],
      outs = [''2''], clob = [],
      result = (\<lambda>r. r ''2'')\<rparr>"

definition s390_syscall6 ::
  "'a::len word \<Rightarrow> 'a word \<Rightarrow> 'a word \<Rightarrow> 'a word \<Rightarrow> 'a word \<Rightarrow> 'a word \<Rightarrow> 'a word \<Rightarrow> 'a word asm_stmt" where
  "s390_syscall6 num arg1 arg2 arg3 arg4 arg5 arg6 =
     \<lparr>ins = [(''1'', num), (''2'', arg1), (''3'', arg2), (''4'', arg3), (''5'', arg4),
             (''6'', arg5), (''7'', arg6)],
      code = [Trap],
      outs = [''2''], clob = [],
      result = (\<lambda>r. r ''2'')\<rparr>"

definition s390_macro :: "'a::len word \<Rightarrow> 'a word list \<Rightarrow> 'a word asm_stmt option" where
  "s390_macro num args =
     (case args of
        [] \<Rightarrow> Some (s390_syscall0 num)
      | [a1] \<Rightarrow> Some (s390_syscall1 num a1)
      | [a1, a2] \<Rightarrow> Some (s390_syscall2 num a1 a2)
      | [a1, a2, a3] \<Rightarrow> Some (s390_syscall3 num a1 a2 a3)
      | [a1, a2, a3, a4] \<Rightarrow> Some (s390_syscall4 num a1 a2 a3 a4)
      | [a1, a2, a3, a4, a5] \<Rightarrow> Some (s390_syscall5 num a1 a2 a3 a4 a5)
      | [a1, a2, a3, a4, a5, a6] \<Rightarrow> Some (s390_syscall6 num a1 a2 a3 a4 a5 a6)
      | _ \<Rightarrow> None)"

subsection \<open>src/arch-loongarch.h\<close>

definition loongarch_clobbers :: "regname list" where
  "loongarch_clobbers = [''t0'', ''t1'', ''t2'', ''t3'', ''t4'', ''t5'', ''t6'', ''t7'', ''t8'']"

definition loongarch_syscall0 :: "'a::len word \<Rightarrow> 'a word asm_stmt" where
  "loongarch_syscall0 num =
     \<lparr>ins = [(''a7'', num)],
      code = [Trap],
      outs = [''a0''], clob = loongarch_clobbers,
      result = (\<lambda>r. r ''a0'')\<rparr>"

definition loongarch_syscall1 :: "'a::len word \<Rightarrow> 'a word \<Rightarrow> 'a word asm_stmt" where
  "loongarch_syscall1 num arg1 =
     \<lparr>ins = [(''a7'', num), (''a0'', arg1)],
      code = [Trap],
      outs = [''a0''], clob = loongarch_clobbers,
      result = (\<lambda>r. r ''a0'')\<rparr>"

definition loongarch_syscall2 ::
  "'a::len word \<Rightarrow> 'a word \<Rightarrow> 'a word \<Rightarrow> 'a word asm_stmt" where
  "loongarch_syscall2 num arg1 arg2 =
     \<lparr>ins = [(''a7'', num), (''a0'', arg1), (''a1'', arg2)],
      code = [Trap],
      outs = [''a0''], clob = loongarch_clobbers,
      result = (\<lambda>r. r ''a0'')\<rparr>"

definition loongarch_syscall3 ::
  "'a::len word \<Rightarrow> 'a word \<Rightarrow> 'a word \<Rightarrow> 'a word \<Rightarrow> 'a word asm_stmt" where
  "loongarch_syscall3 num arg1 arg2 arg3 =
     \<lparr>ins = [(''a7'', num), (''a0'', arg1), (''a1'', arg2), (''a2'', arg3)],
      code = [Trap],
      outs = [''a0''], clob = loongarch_clobbers,
      result = (\<lambda>r. r ''a0'')\<rparr>"

definition loongarch_syscall4 ::
  "'a::len word \<Rightarrow> 'a word \<Rightarrow> 'a word \<Rightarrow> 'a word \<Rightarrow> 'a word \<Rightarrow> 'a word asm_stmt" where
  "loongarch_syscall4 num arg1 arg2 arg3 arg4 =
     \<lparr>ins = [(''a7'', num), (''a0'', arg1), (''a1'', arg2), (''a2'', arg3), (''a3'', arg4)],
      code = [Trap],
      outs = [''a0''], clob = loongarch_clobbers,
      result = (\<lambda>r. r ''a0'')\<rparr>"

definition loongarch_syscall5 ::
  "'a::len word \<Rightarrow> 'a word \<Rightarrow> 'a word \<Rightarrow> 'a word \<Rightarrow> 'a word \<Rightarrow> 'a word \<Rightarrow> 'a word asm_stmt" where
  "loongarch_syscall5 num arg1 arg2 arg3 arg4 arg5 =
     \<lparr>ins = [(''a7'', num), (''a0'', arg1), (''a1'', arg2), (''a2'', arg3), (''a3'', arg4),
             (''a4'', arg5)],
      code = [Trap],
      outs = [''a0''], clob = loongarch_clobbers,
      result = (\<lambda>r. r ''a0'')\<rparr>"

definition loongarch_syscall6 ::
  "'a::len word \<Rightarrow> 'a word \<Rightarrow> 'a word \<Rightarrow> 'a word \<Rightarrow> 'a word \<Rightarrow> 'a word \<Rightarrow> 'a word \<Rightarrow> 'a word asm_stmt" where
  "loongarch_syscall6 num arg1 arg2 arg3 arg4 arg5 arg6 =
     \<lparr>ins = [(''a7'', num), (''a0'', arg1), (''a1'', arg2), (''a2'', arg3), (''a3'', arg4),
             (''a4'', arg5), (''a5'', arg6)],
      code = [Trap],
      outs = [''a0''], clob = loongarch_clobbers,
      result = (\<lambda>r. r ''a0'')\<rparr>"

definition loongarch_macro :: "'a::len word \<Rightarrow> 'a word list \<Rightarrow> 'a word asm_stmt option" where
  "loongarch_macro num args =
     (case args of
        [] \<Rightarrow> Some (loongarch_syscall0 num)
      | [a1] \<Rightarrow> Some (loongarch_syscall1 num a1)
      | [a1, a2] \<Rightarrow> Some (loongarch_syscall2 num a1 a2)
      | [a1, a2, a3] \<Rightarrow> Some (loongarch_syscall3 num a1 a2 a3)
      | [a1, a2, a3, a4] \<Rightarrow> Some (loongarch_syscall4 num a1 a2 a3 a4)
      | [a1, a2, a3, a4, a5] \<Rightarrow> Some (loongarch_syscall5 num a1 a2 a3 a4 a5)
      | [a1, a2, a3, a4, a5, a6] \<Rightarrow> Some (loongarch_syscall6 num a1 a2 a3 a4 a5 a6)
      | _ \<Rightarrow> None)"

subsection \<open>src/arch-sparc.h\<close>

definition sparc_syscall0 :: "'a::len word \<Rightarrow> 'a word asm_stmt" where
  "sparc_syscall0 num =
     \<lparr>ins = [(''g1'', num)],
      code = [Trap, UnlessFlag, Neg ''o0''],
      outs = [''o0''], clob = [],
      result = (\<lambda>r. r ''o0'')\<rparr>"

definition sparc_syscall1 :: "'a::len word \<Rightarrow> 'a word \<Rightarrow> 'a word asm_stmt" where
  "sparc_syscall1 num arg1 =
     \<lparr>ins = [(''g1'', num), (''o0'', arg1)],
      code = [Trap, UnlessFlag, Neg ''o0''],
      outs = [''o0''], clob = [],
      result = (\<lambda>r. r ''o0'')\<rparr>"

definition sparc_syscall2 ::
  "'a::len word \<Rightarrow> 'a word \<Rightarrow> 'a word \<Rightarrow> 'a word asm_stmt" where
  "sparc_syscall2 num arg1 arg2 =
     \<lparr>ins = [(''g1'', num), (''o0'', arg1), (''o1'', arg2)],
      code = [Trap, UnlessFlag, Neg ''o0''],
      outs = [''o0''], clob = [],
      result = (\<lambda>r. r ''o0'')\<rparr>"

definition sparc_syscall3 ::
  "'a::len word \<Rightarrow> 'a word \<Rightarrow> 'a word \<Rightarrow> 'a word \<Rightarrow> 'a word asm_stmt" where
  "sparc_syscall3 num arg1 arg2 arg3 =
     \<lparr>ins = [(''g1'', num), (''o0'', arg1), (''o1'', arg2), (''o2'', arg3)],
      code = [Trap, UnlessFlag, Neg ''o0''],
      outs = [''o0''], clob = [],
      result = (\<lambda>r. r ''o0'')\<rparr>"

definition sparc_syscall4 ::
  "'a::len word \<Rightarrow> 'a word \<Rightarrow> 'a word \<Rightarrow> 'a word \<Rightarrow> 'a word \<Rightarrow> 'a word asm_stmt" where
  "sparc_syscall4 num arg1 arg2 arg3 arg4 =
     \<lparr>ins = [(''g1'', num), (''o0'', arg1), (''o1'', arg2), (''o2'', arg3), (''o3'', arg4)],
      code = [Trap, UnlessFlag, Neg ''o0''],
      outs = [''o0''], clob = [],
      result = (\<lambda>r. r ''o0'')\<rparr>"

definition sparc_syscall5 ::
  "'a::len word \<Rightarrow> 'a word \<Rightarrow> 'a word \<Rightarrow> 'a word \<Rightarrow> 'a word \<Rightarrow> 'a word \<Rightarrow> 'a word asm_stmt" where
  "sparc_syscall5 num arg1 arg2 arg3 arg4 arg5 =
     \<lparr>ins = [(''g1'', num), (''o0'', arg1), (''o1'', arg2), (''o2'', arg3), (''o3'', arg4),
             (''o4'', arg5)],
      code = [Trap, UnlessFlag, Neg ''o0''],
      outs = [''o0''], clob = [],
      result = (\<lambda>r. r ''o0'')\<rparr>"

definition sparc_syscall6 ::
  "'a::len word \<Rightarrow> 'a word \<Rightarrow> 'a word \<Rightarrow> 'a word \<Rightarrow> 'a word \<Rightarrow> 'a word \<Rightarrow> 'a word \<Rightarrow> 'a word asm_stmt" where
  "sparc_syscall6 num arg1 arg2 arg3 arg4 arg5 arg6 =
     \<lparr>ins = [(''g1'', num), (''o0'', arg1), (''o1'', arg2), (''o2'', arg3), (''o3'', arg4),
             (''o4'', arg5), (''o5'', arg6)],
      code = [Trap, UnlessFlag, Neg ''o0''],
      outs = [''o0''], clob = [],
      result = (\<lambda>r. r ''o0'')\<rparr>"

definition sparc_macro :: "'a::len word \<Rightarrow> 'a word list \<Rightarrow> 'a word asm_stmt option" where
  "sparc_macro num args =
     (case args of
        [] \<Rightarrow> Some (sparc_syscall0 num)
      | [a1] \<Rightarrow> Some (sparc_syscall1 num a1)
      | [a1, a2] \<Rightarrow> Some (sparc_syscall2 num a1 a2)
      | [a1, a2, a3] \<Rightarrow> Some (sparc_syscall3 num a1 a2 a3)
      | [a1, a2, a3, a4] \<Rightarrow> Some (sparc_syscall4 num a1 a2 a3 a4)
      | [a1, a2, a3, a4, a5] \<Rightarrow> Some (sparc_syscall5 num a1 a2 a3 a4 a5)
      | [a1, a2, a3, a4, a5, a6] \<Rightarrow> Some (sparc_syscall6 num a1 a2 a3 a4 a5 a6)
      | _ \<Rightarrow> None)"

subsection \<open>src/arch-m68k.h\<close>

definition m68k_syscall0 :: "'a::len word \<Rightarrow> 'a word asm_stmt" where
  "m68k_syscall0 num =
     \<lparr>ins = [(''d0'', num)],
      code = [Trap],
      outs = [''d0''], clob = [],
      result = (\<lambda>r. r ''d0'')\<rparr>"

definition m68k_syscall1 :: "'a::len word \<Rightarrow> 'a word \<Rightarrow> 'a word asm_stmt" where
  "m68k_syscall1 num arg1 =
     \<lparr>ins = [(''d0'', num), (''d1'', arg1)],
      code = [Trap],
      outs = [''d0''], clob = [],
      result = (\<lambda>r. r ''d0'')\<rparr>"

definition m68k_syscall2 ::
  "'a::len word \<Rightarrow> 'a word \<Rightarrow> 'a word \<Rightarrow> 'a word asm_stmt" where
  "m68k_syscall2 num arg1 arg2 =
     \<lparr>ins = [(''d0'', num), (''d1'', arg1), (''d2'', arg2)],
      code = [Trap],
      outs = [''d0''], clob = [],
      result = (\<lambda>r. r ''d0'')\<rparr>"

definition m68k_syscall3 ::
  "'a::len word \<Rightarrow> 'a word \<Rightarrow> 'a word \<Rightarrow> 'a word \<Rightarrow> 'a word asm_stmt" where
  "m68k_syscall3 num arg1 arg2 arg3 =
     \<lparr>ins = [(''d0'', num), (''d1'', arg1), (''d2'', arg2), (''d3'', arg3)],
      code = [Trap],
      outs = [''d0''], clob = [],
      result = (\<lambda>r. r ''d0'')\<rparr>"

definition m68k_syscall4 ::
  "'a::len word \<Rightarrow> 'a word \<Rightarrow> 'a word \<Rightarrow> 'a word \<Rightarrow> 'a word \<Rightarrow> 'a word asm_stmt" where
  "m68k_syscall4 num arg1 arg2 arg3 arg4 =
     \<lparr>ins = [(''d0'', num), (''d1'', arg1), (''d2'', arg2), (''d3'', arg3), (''d4'', arg4)],
      code = [Trap],
      outs = [''d0''], clob = [],
      result = (\<lambda>r. r ''d0'')\<rparr>"

definition m68k_syscall5 ::
  "'a::len word \<Rightarrow> 'a word \<Rightarrow> 'a word \<Rightarrow> 'a word \<Rightarrow> 'a word \<Rightarrow> 'a word \<Rightarrow> 'a word asm_stmt" where
  "m68k_syscall5 num arg1 arg2 arg3 arg4 arg5 =
     \<lparr>ins = [(''d0'', num), (''d1'', arg1), (''d2'', arg2), (''d3'', arg3), (''d4'', arg4),
             (''d5'', arg5)],
      code = [Trap],
      outs = [''d0''], clob = [],
      result = (\<lambda>r. r ''d0'')\<rparr>"

definition m68k_syscall6 ::
  "'a::len word \<Rightarrow> 'a word \<Rightarrow> 'a word \<Rightarrow> 'a word \<Rightarrow> 'a word \<Rightarrow> 'a word \<Rightarrow> 'a word \<Rightarrow> 'a word asm_stmt" where
  "m68k_syscall6 num arg1 arg2 arg3 arg4 arg5 arg6 =
     \<lparr>ins = [(''d0'', num), (''d1'', arg1), (''d2'', arg2), (''d3'', arg3), (''d4'', arg4),
             (''d5'', arg5), (''a0'', arg6)],
      code = [Trap],
      outs = [''d0''], clob = [],
      result = (\<lambda>r. r ''d0'')\<rparr>"

definition m68k_macro :: "'a::len word \<Rightarrow> 'a word list \<Rightarrow> 'a word asm_stmt option" where
  "m68k_macro num args =
     (case args of
        [] \<Rightarrow> Some (m68k_syscall0 num)
      | [a1] \<Rightarrow> Some (m68k_syscall1 num a1)
      | [a1, a2] \<Rightarrow> Some (m68k_syscall2 num a1 a2)
      | [a1, a2, a3] \<Rightarrow> Some (m68k_syscall3 num a1 a2 a3)
      | [a1, a2, a3, a4] \<Rightarrow> Some (m68k_syscall4 num a1 a2 a3 a4)
      | [a1, a2, a3, a4, a5] \<Rightarrow> Some (m68k_syscall5 num a1 a2 a3 a4 a5)
      | [a1, a2, a3, a4, a5, a6] \<Rightarrow> Some (m68k_syscall6 num a1 a2 a3 a4 a5 a6)
      | _ \<Rightarrow> None)"

subsection \<open>src/arch.h\<close>

text \<open>The header of the target machine is chosen by the compiler's predefined macros.\<close>

datatype arch =
    X86_64 | I386 | ARM bool | AARCH64 | MIPS | POWERPC | RISCV | S390 | LOONGARCH | SPARC | M68K

definition arch_macro :: "arch \<Rightarrow> 'a::len word \<Rightarrow> 'a word list \<Rightarrow> 'a word asm_stmt option" where
  "arch_macro M =
     (case M of
        X86_64 \<Rightarrow> x86_64_macro
      | I386 \<Rightarrow> i386_macro
      | ARM thumb \<Rightarrow> arm_macro thumb
      | AARCH64 \<Rightarrow> aarch64_macro
      | MIPS \<Rightarrow> mips_macro
      | POWERPC \<Rightarrow> powerpc_macro
      | RISCV \<Rightarrow> riscv_macro
      | S390 \<Rightarrow> s390_macro
      | LOONGARCH \<Rightarrow> loongarch_macro
      | SPARC \<Rightarrow> sparc_macro
      | M68K \<Rightarrow> m68k_macro)"

lemmas x86_64_defs =
  x86_64_syscall0_def x86_64_syscall1_def x86_64_syscall2_def x86_64_syscall3_def
  x86_64_syscall4_def x86_64_syscall5_def x86_64_syscall6_def x86_64_macro_def

lemmas i386_defs =
  i386_syscall0_def i386_syscall1_def i386_syscall2_def i386_syscall3_def i386_syscall4_def
  i386_syscall5_def i386_syscall6_def i386_macro_def

lemmas arm_defs =
  syscall_reg_def thumb_set_r7_def thumb_reset_r7_def arm_syscall0_def arm_syscall1_def
  arm_syscall2_def arm_syscall3_def arm_syscall4_def arm_syscall5_def arm_syscall6_def
  arm_macro_def

lemmas aarch64_defs =
  aarch64_syscall0_def aarch64_syscall1_def aarch64_syscall2_def aarch64_syscall3_def
  aarch64_syscall4_def aarch64_syscall5_def aarch64_syscall6_def aarch64_macro_def

lemmas mips_defs =
  mips_clobbers_def mips_syscall0_def mips_syscall1_def mips_syscall2_def mips_syscall3_def
  mips_syscall4_def mips_syscall5_def mips_syscall6_def mips_macro_def

lemmas powerpc_defs =
  powerpc_clobbers_def powerpc_syscall0_def powerpc_syscall1_def powerpc_syscall2_def
  powerpc_syscall3_def powerpc_syscall4_def powerpc_syscall5_def powerpc_syscall6_def
  powerpc_macro_def

lemmas riscv_defs =
  riscv_syscall0_def riscv_syscall1_def riscv_syscall2_def riscv_syscall3_def riscv_syscall4_def
  riscv_syscall5_def riscv_syscall6_def riscv_macro_def

lemmas s390_defs =
  s390_syscall0_def s390_syscall1_def s390_syscall2_def s390_syscall3_def s390_syscall4_def
  s390_syscall5_def s390_syscall6_def s390_macro_def

lemmas loongarch_defs =
  loongarch_clobbers_def loongarch_syscall0_def loongarch_syscall1_def loongarch_syscall2_def
  loongarch_syscall3_def loongarch_syscall4_def loongarch_syscall5_def loongarch_syscall6_def
  loongarch_macro_def

lemmas sparc_defs =
  sparc_syscall0_def sparc_syscall1_def sparc_syscall2_def sparc_syscall3_def sparc_syscall4_def
  sparc_syscall5_def sparc_syscall6_def sparc_macro_def

lemmas m68k_defs =
  m68k_syscall0_def m68k_syscall1_def m68k_syscall2_def m68k_syscall3_def m68k_syscall4_def
  m68k_syscall5_def m68k_syscall6_def m68k_macro_def

end
