(* ===== verification/ArchStart.thy ===== *)
theory ArchStart
  imports ArchMacros SysMem
begin

section \<open>Entry points and the functions of one machine only\<close>

text \<open>
  The code of \<^verbatim>\<open>_start\<close> of each machine with the transfer to \<^verbatim>\<open>_start_c\<close>; what
  follows the call is not reached. A store with update is a store and an addition. The addresses
  that the linker supplies are parameters: \<open>f\<close> is that of \<^verbatim>\<open>_start_c\<close>, \<open>back\<close> the one behind
  the call.
\<close>

definition x86_64_start :: "'a::len word \<Rightarrow> 'a word \<Rightarrow> 'a word insn list" where
  "x86_64_start back f = [Eor ''rbp'' ''rbp'', Mov ''rdi'' ''rsp'', CallPush ''rsp'' 8 back f]"

definition i386_start :: "'a::len word \<Rightarrow> 'a word \<Rightarrow> 'a word insn list" where
  "i386_start back f =
     [Eor ''ebp'' ''ebp'', Mov ''eax'' ''esp'', Add ''esp'' ''esp'' (- 12), Push ''eax'' ''esp'',
      CallPush ''esp'' 4 back f]"

definition arm_start :: "'a::len word \<Rightarrow> 'a word \<Rightarrow> 'a word insn list" where
  "arm_start back f = [Mov ''r0'' ''sp'', CallLink ''lr'' back f]"

definition aarch64_start :: "'a::len word \<Rightarrow> 'a word \<Rightarrow> 'a word insn list" where
  "aarch64_start back f = [Mov ''x0'' ''sp'', CallLink ''x30'' back f]"

text \<open>
  MIPS: \<open>ra\<close> is the address behind the \<^verbatim>\<open>bal\<close>, from which \<^verbatim>\<open>.cpload\<close> computes
  \<open>gp\<close>. The relocation operator
  \<^verbatim>\<open>%hi\<close> is rounded for an instruction that adds \<^verbatim>\<open>%lo\<close> as a signed number.
\<close>

definition reloc_hi :: "'a::len word \<Rightarrow> 'a word" where
  "reloc_hi f = drop_bit 16 (f + 0x8000)"

definition reloc_lo :: "'a::len word \<Rightarrow> 'a word" where
  "reloc_lo f = f AND 0xffff"

definition mips_start :: "'a::len word \<Rightarrow> 'a word \<Rightarrow> 'a word \<Rightarrow> 'a word \<Rightarrow> 'a word insn list" where
  "mips_start ra gp back f =
     [Li ''ra'' ra, Li ''gp'' gp,
      Mov ''a0'' ''sp'',
      Add ''sp'' ''sp'' (- 4),
      Store ''gp'' 0 ''sp'',
      Li ''t0'' (- 8),
      And ''sp'' ''t0'',
      Add ''sp'' ''sp'' (- 16),
      Li ''t9'' (push_bit 16 (reloc_hi f)),
      Ori ''t9'' (reloc_lo f),
      CallReg ''ra'' back ''t9'']"

text \<open>
  PowerPC: \<open>elfv2\<close> holds the two halves of \<^verbatim>\<open>.TOC. - _start\<close> where the ABI of the
  64-bit machine is version 2.
\<close>

definition powerpc_start ::
  "bool \<Rightarrow> ('a::len word \<times> 'a word) option \<Rightarrow> 'a word \<Rightarrow> 'a word \<Rightarrow> 'a word insn list" where
  "powerpc_start is64 elfv2 back f =
     (if is64
      then (case elfv2 of
              Some (ha, l) \<Rightarrow> [Add ''r2'' ''r12'' ha, Add ''r2'' ''r2'' l]
            | None \<Rightarrow> []) @
        [Mov ''r3'' ''r1'', Li ''r0'' 0, Store ''r1'' (- 32) ''r1'', Add ''r1'' ''r1'' (- 32),
         CallLink ''lr'' back f]
      else
        [Mov ''r3'' ''r1'', Li ''r0'' 0, Store ''r1'' (- 16) ''r1'', Add ''r1'' ''r1'' (- 16),
         CallLink ''lr'' back f])"

definition riscv_start :: "'a::len word \<Rightarrow> 'a word \<Rightarrow> 'a word \<Rightarrow> 'a word insn list" where
  "riscv_start gp back f = [Li ''gp'' gp, Mov ''a0'' ''sp'', CallLink ''ra'' back f]"

definition s390_start :: "bool \<Rightarrow> 'a::len word \<Rightarrow> 'a word \<Rightarrow> 'a word insn list" where
  "s390_start s390x back f =
     (if s390x then [Mov ''2'' ''15'', Add ''15'' ''15'' (- 160)]
      else [Mov ''2'' ''15'', Add ''15'' ''15'' (- 96)]) @
     (if s390x then [Zero 0 ''15''] else [Zero 0 ''15'', Zero 4 ''15'']) @ [CallLink ''14'' back f]"

definition loongarch_start :: "'a::len word \<Rightarrow> 'a word \<Rightarrow> 'a word insn list" where
  "loongarch_start back f = [Mov ''a0'' ''sp'', CallLink ''ra'' back f]"

definition sparc_start :: "bool \<Rightarrow> 'a::len word \<Rightarrow> 'a word insn list" where
  "sparc_start arch64 f =
     (if arch64 then [Add ''o0'' ''sp'' (128 + 2047)] else [Add ''o0'' ''sp'' 64]) @ [Jump f]"

definition m68k_start :: "'a::len word \<Rightarrow> 'a word \<Rightarrow> 'a word insn list" where
  "m68k_start back f = [Push ''sp'' ''sp'', CallPush ''sp'' 4 back f]"

text \<open>
  The entry code of a machine. The record holds what the linker and the compiler options fix: the
  address behind \<^verbatim>\<open>bal\<close>, the global pointer, the addresses of \<^verbatim>\<open>_start_c\<close> and behind its call,
  whether the machine has 64 bits where the code tests it, and the ELFv2 constants.
\<close>

record 'i linkage =
  behind_bal :: 'i
  global_pointer :: 'i
  start_c_at :: 'i
  behind_call :: 'i
  is_64 :: bool
  toc_offset :: "('i \<times> 'i) option"

definition arch_start :: "arch \<Rightarrow> 'a::len word linkage \<Rightarrow> 'a word insn list" where
  "arch_start M L =
     (let f = start_c_at L; back = behind_call L in
      case M of
        X86_64 \<Rightarrow> x86_64_start back f
      | I386 \<Rightarrow> i386_start back f
      | ARM thumb \<Rightarrow> arm_start back f
      | AARCH64 \<Rightarrow> aarch64_start back f
      | MIPS \<Rightarrow> mips_start (behind_bal L) (global_pointer L) back f
      | POWERPC \<Rightarrow> powerpc_start (is_64 L) (toc_offset L) back f
      | RISCV \<Rightarrow> riscv_start (global_pointer L) back f
      | S390 \<Rightarrow> s390_start (is_64 L) back f
      | LOONGARCH \<Rightarrow> loongarch_start back f
      | SPARC \<Rightarrow> sparc_start (is_64 L) f
      | M68K \<Rightarrow> m68k_start back f)"

subsection \<open>s390 and SPARC\<close>

text \<open>
  On s390 the old \<^verbatim>\<open>mmap\<close> takes the address of a structure, and \<^verbatim>\<open>clone\<close> its
  first two arguments in the other order. On SPARC \<^verbatim>\<open>fork\<close> returns the parent's number in
  the child. \<open>fp\<close> is the address of the structure.
\<close>

definition s390_sys_mmap ::
  "'w target \<Rightarrow> addr \<Rightarrow> addr \<Rightarrow> i64 \<Rightarrow> i32 \<Rightarrow> i32 \<Rightarrow> i32 \<Rightarrow> i64 \<Rightarrow> 'w cstate \<Rightarrow> (addr \<times> 'w cstate) option" where
  "s390_sys_mmap T fp addr len prot flags fd offset s = do {
     s \<leftarrow> cstore64 fp addr s;
     s \<leftarrow> cstore64 (fp + 8) len s;
     s \<leftarrow> cstore64 (fp + 16) (scast prot) s;
     s \<leftarrow> cstore64 (fp + 24) (scast flags) s;
     s \<leftarrow> cstore64 (fp + 32) (scast fd) s;
     s \<leftarrow> cstore64 (fp + 40) offset s;
     Some (my_syscall1 T ''mmap'' fp s) }"

definition s390_sys_fork :: "'w target \<Rightarrow> 'w cstate \<Rightarrow> i32 \<times> 'w cstate" where
  "s390_sys_fork T = int_result (my_syscall5 T ''clone'' 0 (scast (SIGCHLD T)) 0 0 0)"

definition sparc_sys_fork :: "'w target \<Rightarrow> 'w cstate \<Rightarrow> i32 \<times> 'w cstate" where
  "sparc_sys_fork T s =
     (let (parent, s) = getpid T s;
          (ret, s) = int_result (my_syscall0 T ''fork'') s in
      if ret = parent then (0, s) else (ret, s))"

end
