(* ===== verification/ArchFacts.thy ===== *)
theory ArchFacts
  imports ArchStart
begin

section \<open>What the kernel and the C compiler expect of each machine\<close>

text \<open>
  The conventions of the system call interface, as the comments of \<^verbatim>\<open>src/arch-*.h\<close>
  and the documentation of Linux give them, and the lemmas that a macro follows them. One lemma serves
  all macros that only trap, one those that test a flag; MIPS, Thumb and the sixth argument of
  i386 have their own.
\<close>

text \<open>
  The registers a kernel destroys are stated here and not taken from the statements: on x86-64
  \<^verbatim>\<open>rcx\<close> and \<^verbatim>\<open>r11\<close>, on ARM \<^verbatim>\<open>lr\<close> (comments of the headers), on MIPS all but the arguments, the saved
  registers, the pointers and \<^verbatim>\<open>ra\<close>, on PowerPC the volatile general registers of its ABI,
  on LoongArch the temporaries; the other kernels restore every general register but the result.
  Condition codes and the \<^verbatim>\<open>ctr\<close> and \<^verbatim>\<open>xer\<close> of PowerPC are not registers of the model.
\<close>

definition arch_abi :: "arch \<Rightarrow> 'a::len word abi" where
  "arch_abi M =
     (case M of
        X86_64 \<Rightarrow> \<lparr>nr_in = ''rax'', args_in = [''rdi'', ''rsi'', ''rdx'', ''r10'', ''r8'', ''r9''],
          stack_in = [], sp_in = ''rsp'', result_in = ''rax'', errors_by = Negative,
          destroys = [''rcx'', ''r11'']\<rparr>
      | I386 \<Rightarrow> \<lparr>nr_in = ''eax'', args_in = [''ebx'', ''ecx'', ''edx'', ''esi'', ''edi'', ''ebp''],
          stack_in = [], sp_in = ''esp'', result_in = ''eax'', errors_by = Negative,
          destroys = []\<rparr>
      | ARM thumb \<Rightarrow> \<lparr>nr_in = ''r7'', args_in = [''r0'', ''r1'', ''r2'', ''r3'', ''r4'', ''r5''],
          stack_in = [], sp_in = ''sp'', result_in = ''r0'', errors_by = Negative,
          destroys = [''lr'']\<rparr>
      | AARCH64 \<Rightarrow> \<lparr>nr_in = ''x8'', args_in = [''x0'', ''x1'', ''x2'', ''x3'', ''x4'', ''x5''],
          stack_in = [], sp_in = ''sp'', result_in = ''x0'', errors_by = Negative,
          destroys = []\<rparr>
      | MIPS \<Rightarrow> \<lparr>nr_in = ''v0'', args_in = [''a0'', ''a1'', ''a2'', ''a3''],
          stack_in = [16, 20], sp_in = ''sp'', result_in = ''v0'', errors_by = ByReg ''a3'',
          destroys = [''at'', ''v1'', ''t0'', ''t1'', ''t2'', ''t3'', ''t4'',
            ''t5'', ''t6'', ''t7'', ''t8'', ''t9'', ''hi'', ''lo'']\<rparr>
      | POWERPC \<Rightarrow> \<lparr>nr_in = ''r0'', args_in = [''r3'', ''r4'', ''r5'', ''r6'', ''r7'', ''r8''],
          stack_in = [], sp_in = ''r1'', result_in = ''r3'', errors_by = ByFlag,
          destroys = [''r0'', ''r4'', ''r5'', ''r6'', ''r7'',
            ''r8'', ''r9'', ''r10'', ''r11'', ''r12'']\<rparr>
      | RISCV \<Rightarrow> \<lparr>nr_in = ''a7'', args_in = [''a0'', ''a1'', ''a2'', ''a3'', ''a4'', ''a5''],
          stack_in = [], sp_in = ''sp'', result_in = ''a0'', errors_by = Negative,
          destroys = []\<rparr>
      | S390 \<Rightarrow> \<lparr>nr_in = ''1'', args_in = [''2'', ''3'', ''4'', ''5'', ''6'', ''7''],
          stack_in = [], sp_in = ''15'', result_in = ''2'', errors_by = Negative,
          destroys = []\<rparr>
      | LOONGARCH \<Rightarrow> \<lparr>nr_in = ''a7'', args_in = [''a0'', ''a1'', ''a2'', ''a3'', ''a4'', ''a5''],
          stack_in = [], sp_in = ''sp'', result_in = ''a0'', errors_by = Negative,
          destroys = [''t0'', ''t1'', ''t2'', ''t3'', ''t4'', ''t5'', ''t6'', ''t7'', ''t8'']\<rparr>
      | SPARC \<Rightarrow> \<lparr>nr_in = ''g1'', args_in = [''o0'', ''o1'', ''o2'', ''o3'', ''o4'', ''o5''],
          stack_in = [], sp_in = ''sp'', result_in = ''o0'', errors_by = ByFlag,
          destroys = []\<rparr>
      | M68K \<Rightarrow> \<lparr>nr_in = ''d0'', args_in = [''d1'', ''d2'', ''d3'', ''d4'', ''d5'', ''a0''],
          stack_in = [], sp_in = ''sp'', result_in = ''d0'', errors_by = Negative,
          destroys = []\<rparr>)"


lemma args_cases:
  assumes "length args \<le> 6"
  obtains "args = []" | a where "args = [a]" | a b where "args = [a, b]"
  | a b c where "args = [a, b, c]" | a b c d where "args = [a, b, c, d]"
  | a b c d e where "args = [a, b, c, d, e]" | a b c d e f where "args = [a, b, c, d, e, f]"
  using assms that by (auto simp: numeral_eq_Suc le_Suc_eq length_Suc_conv)

lemmas exec_simps = run_stmt_def trap_def arg_values_def spoil_def arch_abi_def




lemma take_more [simp]:
  "take (Suc 0) (x # xs) = [x]" "take 2 (x # y # xs) = [x, y]" "take 3 (x # y # z # xs) = [x, y, z]"
  "take 4 (a # b # c # d # xs) = [a, b, c, d]" "take 5 (a # b # c # d # e # xs) = [a, b, c, d, e]"
  "take 6 (a # b # c # d # e # f # xs) = [a, b, c, d, e, f]"
  by simp_all

definition passes :: "'a::len word abi \<Rightarrow> 'a word asm_stmt \<Rightarrow> 'a word \<Rightarrow> 'a word list \<Rightarrow> bool" where
  "passes A st num args \<longleftrightarrow>
     (\<forall>f. assign (ins st) f (nr_in A) = num \<and>
        take (length args) (List.map (assign (ins st) f) (args_in A)) = args)"

lemma passes_values:
  assumes "passes A st num args" and "length args \<le> length (args_in A)"
  shows "assign (ins st) f (nr_in A) = num"
    and "take (length args) (arg_values A (c\<lparr>regs := assign (ins st) f\<rparr>)) = args"
  using assms by (auto simp: passes_def arg_values_def)

lemma plain_trap:
  assumes "passes A st num args" and "arity K num = length args" and "length args \<le> length (args_in A)"
    and "code st = [Trap]" and "errors_by A = Negative" and "result st = (\<lambda>r. r (result_in A))"
    and "result_in A \<in> set (outs st)" and "set (destroys A) \<subseteq> set (outs st) \<union> set (clob st)"
  shows "calls_kernel K A st num args"
  unfolding calls_kernel_def
proof (intro allI impI)
  fix junk and c :: "('a word, 'b) cpu" and v c'
  assume run: "run_stmt K A junk st c = (v, c')"
  obtain r w where s: "service K num args (world c) = (r, w)" by (cases "service K num args (world c)") auto
  have "v = r \<and> c' = c\<lparr>regs := (spoil junk (destroys A) (assign (ins st) (regs c)))(result_in A := r), world := w\<rparr>"
    using run passes_values(1) [OF assms(1,3), of "regs c"]
      passes_values(2) [OF assms(1,3), of "regs c" c] assms s
    by (auto simp: run_stmt_def trap_def)
  then show "(v, world c') = service K num args (world c) \<and>
        (\<forall>x. x \<notin> set (outs st) \<and> x \<notin> set (clob st) \<longrightarrow> regs c' x = assign (ins st) (regs c) x) \<and>
        (\<forall>a. a \<notin> below (regs c (sp_in A)) \<longrightarrow> cells c' a = cells c a) \<and> pc c' = pc c"
    using s assms(7,8) by (auto simp: spoil_def)
qed

lemma flag_trap:
  assumes "passes A st num args" and "arity K num = length args" and "length args \<le> length (args_in A)"
    and "code st = [Trap, UnlessFlag, Neg (result_in A)]" and "errors_by A = ByFlag" and "result st = (\<lambda>r. r (result_in A))"
    and "result_in A \<in> set (outs st)" and "set (destroys A) \<subseteq> set (outs st) \<union> set (clob st)"
  shows "calls_kernel K A st num args"
  unfolding calls_kernel_def
proof (intro allI impI)
  fix junk and c :: "('a word, 'b) cpu" and v c'
  assume run: "run_stmt K A junk st c = (v, c')"
  obtain r w where s: "service K num args (world c) = (r, w)" by (cases "service K num args (world c)") auto
  have "v = r \<and> c' = c\<lparr>regs := (spoil junk (destroys A) (assign (ins st) (regs c)))(result_in A := r), flag := is_err r, world := w\<rparr>"
    using run passes_values(1) [OF assms(1,3), of "regs c"]
      passes_values(2) [OF assms(1,3), of "regs c" c] assms s
    by (auto simp: run_stmt_def trap_def split: if_splits)
  then show "(v, world c') = service K num args (world c) \<and>
        (\<forall>x. x \<notin> set (outs st) \<and> x \<notin> set (clob st) \<longrightarrow> regs c' x = assign (ins st) (regs c) x) \<and>
        (\<forall>a. a \<notin> below (regs c (sp_in A)) \<longrightarrow> cells c' a = cells c a) \<and> pc c' = pc c"
    using s assms(7,8) by (auto simp: spoil_def)
qed


lemma mips_keeps_sp [simp]: "spoil junk (destroys (arch_abi MIPS)) f ''sp'' = f ''sp''"
  by (simp add: spoil_def arch_abi_def)

lemma mips_answers:
  "nr_in (arch_abi MIPS) = ''v0''" "result_in (arch_abi MIPS) = ''v0''" "errors_by (arch_abi MIPS) = ByReg ''a3''"
  "sp_in (arch_abi MIPS) = ''sp''"
  by (simp_all add: arch_abi_def)

lemma mips_trap:
  fixes num :: "'a::len word"
  assumes "32 \<le> LENGTH('a)"
    and f: "\<And>g. let f = assign (ins st) g in f ''v0'' = num \<and>
      take (length args) [f ''a0'', f ''a1'', f ''a2'', f ''a3'', f ''%7'', f ''%8''] = args \<and> f ''sp'' = g ''sp''"
    and K: "arity K num = length args" and "length args \<le> 6"
    and "code st = Add ''sp'' ''sp'' (- 32) # stores @ [Trap, Add ''sp'' ''sp'' 32]"
    and "stores = (if length args \<le> 4 then []
      else if length args = 5 then [Store ''%7'' 16 ''sp'']
      else [Store ''%7'' 16 ''sp'', Store ''%8'' 20 ''sp''])"
    and o: "outs st = [''v0'', ''a3'']" "set (destroys (arch_abi MIPS :: 'a word abi)) \<subseteq> set (outs st) \<union> set (clob st)"
      "result st = (\<lambda>r. if r ''a3'' \<noteq> 0 then - r ''v0'' else r ''v0'')"
  shows "calls_kernel K (arch_abi MIPS) st num args"
  unfolding calls_kernel_def
proof (intro allI impI)
  fix junk and c :: "('a word, 'b) cpu" and v c'
  assume run: "run_stmt K (arch_abi MIPS) junk st c = (v, c')"
  obtain r w where s: "service K num args (world c) = (r, w)" by (cases "service K num args (world c)") auto
  define f where "f = assign (ins st) (regs c)"
  have f: "f ''v0'' = num" "take (length args) [f ''a0'', f ''a1'', f ''a2'', f ''a3'', f ''%7'', f ''%8''] = args"
     "f ''sp'' = regs c ''sp''"
    using f [of "regs c"] by (auto simp: f_def Let_def)
  let ?sp = "regs c ''sp''"
  define m where "m = (if length args \<le> 4 then cells c
      else if length args = 5 then (cells c)(?sp - 16 := f ''%7'')
      else (cells c)(?sp - 16 := f ''%7'', ?sp - 12 := f ''%8''))"
  define c1 where "c1 = c\<lparr>regs := f(''sp'' := ?sp - 32), cells := m\<rparr>"
  have ne: "?sp - 16 \<noteq> ?sp - 12"
    using small_nonzero [OF assms(1), of 4] by (simp add: algebra_simps flip: eq_diff_eq)
  have pre: "exec K (arch_abi MIPS) junk (code st) (c\<lparr>regs := f\<rparr>) =
      exec K (arch_abi MIPS) junk [Trap, Add ''sp'' ''sp'' 32] c1"
    using assms(5,6) f(3) by (auto simp: c1_def m_def algebra_simps)
  have "arg_values (arch_abi MIPS) c1 = [f ''a0'', f ''a1'', f ''a2'', f ''a3'', m (?sp - 16), m (?sp - 12)]"
    by (simp add: arg_values_def arch_abi_def c1_def)
  then have args: "take (length args) (arg_values (arch_abi MIPS) c1) = args"
    using f(2) ne by (rule_tac args_cases [OF assms(4)]) (simp_all add: m_def)
  have fin: "exec K (arch_abi MIPS) junk (code st) (c\<lparr>regs := f\<rparr>) =
      c\<lparr>cells := m, world := w, regs := (spoil junk (destroys (arch_abi MIPS :: 'a word abi)) (f(''sp'' := ?sp - 32)))
     (''v0'' := (if is_err r then - r else r), ''a3'' := (if is_err r then 1 else 0), ''sp'' := ?sp)\<rparr>"
    unfolding pre using args f s K by (auto simp: trap_def c1_def Let_def mips_answers)
  have "v = r \<and> cells c' = m \<and> world c' = w \<and> pc c' = pc c \<and> regs c' = (spoil junk (destroys (arch_abi MIPS :: 'a word abi)) (f(''sp'' := ?sp - 32)))
     (''v0'' := (if is_err r then - r else r), ''a3'' := (if is_err r then 1 else 0), ''sp'' := ?sp)"
    using run o by (auto simp: run_stmt_def f_def [symmetric] fin Let_def)
  moreover have "\<forall>a. a \<notin> below ?sp \<longrightarrow> m a = cells c a" by (auto simp: m_def below_def)
  ultimately show "(v, world c') = service K num args (world c) \<and>
        (\<forall>x. x \<notin> set (outs st) \<and> x \<notin> set (clob st) \<longrightarrow> regs c' x = assign (ins st) (regs c) x) \<and>
        (\<forall>a. a \<notin> below (regs c (sp_in (arch_abi MIPS))) \<longrightarrow> cells c' a = cells c a) \<and> pc c' = pc c"
    using s o f(3) by (auto simp: spoil_def f_def [symmetric] mips_answers)
qed

lemma thumb_trap:
  assumes f: "\<And>g. let f = assign (ins st) g in f ''r6'' = num \<and> f ''r7'' = g ''r7'' \<and>
      take (length args) [f ''r0'', f ''r1'', f ''r2'', f ''r3'', f ''r4'', f ''r5''] = args"
    and K: "arity K num = length args" and "length args \<le> 6"
    and "code st = thumb_set_r7 True @ [Trap] @ thumb_reset_r7 True"
    and o: "outs st = [''r0'', ''r6'']" "clob st = [''lr'']" "result st = (\<lambda>r. r ''r0'')"
  shows "calls_kernel K (arch_abi (ARM True)) st num args"
  unfolding calls_kernel_def
proof (intro allI impI)
  fix junk and c :: "('a word, 'b) cpu" and v c'
  assume run: "run_stmt K (arch_abi (ARM True)) junk st c = (v, c')"
  obtain r w where s: "service K num args (world c) = (r, w)" by (cases "service K num args (world c)") auto
  define f where "f = assign (ins st) (regs c)"
  have f: "f ''r6'' = num" "f ''r7'' = regs c ''r7''"
     "take (length args) [f ''r0'', f ''r1'', f ''r2'', f ''r3'', f ''r4'', f ''r5''] = args"
    using f [of "regs c"] by (auto simp: f_def Let_def)
  define c1 where "c1 = c\<lparr>regs := f(''r6'' := regs c ''r7'', ''r7'' := num)\<rparr>"
  have x: "(a XOR b) XOR b = (a :: 'a word)" "b XOR (a XOR b) = a" "(a XOR b) XOR a = b" for a b
    by (simp_all add: ac_simps)
  have pre: "exec K (arch_abi (ARM True)) junk (code st) (c\<lparr>regs := f\<rparr>) =
      exec K (arch_abi (ARM True)) junk [Trap, Mov ''r7'' ''r6''] c1"
    using assms(4) f(1,2) by (auto simp: c1_def thumb_set_r7_def thumb_reset_r7_def x)
  have args: "take (length args) (arg_values (arch_abi (ARM True)) c1) = args"
    using f(3) by (simp add: arg_values_def arch_abi_def c1_def)
  have "v = r \<and> cells c' = cells c \<and> world c' = w \<and> pc c' = pc c \<and>
      regs c' = (spoil junk [''lr''] (f(''r6'' := regs c ''r7'', ''r7'' := num)))(''r0'' := r, ''r7'' := regs c ''r7'')"
    using run args f s K pre o
    by (auto simp add: run_stmt_def f_def [symmetric] trap_def c1_def arch_abi_def Let_def spoil_def)
  then show "(v, world c') = service K num args (world c) \<and>
        (\<forall>x. x \<notin> set (outs st) \<and> x \<notin> set (clob st) \<longrightarrow> regs c' x = assign (ins st) (regs c) x) \<and>
        (\<forall>a. a \<notin> below (regs c (sp_in (arch_abi (ARM True)))) \<longrightarrow> cells c' a = cells c a) \<and> pc c' = pc c"
    using s o f by (auto simp: spoil_def f_def [symmetric] arch_abi_def)
qed

lemma i386_trap6:
  fixes num :: "'a::len word"
  assumes "32 \<le> LENGTH('a)" and K: "arity K num = 6"
    and f: "\<And>g. let f = assign (ins st) g in f ''eax'' = num \<and> f ''ebx'' = a1 \<and> f ''ecx'' = a2 \<and>
      f ''edx'' = a3 \<and> f ''esi'' = a4 \<and> f ''edi'' = a5 \<and> f ''_arg6'' = a6 \<and>
      f ''esp'' = g ''esp'' \<and> f ''ebp'' = g ''ebp''"
    and code: "code st = [Push ''_arg6'' ''esp'', Push ''ebp'' ''esp'', Load ''ebp'' 4 ''esp'', Trap,
      Pop ''ebp'' ''esp'', Add ''esp'' ''esp'' 4]"
    and o: "outs st = [''eax'']" "result st = (\<lambda>r. r ''eax'')"
  shows "calls_kernel K (arch_abi I386) st num [a1, a2, a3, a4, a5, a6]"
  unfolding calls_kernel_def
proof (intro allI impI)
  fix junk and c :: "('a word, 'b) cpu" and v c'
  assume run: "run_stmt K (arch_abi I386) junk st c = (v, c')"
  obtain r w where s: "service K num [a1, a2, a3, a4, a5, a6] (world c) = (r, w)"
    by (cases "service K num [a1, a2, a3, a4, a5, a6] (world c)") auto
  define f where "f = assign (ins st) (regs c)"
  let ?sp = "regs c ''esp''"
  have f: "f ''eax'' = num" "f ''ebx'' = a1" "f ''ecx'' = a2" "f ''edx'' = a3" "f ''esi'' = a4" "f ''edi'' = a5"
    "f ''_arg6'' = a6" "f ''esp'' = ?sp" "f ''ebp'' = regs c ''ebp''"
    using f [of "regs c"] by (simp_all add: f_def Let_def)
  have ne: "?sp - 8 \<noteq> ?sp - 4"
    using small_nonzero [OF assms(1), of 4] by (simp add: algebra_simps flip: eq_diff_eq)
  define m where "m = (cells c)(?sp - 4 := a6, ?sp - 8 := regs c ''ebp'')"
  define c1 where "c1 = c\<lparr>cells := m, regs := f(''ebp'' := a6, ''esp'' := ?sp - 8)\<rparr>"
  have pre: "exec K (arch_abi I386) junk (code st) (c\<lparr>regs := f\<rparr>) =
      exec K (arch_abi I386) junk [Trap, Pop ''ebp'' ''esp'', Add ''esp'' ''esp'' 4] c1"
    using f ne by (simp add: code c1_def m_def fun_upd_twist)
  have args: "take 6 (arg_values (arch_abi I386) c1) = [a1, a2, a3, a4, a5, a6]"
    using f by (simp add: arg_values_def arch_abi_def c1_def)
  have tr: "trap K (arch_abi I386) junk c1 =
      c1\<lparr>regs := f(''ebp'' := a6, ''esp'' := ?sp - 8, ''eax'' := r), world := w\<rparr>"
    using args s K f by (simp add: trap_def c1_def) (simp add: arch_abi_def spoil_def)
  have "m (?sp - 8) = regs c ''ebp''" by (simp add: m_def)
  then have regs: "f(''eax'' := r, ''ebp'' := m (?sp - 8), ''esp'' := ?sp) = f(''eax'' := r)"
    using f by (simp add: fun_eq_iff)
  have "c' = c\<lparr>cells := m, world := w, regs := f(''eax'' := r)\<rparr>" and "v = r"
    using run pre tr regs o(2) by (auto simp: run_stmt_def f_def [symmetric] Let_def c1_def)
  then show "(v, world c') = service K num [a1, a2, a3, a4, a5, a6] (world c) \<and>
        (\<forall>x. x \<notin> set (outs st) \<and> x \<notin> set (clob st) \<longrightarrow> regs c' x = assign (ins st) (regs c) x) \<and>
        (\<forall>a. a \<notin> below (regs c (sp_in (arch_abi I386))) \<longrightarrow> cells c' a = cells c a) \<and> pc c' = pc c"
    using s o(1) by (auto simp: f_def [symmetric] arch_abi_def m_def below_def)
qed


lemma plain_calls:
  assumes "M \<in> {X86_64, ARM False, AARCH64, RISCV, S390, LOONGARCH, M68K} \<or> M = I386 \<and> length args \<noteq> 6"
    and "arity K num = length args" and "length args \<le> 6" and "arch_macro M num args = Some st"
  shows "calls_kernel K (arch_abi M) st num args"
proof -
  have "passes (arch_abi M) st num args \<and> code st = [Trap] \<and>
      set (destroys (arch_abi M)) \<subseteq> set (outs st) \<union> set (clob st) \<and>
      result st = (\<lambda>r. r (result_in (arch_abi M))) \<and> result_in (arch_abi M) \<in> set (outs st)"
    using assms(1,4)
    by (rule_tac args_cases [OF assms(3)]; auto simp: arch_macro_def passes_def arch_abi_def
        x86_64_defs i386_defs arm_defs aarch64_defs riscv_defs s390_defs loongarch_defs m68k_defs)
  moreover have "length args \<le> length (args_in (arch_abi M))" "errors_by (arch_abi M) = Negative"
    using assms(1,3) by (auto simp: arch_abi_def)
  ultimately show ?thesis using assms(2) by (intro plain_trap) auto
qed

lemma flag_calls:
  assumes "M \<in> {POWERPC, SPARC}"
    and "arity K num = length args" and "length args \<le> 6" and "arch_macro M num args = Some st"
  shows "calls_kernel K (arch_abi M) st num args"
proof -
  have "passes (arch_abi M) st num args \<and> code st = [Trap, UnlessFlag, Neg (result_in (arch_abi M))] \<and>
      set (destroys (arch_abi M)) \<subseteq> set (outs st) \<union> set (clob st) \<and>
      result st = (\<lambda>r. r (result_in (arch_abi M))) \<and> result_in (arch_abi M) \<in> set (outs st)"
    using assms(1,4)
    by (rule_tac args_cases [OF assms(3)]; auto simp: arch_macro_def passes_def arch_abi_def
        powerpc_defs sparc_defs)
  moreover have "length args \<le> length (args_in (arch_abi M))" "errors_by (arch_abi M) = ByFlag"
    using assms(1,3) by (auto simp: arch_abi_def)
  ultimately show ?thesis using assms(2) by (intro flag_trap) auto
qed

lemma mips_calls:
  fixes num :: "'a::len word"
  assumes "32 \<le> LENGTH('a)" and "arity K num = length args" and "length args \<le> 6"
    and "arch_macro MIPS num args = Some st"
  shows "calls_kernel K (arch_abi MIPS) st num args"
  using assms(4)
  by (rule_tac args_cases [OF assms(3)]; intro mips_trap [OF assms(1) _ assms(2,3) _ refl])
    (auto simp: arch_macro_def mips_macro_def mips_clobbers_def arch_abi_def mips_syscall0_def mips_syscall1_def mips_syscall2_def
      mips_syscall3_def mips_syscall4_def mips_syscall5_def mips_syscall6_def)

lemma thumb_calls:
  assumes "arity K num = length args" and "length args \<le> 6"
    and "arch_macro (ARM True) num args = Some st"
  shows "calls_kernel K (arch_abi (ARM True)) st num args"
  using assms(3)
  by (rule_tac args_cases [OF assms(2)]; intro thumb_trap [OF _ assms(1,2)])
    (auto simp: arch_macro_def arm_macro_def arm_syscall0_def arm_syscall1_def arm_syscall2_def
      arm_syscall3_def arm_syscall4_def arm_syscall5_def arm_syscall6_def syscall_reg_def)


text \<open>All macros of all machines.\<close>

lemma macro_calls_kernel:
  fixes num :: "'a::len word"
  assumes "32 \<le> LENGTH('a)" and "arity K num = length args" and "length args \<le> 6"
  shows "\<exists>st. arch_macro M num args = Some st \<and> calls_kernel K (arch_abi M) st num args"
proof -
  have "\<exists>st. arch_macro M num args = Some st"
    by (rule args_cases [OF assms(3)]; cases M) (auto simp: arch_macro_def x86_64_macro_def i386_macro_def arm_macro_def aarch64_macro_def
    mips_macro_def powerpc_macro_def riscv_macro_def s390_macro_def loongarch_macro_def sparc_macro_def m68k_macro_def)
  then obtain st where st: "arch_macro M num args = Some st" ..
  consider "M \<in> {X86_64, ARM False, AARCH64, RISCV, S390, LOONGARCH, M68K} \<or> M = I386 \<and> length args \<noteq> 6"
    | "M \<in> {POWERPC, SPARC}" | "M = MIPS" | "M = ARM True" | "M = I386 \<and> length args = 6"
    by (cases M) auto
  then have "calls_kernel K (arch_abi M) st num args"
  proof cases
    case 5
    then obtain a1 a2 a3 a4 a5 a6 where args: "args = [a1, a2, a3, a4, a5, a6]"
      by (rule_tac args_cases [OF assms(3)]) auto
    then show ?thesis using st assms(1,2) 5
      by (auto simp: arch_macro_def i386_macro_def i386_syscall6_def intro!: i386_trap6)
  next
    case 1
    then show ?thesis using assms(2,3) st by (rule plain_calls)
  next
    case 2
    then show ?thesis using assms(2,3) st by (rule flag_calls)
  next
    case 3
    then show ?thesis using mips_calls [OF assms] st by simp
  next
    case 4
    then show ?thesis using thumb_calls [OF assms(2,3)] st by simp
  qed
  with st show ?thesis by blast
qed

subsection \<open>The call of \<open>_start_c\<close>\<close>

text \<open>
  Where the C calling convention has the first argument of a function that is entered, and the stack
  pointer; where the kernel puts \<open>argc\<close> relative to the stack pointer (SPARC leaves room for a
  register window); how many low bits of the address of the stack are zero. On SPARC with 64 bits the
  stack is 2047 bytes above the stack pointer; a call that pushes its return address has the stack
  aligned above that address.
\<close>

lemma take_bit_diff_word:
  assumes "n \<le> LENGTH('a::len)" and "take_bit n (x :: 'a word) = 0" and "take_bit n y = 0"
  shows "take_bit n (x - y) = 0"
proof -
  have u: "take_bit n (uint w) = uint (take_bit n w)" for w :: "'a word"
    by (simp add: unsigned_take_bit_eq)
  have "uint (take_bit n (x - y)) = take_bit n (uint (x - y))" by (simp add: unsigned_take_bit_eq)
  also have "\<dots> = take_bit n (take_bit LENGTH('a) (uint x - uint y))"
    by (simp only: uint_word_ariths take_bit_eq_mod)
  also have "\<dots> = take_bit n (uint x - uint y)" using assms(1) by (simp add: min_def)
  also have "\<dots> = take_bit n (take_bit n (uint x) - take_bit n (uint y))" by (simp add: take_bit_diff)
  also have "\<dots> = 0" using assms(2,3) by (simp add: u)
  finally show ?thesis by (simp only: uint_0_iff)
qed

lemma aligned_consts:
  "take_bit 4 (16 :: 'a::len word) = 0" "take_bit 4 (32 :: 'a word) = 0" "take_bit 3 (16 :: 'a word) = 0"
  "take_bit 3 (160 :: 'a word) = 0" "take_bit 3 (96 :: 'a word) = 0" "take_bit 2 (4 :: 'a word) = 0"
  "take_bit 3 (x AND - 8 :: 'a word) = 0"
proof -
  have "(16 :: 'a word) = push_bit 4 1" "(32 :: 'a word) = push_bit 5 1" "(16 :: 'a word) = push_bit 4 1"
   "(160 :: 'a word) = push_bit 5 5" "(96 :: 'a word) = push_bit 5 3" "(4 :: 'a word) = push_bit 2 1"
   "(- 8 :: 'a word) = NOT (mask 3)"
    by (simp_all add: push_bit_eq_mult not_eq_complement mask_eq_exp_minus_1)
  then show "take_bit 4 (16 :: 'a::len word) = 0" "take_bit 4 (32 :: 'a word) = 0" "take_bit 3 (16 :: 'a word) = 0"
  "take_bit 3 (160 :: 'a word) = 0" "take_bit 3 (96 :: 'a word) = 0" "take_bit 2 (4 :: 'a word) = 0"
    "take_bit 3 (x AND - 8 :: 'a word) = 0"
    by (auto simp only: intro!: bit_word_eqI) (auto simp: bit_simps)
qed

lemma above_stack:
  fixes p :: "'a::len word"
  assumes "32 \<le> LENGTH('a)" and "n < 2 ^ 31"
  shows "p + of_nat n \<noteq> p - 4" "p + of_nat n \<noteq> p - 8" "p + of_nat n \<noteq> p - 20" "p + of_nat n \<noteq> p - 16" "p + of_nat n \<noteq> p - 32" "p + of_nat n \<noteq> p - 160"
    "p + of_nat n \<noteq> p - 156" "p + of_nat n \<noteq> p - 96" "p + of_nat n \<noteq> p - 92"
proof -
  have "p + of_nat n \<noteq> p - of_nat k" if "0 < k" "k < 2 ^ 31" for k
  proof
    assume "p + of_nat n = p - of_nat k"
    then have "(of_nat (n + k) :: 'a word) = 0" by (simp add: algebra_simps eq_diff_eq)
    moreover have "(of_nat (n + k) :: 'a word) \<noteq> 0" using that assms by (intro small_nonzero) simp_all
    ultimately show False by blast
  qed
  from this [of 4] this [of 8] this [of 20] this [of 16] this [of 32] this [of 160] this [of 156] this [of 96] this [of 92]
  show "p + of_nat n \<noteq> p - 4" "p + of_nat n \<noteq> p - 8" "p + of_nat n \<noteq> p - 20" "p + of_nat n \<noteq> p - 16" "p + of_nat n \<noteq> p - 32" "p + of_nat n \<noteq> p - 160"
    "p + of_nat n \<noteq> p - 156" "p + of_nat n \<noteq> p - 96" "p + of_nat n \<noteq> p - 92" by simp_all
qed

definition start_arg :: "arch \<Rightarrow> ('a::len word, 'w) cpu \<Rightarrow> 'a word" where
  "start_arg M c =
     (case M of
        X86_64 \<Rightarrow> regs c ''rdi''
      | I386 \<Rightarrow> cells c (regs c ''esp'' + 4)
      | ARM _ \<Rightarrow> regs c ''r0''
      | AARCH64 \<Rightarrow> regs c ''x0''
      | MIPS \<Rightarrow> regs c ''a0''
      | POWERPC \<Rightarrow> regs c ''r3''
      | RISCV \<Rightarrow> regs c ''a0''
      | S390 \<Rightarrow> regs c ''2''
      | LOONGARCH \<Rightarrow> regs c ''a0''
      | SPARC \<Rightarrow> regs c ''o0''
      | M68K \<Rightarrow> cells c (regs c ''sp'' + 4))"

definition sp_name :: "arch \<Rightarrow> regname" where
  "sp_name M =
     (case M of X86_64 \<Rightarrow> ''rsp'' | I386 \<Rightarrow> ''esp'' | POWERPC \<Rightarrow> ''r1'' | S390 \<Rightarrow> ''15'' | _ \<Rightarrow> ''sp'')"

definition argc_offset :: "arch \<Rightarrow> bool \<Rightarrow> 'a::len word" where
  "argc_offset M is64 = (if M = SPARC then if is64 then 128 + 2047 else 64 else 0)"

definition stack_align :: "arch \<Rightarrow> bool \<Rightarrow> nat" where
  "stack_align M is64 =
     (case M of ARM _ \<Rightarrow> 3 | MIPS \<Rightarrow> 3 | S390 \<Rightarrow> 3 | SPARC \<Rightarrow> if is64 then 4 else 3 | M68K \<Rightarrow> 2 | _ \<Rightarrow> 4)"

definition stack_bias :: "arch \<Rightarrow> bool \<Rightarrow> 'a::len word" where
  "stack_bias M is64 = (if M = SPARC \<and> is64 then 2047 else 0)"

definition call_pushes :: "arch \<Rightarrow> 'a::len word" where
  "call_pushes M = (case M of X86_64 \<Rightarrow> 8 | I386 \<Rightarrow> 4 | M68K \<Rightarrow> 4 | _ \<Rightarrow> 0)"


lemmas start_defs =
  arch_start_def Let_def start_arg_def sp_name_def argc_offset_def stack_align_def stack_bias_def call_pushes_def x86_64_start_def
  i386_start_def arm_start_def aarch64_start_def mips_start_def powerpc_start_def riscv_start_def
  s390_start_def loongarch_start_def sparc_start_def m68k_start_def

end
