(* ===== verification/ArchProps.thy ===== *)
theory ArchProps
  imports ArchFacts Linux
begin

section \<open>Properties of the machine-dependent code\<close>

text \<open>
  The system call macros of all machines, their place in the model of the wrappers, and the entry
  points. Each statement is followed by an instance.
\<close>


definition echo_kernel :: "(i32, i32 list) kernel" where
  "echo_kernel = \<lparr>arity = (\<lambda>_. 6), service = (\<lambda>num args w. (- num, w @ args))\<rparr>"


text \<open>
  The kernel of a target of the wrappers, as the trap of a machine with 64 bits sees it:
  \<open>nrs\<close> is the table of the system call numbers.
\<close>

definition target_kernel ::
  "'w target \<Rightarrow> (i64 \<Rightarrow> sysnr) \<Rightarrow> (i64 \<Rightarrow> nat) \<Rightarrow> (i64, mem \<times> 'w) kernel" where
  "target_kernel T nrs ar =
     \<lparr>arity = ar, service = (\<lambda>num args (m, w). kcall T (nrs num) args m w)\<rparr>"

text \<open>The call of the wrappers' model with a list of arguments.\<close>

definition my_syscall :: "'w target \<Rightarrow> sysnr \<Rightarrow> i64 list \<Rightarrow> ('w cstate \<Rightarrow> i64 \<times> 'w cstate) option" where
  "my_syscall T nr args =
     (case args of
        [] \<Rightarrow> Some (my_syscall0 T nr)
      | [a] \<Rightarrow> Some (my_syscall1 T nr a)
      | [a, b] \<Rightarrow> Some (my_syscall2 T nr a b)
      | [a, b, c] \<Rightarrow> Some (my_syscall3 T nr a b c)
      | [a, b, c, d] \<Rightarrow> Some (my_syscall4 T nr a b c d)
      | [a, b, c, d, e] \<Rightarrow> Some (my_syscall5 T nr a b c d e)
      | [a, b, c, d, e, f] \<Rightarrow> Some (my_syscall6 T nr a b c d e f)
      | _ \<Rightarrow> None)"

lemma my_syscall_insn: "length args \<le> 6 \<Longrightarrow> my_syscall T nr args = Some (syscall_insn T nr args)"
  by (rule args_cases, assumption)
    (simp_all add: my_syscall_def my_syscall0_def my_syscall1_def my_syscall2_def my_syscall3_def
      my_syscall4_def my_syscall5_def my_syscall6_def)

text \<open>
  Property C20. The system calls in the model of the wrappers, \<open>my_syscall0\<close> to
  \<open>my_syscall6\<close>, are what the assembler statement of every machine does: same result, same
  memory, same effect on the world.
\<close>

theorem wrappers_use_macros:
  assumes "ar num = length args" and "length args \<le> 6" and "world c = (cmem s, kern s)"
    and "run_stmt (target_kernel T nrs ar) (arch_abi M) junk st c = (v, c')"
    and "arch_macro M num args = Some st"
  shows "\<exists>call. my_syscall T (nrs num) args = Some call \<and>
    call s = (v, s\<lparr>cmem := fst (world c'), kern := snd (world c')\<rparr>)"
proof -
  have "\<exists>st. arch_macro M num args = Some st \<and>
      calls_kernel (target_kernel T nrs ar) (arch_abi M) st num args"
    by (rule macro_calls_kernel) (use assms(1,2) in \<open>simp_all add: target_kernel_def\<close>)
  then have "calls_kernel (target_kernel T nrs ar) (arch_abi M) st num args" using assms(5) by simp
  then have "(v, world c') = kcall T (nrs num) args (cmem s) (kern s)"
    using assms(3,4) unfolding calls_kernel_def by (auto simp: target_kernel_def)
  then have "syscall_insn T (nrs num) args s = (v, s\<lparr>cmem := fst (world c'), kern := snd (world c')\<rparr>)"
    by (auto simp: syscall_insn_def split: prod.splits)
  with my_syscall_insn [OF assms(2)] show ?thesis by auto
qed

theorem wrappers_use_macros_witness:
  "\<exists>s'. my_syscall1 (x86_linux no_kernel) ''close'' 3 (process Map.empty ()) = (- 38, s')"
proof -
  let ?K = "target_kernel (x86_linux no_kernel) (\<lambda>_. ''close'') (\<lambda>_. 1)"
  let ?c = "\<lparr>pc = 0, regs = (\<lambda>_. 5), flag = False, cells = (\<lambda>_. 0), world = (Map.empty, ())\<rparr>"
  have st: "arch_macro POWERPC 6 [3] = Some (powerpc_syscall1 6 3)"
    by (simp add: arch_macro_def powerpc_macro_def)
  obtain v c' where run: "run_stmt ?K (arch_abi POWERPC) (\<lambda>_. 77) (powerpc_syscall1 6 3) ?c = (v, c')"
    by (cases "run_stmt ?K (arch_abi POWERPC) (\<lambda>_. 77) (powerpc_syscall1 6 3) ?c") auto
  from wrappers_use_macros [where s = "process Map.empty ()", OF _ _ _ run st]
  have "my_syscall1 (x86_linux no_kernel) ''close'' 3 (process Map.empty ()) =
      (v, (process Map.empty ())\<lparr>cmem := fst (world c'), kern := snd (world c')\<rparr>)"
    by (simp add: my_syscall_def)
  moreover have "fst (my_syscall1 (x86_linux no_kernel) ''close'' 3 (process Map.empty ())) = - 38"
    by (simp add: my_syscall1_def syscall_insn_def no_kernel_def)
  ultimately show ?thesis by auto
qed

subsection \<open>Entry points\<close>

text \<open>
  Of the jump on MIPS: the relocation operator \<^verbatim>\<open>%hi\<close> compensates for the sign of \<^verbatim>\<open>%lo\<close>, which
  \<^verbatim>\<open>ori\<close> does not extend.
\<close>

lemma take_bit_flip:
  fixes f :: "'a::len word"
  assumes "32 \<le> LENGTH('a)"
  shows "take_bit 16 (f + 0x8000) = (if bit f 15 then take_bit 16 f - 0x8000 else take_bit 16 f + 0x8000)"
proof -
  have small: "(2 :: nat) ^ 32 \<le> 2 ^ LENGTH('a)" using assms by (rule power_increasing) simp
  have dv: "(65536 :: nat) dvd 2 ^ LENGTH('a)" using assms le_imp_power_dvd [of 16 "LENGTH('a)" "2 :: nat"] by simp
  have u8: "take_bit LENGTH('a) (32768 :: nat) = 32768"
    using small by (simp add: take_bit_nat_eq_self_iff)
  have b: "bit f 15 \<longleftrightarrow> 32768 \<le> unat f mod 65536"
  proof -
    have "bit f 15 \<longleftrightarrow> bit (unat f) 15" by (simp add: bit_simps)
    also have "\<dots> \<longleftrightarrow> odd (unat f div 2 ^ 15)" by (simp only: bit_iff_odd)
    finally have "bit f 15 \<longleftrightarrow> odd (unat f div 32768)" by simp
    moreover have "unat f mod 65536 = 32768 * (unat f div 32768 mod 2) + unat f mod 32768"
      using mod_mult2_eq [of "unat f" 32768 2] by simp
    ultimately show ?thesis using mod_less_divisor [of 32768 "unat f"] by (cases "even (unat f div 32768)") (auto simp: odd_iff_mod_2_eq_one)
  qed
  have t: "unat (take_bit 16 w) = unat w mod 65536" for w :: "'a word"
    by (simp only: unsigned_take_bit_eq) (simp add: take_bit_eq_mod)
  let ?r = "unat f mod 65536"
  have "unat (f + 0x8000) = (unat f + 32768) mod 2 ^ LENGTH('a)" by (simp add: unat_word_ariths u8)
  then have "unat (take_bit 16 (f + 0x8000)) = (unat f + 32768) mod 65536"
    using dv by (simp add: t mod_mod_cancel)
  then have s: "unat (take_bit 16 (f + 0x8000)) = (?r + 32768) mod 65536" by (simp only: mod_add_left_eq)
  have r: "?r < 65536" by simp
  show ?thesis
  proof (cases "bit f 15")
    case True
    then have ge: "32768 \<le> ?r" using b by simp
    then have "(0x8000 :: 'a word) \<le> take_bit 16 f" by (simp add: word_le_nat_alt t u8)
    then have "unat (take_bit 16 f - 0x8000) = ?r - 32768" by (simp add: unat_sub t u8)
    moreover have "(?r + 32768) mod 65536 = ?r - 32768"
    proof -
      have "?r + 32768 = (?r - 32768) + 65536" using ge by linarith
      then have "(?r + 32768) mod 65536 = (?r - 32768) mod 65536" by (simp only: mod_add_self2)
      also have "\<dots> = ?r - 32768" using r by (intro mod_less) linarith
      finally show ?thesis .
    qed
    ultimately show ?thesis using True s by (simp only: word_unat_eq_iff if_True)
  next
    case False
    then have "?r < 32768" using b by simp
    then have "unat (take_bit 16 f + 0x8000) = ?r + 32768" "(?r + 32768) mod 65536 = ?r + 32768"
      using small by (simp_all add: unat_word_ariths t u8)
    then show ?thesis using False s by (simp only: word_unat_eq_iff if_False)
  qed
qed

lemma reloc_value:
  fixes f :: "'a::len word"
  assumes "32 \<le> LENGTH('a)"
  shows "push_bit 16 (reloc_hi f) OR reloc_lo f = (if bit f 15 then f + 0x10000 else f)"
proof -
  have lo: "reloc_lo f = take_bit 16 f" by (simp add: reloc_lo_def take_bit_eq_mask mask_eq_exp_minus_1)
  have "push_bit 16 (reloc_hi f) = (f + 0x8000) - take_bit 16 (f + 0x8000)"
    using bits_ident [of 16 "f + 0x8000"] by (simp only: reloc_hi_def eq_diff_eq)
  moreover have "push_bit 16 (reloc_hi f) OR reloc_lo f = push_bit 16 (reloc_hi f) + reloc_lo f"
    unfolding lo by (rule disjunctive_add [symmetric]) (auto simp: bit_simps)
  ultimately show ?thesis by (simp add: lo take_bit_flip [OF assms])
qed

theorem mips_start_target:
  fixes f :: "'a::len word"
  assumes "32 \<le> LENGTH('a)"
  shows "pc (exec K A junk (mips_start ra gp back f) c) = (if bit f 15 then f + 0x10000 else f)"
  using reloc_value [OF assms] by (simp add: mips_start_def)

text \<open>
  Property C33. The entry point of each machine transfers control to \<open>_start_c\<close> with the address of
  \<open>argc\<close>, where a function has its first argument when it is entered, on a stack aligned as
  the calling convention of the machine wants it, and leaves the arguments, the environment and the
  auxiliary vector as the kernel built them. The exception is MIPS when bit 15 of the address of
  \<open>_start_c\<close> is set: control then goes 65536 bytes behind it.
\<close>

theorem entry_points_start:
  fixes c :: "('a::len word, 'w) cpu"
  assumes "c' = exec K A junk (arch_start M L) c" and "sp = regs c (sp_name M)"
    and "take_bit (stack_align M (is_64 L)) (sp + stack_bias M (is_64 L)) = 0" and "32 \<le> LENGTH('a)"
  shows "pc c' = (if M = MIPS \<and> bit (start_c_at L) 15 then start_c_at L + 0x10000 else start_c_at L) \<and>
    start_arg M c' = sp + argc_offset M (is_64 L) \<and>
    take_bit (stack_align M (is_64 L)) (regs c' (sp_name M) + stack_bias M (is_64 L) + call_pushes M) = 0 \<and>
    (\<forall>n < 2 ^ 31. cells c' (sp + of_nat n) = cells c (sp + of_nat n))"
proof -
  have "pc c' = (if M = MIPS \<and> bit (start_c_at L) 15 then start_c_at L + 0x10000 else start_c_at L)"
    using assms(1) reloc_value [OF assms(4), of "start_c_at L"] by (cases M) (simp_all add: start_defs split: option.splits)
  moreover have "start_arg M c' = sp + argc_offset M (is_64 L)"
    using assms(1,2) small_nonzero [OF assms(4), of 4] by (cases M) (simp_all add: start_defs split: option.splits)
  moreover have "take_bit (stack_align M (is_64 L)) (regs c' (sp_name M) + stack_bias M (is_64 L) + call_pushes M) = 0"
    using assms by (cases M) (auto simp: start_defs aligned_consts take_bit_diff_word split: option.splits if_splits)
  moreover have "cells c' (sp + of_nat n) = cells c (sp + of_nat n)" if "n < 2 ^ 31" for n
    using assms(1,2) above_stack [OF assms(4) that, of sp]
    by (cases M) (auto simp: start_defs split: option.splits if_splits)
  ultimately show ?thesis by blast
qed

theorem entry_points_start_witness:
  "let c = \<lparr>pc = 0, regs = (\<lambda>_. 0x1000), flag = False, cells = (\<lambda>_. 7), world = []\<rparr>;
       c' = exec echo_kernel (arch_abi I386) (\<lambda>_. 0) (i386_start 0x8010 0x8400) c in
   pc c' = (0x8400 :: i32) \<and> start_arg I386 c' = 0x1000 \<and> regs c' ''esp'' = 0xfec \<and> cells c' 0x1000 = 7"
proof -
  let ?c = "\<lparr>pc = 0, regs = (\<lambda>_. 0x1000), flag = False, cells = (\<lambda>_. 7), world = []\<rparr> :: (i32, i32 list) cpu"
  let ?c' = "exec echo_kernel (arch_abi I386) (\<lambda>_. 0) (i386_start 0x8010 0x8400) ?c"
  let ?L = "\<lparr>behind_bal = 0, global_pointer = 0, start_c_at = 0x8400, behind_call = 0x8010, is_64 = False, toc_offset = None\<rparr> :: i32 linkage"
  have a: "take_bit (stack_align I386 False) (0x1000 + stack_bias I386 False :: i32) = 0"
    by (simp add: stack_align_def stack_bias_def)
  have *: "pc ?c' = 0x8400 \<and> start_arg I386 ?c' = 0x1000 + argc_offset I386 False \<and>
      (\<forall>n < 2 ^ 31. cells ?c' (0x1000 + of_nat n) = cells ?c (0x1000 + of_nat n))"
    using entry_points_start [of ?c' echo_kernel "arch_abi I386" "\<lambda>_. 0" I386 ?L ?c "0x1000"] a
    by (simp add: arch_start_def sp_name_def)
  then have "cells ?c' (0x1000 + of_nat 0) = 7" by (metis cpu.select_convs(4) zero_less_numeral zero_less_power)
  moreover have "regs ?c' ''esp'' = 0xfec" by (simp add: i386_start_def)
  ultimately show ?thesis using * by (simp add: argc_offset_def)
qed

end
