(* ===== verification/Startup.thy ===== *)
theory Startup
  imports SysMem
begin

section \<open>crt.h and stackprotector.h: from the entry point to exit\<close>

text \<open>
  The program supplies its \<^verbatim>\<open>main\<close> and the functions in the arrays of constructors
  and destructors, which the linker collects; they are the record \<open>app\<close>. A function of
  the program that does not return, or that calls \<^verbatim>\<open>exit\<close> itself, has the value
  \<open>None\<close>. \<open>guard\<close> is the address of \<^verbatim>\<open>__stack_chk_guard\<close>, or \<open>None\<close>
  where the program is compiled without stack protection.
\<close>

type_synonym 'w ctor = "i32 \<Rightarrow> addr \<Rightarrow> addr \<Rightarrow> 'w cstate \<Rightarrow> 'w cstate option"
type_synonym 'w dtor = "'w cstate \<Rightarrow> 'w cstate option"

record 'w app =
  preinit_array :: "'w ctor list"
  init_array :: "'w ctor list"
  fini_array :: "'w dtor list"
  app_main :: "i32 \<Rightarrow> addr \<Rightarrow> addr \<Rightarrow> 'w cstate \<Rightarrow> (i32 \<times> 'w cstate) option"
  guard :: "addr option"

subsection \<open>The stack protector\<close>

definition stack_chk_init :: "'w target \<Rightarrow> addr option \<Rightarrow> 'w cstate \<Rightarrow> 'w cstate option" where
  "stack_chk_init T grd s =
     (case grd of
        None \<Rightarrow> Some s
      | Some g \<Rightarrow> do {
          let s = snd (my_syscall3 T ''getrandom'' g 8 0 s);
          v \<leftarrow> cload64 g s;
          if v \<noteq> g then cstore64 g (v XOR g) s else Some s })"

text \<open>
  \<open>stack_chk_fail\<close> is the state after the signal was sent; the endless loop that follows
  has no value. \<open>msg\<close> is the address of the literal.
\<close>

definition stack_chk_fail :: "'w target \<Rightarrow> addr \<Rightarrow> 'w cstate \<Rightarrow> 'w cstate" where
  "stack_chk_fail T msg s =
     (let (_, s) = my_syscall3 T ''write'' 2 msg 28 s;
          (pid, s) = int_result (my_syscall0 T ''getpid'') s;
          (_, s) = my_syscall2 T ''kill'' (scast pid) (scast (SIGABRT T)) s in s)"

definition stack_chk_fail_local :: "'w target \<Rightarrow> addr \<Rightarrow> 'w cstate \<Rightarrow> 'w cstate" where
  "stack_chk_fail_local T msg = stack_chk_fail T msg"

subsection \<open>The start of the program\<close>

text \<open>The loop that looks for the auxiliary vector behind the environment.\<close>

partial_function (option) find_auxv :: "addr \<Rightarrow> 'w cstate \<Rightarrow> addr option" where
  "find_auxv av s = do {
     v \<leftarrow> cload64 av s;
     let av = av + 8;
     if v \<noteq> 0 then find_auxv av s else Some av }"

text \<open>The loops over the constructors upwards, and over the destructors downwards.\<close>

function run_ctors ::
  "'w ctor list \<Rightarrow> nat \<Rightarrow> i32 \<Rightarrow> addr \<Rightarrow> addr \<Rightarrow> 'w cstate \<Rightarrow> 'w cstate option" where
  "run_ctors fs i argc argv envp s =
     (if i < length fs
      then do { s \<leftarrow> (fs ! i) argc argv envp s; run_ctors fs (i + 1) argc argv envp s }
      else Some s)"
  by pat_completeness auto
termination
  by (relation "measure (\<lambda>(fs, i, _). length fs - i)") auto

fun run_dtors :: "'w dtor list \<Rightarrow> nat \<Rightarrow> 'w cstate \<Rightarrow> 'w cstate option" where
  "run_dtors fs 0 s = Some s"
| "run_dtors fs (Suc i) s = do { s \<leftarrow> (fs ! i) s; run_dtors fs i s }"

text \<open>
  \<open>start_c\<close> is \<^verbatim>\<open>_start_c\<close>. The constructors and \<^verbatim>\<open>main\<close> get
  \<^verbatim>\<open>argc\<close> as an \<open>int\<close>.
\<close>

definition start_c :: "'w target \<Rightarrow> 'w app \<Rightarrow> addr \<Rightarrow> 'w cstate \<Rightarrow> 'w cstate option" where
  "start_c T A sp s = do {
     s \<leftarrow> stack_chk_init T (guard A) s;
     argc \<leftarrow> cload64 sp s;
     let argv = sp + 8;
     let envp = argv + 8 * argc + 8;
     let s = s\<lparr>environ := envp\<rparr>;
     av \<leftarrow> find_auxv envp s;
     let s = s\<lparr>auxv := av\<rparr>;
     s \<leftarrow> run_ctors (preinit_array A) 0 (ucast argc) argv envp s;
     s \<leftarrow> run_ctors (init_array A) 0 (ucast argc) argv envp s;
     (exitcode, s) \<leftarrow> app_main A (ucast argc) argv envp s;
     s \<leftarrow> run_dtors (fini_array A) (length (fini_array A)) s;
     Some (exit T exitcode s) }"

declare run_ctors.simps [simp del]

subsection \<open>Facts\<close>

text \<open>\<open>in_turn fs s\<close>: the state transformers one after the other.\<close>

primrec in_turn :: "'w dtor list \<Rightarrow> 'w cstate \<Rightarrow> 'w cstate option" where
  "in_turn [] s = Some s"
| "in_turn (f # fs) s = do { s \<leftarrow> f s; in_turn fs s }"

lemma in_turn_append: "in_turn (fs @ gs) s = do { s \<leftarrow> in_turn fs s; in_turn gs s }"
  by (induction fs arbitrary: s) auto

lemma run_ctors_in_turn:
  "i \<le> length fs \<Longrightarrow>
   run_ctors fs i argc argv envp s = in_turn (List.map (\<lambda>f. f argc argv envp) (drop i fs)) s"
proof (induction "length fs - i" arbitrary: i s)
  case 0
  then show ?case by (subst run_ctors.simps) simp
next
  case (Suc n)
  then have i: "i < length fs" by simp
  moreover from i have "drop i fs = fs ! i # drop (Suc i) fs" by (simp add: Cons_nth_drop_Suc)
  moreover have "run_ctors fs (Suc i) argc argv envp s' =
      in_turn (List.map (\<lambda>f. f argc argv envp) (drop (Suc i) fs)) s'" for s'
    using Suc i by auto
  ultimately show ?case by (subst run_ctors.simps) (simp cong: Option.bind_cong)
qed

lemma run_dtors_in_turn:
  "i \<le> length fs \<Longrightarrow> run_dtors fs i s = in_turn (rev (take i fs)) s"
  by (induction i arbitrary: s) (auto simp: take_Suc_conv_app_nth cong: Option.bind_cong)

lemma xor_eq_0: "(v :: i64) XOR g = 0 \<longleftrightarrow> v = g"
  by (metis bit.xor_self xor.assoc xor.left_neutral xor.right_neutral)

text \<open>Whatever the kernel leaves in the guard, it is not zero afterwards.\<close>

lemma guard_nonzero:
  assumes "stack_chk_init T (Some g) s = Some s'" and "g \<noteq> 0"
  shows "\<exists>v. cload64 g s' = Some v \<and> v \<noteq> 0"
proof -
  let ?s = "snd (my_syscall3 T ''getrandom'' g 8 0 s)"
  from assms(1) obtain v where v: "cload64 g ?s = Some v"
    and s': "(if v \<noteq> g then cstore64 g (v XOR g) ?s else Some ?s) = Some s'"
    by (auto simp: stack_chk_init_def Let_def split: bind_splits)
  show ?thesis
  proof (cases "v = g")
    case False
    then obtain m where "store64 (cmem ?s) g (v XOR g) = Some m" "s' = ?s\<lparr>cmem := m\<rparr>"
      using s' by (auto simp: cstore64_def)
    then have "cload64 g s' = Some (v XOR g)" by (simp add: cload64_def load64_store64)
    then show ?thesis using False by (simp add: xor_eq_0)
  next
    case True
    then show ?thesis using s' v assms(2) by auto
  qed
qed

text \<open>
  \<open>ptrs_at m p ps\<close>: at \<open>p\<close> lie the pointers \<open>ps\<close>, none of them NULL, and a NULL behind
  them.
\<close>

fun ptrs_at :: "mem \<Rightarrow> addr \<Rightarrow> addr list \<Rightarrow> bool" where
  "ptrs_at m p [] = (load64 m p = Some 0)"
| "ptrs_at m p (x # xs) = (load64 m p = Some x \<and> x \<noteq> 0 \<and> ptrs_at m (p + 8) xs)"

lemma find_auxv_ptrs:
  "ptrs_at (cmem s) p xs \<Longrightarrow> find_auxv p s = Some (p + 8 * of_nat (length xs) + 8)"
proof (induction xs arbitrary: p)
  case Nil
  then show ?case by (subst find_auxv.simps) (simp add: cload64_def)
next
  case (Cons x xs)
  then have "find_auxv (p + 8) s = Some (p + 8 + 8 * of_nat (length xs) + 8)" by simp
  with Cons.prems show ?case
    by (subst find_auxv.simps) (simp add: cload64_def algebra_simps)
qed

end
