(* ===== verification/FileStat.thy ===== *)
theory FileStat
  imports SysWait
begin

section \<open>sys/stat.h and the file mode and descriptor set macros of types.h\<close>

text \<open>
  The kernel headers give the layout of \<^verbatim>\<open>struct statx\<close> and four constants, the
  record \<open>stat_abi\<close>. The layout of \<^verbatim>\<open>struct stat\<close> is that of the declaration in
  \<^verbatim>\<open>src/types.h\<close> on LP64.
\<close>

record stat_abi =
  AT_NO_AUTOMOUNT :: i32
  STATX_BASIC_STATS :: i32
  AT_EMPTY_PATH :: i32
  AT_SYMLINK_NOFOLLOW :: i32
  stx_blksize_at :: addr
  stx_nlink_at :: addr
  stx_uid_at :: addr
  stx_gid_at :: addr
  stx_mode_at :: addr
  stx_ino_at :: addr
  stx_size_at :: addr
  stx_blocks_at :: addr
  stx_atime_at :: addr
  stx_ctime_at :: addr
  stx_mtime_at :: addr
  stx_rdev_major_at :: addr
  stx_rdev_minor_at :: addr
  stx_dev_major_at :: addr
  stx_dev_minor_at :: addr

definition cload16 :: "addr \<Rightarrow> 'w cstate \<Rightarrow> 16 word option" where
  "cload16 p s = map_option of_nat (load_le (cmem s) p 2)"

text \<open>
  \<open>dev_of\<close> is the expression for a device number. \<open>stat_copy\<close> is the series of
  assignments, from the kernel's structure at \<open>fp\<close> to the caller's at \<open>buf\<close>;
  \<open>stat_time\<close> are the two for one time stamp.
\<close>

definition dev_of :: "i32 \<Rightarrow> i32 \<Rightarrow> i32" where
  "dev_of ma mi = (mi AND 0xff) OR push_bit 8 ma OR push_bit 12 (mi AND NOT 0xff)"

definition stat_time :: "addr \<Rightarrow> addr \<Rightarrow> 'w cstate \<Rightarrow> 'w cstate option" where
  "stat_time stx st s = do {
     sec \<leftarrow> cload64 stx s;
     s \<leftarrow> cstore64 st sec s;
     nsec \<leftarrow> cload32 (stx + 8) s;
     cstore64 (st + 8) (ucast nsec) s }"

definition stat_copy :: "stat_abi \<Rightarrow> addr \<Rightarrow> addr \<Rightarrow> 'w cstate \<Rightarrow> 'w cstate option" where
  "stat_copy X fp buf s = do {
     dev_minor \<leftarrow> cload32 (fp + stx_dev_minor_at X) s;
     dev_major \<leftarrow> cload32 (fp + stx_dev_major_at X) s;
     s \<leftarrow> cstore32 buf (dev_of dev_major dev_minor) s;
     ino \<leftarrow> cload64 (fp + stx_ino_at X) s;
     s \<leftarrow> cstore64 (buf + 8) ino s;
     mode \<leftarrow> cload16 (fp + stx_mode_at X) s;
     s \<leftarrow> cstore32 (buf + 16) (ucast mode) s;
     nlink \<leftarrow> cload32 (fp + stx_nlink_at X) s;
     s \<leftarrow> cstore64 (buf + 24) (ucast nlink) s;
     uid \<leftarrow> cload32 (fp + stx_uid_at X) s;
     s \<leftarrow> cstore32 (buf + 32) uid s;
     gid \<leftarrow> cload32 (fp + stx_gid_at X) s;
     s \<leftarrow> cstore32 (buf + 36) gid s;
     rdev_minor \<leftarrow> cload32 (fp + stx_rdev_minor_at X) s;
     rdev_major \<leftarrow> cload32 (fp + stx_rdev_major_at X) s;
     s \<leftarrow> cstore32 (buf + 40) (dev_of rdev_major rdev_minor) s;
     sz \<leftarrow> cload64 (fp + stx_size_at X) s;
     s \<leftarrow> cstore64 (buf + 48) sz s;
     blksize \<leftarrow> cload32 (fp + stx_blksize_at X) s;
     s \<leftarrow> cstore64 (buf + 56) (ucast blksize) s;
     blocks \<leftarrow> cload64 (fp + stx_blocks_at X) s;
     s \<leftarrow> cstore64 (buf + 64) blocks s;
     s \<leftarrow> stat_time (fp + stx_atime_at X) (buf + 72) s;
     s \<leftarrow> stat_time (fp + stx_mtime_at X) (buf + 88) s;
     stat_time (fp + stx_ctime_at X) (buf + 104) s }"

text \<open>The empty path of \<open>fstat\<close> is a literal; its address is \<open>empty_path\<close>.\<close>

definition fstatat ::
  "'w target \<Rightarrow> stat_abi \<Rightarrow> addr \<Rightarrow> i32 \<Rightarrow> addr \<Rightarrow> addr \<Rightarrow> i32 \<Rightarrow> 'w cstate \<Rightarrow> (i32 \<times> 'w cstate) option" where
  "fstatat T X fp fd path buf flag s =
     (let (ret, s) = long_result (returning
          (sys_statx T fd path (flag OR AT_NO_AUTOMOUNT X) (STATX_BASIC_STATS X) fp)) s in
      if ret = - 1 then Some (ucast ret, s)
      else do { s \<leftarrow> stat_copy X fp buf s; Some (0, s) })"

definition stat ::
  "'w target \<Rightarrow> stat_abi \<Rightarrow> addr \<Rightarrow> addr \<Rightarrow> addr \<Rightarrow> 'w cstate \<Rightarrow> (i32 \<times> 'w cstate) option" where
  "stat T X fp path buf = fstatat T X fp (AT_FDCWD T) path buf 0"

definition fstat ::
  "'w target \<Rightarrow> stat_abi \<Rightarrow> addr \<Rightarrow> addr \<Rightarrow> i32 \<Rightarrow> addr \<Rightarrow> 'w cstate \<Rightarrow> (i32 \<times> 'w cstate) option" where
  "fstat T X fp empty_path fildes buf = fstatat T X fp fildes empty_path buf (AT_EMPTY_PATH X)"

definition lstat ::
  "'w target \<Rightarrow> stat_abi \<Rightarrow> addr \<Rightarrow> addr \<Rightarrow> addr \<Rightarrow> 'w cstate \<Rightarrow> (i32 \<times> 'w cstate) option" where
  "lstat T X fp path buf = fstatat T X fp (AT_FDCWD T) path buf (AT_SYMLINK_NOFOLLOW X)"

subsection \<open>File modes\<close>

text \<open>The constants of \<^verbatim>\<open>src/types.h\<close>, which are octal there.\<close>

definition S_IFDIR :: i32 where "S_IFDIR = 0x4000"
definition S_IFCHR :: i32 where "S_IFCHR = 0x2000"
definition S_IFBLK :: i32 where "S_IFBLK = 0x6000"
definition S_IFREG :: i32 where "S_IFREG = 0x8000"
definition S_IFIFO :: i32 where "S_IFIFO = 0x1000"
definition S_IFLNK :: i32 where "S_IFLNK = 0xa000"
definition S_IFSOCK :: i32 where "S_IFSOCK = 0xc000"
definition S_IFMT :: i32 where "S_IFMT = 0xf000"

definition S_ISDIR :: "i32 \<Rightarrow> bool" where "S_ISDIR mode \<longleftrightarrow> mode AND S_IFMT = S_IFDIR"
definition S_ISCHR :: "i32 \<Rightarrow> bool" where "S_ISCHR mode \<longleftrightarrow> mode AND S_IFMT = S_IFCHR"
definition S_ISBLK :: "i32 \<Rightarrow> bool" where "S_ISBLK mode \<longleftrightarrow> mode AND S_IFMT = S_IFBLK"
definition S_ISREG :: "i32 \<Rightarrow> bool" where "S_ISREG mode \<longleftrightarrow> mode AND S_IFMT = S_IFREG"
definition S_ISFIFO :: "i32 \<Rightarrow> bool" where "S_ISFIFO mode \<longleftrightarrow> mode AND S_IFMT = S_IFIFO"
definition S_ISLNK :: "i32 \<Rightarrow> bool" where "S_ISLNK mode \<longleftrightarrow> mode AND S_IFMT = S_IFLNK"
definition S_ISSOCK :: "i32 \<Rightarrow> bool" where "S_ISSOCK mode \<longleftrightarrow> mode AND S_IFMT = S_IFSOCK"

subsection \<open>Descriptor sets\<close>

text \<open>
  A set of \<^verbatim>\<open>FD_SETSIZE\<close> descriptors (256 unless the program defines another number)
  is an array of 64-bit words. The divisor is a \<open>size_t\<close>, so the division is unsigned. In
  \<open>FD_SET\<close> the constant 1 is an \<open>int\<close>: a shift that moves it to the sign or beyond has no
  defined value. \<^verbatim>\<open>FD_CLR\<close> and \<^verbatim>\<open>FD_ISSET\<close> name constants that the headers
  do not define, so a use of them does not compile and they have no model.
\<close>

definition FD_SETIDXMASK :: i64 where "FD_SETIDXMASK = 8 * 8"
definition FD_SETBITMASK :: i64 where "FD_SETBITMASK = 8 * 8 - 1"

definition FD_SET :: "i32 \<Rightarrow> addr \<Rightarrow> mem \<Rightarrow> mem option" where
  "FD_SET fd fds m =
     (if 0 \<le>s fd
      then do {
        let p = fds + 8 * (scast fd div FD_SETIDXMASK);
        let n = unat (scast fd AND FD_SETBITMASK);
        v \<leftarrow> load64 m p;
        bit1 \<leftarrow> (if n < 31 then Some (push_bit n 1 :: i32) else None);
        store64 m p (v OR scast bit1) }
      else Some m)"

partial_function (option) FD_ZERO_loop :: "i32 \<Rightarrow> addr \<Rightarrow> i32 \<Rightarrow> mem \<Rightarrow> mem option" where
  "FD_ZERO_loop sz fds idx m =
     (if idx <s sz
      then do {
        m \<leftarrow> store64 m (fds + 8 * scast idx) 0;
        FD_ZERO_loop sz fds (idx + 1) m }
      else Some m)"

definition FD_ZERO :: "i64 \<Rightarrow> addr \<Rightarrow> mem \<Rightarrow> mem option" where
  "FD_ZERO FD_SETSIZE fds m =
     FD_ZERO_loop (ucast ((FD_SETSIZE + FD_SETBITMASK) div FD_SETIDXMASK)) fds 0 m"

end
