(* ===== verification/StartProps.thy ===== *)
theory StartProps
  imports Startup FileStat ProcessProps
begin

section \<open>Properties of the start of a program and of file status\<close>

subsection \<open>The stack protector\<close>

text \<open>
  Property C35. The guard of the stack protector is not zero after its initialisation, whatever the
  kernel leaves in it, a failed \<open>getrandom\<close> included, and no other memory is changed.
\<close>

theorem guard_never_zero:
  assumes "mapped (cmem (snd (my_syscall3 T ''getrandom'' g 8 0 s))) g 8" and "g \<noteq> 0"
  shows "\<exists>s' v. stack_chk_init T (Some g) s = Some s' \<and> cload64 g s' = Some v \<and> v \<noteq> 0 \<and>
    (\<forall>a. \<not> in_range g 8 a \<longrightarrow> cmem s' a = cmem (snd (my_syscall3 T ''getrandom'' g 8 0 s)) a)"
proof -
  let ?s = "snd (my_syscall3 T ''getrandom'' g 8 0 s)"
  have "load_le (cmem ?s) g 8 \<noteq> None" using assms(1) by (rule load_le_mapped)
  then obtain v where v: "cload64 g ?s = Some v" by (auto simp: cload64_def load64_def)
  let ?s' = "if v = g then ?s else ?s\<lparr>cmem := poke (cmem ?s) g (le_bytes 8 (unat (v XOR g)))\<rparr>"
  have "stack_chk_init T (Some g) s = Some ?s'"
    using v assms(1) by (simp add: stack_chk_init_def Let_def cstore64_def store64_eq)
  moreover have "\<exists>v. cload64 g ?s' = Some v \<and> v \<noteq> 0"
    using calculation assms(2) by (rule guard_nonzero)
  moreover have "\<forall>a. \<not> in_range g 8 a \<longrightarrow> cmem ?s' a = cmem ?s a" by (simp add: poke_outside)
  ultimately show ?thesis by blast
qed

theorem guard_never_zero_witness:
  "\<exists>s' v. stack_chk_init (x86_linux no_kernel) (Some 0x2000) (process (\<lambda>_. Some 0) ()) = Some s' \<and>
     cload64 0x2000 s' = Some v \<and> v \<noteq> 0"
proof -
  have "mapped (\<lambda>_. Some 0) p k" for p k by (induction k arbitrary: p) auto
  then show ?thesis
    using guard_never_zero [of "x86_linux no_kernel" "0x2000" "process (\<lambda>_. Some 0) ()"]
    by (auto simp: my_syscall3_def syscall_insn_def no_kernel_def)
qed

subsection \<open>From the entry point to exit\<close>

lemma env_at_ptrs: "env_at m p es \<Longrightarrow> ptrs_at m p (List.map fst es)"
  by (induction m p es rule: env_at.induct) auto

text \<open>
  Property C7. \<open>_start_c\<close> finds the arguments, the environment and the auxiliary vector on the
  stack the kernel built, runs the constructors of the two arrays upwards, then \<open>main\<close>, then the
  destructors downwards, and exits with the value of \<open>main\<close>. In the state it starts from,
  \<open>getenv\<close> and \<open>getauxval\<close> find what the kernel passed.
\<close>

theorem start_c_runs:
  assumes "stack_chk_init T (guard A) s = Some s0" and "load64 (cmem s0) sp = Some argc"
    and "envp = sp + 8 * argc + 16" and "env_at (cmem s0) envp es"
    and "start = s0\<lparr>environ := envp, auxv := envp + 8 * of_nat (length es) + 8\<rparr>"
    and "auxv_at (cmem s0) (auxv start) aux"
    and "envp \<noteq> 0" and "auxv start \<noteq> 0" and "length es < 2 ^ 31"
    and "cstr (cmem s0) name ns" and "length ns < 2 ^ 31 - 1"
  shows "start_c T A sp s = do {
      s \<leftarrow> in_turn (List.map (\<lambda>f. f (ucast argc) (sp + 8) envp) (preinit_array A @ init_array A)) start;
      (code, s) \<leftarrow> app_main A (ucast argc) (sp + 8) envp s;
      s \<leftarrow> in_turn (rev (fini_array A)) s;
      Some (exit T code s) } \<and>
    getenv name start = Some (env_lookup ns es) \<and> getauxval type start = Some (aux_lookup type aux)"
proof -
  have "find_auxv envp (s0\<lparr>environ := envp\<rparr>) = Some (envp + 8 * of_nat (length es) + 8)"
    using find_auxv_ptrs [of "s0\<lparr>environ := envp\<rparr>" envp] env_at_ptrs [OF assms(4)] by simp
  moreover have "run_dtors (fini_array A) (length (fini_array A)) s = in_turn (rev (fini_array A)) s" for s
    by (simp add: run_dtors_in_turn)
  moreover have "sp + 8 + 8 * argc + 8 = envp" by (simp add: assms(3))
  ultimately have "start_c T A sp s = do {
      s \<leftarrow> in_turn (List.map (\<lambda>f. f (ucast argc) (sp + 8) envp) (preinit_array A @ init_array A)) start;
      (code, s) \<leftarrow> app_main A (ucast argc) (sp + 8) envp s;
      s \<leftarrow> in_turn (rev (fini_array A)) s;
      Some (exit T code s) }"
    using assms(1,2,5)
    by (simp add: start_c_def cload64_def run_ctors_in_turn in_turn_append Let_def)
  moreover have "getenv name start = Some (env_lookup ns es)"
    using getenv_loop_eq [OF assms(10,11), of envp 0 es] assms(4,5,7,9) by (simp add: getenv_def)
  moreover have "getauxval type start = Some (aux_lookup type aux)"
    using getauxval_loop_eq [of start "auxv start" aux type] assms(5,6,8) by (simp add: getauxval_def)
  ultimately show ?thesis by blast
qed

text \<open>A program of which each function leaves a mark in the world, and a kernel that records calls.\<close>

definition mark :: "nat \<Rightarrow> nat list cstate \<Rightarrow> nat list cstate" where
  "mark n s = s\<lparr>kern := kern s @ [n]\<rparr>"

definition demo_app :: "nat list app" where
  "demo_app =
     \<lparr>preinit_array = [\<lambda>_ _ _ s. Some (mark 1 s)], init_array = [\<lambda>_ _ _ s. Some (mark 2 s)],
      fini_array = [\<lambda>s. Some (mark 3 s), \<lambda>s. Some (mark 4 s)],
      app_main = (\<lambda>_ _ _ s. Some (7, mark 10 s)), guard = None\<rparr>"

definition log_kernel :: "sysnr \<Rightarrow> i64 list \<Rightarrow> mem \<Rightarrow> nat list \<Rightarrow> i64 \<times> mem \<times> nat list" where
  "log_kernel nr args m w = (0, m, w @ [100 + unat (hd args)])"

theorem start_c_runs_witness:
  "\<exists>m s'. start_c (x86_linux log_kernel) demo_app 4096 (process m []) = Some s' \<and>
     kern s' = [1, 2, 10, 4, 3, 107]"
proof -
  define base :: mem where
    "base = (\<lambda>_. Some 7)(6000 \<mapsto> 65, 6001 \<mapsto> 61, 6002 \<mapsto> 49, 6003 \<mapsto> 0, 6004 \<mapsto> 65, 6005 \<mapsto> 0)"
  define ws where "ws = [1, 5000, 0, 6000, 0, 6, 4096, 0, 0 :: nat]"
  define m where "m = poke base 4096 (concat (List.map (le_bytes 8) ws))"
  have "bytes_at m 4096 (concat (List.map (le_bytes 8) ws))"
    unfolding m_def by (rule bytes_at_poke_self) (simp add: ws_def)
  then have "bytes_at m 4096 (le_bytes 8 1)" "bytes_at m 4120 (le_bytes 8 6000)" "bytes_at m 4128 (le_bytes 8 0)"
    "bytes_at m 4136 (le_bytes 8 6)" "bytes_at m 4144 (le_bytes 8 4096)" "bytes_at m 4152 (le_bytes 8 0)"
    "bytes_at m 4160 (le_bytes 8 0)"
    by (simp_all add: ws_def)
  moreover have "m 6000 = Some 65" "m 6001 = Some 61" "m 6002 = Some 49" "m 6003 = Some 0"
    "m 6004 = Some 65" "m 6005 = Some 0"
    unfolding m_def by (simp_all add: poke_outside in_range_def ws_def) (simp_all add: base_def)
  ultimately have ld: "load_le m 4096 8 = Some 1" "load_le m 4120 8 = Some 6000" "load_le m 4128 8 = Some 0"
    "load_le m 4136 8 = Some 6" "load_le m 4144 8 = Some 4096" "load_le m 4152 8 = Some 0"
    "load_le m 4160 8 = Some 0" "m 6000 = Some 65" "m 6001 = Some 61" "m 6002 = Some 49"
    "m 6003 = Some 0" "m 6004 = Some 65" "m 6005 = Some 0"
    by (simp_all add: load_le_bytes)
  let ?s = "process m [] :: nat list cstate"
  have st: "unat ((scast ((7 :: i32) AND 255)) :: i64) = 7" by code_simp
  have "env_at m 4120 [(6000, [65, 61, 49])]" "auxv_at m 4136 [(6, 4096)]" "cstr m 6004 [65]"
    "load64 m 4096 = Some 1"
    using ld by (simp_all add: load64_def)
  with start_c_runs [of "x86_linux log_kernel" demo_app ?s ?s 4096 1 4120 "[(6000, [65, 61, 49])]"
      "?s\<lparr>environ := 4120, auxv := 4136\<rparr>" "[(6, 4096)]" 6004 "[65]" 6]
  have "start_c (x86_linux log_kernel) demo_app 4096 ?s = do {
      s \<leftarrow> in_turn (List.map (\<lambda>f. f 1 4104 4120) (preinit_array demo_app @ init_array demo_app))
        (?s\<lparr>environ := 4120, auxv := 4136\<rparr>);
      (code, s) \<leftarrow> app_main demo_app 1 4104 4120 s;
      s \<leftarrow> in_turn (rev (fini_array demo_app)) s;
      Some (exit (x86_linux log_kernel) code s) }"
    by (simp add: demo_app_def stack_chk_init_def)
  then show ?thesis using st
    by (intro exI [of _ m])
      (simp add: demo_app_def mark_def exit_def exit_now_def sys_exit_def
        my_syscall1_def syscall_insn_def log_kernel_def)
qed

subsection \<open>Device numbers\<close>

text \<open>
  The device number \<open>stat\<close> stores loses nothing of a major number of 12 and a minor
  number of 20 bits, and the macros \<open>major\<close> and \<open>minor\<close> give them back when the minor
  number has 8 bits.
\<close>

theorem stat_device_numbers:
  "drop_bit 8 (dev_of ma mi) AND 0xfff = ma AND 0xfff \<and>
   (dev_of ma mi AND 0xff) OR (drop_bit 12 (dev_of (ma AND 0xfff) mi) AND 0xfff00) = mi AND 0xfffff \<and>
   major (dev_of ma mi) = ma AND 0xfff \<and> minor (dev_of ma mi) = mi AND 0xff"
proof -
  have m: "(0xfff00 :: i32) = push_bit 8 (mask 12)" by code_simp
  show ?thesis
    unfolding dev_of_def major_def minor_def status_masks m
    by (intro conjI; rule bit_word_eqI; auto simp: bit_simps)
qed

end
