(* ===== verification/Getopt.thy ===== *)
theory Getopt
  imports Printf
begin

section \<open>getopt.h\<close>

text \<open>
  The variables \<^verbatim>\<open>optarg\<close>, \<^verbatim>\<open>optind\<close>, \<^verbatim>\<open>opterr\<close>, \<^verbatim>\<open>optopt\<close> and the
  static \<^verbatim>\<open>__optpos\<close> are a record beside the state of the process. Indices are
  \<open>int\<close>s, sign-extended when they index. \<open>lit_unrecognized\<close> and \<open>lit_requires\<close> are the
  addresses of the two formats.
\<close>

record getopt_vars =
  optarg :: addr
  optind :: i32
  opterr :: i32
  optopt :: i32
  optpos :: i32

definition arg_at :: "mem \<Rightarrow> addr \<Rightarrow> i32 \<Rightarrow> addr option" where
  "arg_at m argv i = load64 m (argv + 8 * scast i)"

definition char_at :: "mem \<Rightarrow> addr \<Rightarrow> i32 \<Rightarrow> byte option" where
  "char_at m p i = load m (p + scast i)"

text \<open>
  \<^verbatim>\<open>do d = optstring[i++]; while (d && d != c);\<close> with the last \<open>d\<close> and \<open>i\<close> as result.
\<close>

partial_function (option) getopt_find :: "mem \<Rightarrow> addr \<Rightarrow> byte \<Rightarrow> i32 \<Rightarrow> (byte \<times> i32) option" where
  "getopt_find m optstring c i = do {
     d \<leftarrow> char_at m optstring i;
     if d \<noteq> 0 \<and> d \<noteq> c then getopt_find m optstring c (i + 1) else Some (d, i + 1) }"

text \<open>
  The part after the option character \<open>c\<close> was taken: look it up, complain or fetch its
  argument. \<open>optchar\<close> is the address of the character.
\<close>

definition getopt_known ::
  "'w target \<Rightarrow> stdio_data \<Rightarrow> addr \<Rightarrow> i32 \<Rightarrow> addr \<Rightarrow> addr \<Rightarrow> byte \<Rightarrow> addr \<Rightarrow> i32 \<Rightarrow> getopt_vars
     \<Rightarrow> 'w cstate \<Rightarrow> (i32 \<times> getopt_vars \<times> 'w cstate) option" where
  "getopt_known T D lit_requires argc argv optstring c optchar i g s = do {
     let m = cmem s;
     o0 \<leftarrow> char_at m optstring i;
     if o0 \<noteq> 58 then Some (scast c, g, s)
     else do {
       let g = g\<lparr>optarg := 0\<rparr>;
       o1 \<leftarrow> char_at m optstring (i + 1);
       g \<leftarrow> (if o1 \<noteq> 58 \<or> optpos g \<noteq> 0
             then do {
               a \<leftarrow> arg_at m argv (optind g);
               Some (g\<lparr>optarg := (if optpos g \<noteq> 0 then a + scast (optpos g) else a),
                       optind := optind g + 1, optpos := 0\<rparr>) }
             else Some g);
       if argc <s optind g
       then do {
         let g = g\<lparr>optopt := scast c\<rparr>;
         f \<leftarrow> char_at m optstring 0;
         if f = 58 then Some (58, g, s)
         else if opterr g \<noteq> 0
         then do {
           a0 \<leftarrow> arg_at m argv 0;
           ch \<leftarrow> load m optchar;
           (_, s) \<leftarrow> fprintf T D stderr lit_requires [a0, scast ch] s;
           Some (63, g, s) }
         else Some (63, g, s) }
       else Some (scast c, g, s) } }"

text \<open>
  The part from \<^verbatim>\<open>if (!__optpos)\<close> on, for an argument \<open>arg\<close> that starts with \<^verbatim>\<open>-\<close>: take the next
  option character of the cluster and advance behind it.
\<close>

definition getopt_letter ::
  "'w target \<Rightarrow> stdio_data \<Rightarrow> addr \<Rightarrow> addr \<Rightarrow> i32 \<Rightarrow> addr \<Rightarrow> addr \<Rightarrow> addr \<Rightarrow> getopt_vars
     \<Rightarrow> 'w cstate \<Rightarrow> (i32 \<times> getopt_vars \<times> 'w cstate) option" where
  "getopt_letter T D lit_unrecognized lit_requires argc argv optstring arg g s = do {
     let m = cmem s;
     let g = (if optpos g = 0 then g\<lparr>optpos := 1\<rparr> else g);
     c \<leftarrow> char_at m arg (optpos g);
     let optchar = arg + scast (optpos g);
     let g = g\<lparr>optpos := optpos g + 1\<rparr>;
     nxt \<leftarrow> char_at m arg (optpos g);
     let g = (if nxt = 0 then g\<lparr>optind := optind g + 1, optpos := 0\<rparr> else g);
     f \<leftarrow> char_at m optstring 0;
     let optstring = (if f = 45 \<or> f = 43 then optstring + 1 else optstring);
     (d, i) \<leftarrow> getopt_find m optstring c 0;
     if d \<noteq> c \<or> c = 58
     then do {
       let g = g\<lparr>optopt := scast c\<rparr>;
       f \<leftarrow> char_at m optstring 0;
       if f \<noteq> 58 \<and> opterr g \<noteq> 0
       then do {
         p \<leftarrow> arg_at m argv 0;
         ch \<leftarrow> load m optchar;
         (_, s) \<leftarrow> fprintf T D stderr lit_unrecognized [p, scast ch] s;
         Some (63, g, s) }
       else Some (63, g, s) }
     else getopt_known T D lit_requires argc argv optstring c optchar i g s }"

definition getopt ::
  "'w target \<Rightarrow> stdio_data \<Rightarrow> addr \<Rightarrow> addr \<Rightarrow> i32 \<Rightarrow> addr \<Rightarrow> addr \<Rightarrow> getopt_vars
     \<Rightarrow> 'w cstate \<Rightarrow> (i32 \<times> getopt_vars \<times> 'w cstate) option" where
  "getopt T D lit_unrecognized lit_requires argc argv optstring g s = do {
     let m = cmem s;
     let g = (if optind g = 0 then g\<lparr>optpos := 0, optind := 1\<rparr> else g);
     arg \<leftarrow> (if argc \<le>s optind g then Some 0 else arg_at m argv (optind g));
     if argc \<le>s optind g \<or> arg = 0 then Some (- 1, g, s)
     else do {
       a0 \<leftarrow> char_at m arg 0;
       if a0 \<noteq> 45
       then do {
         f \<leftarrow> char_at m optstring 0;
         if f = 45 then Some (1, g\<lparr>optarg := arg, optind := optind g + 1\<rparr>, s)
         else Some (- 1, g, s) }
       else do {
         a1 \<leftarrow> char_at m arg 1;
         if a1 = 0 then Some (- 1, g, s)
         else do {
           a2 \<leftarrow> (if a1 = 45 then char_at m arg 2 else Some 1);
           if a1 = 45 \<and> a2 = 0 then Some (- 1, g\<lparr>optind := optind g + 1\<rparr>, s)
           else getopt_letter T D lit_unrecognized lit_requires argc argv optstring arg g s } } } }"

end
