(* ===== verification/GetoptFacts.thy ===== *)
theory GetoptFacts
  imports Getopt ProcessProps StreamFacts
begin

section \<open>getopt and a parser of lists of texts\<close>

text \<open>
  What a call of \<^verbatim>\<open>getopt\<close> yields, on lists: \<open>os\<close> is the option text without its leading
  \<^verbatim>\<open>-\<close> or \<^verbatim>\<open>+\<close>, the state of the parser is the rest \<open>cs\<close> of a cluster of options such as
  \<^verbatim>\<open>-abc\<close> and the arguments \<open>as\<close> that follow. \<open>opt_char\<close> treats one option character, \<open>opt_next\<close>
  is one call. \<open>opt_code\<close> is the return value of the code for a result and \<open>opt_vars\<close> says what its
  variables hold. \<open>opt_rel\<close> relates \<^verbatim>\<open>optind\<close> and \<^verbatim>\<open>__optpos\<close> to the state of the parser; \<open>es\<close>
  are the arguments with their addresses.
\<close>

datatype opt_result =
    Finished
  | Operand "byte list"
  | Flag byte
  | With_arg byte "byte list"
  | No_arg byte
  | Unknown byte
  | Missing byte

definition opt_char ::
  "byte list \<Rightarrow> byte \<Rightarrow> byte list \<Rightarrow> byte list list \<Rightarrow> opt_result \<times> byte list \<times> byte list list" where
  "opt_char os c cs as =
     (let rest = drop 1 (dropWhile (\<lambda>d. d \<noteq> c) os) in
      if c \<notin> set os \<or> c = 58 then (Unknown c, cs, as)
      else if take 1 rest \<noteq> [58] then (Flag c, cs, as)
      else if cs \<noteq> [] then (With_arg c cs, [], as)
      else if take 1 (drop 1 rest) = [58] then (No_arg c, [], as)
      else case as of [] \<Rightarrow> (Missing c, [], []) | a # as \<Rightarrow> (With_arg c a, [], as))"

definition opt_next ::
  "byte list \<Rightarrow> bool \<Rightarrow> byte list \<times> byte list list \<Rightarrow> opt_result \<times> byte list \<times> byte list list" where
  "opt_next os in_order st =
     (case st of
        (c # cs, as) \<Rightarrow> opt_char os c cs as
      | ([], []) \<Rightarrow> (Finished, [], [])
      | ([], a # as) \<Rightarrow>
          if take 1 a \<noteq> [45] then if in_order then (Operand a, [], as) else (Finished, [], a # as)
          else if a = [45] then (Finished, [], a # as)
          else if a = [45, 45] then (Finished, [], as)
          else opt_char os (a ! 1) (drop 2 a) as)"

definition opt_chars :: "byte list \<Rightarrow> byte list" where
  "opt_chars fs = (if take 1 fs = [45] \<or> take 1 fs = [43] then tl fs else fs)"

definition opt_code :: "byte list \<Rightarrow> opt_result \<Rightarrow> i32" where
  "opt_code os res =
     (case res of
        Finished \<Rightarrow> - 1 | Operand _ \<Rightarrow> 1 | Flag c \<Rightarrow> scast c | With_arg c _ \<Rightarrow> scast c
      | No_arg c \<Rightarrow> scast c | Unknown _ \<Rightarrow> 63 | Missing _ \<Rightarrow> if take 1 os = [58] then 58 else 63)"

definition opt_vars :: "mem \<Rightarrow> getopt_vars \<Rightarrow> opt_result \<Rightarrow> bool" where
  "opt_vars m g res =
     (case res of
        Finished \<Rightarrow> True | Operand a \<Rightarrow> cstr m (optarg g) a | Flag c \<Rightarrow> True
      | With_arg c a \<Rightarrow> cstr m (optarg g) a | No_arg c \<Rightarrow> optarg g = 0
      | Unknown c \<Rightarrow> optopt g = scast c | Missing c \<Rightarrow> optopt g = scast c)"

definition opt_rel ::
  "(addr \<times> byte list) list \<Rightarrow> getopt_vars \<Rightarrow> byte list \<Rightarrow> byte list list \<Rightarrow> bool" where
  "opt_rel es g cs as \<longleftrightarrow>
     (\<exists>i k. optind g = of_nat i \<and> optpos g = of_nat k \<and> 0 < i \<and>
        (k = 0 \<and> i \<le> Suc (length es) \<and> cs = [] \<and> as = drop i (List.map snd es) \<or>
         i < length es \<and> 2 \<le> k \<and> k < length (snd (es ! i)) \<and> take 1 (snd (es ! i)) = [45] \<and>
         cs = drop k (snd (es ! i)) \<and> as = drop (Suc i) (List.map snd es)))"

text \<open>
  A complaint is a message with the name of the program and the option character; it is the only effect a
  call can have on the process. \<open>opt_report\<close> says which result is complained about. \<open>getopt_does\<close>
  is what a call of the code has to do for a result and the next state of the parser.
\<close>

definition complain ::
  "'w target \<Rightarrow> stdio_data \<Rightarrow> addr \<Rightarrow> addr \<Rightarrow> byte \<Rightarrow> 'w cstate \<Rightarrow> 'w cstate option" where
  "complain T D lit argv c s = do {
     a0 \<leftarrow> arg_at (cmem s) argv 0;
     (_, s') \<leftarrow> fprintf T D stderr lit [a0, scast c] s;
     Some s' }"

definition opt_report ::
  "'w target \<Rightarrow> stdio_data \<Rightarrow> addr \<Rightarrow> addr \<Rightarrow> addr \<Rightarrow> byte list \<Rightarrow> getopt_vars \<Rightarrow> opt_result
     \<Rightarrow> 'w cstate \<Rightarrow> 'w cstate option" where
  "opt_report T D lu lr argv os g res s =
     (if opterr g = 0 \<or> take 1 os = [58] then Some s
      else case res of Unknown c \<Rightarrow> complain T D lu argv c s | Missing c \<Rightarrow> complain T D lr argv c s | _ \<Rightarrow> Some s)"

definition getopt_does ::
  "'w target \<Rightarrow> stdio_data \<Rightarrow> addr \<Rightarrow> addr \<Rightarrow> addr \<Rightarrow> (addr \<times> byte list) list \<Rightarrow> byte list \<Rightarrow> getopt_vars
     \<Rightarrow> 'w cstate \<Rightarrow> opt_result \<times> byte list \<times> byte list list \<Rightarrow> (i32 \<times> getopt_vars \<times> 'w cstate) option \<Rightarrow> bool" where
  "getopt_does T D lu lr argv es os g s st answer \<longleftrightarrow>
     (case st of (res, cs', as') \<Rightarrow>
        \<exists>g'. answer = map_option (\<lambda>s'. (opt_code os res, g', s')) (opt_report T D lu lr argv os g res s) \<and>
          opt_rel es g' cs' as' \<and> opterr g' = opterr g \<and> opt_vars (cmem s) g' res)"

lemma map_complain:
  "map_option F (complain T D lit argv c s) = do {
     a0 \<leftarrow> arg_at (cmem s) argv 0;
     (_, s') \<leftarrow> fprintf T D stderr lit [a0, scast c] s;
     Some (F s') }"
  by (simp add: complain_def map_option_bind comp_def split_def)

lemma getopt_does_silent:
  "opt_report T D lu lr argv os g res s = Some s \<Longrightarrow> opt_rel es g' cs' as' \<Longrightarrow> opterr g' = opterr g \<Longrightarrow>
   opt_vars (cmem s) g' res \<Longrightarrow>
   getopt_does T D lu lr argv es os g s (res, cs', as') (Some (opt_code os res, g', s))"
  by (auto simp: getopt_does_def)

lemma opt_report_silent [simp]:
  "opt_report T D lu lr argv os g Finished s = Some s" "opt_report T D lu lr argv os g (Operand x) s = Some s"
  "opt_report T D lu lr argv os g (Flag c) s = Some s" "opt_report T D lu lr argv os g (With_arg c x) s = Some s"
  "opt_report T D lu lr argv os g (No_arg c) s = Some s"
  by (simp_all add: opt_report_def)

lemma opt_report_same: "opterr g' = opterr g \<Longrightarrow>
  opt_report T D lu lr argv os g' res s = opt_report T D lu lr argv os g res s"
  by (simp add: opt_report_def)

lemma getopt_does_same: "opterr g' = opterr g \<Longrightarrow>
  getopt_does T D lu lr argv es os g' s st answer = getopt_does T D lu lr argv es os g s st answer"
  by (simp add: getopt_does_def opt_report_same [of g' g])

lemma env_at_nth:
  "env_at m p es \<Longrightarrow> i < length es \<Longrightarrow>
   load64 m (p + 8 * of_nat i) = Some (fst (es ! i)) \<and> fst (es ! i) \<noteq> 0 \<and> cstr m (fst (es ! i)) (snd (es ! i))"
proof (induction es arbitrary: p i)
  case (Cons e es)
  show ?case
  proof (cases i)
    case 0
    then show ?thesis using Cons.prems by (cases e) auto
  next
    case (Suc j)
    have "env_at m (p + 8) es" using Cons.prems by (cases e) auto
    then show ?thesis using Cons.IH [of "p + 8" j] Cons.prems(2) Suc by (simp add: algebra_simps)
  qed
qed simp

lemma env_at_end: "env_at m p es \<Longrightarrow> load64 m (p + 8 * of_nat (length es)) = Some 0"
  by (induction m p es rule: env_at.induct) (auto simp: algebra_simps)

lemma char_at_nth:
  "cstr m p xs \<Longrightarrow> k \<le> length xs \<Longrightarrow> k < 2 ^ 31 \<Longrightarrow>
   char_at m p (of_nat k) = Some (if k < length xs then xs ! k else 0)"
  using cstr_nth [of m p xs k] scast_of_nat32 [of k] by (simp add: char_at_def)

lemma arg_at_nth:
  "env_at m p es \<Longrightarrow> i < length es \<Longrightarrow> i < 2 ^ 31 \<Longrightarrow> arg_at m p (of_nat i) = Some (fst (es ! i))"
  using env_at_nth [of m p es i] scast_of_nat32 [of i] by (simp add: arg_at_def)

lemma arg_at_end:
  "env_at m p es \<Longrightarrow> length es < 2 ^ 31 \<Longrightarrow> arg_at m p (of_nat (length es)) = Some 0"
  using env_at_end [of m p es] scast_of_nat32 [of "length es"] by (simp add: arg_at_def)

lemma getopt_find_eq:
  assumes "cstr m p os" and "length os < 2 ^ 31 - 1" and "c \<noteq> 0"
  shows "i \<le> length os \<Longrightarrow> c \<notin> set (take i os) \<Longrightarrow>
    getopt_find m p c (of_nat i) =
      Some (if c \<in> set os then c else 0, of_nat (Suc (length (takeWhile (\<lambda>d. d \<noteq> c) os))))"
proof (induction "length os - i" arbitrary: i)
  case 0
  then have i: "i = length os" by simp
  then have "takeWhile (\<lambda>d. d \<noteq> c) os = os" using 0 by (auto simp: takeWhile_eq_all_conv)
  then have "length (takeWhile (\<lambda>d. d \<noteq> c) os) = length os" by (rule arg_cong)
  then show ?case using 0 i assms char_at_nth [OF assms(1), of "length os"]
    by (subst getopt_find.simps) (simp add: add.commute)
next
  case (Suc n)
  then have i: "i < length os" by simp
  have ch: "char_at m p (of_nat i) = Some (os ! i)"
    using char_at_nth [OF assms(1), of i] i assms(2) by simp
  have nz: "os ! i \<noteq> 0" using cstr_nonzero [OF assms(1)] i by (metis nth_mem)
  show ?case
  proof (cases "os ! i = c")
    case True
    have "takeWhile (\<lambda>d. d \<noteq> c) os = take i os"
      using True i Suc.prems(2) by (intro takeWhile_eq_take_P_nth) (auto simp: in_set_conv_nth)
    moreover have "c \<in> set os" using True i by (metis nth_mem)
    ultimately show ?thesis using True ch i by (subst getopt_find.simps) (simp add: add.commute)
  next
    case False
    have "getopt_find m p c (of_nat (Suc i)) =
        Some (if c \<in> set os then c else 0, of_nat (Suc (length (takeWhile (\<lambda>d. d \<noteq> c) os))))"
      using Suc False i by (intro Suc.hyps(1)) (auto simp: take_Suc_conv_app_nth)
    then show ?thesis using False ch nz by (subst getopt_find.simps) (simp add: add.commute)
  qed
qed

lemma char_is:
  assumes "cstr m p os" and "j \<le> length os" and "j < 2 ^ 31"
  shows "\<exists>d. char_at m p (of_nat j) = Some d \<and> (d = 58 \<longleftrightarrow> take 1 (drop j os) = [58])"
proof -
  have "(58 :: byte) \<noteq> 0" by code_simp
  then show ?thesis
    using char_at_nth [OF assms] assms(2)
    by (cases "j < length os") (auto simp: take_Suc hd_drop_conv_nth)
qed

lemma opt_rel_cases:
  assumes "opt_rel es g cs as"
  obtains (fresh) i where "optind g = of_nat i" "optpos g = 0" "0 < i" "i \<le> Suc (length es)" "cs = []"
      "as = drop i (List.map snd es)"
    | (cluster) i k where "optind g = of_nat i" "optpos g = of_nat k" "0 < i" "i < length es" "2 \<le> k"
      "k < length (snd (es ! i))" "take 1 (snd (es ! i)) = [45]" "cs = drop k (snd (es ! i))"
      "as = drop (Suc i) (List.map snd es)"
  using assms unfolding opt_rel_def by fastforce

lemma opt_rel_fresh: "0 < i \<Longrightarrow> i \<le> Suc (length es) \<Longrightarrow> optind g = of_nat i \<Longrightarrow> optpos g = 0 \<Longrightarrow>
  opt_rel es g [] (drop i (List.map snd es))"
  unfolding opt_rel_def by (intro exI [of _ i] exI [of _ 0]) simp

lemma opt_char_found:
  "c \<in> set os \<Longrightarrow> drop 1 (dropWhile (\<lambda>d. d \<noteq> c) os) = drop (Suc (length (takeWhile (\<lambda>d. d \<noteq> c) os))) os"
  by (simp add: dropWhile_eq_drop)

lemma found_before_end: "c \<in> set os \<Longrightarrow> length (takeWhile (\<lambda>d. d \<noteq> c) os) < length os"
  by (induction os) auto

lemma opt_chars_at:
  assumes "cstr m p fs" and "length fs < 2 ^ 31 - 2"
  shows "\<exists>f. char_at m p 0 = Some f \<and> (f = 45 \<longleftrightarrow> take 1 fs = [45]) \<and>
    cstr m (if f = 45 \<or> f = 43 then p + 1 else p) (opt_chars fs)"
proof -
  have "(45 :: byte) \<noteq> 0" "(43 :: byte) \<noteq> 0" by code_simp+
  moreover have "char_at m p 0 = Some (if 0 < length fs then fs ! 0 else 0)"
    using char_at_nth [OF assms(1), of 0] by simp
  ultimately show ?thesis using assms(1) by (cases fs) (auto simp: opt_chars_def)
qed

lemma length_opt_chars: "length (opt_chars fs) \<le> length fs"
  by (simp add: opt_chars_def)

lemma opt_rel_update [simp]:
  "opt_rel es (g\<lparr>optopt := b\<rparr>) cs as = opt_rel es g cs as"
  by (simp add: opt_rel_def)

text \<open>Before the first call, when \<^verbatim>\<open>optind\<close> is 1, the parser has all arguments before it.\<close>

lemma opt_rel_start:
  "optind g = 1 \<Longrightarrow> optpos g = 0 \<Longrightarrow> opt_rel es g [] (drop 1 (List.map snd es))"
  by (rule opt_rel_fresh) simp_all

text \<open>What a call reads that starts at an argument, and its answers where no option letter is involved.\<close>

lemma getopt_reads:
  assumes env: "env_at (cmem s) argv es" "length es < 2 ^ 31 - 2" and i: "0 < i" "i < length es"
  shows "arg_at (cmem s) argv (of_nat i) = Some (fst (es ! i))" and "fst (es ! i) \<noteq> 0"
    and "(of_nat i :: i32) \<noteq> 0" and "\<not> (of_nat (length es) :: i32) \<le>s of_nat i"
    and "char_at (cmem s) (fst (es ! i)) 0 = Some (if snd (es ! i) = [] then 0 else snd (es ! i) ! 0)"
    and "1 \<le> length (snd (es ! i)) \<Longrightarrow> char_at (cmem s) (fst (es ! i)) 1 =
      Some (if 1 < length (snd (es ! i)) then snd (es ! i) ! 1 else 0)"
    and "2 \<le> length (snd (es ! i)) \<Longrightarrow> char_at (cmem s) (fst (es ! i)) 2 =
      Some (if 2 < length (snd (es ! i)) then snd (es ! i) ! 2 else 0)"
proof -
  have str: "cstr (cmem s) (fst (es ! i)) (snd (es ! i))" using env_at_nth [OF env(1) i(2)] by auto
  show "arg_at (cmem s) argv (of_nat i) = Some (fst (es ! i))" using arg_at_nth [OF env(1) i(2)] i(2) env(2) by simp
  show "fst (es ! i) \<noteq> 0" using env_at_nth [OF env(1) i(2)] by auto
  show "(of_nat i :: i32) \<noteq> 0" "\<not> (of_nat (length es) :: i32) \<le>s of_nat i"
    using of_nat32_nonzero [of i] sle_of_nat32 [of "length es" i] i env(2) by simp_all
  show "char_at (cmem s) (fst (es ! i)) 0 = Some (if snd (es ! i) = [] then 0 else snd (es ! i) ! 0)"
    "1 \<le> length (snd (es ! i)) \<Longrightarrow> char_at (cmem s) (fst (es ! i)) 1 =
      Some (if 1 < length (snd (es ! i)) then snd (es ! i) ! 1 else 0)"
    "2 \<le> length (snd (es ! i)) \<Longrightarrow> char_at (cmem s) (fst (es ! i)) 2 =
      Some (if 2 < length (snd (es ! i)) then snd (es ! i) ! 2 else 0)"
    using char_at_nth [OF str, of 0] char_at_nth [OF str, of 1] char_at_nth [OF str, of 2] by simp_all
qed

subsection \<open>An option that the option text has\<close>

text \<open>
  The outcomes of \<open>getopt_known\<close>, by what follows the option in the option text: nothing to
  fetch, an optional argument that is not attached, an argument to fetch.
\<close>

lemma getopt_known_flag:
  "char_at (cmem s) p j = Some d \<Longrightarrow> d \<noteq> 58 \<Longrightarrow> getopt_known T D lr n argv p c oc j g s = Some (scast c, g, s)"
  by (simp add: getopt_known_def)

lemma getopt_known_optional:
  "char_at (cmem s) p j = Some 58 \<Longrightarrow> char_at (cmem s) p (j + 1) = Some 58 \<Longrightarrow> optpos g = 0 \<Longrightarrow> \<not> n <s optind g \<Longrightarrow>
   getopt_known T D lr n argv p c oc j g s = Some (scast c, g\<lparr>optarg := 0\<rparr>, s)"
  by (simp add: getopt_known_def)

lemma getopt_known_fetch:
  assumes "char_at (cmem s) p j = Some 58" and "char_at (cmem s) p (j + 1) = Some d" and "d \<noteq> 58 \<or> optpos g \<noteq> 0"
    and "arg_at (cmem s) argv (optind g) = Some a" and "char_at (cmem s) p 0 = Some f" and "load (cmem s) oc = Some c"
    and "g' = g\<lparr>optarg := a + scast (optpos g), optind := optind g + 1, optpos := 0\<rparr>"
  shows "getopt_known T D lr n argv p c oc j g s =
    (if \<not> n <s optind g' then Some (scast c, g', s)
     else map_option (\<lambda>s'. (if f = 58 then 58 else 63, g'\<lparr>optopt := scast c\<rparr>, s'))
       (if f = 58 \<or> opterr g = 0 then Some s else complain T D lr argv c s))"
  using assms by (auto simp: getopt_known_def map_complain Let_def)

lemma getopt_attached:
  assumes env: "env_at (cmem s) argv es" "length es < 2 ^ 31 - 2" "\<forall>e \<in> set es. length (snd e) < 2 ^ 31 - 2"
    and i: "optind g = of_nat i" "optpos g = of_nat k" "i < length es" and k: "2 \<le> k" "k < length (snd (es ! i))"
    and ch: "char_at (cmem s) p j = Some 58" "char_at (cmem s) p (j + 1) = Some d" "char_at (cmem s) p 0 = Some f"
      "load (cmem s) oc = Some c"
  shows "getopt_does T D lu lr argv es os g s (With_arg c (drop k (snd (es ! i))), [], drop (Suc i) (List.map snd es))
    (getopt_known T D lr (of_nat (length es)) argv p c oc j g s)"
proof -
  let ?arg = "fst (es ! i)" and ?a = "snd (es ! i)"
  have short: "length ?a < 2 ^ 31 - 2" using env(3) nth_mem [OF i(3)] by simp
  have kn: "(of_nat k :: i32) \<noteq> 0" "scast (of_nat k :: i32) = (of_nat k :: i64)"
    using k short of_nat32_nonzero [of k] scast_of_nat32 [of k] by simp_all
  let ?g = "g\<lparr>optarg := ?arg + of_nat k, optind := of_nat (Suc i), optpos := 0\<rparr>"
  have "\<not> (of_nat (length es) :: i32) <s of_nat (Suc i)"
    using slt_of_nat32 [of "length es" "Suc i"] i(3) env(2) by simp
  moreover have "arg_at (cmem s) argv (optind g) = Some ?arg"
    using arg_at_nth [OF env(1) i(3)] i(1,3) env(2) by simp
  ultimately have "getopt_known T D lr (of_nat (length es)) argv p c oc j g s = Some (scast c, ?g, s)"
    using kn i(1,2) by (subst getopt_known_fetch [OF ch(1,2) _ _ ch(3,4) refl]) (auto simp: add.commute)
  moreover have "opt_rel es ?g [] (drop (Suc i) (List.map snd es))" using i(3) by (intro opt_rel_fresh) simp_all
  moreover have "cstr (cmem s) (?arg + of_nat k) (drop k ?a)"
    using env_at_nth [OF env(1) i(3)] k(2) cstr_append_drop [of "cmem s" ?arg "take k ?a" "drop k ?a"] by simp
  ultimately show ?thesis
    using getopt_does_silent [of T D lu lr argv os g "With_arg c (drop k ?a)" s es ?g]
    by (simp add: opt_code_def opt_vars_def)
qed

lemma getopt_separate:
  assumes env: "env_at (cmem s) argv es" "length es < 2 ^ 31 - 2"
    and i: "optind g = of_nat i" "optpos g = 0" "0 < i" "i \<le> length es"
    and ch: "char_at (cmem s) p j = Some 58" "char_at (cmem s) p (j + 1) = Some d" "d \<noteq> 58"
      "char_at (cmem s) p 0 = Some f" "f = 58 \<longleftrightarrow> take 1 os = [58]" "load (cmem s) oc = Some c"
  shows "getopt_does T D lu lr argv es os g s
    (case drop i (List.map snd es) of [] \<Rightarrow> (Missing c, [], []) | a # as \<Rightarrow> (With_arg c a, [], as))
    (getopt_known T D lr (of_nat (length es)) argv p c oc j g s)"
proof (cases "i = length es")
  case False
  then have il: "i < length es" using i(4) by simp
  let ?arg = "fst (es ! i)" and ?a = "snd (es ! i)"
  let ?g = "g\<lparr>optarg := ?arg, optind := of_nat (Suc i), optpos := 0\<rparr>"
  have "\<not> (of_nat (length es) :: i32) <s of_nat (Suc i)"
    using slt_of_nat32 [of "length es" "Suc i"] il env(2) by simp
  moreover have "arg_at (cmem s) argv (optind g) = Some ?arg"
    using arg_at_nth [OF env(1) il] i(1) il env(2) by simp
  ultimately have "getopt_known T D lr (of_nat (length es)) argv p c oc j g s = Some (scast c, ?g, s)"
    using i(1,2) ch(3) by (subst getopt_known_fetch [OF ch(1,2) _ _ ch(4,6) refl]) (auto simp: add.commute)
  moreover have "opt_rel es ?g [] (drop (Suc i) (List.map snd es))" using il by (intro opt_rel_fresh) simp_all
  moreover have "drop i (List.map snd es) = ?a # drop (Suc i) (List.map snd es)"
    using il by (simp add: Cons_nth_drop_Suc [symmetric])
  ultimately show ?thesis
    using getopt_does_silent [of T D lu lr argv os g "With_arg c ?a" s es ?g] env_at_nth [OF env(1) il]
    by (simp add: opt_code_def opt_vars_def)
next
  case True
  let ?g = "g\<lparr>optarg := 0, optind := of_nat (Suc i), optpos := 0, optopt := scast c\<rparr>"
  have "(of_nat (length es) :: i32) <s of_nat (Suc i)"
    using slt_of_nat32 [of "length es" "Suc i"] True env(2) by simp
  moreover have "arg_at (cmem s) argv (optind g) = Some 0"
    using arg_at_end [OF env(1)] env(2) i(1) True by simp
  ultimately have "getopt_known T D lr (of_nat (length es)) argv p c oc j g s =
      map_option (\<lambda>s'. (opt_code os (Missing c), ?g, s')) (opt_report T D lu lr argv os g (Missing c) s)"
    using i(1,2) ch(3,5) by (subst getopt_known_fetch [OF ch(1,2) _ _ ch(4,6) refl])
      (auto simp: opt_report_def opt_code_def add.commute)
  moreover have "opt_rel es ?g [] []" using opt_rel_fresh [of "Suc i" es ?g] True by simp
  ultimately show ?thesis using True by (auto simp: getopt_does_def opt_vars_def)
qed

lemma getopt_known_does:
  assumes env: "env_at (cmem s) argv es" "length es < 2 ^ 31 - 2" "\<forall>e \<in> set es. length (snd e) < 2 ^ 31 - 2"
    and os: "cstr (cmem s) p os" "length os < 2 ^ 31 - 2"
    and c: "c \<in> set os" "c \<noteq> 58" "load (cmem s) oc = Some c"
    and g: "opt_rel es g cs as" "optind g \<noteq> of_nat (Suc (length es))"
    and j: "j = Suc (length (takeWhile (\<lambda>d. d \<noteq> c) os))"
  shows "getopt_does T D lu lr argv es os g s (opt_char os c cs as)
    (getopt_known T D lr (of_nat (length es)) argv p c oc (of_nat j) g s)"
proof -
  have jl: "j \<le> length os" using found_before_end [OF c(1)] j by simp
  obtain d where d: "char_at (cmem s) p (of_nat j) = Some d" "d = 58 \<longleftrightarrow> take 1 (drop j os) = [58]"
    using char_is [OF os(1) jl] os(2) jl by auto
  have oc: "opt_char os c cs as =
      (if d \<noteq> 58 then (Flag c, cs, as) else if cs \<noteq> [] then (With_arg c cs, [], as)
       else if take 1 (drop (Suc j) os) = [58] then (No_arg c, [], as)
       else case as of [] \<Rightarrow> (Missing c, [], []) | a # as \<Rightarrow> (With_arg c a, [], as))"
    using c(1,2) d(2) opt_char_found [OF c(1)] j by (simp add: opt_char_def)
  show ?thesis
  proof (cases "d = 58")
    case False
    then show ?thesis using getopt_known_flag [OF d(1) False, of T D lr] oc g(1)
      by (auto simp: getopt_does_def opt_code_def opt_vars_def)
  next
    case True
    then have "j < length os" using d(2) by (cases "j < length os") auto
    then obtain d1 where d1: "char_at (cmem s) p (of_nat j + 1) = Some d1" "d1 = 58 \<longleftrightarrow> take 1 (drop (Suc j) os) = [58]"
      using char_is [OF os(1), of "Suc j"] os(2) by (auto simp: add.commute)
    obtain f where f: "char_at (cmem s) p 0 = Some f" "f = 58 \<longleftrightarrow> take 1 os = [58]"
      using char_is [OF os(1), of 0] by auto
    note d' = d(1) [unfolded True]
    from g(1) show ?thesis
    proof (cases rule: opt_rel_cases)
      case (cluster i k)
      then show ?thesis using getopt_attached [OF env cluster(1,2,4,5,6) d' d1(1) f(1) c(3)] oc True by simp
    next
      case (fresh i)
      have i: "i \<le> length es" using fresh g(2) by (cases "i = Suc (length es)") auto
      have "\<not> (of_nat (length es) :: i32) <s of_nat i" using slt_of_nat32 [of "length es" i] i env(2) by simp
      then have "d1 = 58 \<Longrightarrow> getopt_known T D lr (of_nat (length es)) argv p c oc (of_nat j) g s = Some (scast c, g\<lparr>optarg := 0\<rparr>, s)"
        using getopt_known_optional [OF d'] d1(1) fresh(1,2) by simp
      moreover have "opt_rel es (g\<lparr>optarg := 0\<rparr>) [] as" using g(1) fresh(5) by (simp add: opt_rel_def)
      moreover note getopt_separate [OF env(1,2) fresh(1-3) i d' d1(1) _ f c(3), of T D lu lr]
      ultimately show ?thesis using oc True d1(2) fresh(5,6)
        by (cases "d1 = 58") (auto simp: getopt_does_def opt_code_def opt_vars_def)
    qed
  qed
qed

subsection \<open>A call that takes an option letter\<close>

lemma opt_rel_advance:
  assumes i: "optind g = of_nat i" "0 < i" "i < length es" and a: "a = snd (es ! i)" "take 1 a = [45]"
    and k: "0 < k" "k < length a"
    and g1: "g1 = (if Suc k = length a then g\<lparr>optind := of_nat (Suc i), optpos := 0\<rparr> else g\<lparr>optpos := of_nat (Suc k)\<rparr>)"
  shows "opt_rel es g1 (drop (Suc k) a) (drop (Suc i) (List.map snd es))"
proof (cases "Suc k = length a")
  case True
  then show ?thesis using i g1 opt_rel_fresh [of "Suc i" es g1] by simp
next
  case False
  then show ?thesis unfolding opt_rel_def using i a k g1 by (intro exI [of _ i] exI [of _ "Suc k"]) auto
qed

lemma of_nat32_inj: "m < 2 ^ 31 \<Longrightarrow> n < 2 ^ 31 \<Longrightarrow> (of_nat m :: i32) = of_nat n \<longleftrightarrow> m = n"
  by (metis sint_of_nat32 of_nat_eq_iff)

lemma getopt_letter_eq:
  assumes str: "cstr (cmem s) arg a" "length a < 2 ^ 31 - 2" and fs: "cstr (cmem s) optstring fs" "length fs < 2 ^ 31 - 2"
    and k: "optpos g = of_nat k0" "k = (if k0 = 0 then 1 else k0)" "k < length a" and i: "optind g = of_nat i"
    and g1: "g1 = (if Suc k = length a then g\<lparr>optind := of_nat (Suc i), optpos := 0\<rparr> else g\<lparr>optpos := of_nat (Suc k)\<rparr>)"
    and p: "p = (if take 1 fs = [45] \<or> take 1 fs = [43] then optstring + 1 else optstring)"
  shows "getopt_letter T D lu lr n argv optstring arg g s =
    (if a ! k \<notin> set (opt_chars fs) \<or> a ! k = 58
     then map_option (\<lambda>s'. (63, g1\<lparr>optopt := scast (a ! k)\<rparr>, s')) (opt_report T D lu lr argv (opt_chars fs) g (Unknown (a ! k)) s)
     else getopt_known T D lr n argv p (a ! k) (arg + of_nat k)
       (of_nat (Suc (length (takeWhile (\<lambda>d. d \<noteq> a ! k) (opt_chars fs))))) g1 s)"
proof -
  let ?m = "cmem s" and ?os = "opt_chars fs"
  have nz: "a ! n \<noteq> 0" if "n < length a" for n using cstr_nonzero [OF str(1)] that by (metis nth_mem)
  have k32: "k < 2 ^ 31" "k0 < 2 ^ 31" using k str(2) by (auto split: if_splits)
  have start: "(if optpos g = 0 then g\<lparr>optpos := 1\<rparr> else g) = g\<lparr>optpos := of_nat k\<rparr>"
    using k of_nat32_nonzero [of k0] k32 by (cases "k0 = 0") auto
  define nxt where "nxt = (if Suc k < length a then a ! Suc k else 0)"
  have ch: "char_at ?m arg (of_nat k) = Some (a ! k)" "load ?m (arg + of_nat k) = Some (a ! k)"
    "char_at ?m arg (of_nat k + 1) = Some nxt"
    using char_at_nth [OF str(1), of k] char_at_nth [OF str(1), of "Suc k"] k(3) str(2) scast_of_nat32 [OF k32(1)]
    by (simp_all add: char_at_def nxt_def add.commute)
  have g1': "g1 = (if nxt = 0 then g\<lparr>optind := optind g + 1, optpos := 0\<rparr> else g\<lparr>optpos := of_nat k + 1\<rparr>)"
    using k(3) nz [of "Suc k"] g1 i by (auto simp: nxt_def add.commute)
  obtain f where f: "char_at ?m optstring 0 = Some f" "(if f = 45 \<or> f = 43 then optstring + 1 else optstring) = p"
    using char_at_nth [OF fs(1), of 0] p by (cases fs) auto
  have os: "cstr ?m p ?os" using fs(1) p by (cases fs) (auto simp: opt_chars_def)
  have find: "getopt_find ?m p (a ! k) 0 = Some (if a ! k \<in> set ?os then a ! k else 0,
      of_nat (Suc (length (takeWhile (\<lambda>d. d \<noteq> a ! k) ?os))))"
    using getopt_find_eq [OF os, of "a ! k" 0] fs(2) length_opt_chars [of fs] nz [OF k(3)] by simp
  obtain f0 where f0: "char_at ?m p 0 = Some f0" "f0 = 58 \<longleftrightarrow> take 1 ?os = [58]"
    using char_is [OF os, of 0] by auto
  have er: "opterr g1 = opterr g" using g1 by simp
  have "getopt_letter T D lu lr n argv optstring arg g s =
    (if a ! k \<notin> set ?os \<or> a ! k = 58
     then if f0 \<noteq> 58 \<and> opterr g1 \<noteq> 0
       then do {
         p \<leftarrow> arg_at ?m argv 0;
         (_, s') \<leftarrow> fprintf T D stderr lu [p, scast (a ! k)] s;
         Some (63, g1\<lparr>optopt := scast (a ! k)\<rparr>, s') }
       else Some (63, g1\<lparr>optopt := scast (a ! k)\<rparr>, s)
     else getopt_known T D lr n argv p (a ! k) (arg + of_nat k)
       (of_nat (Suc (length (takeWhile (\<lambda>d. d \<noteq> a ! k) ?os)))) g1 s)"
    unfolding getopt_letter_def Let_def start
    using f find f0(1) nz [OF k(3)] ch scast_of_nat32 [OF k32(1)] unfolding g1' by (cases "nxt = 0") simp_all
  then show ?thesis unfolding er by (simp add: opt_report_def map_complain f0(2))
qed

lemma getopt_to_letter:
  assumes env: "env_at (cmem s) argv es" "length es < 2 ^ 31 - 2" and i: "optind g = of_nat i" "0 < i" "i < length es"
    and a: "take 1 (snd (es ! i)) = [45]" "snd (es ! i) \<noteq> [45]" "snd (es ! i) \<noteq> [45, 45]"
  shows "getopt T D lu lr (of_nat (length es)) argv optstring g s =
    getopt_letter T D lu lr (of_nat (length es)) argv optstring (fst (es ! i)) g s"
proof -
  let ?a = "snd (es ! i)"
  note rd = getopt_reads [OF env i(2,3)]
  have nz: "?a ! n \<noteq> 0" if "n < length ?a" for n
    using env_at_nth [OF env(1) i(3)] cstr_nonzero that by (metis nth_mem)
  have hd: "?a \<noteq> []" "?a ! 0 = 45" using a(1) by (cases ?a; simp)+
  have l: "1 < length ?a" using a(1,2) by (cases ?a; cases "tl ?a") auto
  have "2 < length ?a" if "?a ! 1 = 45" using that a(1,3) l by (cases ?a; cases "tl ?a"; cases "tl (tl ?a)") auto
  then show ?thesis using rd hd l i(1) nz [of 1] nz [of 2] by (auto simp: getopt_def)
qed

lemma getopt_take:
  assumes env: "env_at (cmem s) argv es" "length es < 2 ^ 31 - 2" "\<forall>e \<in> set es. length (snd e) < 2 ^ 31 - 2"
    and fs: "cstr (cmem s) optstring fs" "length fs < 2 ^ 31 - 2"
    and i: "optind g = of_nat i" "0 < i" "i < length es" and a: "a = snd (es ! i)" "take 1 a = [45]" "a \<noteq> [45]" "a \<noteq> [45, 45]"
    and k: "optpos g = of_nat k0" "k = (if k0 = 0 then 1 else k0)" "k < length a"
  shows "getopt_does T D lu lr argv es (opt_chars fs) g s
    (opt_char (opt_chars fs) (a ! k) (drop (Suc k) a) (drop (Suc i) (List.map snd es)))
    (getopt T D lu lr (of_nat (length es)) argv optstring g s)"
proof -
  let ?m = "cmem s" and ?os = "opt_chars fs" and ?arg = "fst (es ! i)" and ?c = "a ! k"
  let ?g1 = "if Suc k = length a then g\<lparr>optind := of_nat (Suc i), optpos := 0\<rparr> else g\<lparr>optpos := of_nat (Suc k)\<rparr>"
  let ?p = "if take 1 fs = [45] \<or> take 1 fs = [43] then optstring + 1 else optstring"
  have str: "cstr ?m ?arg a" "length a < 2 ^ 31 - 2" using env_at_nth [OF env(1) i(3)] env(3) i(3) a(1) by auto
  note step = trans [OF getopt_to_letter [OF env(1,2) i a(2-4) [unfolded a(1)]]
      getopt_letter_eq [OF str fs k i(1) refl refl], of T D lu lr]
  have rel: "opt_rel es ?g1 (drop (Suc k) a) (drop (Suc i) (List.map snd es))"
    using k by (intro opt_rel_advance [OF i a(1,2) _ k(3) refl]) simp
  have er: "opterr ?g1 = opterr g" by simp
  show ?thesis
  proof (cases "?c \<notin> set ?os \<or> ?c = 58")
    case True
    then have "opt_char ?os ?c (drop (Suc k) a) (drop (Suc i) (List.map snd es)) =
        (Unknown ?c, drop (Suc k) a, drop (Suc i) (List.map snd es))" by (auto simp: opt_char_def)
    then show ?thesis unfolding step using True rel er
      by (simp only: if_True getopt_does_def prod.case opt_code_def opt_vars_def opt_result.case)
        (intro exI [of _ "?g1\<lparr>optopt := scast ?c\<rparr>"], simp del: if_split)
  next
    case False
    have os: "cstr ?m ?p ?os" using fs(1) by (cases fs) (auto simp: opt_chars_def)
    have ch: "load ?m (?arg + of_nat k) = Some ?c" using cstr_nth [OF str(1), of k] k(3) by simp
    have "i < 2 ^ 31 \<and> Suc i < 2 ^ 31 \<and> Suc (length es) < 2 ^ 31" using i(3) env(2) by simp
    then have "(of_nat i :: i32) \<noteq> of_nat (Suc (length es))" "(of_nat (Suc i) :: i32) \<noteq> of_nat (Suc (length es))"
      using i(3) by (simp_all only: of_nat32_inj)
    then have idx: "optind ?g1 \<noteq> of_nat (Suc (length es))" using i(1) by (simp del: of_nat_Suc)
    have los: "length ?os < 2 ^ 31 - 2" using fs(2) length_opt_chars [of fs] by (rule le_less_trans [rotated])
    have c: "?c \<in> set ?os" "?c \<noteq> 58" using False by blast+
    note getopt_known_does [OF env os los c ch rel idx refl, of T D lu lr]
    then show ?thesis unfolding step using False by (simp only: getopt_does_same [OF er] if_False)
  qed
qed

subsection \<open>The answers where no option letter is involved\<close>

lemma getopt_end:
  assumes "length es < 2 ^ 31 - 2" and g: "opt_rel es g [] []"
    and "optind g = of_nat i" "optpos g = 0" "0 < i" "i \<le> Suc (length es)" "\<not> i < length es"
  shows "getopt_does T D lu lr argv es os g s (opt_next os in_order ([], []))
    (getopt T D lu lr (of_nat (length es)) argv optstring g s)"
proof -
  have "(of_nat (length es) :: i32) \<le>s of_nat i" "(of_nat i :: i32) \<noteq> 0"
    using sle_of_nat32 [of "length es" i] of_nat32_nonzero [of i] assms by simp_all
  then have "getopt T D lu lr (of_nat (length es)) argv optstring g s = Some (- 1, g, s)"
    using assms by (simp add: getopt_def)
  then show ?thesis using g by (simp add: opt_next_def getopt_does_def opt_code_def opt_vars_def)
qed

lemma getopt_operand:
  assumes env: "env_at (cmem s) argv es" "length es < 2 ^ 31 - 2" and fs: "cstr (cmem s) optstring fs" "length fs < 2 ^ 31 - 2"
    and i: "optind g = of_nat i" "optpos g = 0" "0 < i" "i < length es"
    and a: "take 1 (snd (es ! i)) \<noteq> [45]" and as: "as = drop i (List.map snd es)"
  shows "getopt_does T D lu lr argv es (opt_chars fs) g s (opt_next (opt_chars fs) (take 1 fs = [45]) ([], as))
    (getopt T D lu lr (of_nat (length es)) argv optstring g s)"
proof -
  let ?arg = "fst (es ! i)" and ?a = "snd (es ! i)"
  note rd = getopt_reads [OF env i(3,4)]
  have as': "as = ?a # drop (Suc i) (List.map snd es)" using as i(4) by (simp add: Cons_nth_drop_Suc [symmetric])
  have b0: "char_at (cmem s) ?arg 0 \<noteq> Some 45" using rd(5) a by (cases ?a) auto
  obtain f where f: "char_at (cmem s) optstring 0 = Some f" "f = 45 \<longleftrightarrow> take 1 fs = [45]"
    using opt_chars_at [OF fs] by blast
  have "getopt T D lu lr (of_nat (length es)) argv optstring g s =
      (if f = 45 then Some (1, g\<lparr>optarg := ?arg, optind := of_nat (Suc i)\<rparr>, s) else Some (- 1, g, s))"
    using i(1,2) rd(1-5) b0 f(1) by (auto simp: getopt_def Let_def add.commute)
  moreover have "opt_next (opt_chars fs) (take 1 fs = [45]) ([], as) =
      (if f = 45 then (Operand ?a, [], drop (Suc i) (List.map snd es)) else (Finished, [], as))"
    using as' a f(2) by (cases "f = 45") (simp_all add: opt_next_def)
  moreover have "opt_rel es (g\<lparr>optarg := ?arg, optind := of_nat (Suc i)\<rparr>) [] (drop (Suc i) (List.map snd es))"
    "opt_rel es g [] as"
    using i as by (auto intro!: opt_rel_fresh)
  ultimately show ?thesis using env_at_nth [OF env(1) i(4)]
    by (auto simp: getopt_does_def opt_code_def opt_vars_def)
qed

lemma getopt_stop:
  assumes env: "env_at (cmem s) argv es" "length es < 2 ^ 31 - 2"
    and i: "optind g = of_nat i" "optpos g = 0" "0 < i" "i < length es"
    and a: "snd (es ! i) = [45] \<or> snd (es ! i) = [45, 45]" and as: "as = drop i (List.map snd es)"
  shows "getopt_does T D lu lr argv es os g s (opt_next os in_order ([], as))
    (getopt T D lu lr (of_nat (length es)) argv optstring g s)"
proof -
  let ?arg = "fst (es ! i)" and ?a = "snd (es ! i)"
  let ?i = "if ?a = [45] then i else Suc i"
  note rd = getopt_reads [OF env i(3,4)]
  have d45: "(45 :: byte) \<noteq> 0" by code_simp
  have dr: "drop i (List.map snd es) = ?a # drop (Suc i) (List.map snd es)" using i(4) by (simp add: Cons_nth_drop_Suc [symmetric])
  have "getopt T D lu lr (of_nat (length es)) argv optstring g s = Some (- 1, g\<lparr>optind := of_nat ?i\<rparr>, s)"
    using i(1,2) rd d45 a by (auto simp: getopt_def Let_def add.commute)
  moreover have "opt_next os in_order ([], as) = (Finished, [], drop ?i (List.map snd es))"
    using a dr unfolding as by (auto simp: opt_next_def)
  moreover have "opt_rel es (g\<lparr>optind := of_nat ?i\<rparr>) [] (drop ?i (List.map snd es))"
    using i by (intro opt_rel_fresh) auto
  ultimately show ?thesis by (simp add: getopt_does_def opt_code_def opt_vars_def)
qed

text \<open>The character that is complained about is one of the arguments.\<close>

lemma opt_next_char:
  assumes "opt_next os in_order (cs, as) = (res, cs', as')" and "res = Unknown c \<or> res = Missing c"
  shows "c \<in> set cs \<or> (\<exists>a \<in> set as. c \<in> set a)"
proof -
  have char: "d = c" if "opt_char os d ds bs = (res, cs', as')" for d ds bs
    using that assms(2) by (cases bs) (auto simp: opt_char_def Let_def split: if_splits)
  show ?thesis
  proof (cases cs)
    case (Cons d ds)
    then show ?thesis using assms(1) char by (auto simp: opt_next_def)
  next
    case Nil
    then obtain a bs where as: "as = a # bs" using assms by (cases as) (auto simp: opt_next_def)
    then have "take 1 a = [45]" "a \<noteq> [45]" "opt_char os (a ! 1) (drop 2 a) bs = (res, cs', as')"
      using assms Nil by (auto simp: opt_next_def split: if_splits)
    moreover from this have "1 < length a" by (cases a; cases "tl a") auto
    ultimately show ?thesis using char as by auto
  qed
qed

lemma opt_next_char_nonzero:
  assumes "opt_next os in_order (cs, as) = (res, cs', as')" and "res = Unknown c \<or> res = Missing c"
    and g: "opt_rel es g cs as" and env: "env_at m argv es"
  shows "c \<noteq> 0"
proof -
  have "0 \<notin> set (snd (es ! i))" if "i < length es" for i using env_at_nth [OF env that] cstr_nonzero by blast
  then have nz: "\<forall>e \<in> set es. 0 \<notin> set (snd e)" by (metis in_set_conv_nth)
  have "(\<forall>d \<in> set cs. \<exists>e \<in> set es. d \<in> set (snd e)) \<and> set as \<subseteq> set (List.map snd es)"
    using g
  proof (cases rule: opt_rel_cases)
    case (fresh i)
    then show ?thesis using set_drop_subset [of i "List.map snd es"] by simp
  next
    case (cluster i k)
    then show ?thesis using set_drop_subset [of k "snd (es ! i)"] set_drop_subset [of "Suc i" "List.map snd es"]
      by (auto intro!: bexI [of _ "es ! i"])
  qed
  then have "\<exists>e \<in> set es. c \<in> set (snd e)" using opt_next_char [OF assms(1,2)] by auto
  with nz show ?thesis by blast
qed

text \<open>Every call, whatever \<^verbatim>\<open>opterr\<close> is.\<close>

lemma getopt_call:
  assumes env: "env_at (cmem s) argv es" "length es < 2 ^ 31 - 2" "\<forall>e \<in> set es. length (snd e) < 2 ^ 31 - 2"
    and fs: "cstr (cmem s) optstring fs" "length fs < 2 ^ 31 - 2" and g: "opt_rel es g cs as"
  shows "getopt_does T D lu lr argv es (opt_chars fs) g s (opt_next (opt_chars fs) (take 1 fs = [45]) (cs, as))
    (getopt T D lu lr (of_nat (length es)) argv optstring g s)"
  using g
proof (cases rule: opt_rel_cases)
  case (cluster i k)
  have ne: "snd (es ! i) \<noteq> [45]" "snd (es ! i) \<noteq> [45, 45]" using cluster(5,6) by auto
  have "opt_next (opt_chars fs) (take 1 fs = [45]) (cs, as) =
      opt_char (opt_chars fs) (snd (es ! i) ! k) (drop (Suc k) (snd (es ! i))) (drop (Suc i) (List.map snd es))"
    using cluster(6,8,9) by (simp add: opt_next_def Cons_nth_drop_Suc [symmetric])
  then show ?thesis
    using getopt_take [OF env fs cluster(1,3,4) refl cluster(7) ne cluster(2) _ cluster(6), of T D lu lr] cluster(5)
    by simp
next
  case (fresh i)
  consider "\<not> i < length es" | "i < length es" "take 1 (snd (es ! i)) \<noteq> [45]"
    | "i < length es" "snd (es ! i) = [45] \<or> snd (es ! i) = [45, 45]"
    | "i < length es" "take 1 (snd (es ! i)) = [45]" "snd (es ! i) \<noteq> [45]" "snd (es ! i) \<noteq> [45, 45]"
    by blast
  then show ?thesis
  proof cases
    case 1
    then have "as = []" using fresh(6) by simp
    with 1 show ?thesis using getopt_end [OF env(2) _ fresh(1-4) 1] g fresh(5) by simp
  next
    case 2
    then show ?thesis unfolding fresh(5) by (intro getopt_operand [OF env(1,2) fs fresh(1-3) _ _ fresh(6)])
  next
    case 3
    then show ?thesis unfolding fresh(5) by (intro getopt_stop [OF env(1,2) fresh(1-3) _ _ fresh(6)])
  next
    case 4
    let ?a = "snd (es ! i)"
    have l2: "1 < length ?a" using 4 by (cases ?a; cases "tl ?a") auto
    have "as = ?a # drop (Suc i) (List.map snd es)" using fresh(6) 4(1) by (simp add: Cons_nth_drop_Suc [symmetric])
    then have "opt_next (opt_chars fs) (take 1 fs = [45]) (cs, as) =
        opt_char (opt_chars fs) (?a ! 1) (drop (Suc 1) ?a) (drop (Suc i) (List.map snd es))"
      using 4 fresh(5) by (simp add: opt_next_def numeral_2_eq_2)
    then show ?thesis
      using getopt_take [OF env fs fresh(1,3) 4(1) refl 4(2-4) _ _ l2, of 0 T D lu lr] fresh(2) by simp
  qed
qed

end
