(* ===== verification/Messages.thy ===== *)
theory Messages
  imports PrintfFacts
begin

section \<open>Texts that are printed\<close>

text \<open>
  The characters of a text, texts in memory that \<open>printf\<close> does not overwrite, and the messages of
  the library on the error stream.
\<close>

definition chars :: "string \<Rightarrow> byte list" where
  "chars s = List.map of_char s"

lemma length_chars [simp]: "length (chars s) = length s"
  by (simp add: chars_def)

definition text_at :: "stdio_data \<Rightarrow> mem \<Rightarrow> addr \<Rightarrow> byte list \<Rightarrow> bool" where
  "text_at D m p t \<longleftrightarrow> cstr m p t \<and> apart p (Suc (length t)) (tmpbuf D) 21"

lemma text_at_same:
  assumes "text_at D (cmem s) p t" and "same_but (tmpbuf D) 21 s s'"
  shows "text_at D (cmem s') p t"
proof -
  have "bytes_at (cmem s') p (t @ [0]) = bytes_at (cmem s) p (t @ [0])"
    using assms apart_in_range [of p "Suc (length t)" "tmpbuf D" 21]
    by (intro bytes_at_cong) (auto simp: text_at_def same_but_def)
  then show ?thesis using assms(1) by (simp add: text_at_def cstr_iff_bytes del: bytes_at_append)
qed

lemma load64_same:
  assumes "same_but (tmpbuf D) 21 s s'" and "apart p 8 (tmpbuf D) 21"
  shows "load64 (cmem s') p = load64 (cmem s) p"
proof -
  have "load_le (cmem s') p 8 = load_le (cmem s) p 8"
    using assms apart_in_range [OF assms(2)] by (intro load_le_cong) (auto simp: same_but_def)
  then show ?thesis by (simp add: load64_def)
qed

lemma same_but_trans: "same_but p n s s' \<Longrightarrow> same_but p n s' s'' \<Longrightarrow> same_but p n s s''"
  by (simp add: same_but_def)

lemma same_but_self: "same_but p n s s"
  by (simp add: same_but_def)

text \<open>A message that names the program, says something and ends with a character.\<close>

lemma fprintf_name_char:
  assumes w: "writes T (ucast (NOT stream)) out" "stream <s 0" and rdy: "print_ready D (cmem s)"
    and fmt: "text_at D (cmem s) lit ([37, 115] @ lab @ [37, 99, 10])" "0 \<notin> set lab" "37 \<notin> set lab" "length lab < 2 ^ 31"
    and prog: "p0 \<noteq> 0" "text_at D (cmem s) p0 prog" "length prog < 2 ^ 31" and c: "c \<noteq> 0"
  shows "\<exists>s'. fprintf T D stream lit [p0, scast c] s = Some (of_nat (length prog + length lab + 2), s') \<and>
    out (kern s') = out (kern s) @ prog @ lab @ [c, 10] \<and> same_but (tmpbuf D) 21 s s'"
proof -
  let ?ps = "[Str 0 [] p0 prog, Lit lab, Num 0 [] 99 (scast c), Lit [10]]"
  have cc: "(ucast (ucast (ucast (scast c :: i64) :: i32) :: i64) :: byte) = c"
    by (rule bit_word_eqI) (auto simp: bit_simps)
  have nl: "(10 :: byte) \<noteq> 0" "(37 :: byte) \<noteq> 10" by code_simp+
  have f: "concat (List.map piece_fmt ?ps) @ [0] = ([37, 115] @ lab @ [37, 99, 10]) @ [0]" by simp
  have "\<exists>s'. fprintf T D stream lit (concat (List.map piece_args ?ps)) s = Some (of_nat (length (prog @ lab @ [c, 10])), s') \<and>
      out (kern s') = out (kern s) @ (prog @ lab @ [c, 10]) \<and> same_but (tmpbuf D) 21 s s' \<and> print_ready D (cmem s')"
    using fmt prog nl c
    by (intro fprintf_pieces [OF w rdy])
      (simp_all only: f, simp_all add: text_at_def cstr_iff_bytes padded_def conv_text_def num_value_def cc dec_value_def)
  then show ?thesis by (auto simp: add.assoc)
qed

end
