(* ===== verification/GetoptProps.thy ===== *)
theory GetoptProps
  imports GetoptFacts Messages StdioProps Linux
begin

section \<open>Properties of getopt\<close>

text \<open>
  A call with \<^verbatim>\<open>opterr\<close> 0 is one step of the parser on lists; a call with \<^verbatim>\<open>opterr\<close> set also says what is
  wrong.
\<close>

text \<open>
  Property C8. Each call of \<^verbatim>\<open>getopt\<close> with \<^verbatim>\<open>opterr\<close> 0 implements one step of the parser on
  lists: it returns the code of the parser's result, \<^verbatim>\<open>optarg\<close> and \<^verbatim>\<open>optopt\<close> hold the argument or
  the character it names, memory and errno stay as they are, and \<^verbatim>\<open>optind\<close> and \<^verbatim>\<open>__optpos\<close> are
  related to the parser's next state, so that a sequence of calls parses the whole line: clusters,
  attached, separate, optional and missing arguments, unknown options, \<^verbatim>\<open>--\<close>, a lone \<^verbatim>\<open>-\<close>,
  operands, and the end. In particular no call loops or reads outside the texts.
\<close>

theorem getopt_refines_list_parser:
  assumes env: "env_at (cmem s) argv es" "length es < 2 ^ 31 - 2" "\<forall>e \<in> set es. length (snd e) < 2 ^ 31 - 2"
    and fs: "cstr (cmem s) optstring fs" "length fs < 2 ^ 31 - 2" and quiet: "opterr g = 0"
    and g: "opt_rel es g cs as"
    and r: "opt_next (opt_chars fs) (take 1 fs = [45]) (cs, as) = (res, cs', as')"
  shows "\<exists>g'. getopt T D lu lr (of_nat (length es)) argv optstring g s =
      Some (opt_code (opt_chars fs) res, g', s) \<and> opt_rel es g' cs' as' \<and> opterr g' = 0 \<and>
      opt_vars (cmem s) g' res"
  using getopt_call [OF env fs g, of T D lu lr] r quiet by (auto simp: getopt_does_def opt_report_def)

theorem getopt_refines_list_parser_witness:
  "\<exists>m. \<forall>D. \<exists>g'. getopt (x86_linux no_kernel) D 0 0 2 1000 30 \<lparr>optarg = 0, optind = 1, opterr = 0, optopt = 0, optpos = 0\<rparr>
     (process m ()) = Some (97, g', process m ()) \<and> optpos g' = 2"
proof -
  let ?g = "\<lparr>optarg = 0, optind = 1, opterr = 0, optopt = 0, optpos = 0\<rparr>"
  let ?es = "[(10, [112]), (20, [45, 97, 98])] :: (addr \<times> byte list) list"
  define m :: mem where "m = poke (poke (poke [10 \<mapsto> 112, 11 \<mapsto> 0, 20 \<mapsto> 45, 21 \<mapsto> 97, 22 \<mapsto> 98, 23 \<mapsto> 0,
    30 \<mapsto> 97, 31 \<mapsto> 98, 32 \<mapsto> 58, 33 \<mapsto> 0] 1000 (le_bytes 8 10)) 1008 (le_bytes 8 20)) 1016 (le_bytes 8 0)"
  have "load_le m 1000 8 = Some 10" "load_le m 1008 8 = Some 20" "load_le m 1016 8 = Some 0"
    unfolding m_def by code_simp+
  then have "env_at m 1000 ?es" by (simp add: load64_def m_def poke_outside in_range_def)
  moreover have "cstr m 30 [97, 98, 58]" by (simp add: m_def poke_outside in_range_def)
  moreover have "opt_next (opt_chars [97, 98, 58]) False ([], [[45, 97, 98]]) = (Flag 97, [98], [])" by code_simp
  moreover have "opt_rel ?es ?g [] [[45, 97, 98]]" using opt_rel_start [of ?g ?es] by simp
  ultimately have *: "\<exists>g'. getopt (x86_linux no_kernel) D 0 0 (of_nat (length ?es)) 1000 30 ?g (process m ()) =
      Some (opt_code (opt_chars [97, 98, 58]) (Flag 97), g', process m ()) \<and> opt_rel ?es g' [98] [] \<and>
      opterr g' = 0 \<and> opt_vars (cmem (process m ())) g' (Flag 97)" for D
    by (intro getopt_refines_list_parser [where fs = "[97, 98, 58]"]) simp_all
  have "optpos g' = 2" if "opt_rel ?es g' [98] []" for g'
    using that
  proof (cases rule: opt_rel_cases)
    case (cluster i k)
    then have "k = 2" by (cases i) auto
    then show ?thesis using cluster(2) by simp
  qed simp
  then have "\<exists>g'. getopt (x86_linux no_kernel) D 0 0 2 1000 30 ?g (process m ()) = Some (97, g', process m ()) \<and>
      optpos g' = 2" for D
    using * [of D] by (auto simp: opt_code_def)
  then show ?thesis by blast
qed

text \<open>
  Property C15. With \<^verbatim>\<open>opterr\<close> set, a call that meets an unknown option or misses an argument prints
  the name of the program, what is wrong and the option character on the error stream, returns \<^verbatim>\<open>?\<close>
  and sets \<^verbatim>\<open>optopt\<close>, and the parser goes on behind the option; memory other than the buffer of
  \<open>printf\<close> and errno stay as they are. When the option text starts with a colon the call writes nothing
  and changes nothing in the process, and a missing argument gives \<^verbatim>\<open>:\<close> instead of \<^verbatim>\<open>?\<close>.
\<close>

theorem getopt_complains:
  fixes out :: "'w \<Rightarrow> byte list"
  assumes env: "env_at (cmem s) argv es" "length es < 2 ^ 31 - 2" "\<forall>e \<in> set es. length (snd e) < 2 ^ 31 - 2"
    and fs: "cstr (cmem s) optstring fs" "length fs < 2 ^ 31 - 2" and loud: "opterr g \<noteq> 0"
    and colon: "colon \<longleftrightarrow> take 1 (opt_chars fs) = [58]"
    and g: "opt_rel es g cs as"
    and r: "opt_next (opt_chars fs) (take 1 fs = [45]) (cs, as) = (res, cs', as')"
    and bad: "res = Unknown c \<and> what = chars '': unrecognized option: '' \<or>
      res = Missing c \<and> what = chars '': option requires argument: ''"
    and prog: "es ! 0 = (p0, prog)" "es \<noteq> []" "text_at D (cmem s) p0 prog"
    and w: "writes T 2 out" and rdy: "print_ready D (cmem s)"
    and lits: "text_at D (cmem s) lu (chars ''%s: unrecognized option: %c'' @ [10])"
      "text_at D (cmem s) lr (chars ''%s: option requires argument: %c'' @ [10])"
  shows "\<exists>g' s'. getopt T D lu lr (of_nat (length es)) argv optstring g s =
      Some (if colon \<and> res = Missing c then 58 else 63, g', s') \<and>
    optopt g' = scast c \<and> opt_rel es g' cs' as' \<and> opterr g' = opterr g \<and>
    (if colon then s' = s
     else out (kern s') = out (kern s) @ prog @ what @ [c, 10] \<and> same_but (tmpbuf D) 21 s s')"
proof (cases colon)
  case True
  then have "opt_report T D lu lr argv (opt_chars fs) g res s = Some s" using colon by (simp add: opt_report_def)
  then obtain g' where "getopt T D lu lr (of_nat (length es)) argv optstring g s = Some (opt_code (opt_chars fs) res, g', s)"
    "opt_rel es g' cs' as'" "opterr g' = opterr g" "opt_vars (cmem s) g' res"
    using getopt_call [OF env fs g, of T D lu lr] r by (auto simp: getopt_does_def)
  with True colon bad show ?thesis by (auto simp: opt_code_def opt_vars_def)
next
  case False
  have c: "c \<noteq> 0" using opt_next_char_nonzero [OF r _ g env(1)] bad by blast
  have err: "(ucast (NOT stderr) :: i32) = 2" "stderr <s 0" by code_simp+
  define lit where "lit = (case res of Unknown c \<Rightarrow> lu | _ \<Rightarrow> lr)"
  have p0: "arg_at (cmem s) argv 0 = Some p0" "p0 \<noteq> 0" "length prog < 2 ^ 31"
    using arg_at_nth [OF env(1), of 0] env_at_nth [OF env(1), of 0] env(3) prog(1,2) nth_mem [of 0 es] by force+
  have fm: "chars ''%s: unrecognized option: %c'' @ [10] = [37, 115] @ chars '': unrecognized option: '' @ [37, 99, 10]"
    "chars ''%s: option requires argument: %c'' @ [10] = [37, 115] @ chars '': option requires argument: '' @ [37, 99, 10]"
    by code_simp+
  have "0 \<notin> set (chars '': unrecognized option: '')" "37 \<notin> set (chars '': unrecognized option: '')"
    "0 \<notin> set (chars '': option requires argument: '')" "37 \<notin> set (chars '': option requires argument: '')"
    by code_simp+
  then have what: "0 \<notin> set what" "37 \<notin> set what" "length what < 2 ^ 31" using bad by auto
  have lit: "text_at D (cmem s) lit ([37, 115] @ what @ [37, 99, 10])"
    using lits bad unfolding fm by (auto simp: lit_def)
  obtain s' where s': "fprintf T D stderr lit [p0, scast c] s = Some (of_nat (length prog + length what + 2), s')"
    "out (kern s') = out (kern s) @ prog @ what @ [c, 10]" "same_but (tmpbuf D) 21 s s'"
    using fprintf_name_char [OF _ err(2) rdy lit what p0(2) prog(3) p0(3) c, of T out] w err(1) by auto
  have "opt_report T D lu lr argv (opt_chars fs) g res s = Some s'"
    using loud False colon bad s'(1) p0(1) by (auto simp: opt_report_def complain_def lit_def)
  then obtain g' where "getopt T D lu lr (of_nat (length es)) argv optstring g s = Some (opt_code (opt_chars fs) res, g', s')"
    "opt_rel es g' cs' as'" "opterr g' = opterr g" "opt_vars (cmem s) g' res"
    using getopt_call [OF env fs g, of T D lu lr] r by (auto simp: getopt_does_def)
  with s' bad False colon show ?thesis by (auto simp: opt_code_def opt_vars_def)
qed

definition complaint_bytes :: "byte list" where
  "complaint_bytes = concat (List.map (le_bytes 8) [4120, 4122, 0]) @ chars ''p'' @ [0] @ chars ''-x'' @ [0] @ chars ''ab:'' @ [0] @
     chars ''%s: unrecognized option: %c'' @ [10, 0] @ chars ''%s: option requires argument: %c'' @ [10, 0]"

definition complaint_mem :: mem where
  "complaint_mem = poke ((\<lambda>_. Some 7)(80 \<mapsto> 32)) 4096 complaint_bytes"

lemma complaint_image:
  "env_at complaint_mem 4096 [(4120, chars ''p''), (4122, chars ''-x'')]" "cstr complaint_mem 4125 (chars ''ab:'')"
  "text_at demo_data complaint_mem 4120 (chars ''p'')" "print_ready demo_data complaint_mem"
  "text_at demo_data complaint_mem 4129 (chars ''%s: unrecognized option: %c'' @ [10])"
  "text_at demo_data complaint_mem 4158 (chars ''%s: option requires argument: %c'' @ [10])"
proof -
  have len: "length complaint_bytes = 96" by (simp add: complaint_bytes_def)
  have "bytes_at complaint_mem 4096 complaint_bytes"
    unfolding complaint_mem_def by (rule bytes_at_poke_self) (simp add: len)
  note b = this [unfolded complaint_bytes_def, simplified]
  have "bytes_at complaint_mem 4096 (le_bytes 8 4120)" "bytes_at complaint_mem 4104 (le_bytes 8 4122)"
    "bytes_at complaint_mem 4112 (le_bytes 8 0)"
    using b by blast+
  then have ld: "load_le complaint_mem 4096 8 = Some 4120" "load_le complaint_mem 4104 8 = Some 4122"
    "load_le complaint_mem 4112 8 = Some 0"
    by (simp_all add: load_le_bytes)
  have nz: "\<forall>s \<in> set [''p'', ''-x'', ''ab:'', ''%s: unrecognized option: %c'', ''%s: option requires argument: %c''].
      0 \<notin> set (chars s)"
    by code_simp
  have nl: "(10 :: byte) \<noteq> 0" by code_simp
  show "env_at complaint_mem 4096 [(4120, chars ''p''), (4122, chars ''-x'')]" "cstr complaint_mem 4125 (chars ''ab:'')"
    "text_at demo_data complaint_mem 4120 (chars ''p'')"
    "text_at demo_data complaint_mem 4129 (chars ''%s: unrecognized option: %c'' @ [10])"
    "text_at demo_data complaint_mem 4158 (chars ''%s: option requires argument: %c'' @ [10])"
    using b ld nz nl by (simp_all add: load64_def text_at_def cstr_iff_bytes demo_data_def apart_def)
  have "mapped complaint_mem 20 21" unfolding complaint_mem_def by (intro mapped_poke mapped_update mapped_total)
  then show "print_ready demo_data complaint_mem"
    by (simp add: print_ready_def demo_data_def complaint_mem_def apart_def poke_outside in_range_def len)
qed

theorem getopt_complains_witness:
  "\<exists>g' s'. getopt (x86_linux tty_kernel) demo_data 4129 4158 2 4096 4125
       \<lparr>optarg = 0, optind = 1, opterr = 1, optopt = 0, optpos = 0\<rparr> (process complaint_mem ([], [])) = Some (63, g', s') \<and>
     optopt g' = 120 \<and> snd (kern s') = chars ''p: unrecognized option: x'' @ [10]"
proof -
  let ?g = "\<lparr>optarg = 0, optind = 1, opterr = 1, optopt = 0, optpos = 0\<rparr>"
  let ?es = "[(4120, chars ''p''), (4122, chars ''-x'')] :: (addr \<times> byte list) list"
  have n: "opt_next (opt_chars (chars ''ab:'')) (take 1 (chars ''ab:'') = [45]) ([], [chars ''-x'']) = (Unknown 120, [], [])"
    "take 1 (opt_chars (chars ''ab:'')) \<noteq> [58]" "(scast (120 :: byte) :: i32) = 120"
    "chars ''p'' @ chars '': unrecognized option: '' @ [120, 10] = chars ''p: unrecognized option: x'' @ [10]"
    by code_simp+
  have "opt_rel ?es ?g [] [chars ''-x'']" using opt_rel_start [of ?g ?es] by simp
  then have "\<exists>g' s'. getopt (x86_linux tty_kernel) demo_data 4129 4158 (of_nat (length ?es)) 4096 4125 ?g (process complaint_mem ([], [])) =
      Some (if False \<and> Unknown 120 = Missing 120 then 58 else 63, g', s') \<and> optopt g' = scast (120 :: byte) \<and> opt_rel ?es g' [] [] \<and> opterr g' = opterr ?g \<and>
      (if False then s' = process complaint_mem ([], [])
       else snd (kern s') = snd (kern (process complaint_mem ([] :: byte list, [] :: byte list))) @ chars ''p'' @ chars '': unrecognized option: '' @ [120, 10] \<and>
         same_but (tmpbuf demo_data) 21 (process complaint_mem ([], [])) s')"
    using complaint_image n(1,2)
    by (intro getopt_complains [where fs = "chars ''ab:''" and ?p0.0 = 4120, OF _ _ _ _ _ _ _ _ n(1) _ _ _ _ tty_writes]) auto
  then show ?thesis using n(3,4) by auto
qed

end
