(* ===== verification/Scanf.thy ===== *)
theory Scanf
  imports Printf
begin

section \<open>stdio.h: vsscanf\<close>

text \<open>
  \<open>lit\<close> below is the character of the pattern after \<^verbatim>\<open>%\<close> and the length prefix.
  \<open>ep\<close> is the address of the local \<^verbatim>\<open>endptr\<close>. A pointer argument is one slot.
\<close>

record 'w scanf_vars =
  sv_format :: addr
  sv_str :: addr
  sv_matches :: i32
  sv_args :: "i64 list"
  sv_state :: "'w cstate"

text \<open>The length prefix: the number of \<^verbatim>\<open>l\<close> (at most 2) and the next position.\<close>

definition scanf_prefix :: "mem \<Rightarrow> addr \<Rightarrow> (nat \<times> addr) option" where
  "scanf_prefix m format = do {
     c \<leftarrow> load m format;
     if c = 108
     then do {
       c \<leftarrow> load m (format + 1);
       if c = 108 then Some (2, format + 2) else Some (1, format + 1) }
     else Some (0, format) }"

text \<open>The store through the pointer argument, at the width of the length prefix.\<close>

definition scanf_store :: "nat \<Rightarrow> addr \<Rightarrow> i64 \<Rightarrow> 'w cstate \<Rightarrow> 'w cstate option" where
  "scanf_store lpref p v s = (if lpref = 0 then cstore32 p (ucast v) s else cstore64 p v s)"

text \<open>A conversion: the number read and stored, \<open>None\<close> if the pattern is not supported.\<close>

definition scanf_conv ::
  "'w target \<Rightarrow> addr \<Rightarrow> byte \<Rightarrow> nat \<Rightarrow> addr \<Rightarrow> i64 list \<Rightarrow> 'w cstate
     \<Rightarrow> (bool \<times> i64 list \<times> 'w cstate) option" where
  "scanf_conv T ep lit lpref str args s =
     (if lit = 100
      then do {
        (v, s) \<leftarrow> strtoll T str ep 10 s;
        (p, args) \<leftarrow> va_long args;
        s \<leftarrow> scanf_store lpref p v s;
        Some (True, args, s) }
      else if lit = 117 \<or> lit = 120 \<or> lit = 88
      then do {
        (v, s) \<leftarrow> strtoull T str ep (if lit = 117 then 10 else 16) s;
        (p, args) \<leftarrow> va_long args;
        s \<leftarrow> scanf_store lpref p v s;
        Some (True, args, s) }
      else if lit = 112
      then do {
        (p, args) \<leftarrow> va_long args;
        (v, s) \<leftarrow> strtoul T str ep 16 s;
        s \<leftarrow> cstore64 p v s;
        Some (True, args, s) }
      else Some (False, args, SET_ERRNO (EILSEQ T) s))"

text \<open>One turn of the loop; the first component says that \<^verbatim>\<open>done\<close> is reached.\<close>

definition scanf_turn ::
  "'w target \<Rightarrow> addr \<Rightarrow> 'w scanf_vars \<Rightarrow> (bool \<times> 'w scanf_vars) option" where
  "scanf_turn T ep v = do {
     let m = cmem (sv_state v);
     f \<leftarrow> load m (sv_format v);
     if f = 37
     then do {
       (lpref, format) \<leftarrow> scanf_prefix m (sv_format v + 1);
       lit \<leftarrow> load m format;
       if lit = 37
       then do {
         c \<leftarrow> load m (sv_str v);
         if c \<noteq> 37 then Some (True, v)
         else Some (False, v\<lparr>sv_format := format + 1, sv_str := sv_str v + 1\<rparr>) }
       else do {
         (ok, args, s) \<leftarrow> scanf_conv T ep lit lpref (sv_str v) (sv_args v) (sv_state v);
         if \<not> ok then Some (True, v\<lparr>sv_state := s\<rparr>)
         else do {
           str \<leftarrow> cload64 ep s;
           Some (False, v\<lparr>sv_format := format + 1, sv_str := str,
             sv_matches := sv_matches v + 1, sv_args := args, sv_state := s\<rparr>) } } }
     else if f = 0 then Some (True, v)
     else if isspace (scast f) \<noteq> 0
     then do {
       format \<leftarrow> strtox_space m (sv_format v);
       str \<leftarrow> strtox_space m (sv_str v);
       Some (False, v\<lparr>sv_format := format, sv_str := str\<rparr>) }
     else do {
       c \<leftarrow> load m (sv_str v);
       if f = c then Some (False, v\<lparr>sv_format := sv_format v + 1, sv_str := sv_str v + 1\<rparr>)
       else Some (True, if sv_matches v = 0 then v\<lparr>sv_matches := - 1\<rparr> else v) } }"

partial_function (option) scanf_loop ::
  "'w target \<Rightarrow> addr \<Rightarrow> 'w scanf_vars \<Rightarrow> (i32 \<times> 'w cstate) option" where
  "scanf_loop T ep v = do {
     (fin, v) \<leftarrow> scanf_turn T ep v;
     if fin then Some (sv_matches v, sv_state v) else scanf_loop T ep v }"

definition vsscanf ::
  "'w target \<Rightarrow> addr \<Rightarrow> addr \<Rightarrow> addr \<Rightarrow> i64 list \<Rightarrow> 'w cstate \<Rightarrow> (i32 \<times> 'w cstate) option" where
  "vsscanf T ep str format args s = scanf_loop T ep
     \<lparr>sv_format = format, sv_str = str, sv_matches = 0, sv_args = args, sv_state = s\<rparr>"

definition sscanf ::
  "'w target \<Rightarrow> addr \<Rightarrow> addr \<Rightarrow> addr \<Rightarrow> i64 list \<Rightarrow> 'w cstate \<Rightarrow> (i32 \<times> 'w cstate) option" where
  "sscanf T ep str format args = vsscanf T ep str format args"

end
