(* ===== verification/ScanfProps.thy ===== *)
theory ScanfProps
  imports Scanf StrtoFacts StreamFacts Linux
begin

section \<open>sscanf as a scanner of lists\<close>

text \<open>
  What \<^verbatim>\<open>sscanf\<close> computes, on lists of characters. \<open>scan fs xs n\<close> scans the text \<open>xs\<close> under the
  format \<open>fs\<close> after \<open>n\<close> conversions: the result, the numbers to store, and whether the format has a
  conversion that is not supported. A number is its width in bytes, whether the conversion is signed,
  the sign in the text and the magnitude, which \<open>strto_ref\<close> reads. \<open>scan_fits\<close> is the range of
  the conversion. \<open>scan_room\<close> says that format and text are strings and that the areas written are
  mapped and apart from them and from each other.
\<close>

type_synonym scanned = "nat \<times> bool \<times> bool \<times> nat"

fun scan_prefix :: "byte list \<Rightarrow> nat \<times> byte list" where
  "scan_prefix (c # d # fs) = (if c = 108 then (8, if d = 108 then fs else d # fs) else (4, c # d # fs))"
| "scan_prefix [c] = (if c = 108 then (8, []) else (4, [c]))"
| "scan_prefix [] = (4, [])"

definition scan_type :: "byte \<Rightarrow> nat \<Rightarrow> (nat \<times> bool \<times> nat) option" where
  "scan_type c w =
     (if c = 100 then Some (10, True, w) else if c = 117 then Some (10, False, w)
      else if c = 120 \<or> c = 88 then Some (16, False, w) else if c = 112 then Some (16, False, 8) else None)"

lemma length_scan_prefix: "length (snd (scan_prefix fs)) \<le> length fs"
  by (induction fs rule: scan_prefix.induct) auto

lemma scan_prefix_shorter: "(w, c # cs) = scan_prefix fs \<Longrightarrow> length cs \<le> length fs"
  using length_scan_prefix [of fs] by (auto dest: arg_cong [where f = "\<lambda>p. length (snd p)"])

function scan :: "byte list \<Rightarrow> byte list \<Rightarrow> nat \<Rightarrow> int \<times> scanned list \<times> bool" where
  "scan [] xs n = (int n, [], False)"
| "scan (f # fs) xs n =
     (if f = 37
      then (case scan_prefix fs of
          (w, []) \<Rightarrow> (int n, [], True)
        | (w, c # fs) \<Rightarrow>
            if c = 37 then if take 1 xs = [37] then scan fs (drop 1 xs) n else (int n, [], False)
            else (case scan_type c w of
                None \<Rightarrow> (int n, [], True)
              | Some (base, sg, w) \<Rightarrow>
                  let (neg, b, ds, k) = strto_ref base xs; (r, outs, bad) = scan fs (drop k xs) (Suc n) in
                  (r, (w, sg, neg, num_value b ds) # outs, bad)))
      else if is_space f then scan (dropWhile is_space fs) (dropWhile is_space xs) n
      else if take 1 xs = [f] then scan fs (drop 1 xs) n
      else (if n = 0 then - 1 else int n, [], False))"
  by pat_completeness auto
termination
  by (relation "measure (\<lambda>(fs, _). length fs)")
    (auto simp: less_Suc_eq_le length_dropWhile_le intro: scan_prefix_shorter)

definition scan_fits :: "scanned \<Rightarrow> bool" where
  "scan_fits = (\<lambda>(w, sg, neg, v). v \<le> (if sg then if neg then 2 ^ 63 else 2 ^ 63 - 1 else 2 ^ 64 - 1))"

definition scan_value :: "scanned \<Rightarrow> i64" where
  "scan_value = (\<lambda>(w, sg, neg, v). if neg then - of_nat v else of_nat v)"

definition scan_room ::
  "mem \<Rightarrow> addr \<Rightarrow> byte list \<Rightarrow> addr \<Rightarrow> byte list \<Rightarrow> (addr \<times> nat) list \<Rightarrow> bool" where
  "scan_room m f fs x xs areas \<longleftrightarrow>
     cstr m f fs \<and> cstr m x xs \<and> sorted_wrt (\<lambda>(p, n) (q, k). apart p n q k) areas \<and>
     (\<forall>(q, w) \<in> set areas. mapped m q w \<and>
        apart q w f (Suc (length fs)) \<and> apart q w x (Suc (length xs)))"

subsection \<open>Conversions\<close>

lemma scan_store:
  assumes "mapped (cmem s) p (if lpref = 0 then 4 else 8)"
  shows "scanf_store lpref p v s =
    Some (s\<lparr>cmem := poke (cmem s) p (le_bytes (if lpref = 0 then 4 else 8) (unat v))\<rparr>)"
proof -
  have "le_bytes 4 (unat (ucast v :: i32)) = le_bytes 4 (unat v)"
    using le_bytes_mod [of 4 "unat v"] by (simp add: unsigned_ucast_eq take_bit_eq_mod)
  then show ?thesis
    using assms by (cases "lpref = 0") (simp_all add: scanf_store_def cstore32_def cstore64_def store32_eq store64_eq)
qed

lemma strtox_fits:
  assumes c: "cstr (cmem s) p xs" and base: "base \<le> 36" and ref: "strto_ref base xs = (neg, b, ds, n)"
    and fits: "scan_fits (w, sg, neg, num_value b ds)"
    and lim: "lower = (if sg then LONG_MIN else 0)" "upper = (if sg then LONG_MAX else ULONG_MAX)"
    and ep: "ep \<noteq> 0" "mapped (cmem s) ep 8"
  shows "strtox T p ep (of_nat base) lower upper s =
    Some (scan_value (w, sg, neg, num_value b ds),
      s\<lparr>cmem := poke (cmem s) ep (le_bytes 8 (unat (p + of_nat n)))\<rparr>)"
proof -
  have "num_value b ds \<le> unat (if lower \<noteq> 0 \<and> neg then - lower else upper)"
    using fits unfolding lim scan_fits_def LONG_MIN_def LONG_MAX_def ULONG_MAX_def
    by (cases sg; cases neg) simp_all
  from strtox_exact [OF c base ref this, of T ep] show ?thesis
    using ep by (simp add: cstore64_def store64_eq scan_value_def)
qed

lemma scanf_conv_eq:
  assumes c: "cstr (cmem s) str xs" and ty: "scan_type c (if lpref = 0 then 4 else 8) = Some (base, sg, w)"
    and ref: "strto_ref base xs = (neg, b, ds, k)" and fits: "scan_fits (w, sg, neg, num_value b ds)"
    and ep: "ep \<noteq> 0" "mapped (cmem s) ep 8" and p: "mapped (cmem s) p w"
  shows "scanf_conv T ep c lpref str (p # args) s = Some (True, args,
    s\<lparr>cmem := poke (poke (cmem s) ep (le_bytes 8 (unat (str + of_nat k)))) p
      (le_bytes w (unat (scan_value (w, sg, neg, num_value b ds))))\<rparr>)"
proof -
  have base: "base \<le> 36" using ty by (auto simp: scan_type_def split: if_splits)
  have ne: "(100 :: byte) \<noteq> 117" "(100 :: byte) \<noteq> 120" "(100 :: byte) \<noteq> 88" "(117 :: byte) \<noteq> 120"
    "(117 :: byte) \<noteq> 88" "(112 :: byte) \<noteq> 100" "(112 :: byte) \<noteq> 117" "(112 :: byte) \<noteq> 120" "(112 :: byte) \<noteq> 88"
    "(120 :: byte) \<noteq> 100" "(88 :: byte) \<noteq> 100" "(117 :: byte) \<noteq> 100"
    by code_simp+
  note st = strtox_fits [OF c base ref fits refl refl ep, of T]
  from ty consider "c = 100" "base = 10" "sg" "w = (if lpref = 0 then 4 else 8)"
    | "c = 117" "base = 10" "\<not> sg" "w = (if lpref = 0 then 4 else 8)"
    | "c = 120 \<or> c = 88" "base = 16" "\<not> sg" "w = (if lpref = 0 then 4 else 8)"
    | "c = 112" "base = 16" "\<not> sg" "w = 8"
    by (auto simp: scan_type_def split: if_splits)
  then show ?thesis
  proof cases
    case 1
    then show ?thesis using st p ne by (simp add: scanf_conv_def strtoll_def scan_store)
  next
    case 2
    then show ?thesis using st p ne by (simp add: scanf_conv_def strtoull_def scan_store)
  next
    case 3
    then show ?thesis using st p ne by (auto simp add: scanf_conv_def strtoull_def scan_store)
  next
    case 4
    then show ?thesis using st p ne by (simp add: scanf_conv_def strtoul_def cstore64_def store64_eq)
  qed
qed

lemma scan_prefix_eq:
  assumes "cstr m p fs" and "scan_prefix fs = (w, gs)"
  shows "\<exists>l k. scanf_prefix m p = Some (l, p + of_nat k) \<and> w = (if l = 0 then 4 else 8) \<and> k \<le> length fs \<and> gs = drop k fs"
  using assms
proof (induction fs rule: scan_prefix.induct)
  case (1 c d fs)
  then show ?case
    by (auto simp: scanf_prefix_def split: if_splits intro: exI [of _ "2 :: nat"] exI [of _ "1 :: nat"] exI [of _ "0 :: nat"])
next
  case (2 c)
  then show ?case
    by (auto simp: scanf_prefix_def split: if_splits intro: exI [of _ "1 :: nat"] exI [of _ "0 :: nat"])
next
  case 3
  then show ?case by (auto simp: scanf_prefix_def)
qed

subsection \<open>The loop\<close>

lemma scan_room_drop:
  assumes "scan_room m f fs x xs areas" and "i \<le> length fs" and "j \<le> length xs"
  shows "scan_room m (f + of_nat i) (drop i fs) (x + of_nat j) (drop j xs) areas"
proof -
  have c: "cstr m f fs" "cstr m x xs" using assms(1) by (simp_all add: scan_room_def)
  have "apart q w (p + of_nat k) (Suc (length (drop k ys)))"
    if "apart q w p (Suc (length ys))" and "k \<le> length ys" and "cstr m p ys" for q w p k ys
    using that cstr_length [OF that(3)] apart_part [OF apart_sym [OF that(1)], of k "Suc (length (drop k ys))"]
    by (auto intro: apart_sym)
  then show ?thesis
    using assms c cstr_next [OF c(1) assms(2)] cstr_next [OF c(2) assms(3)]
    by (auto simp: scan_room_def simp del: length_drop)
qed

lemma scan_room_poke:
  assumes "scan_room m f fs x xs areas" and "(q, length ys) \<in> set areas"
  shows "scan_room (poke m q ys) f fs x xs areas"
  using assms by (auto simp: scan_room_def cstr_poke_apart)

lemma scan_room_areas:
  "scan_room m f fs x xs (a # b # areas) \<Longrightarrow> scan_room m f fs x xs (a # areas)"
  by (simp add: scan_room_def)

lemma scan_room_fst: "scan_room m f fs x xs areas \<Longrightarrow> cstr m f fs \<and> cstr m x xs"
  by (simp add: scan_room_def)

definition scanned_into ::
  "'w target \<Rightarrow> addr \<Rightarrow> 'w scanf_vars \<Rightarrow> int \<Rightarrow> scanned list \<Rightarrow> bool \<Rightarrow> bool" where
  "scanned_into T ep v r outs bad \<longleftrightarrow>
     (\<exists>m'. scanf_loop T ep v =
        Some (of_int r, (sv_state v)\<lparr>cmem := m', errno := if bad then EILSEQ T else errno (sv_state v)\<rparr>) \<and>
      list_all2 (\<lambda>p o'. bytes_at m' p (le_bytes (fst o') (unat (scan_value o')))) (take (length outs) (sv_args v)) outs \<and>
      (\<forall>a. (\<forall>(q, w) \<in> set ((ep, 8) # zip (sv_args v) (List.map fst outs)). \<not> in_range q w a) \<longrightarrow>
        m' a = cmem (sv_state v) a))"

lemma scanned_end:
  assumes "scanf_turn T ep v = Some (True, v')" and "sv_matches v' = of_int r"
    and "sv_state v' = (sv_state v)\<lparr>errno := if bad then EILSEQ T else errno (sv_state v)\<rparr>"
  shows "scanned_into T ep v r [] bad"
  unfolding scanned_into_def using assms
  by (subst scanf_loop.simps) (auto intro!: exI [of _ "cmem (sv_state v)"])

lemma scanned_step:
  assumes "scanf_turn T ep v = Some (False, v')" and "sv_state v' = sv_state v" and "sv_args v' = sv_args v"
    and "scanned_into T ep v' r outs bad"
  shows "scanned_into T ep v r outs bad"
  using assms(4) unfolding scanned_into_def assms(2,3)
  by (subst scanf_loop.simps) (simp add: assms(1))

lemma scanned_store:
  assumes turn: "scanf_turn T ep v = Some (False, v')"
    and v: "sv_args v = p # sv_args v'"
    and s: "sv_state v' = (sv_state v)\<lparr>cmem := poke (poke (cmem (sv_state v)) ep ys) p (le_bytes (fst w) (unat (scan_value w)))\<rparr>"
    and ys: "length ys = 8" and w: "fst w \<le> 8"
    and ap: "sorted_wrt (\<lambda>(p, n) (q, k). apart p n q k) ((ep, 8) # (p, fst w) # zip (sv_args v') (List.map fst outs))"
    and rest: "scanned_into T ep v' r outs bad"
  shows "scanned_into T ep v r (w # outs) bad"
proof -
  from rest obtain m' where m': "scanf_loop T ep v' =
        Some (of_int r, (sv_state v')\<lparr>cmem := m', errno := if bad then EILSEQ T else errno (sv_state v')\<rparr>)"
      "list_all2 (\<lambda>p o'. bytes_at m' p (le_bytes (fst o') (unat (scan_value o')))) (take (length outs) (sv_args v')) outs"
      "\<And>a. (\<forall>(q, w) \<in> set ((ep, 8) # zip (sv_args v') (List.map fst outs)). \<not> in_range q w a) \<Longrightarrow>
        m' a = cmem (sv_state v') a"
    unfolding scanned_into_def by blast
  have far: "m' a = cmem (sv_state v') a" if "in_range p (fst w) a" for a
  proof (rule m'(3), safe)
    fix q k assume "(q, k) \<in> set ((ep, 8) # zip (sv_args v') (List.map fst outs))" and r: "in_range q k a"
    then have "apart p (fst w) q k" using ap by (auto intro: apart_sym)
    then show False using apart_in_range that r by blast
  qed
  have "bytes_at m' p (le_bytes (fst w) (unat (scan_value w)))"
  proof -
    have "bytes_at m' p (le_bytes (fst w) (unat (scan_value w))) =
        bytes_at (cmem (sv_state v')) p (le_bytes (fst w) (unat (scan_value w)))"
      by (rule bytes_at_cong) (simp add: far)
    also have "\<dots>" unfolding s using w by (simp add: bytes_at_poke_self)
    finally show ?thesis .
  qed
  moreover have "m' a = cmem (sv_state v) a"
    if "\<forall>(q, w) \<in> set ((ep, 8) # zip (sv_args v) (List.map fst (w # outs))). \<not> in_range q w a" for a
    using that m'(3) [of a] ys by (simp add: s v poke_outside)
  moreover have "scanf_loop T ep v = scanf_loop T ep v'"
    by (subst scanf_loop.simps) (simp add: turn)
  ultimately show ?thesis
    unfolding scanned_into_def using m'(1,2) by (intro exI [of _ m']) (auto simp: s v)
qed

lemma scan_type_width: "scan_type c w = Some (b, sg, w') \<Longrightarrow> w \<le> 8 \<Longrightarrow> w' \<le> 8"
  by (auto simp: scan_type_def split: if_splits)

text \<open>A directive that stores a number: the state after its turn.\<close>

lemma scanf_turn_number:
  assumes room: "scan_room (cmem s) f (37 # fs) x xs ((ep, 8) # (p, w') # areas)"
    and gs: "scan_prefix fs = (w, a # cs)" "a \<noteq> 37" and ty: "scan_type a w = Some (base, sg, w')"
    and ref: "strto_ref base xs = (neg, b, ds, j)"
    and fits: "scan_fits (w', sg, neg, num_value b ds)" and ep: "ep \<noteq> 0"
  obtains k s' where
    "scanf_turn T ep \<lparr>sv_format = f, sv_str = x, sv_matches = of_nat n, sv_args = p # args, sv_state = s\<rparr> =
      Some (False, \<lparr>sv_format = f + of_nat k, sv_str = x + of_nat j, sv_matches = of_nat (Suc n), sv_args = args,
        sv_state = s'\<rparr>)"
    "s' = s\<lparr>cmem := poke (poke (cmem s) ep (le_bytes 8 (unat (x + of_nat j)))) p
        (le_bytes w' (unat (scan_value (w', sg, neg, num_value b ds))))\<rparr>"
    "scan_room (cmem s') (f + of_nat k) cs (x + of_nat j) (drop j xs) ((ep, 8) # areas)" "w' \<le> 8"
    "length cs \<le> length fs"
proof -
  have str: "cstr (cmem s) x xs" "cmem s f = Some 37" "cstr (cmem s) (f + 1) fs"
    using scan_room_fst [OF room] by auto
  obtain l k where l: "scanf_prefix (cmem s) (f + 1) = Some (l, f + 1 + of_nat k)"
    "w = (if l = 0 then 4 else 8)" "k \<le> length fs" "a # cs = drop k fs"
    using scan_prefix_eq [OF str(3) gs(1)] by blast
  have a: "cmem s (f + 1 + of_nat k) = Some a" using cstr_next [OF str(3) l(3)] by (simp flip: l(4))
  have "k < length fs" using l(4) by (cases "k < length fs") auto
  then have cs: "cs = drop (Suc (Suc k)) (37 # fs)" "Suc (Suc k) \<le> length ((37 :: byte) # fs)"
    using l(4) by (simp_all add: drop_Suc flip: tl_drop l(4))
  have j: "j \<le> length xs"
    using strto_ref_length [OF ref] ty by (auto simp: scan_type_def split: if_splits)
  have mp: "mapped (cmem s) ep 8" "mapped (cmem s) p w'" and ap: "apart ep 8 p w'"
    using room by (auto simp: scan_room_def)
  have w8: "w' \<le> 8" using scan_type_width [OF ty] l(2) by simp
  define s' where "s' = s\<lparr>cmem := poke (poke (cmem s) ep (le_bytes 8 (unat (x + of_nat j)))) p
    (le_bytes w' (unat (scan_value (w', sg, neg, num_value b ds))))\<rparr>"
  have conv: "scanf_conv T ep a l x (p # args) s = Some (True, args, s')"
    unfolding s'_def using ty l(2) fits ep by (intro scanf_conv_eq [OF str(1) _ ref _ _ mp]) simp_all
  have ld: "cload64 ep s' = Some (x + of_nat j)"
    unfolding cload64_def s'_def using ap
    by (auto intro!: load64_bytes simp: bytes_at_poke_apart bytes_at_poke_self apart_sym)
  have turn: "scanf_turn T ep \<lparr>sv_format = f, sv_str = x, sv_matches = of_nat n, sv_args = p # args, sv_state = s\<rparr> =
      Some (False, \<lparr>sv_format = f + of_nat (Suc (Suc k)), sv_str = x + of_nat j, sv_matches = of_nat (Suc n),
        sv_args = args, sv_state = s'\<rparr>)"
    using str(2) l(1) a gs(2) conv ld by (simp add: scanf_turn_def add.commute add.left_commute)
  have "scan_room (cmem s') f (37 # fs) x xs ((ep, 8) # (p, w') # areas)"
    unfolding s'_def using room by (auto intro!: scan_room_poke)
  then have "scan_room (cmem s') (f + of_nat (Suc (Suc k))) cs (x + of_nat j) (drop j xs) ((ep, 8) # areas)"
    unfolding cs(1) by (intro scan_room_areas [OF scan_room_drop [OF _ cs(2) j]])
  from that [OF turn s'_def this w8] cs show thesis by simp
qed

text \<open>The turns of the other directives.\<close>

abbreviation scan_vars :: "addr \<Rightarrow> addr \<Rightarrow> nat \<Rightarrow> i64 list \<Rightarrow> 'w cstate \<Rightarrow> 'w scanf_vars" where
  "scan_vars f x n args s \<equiv> \<lparr>sv_format = f, sv_str = x, sv_matches = of_nat n, sv_args = args, sv_state = s\<rparr>"

lemma scanf_turn_end: "cmem s f = Some 0 \<Longrightarrow> scanf_turn T ep (scan_vars f x n args s) = Some (True, scan_vars f x n args s)"
  by (simp add: scanf_turn_def)

lemma scan_char: "cstr m x xs \<Longrightarrow> \<exists>d. m x = Some d \<and> (\<forall>c. c \<noteq> 0 \<longrightarrow> (d = c \<longleftrightarrow> take 1 xs = [c]))"
  by (cases xs) auto

lemma scanf_turn_space:
  assumes "cstr (cmem s) f (c # fs)" and "cstr (cmem s) x xs" and "c \<noteq> 37" and "is_space c"
  shows "scanf_turn T ep (scan_vars f x n args s) = Some (False,
    scan_vars (f + of_nat (length (takeWhile is_space (c # fs)))) (x + of_nat (length (takeWhile is_space xs))) n args s)"
  using assms strtox_space_eq [OF assms(1)] strtox_space_eq [OF assms(2)] by (simp add: scanf_turn_def)

lemma scanf_turn_literal:
  assumes "cstr (cmem s) f (c # fs)" and "cstr (cmem s) x xs" and "c \<noteq> 37" and "\<not> is_space c"
  shows "scanf_turn T ep (scan_vars f x n args s) =
    (if take 1 xs = [c] then Some (False, scan_vars (f + 1) (x + 1) n args s)
     else Some (True, if of_nat n = (0 :: i32) then (scan_vars f x n args s)\<lparr>sv_matches := - 1\<rparr> else scan_vars f x n args s))"
  using assms scan_char [OF assms(2)] by (auto simp: scanf_turn_def)

text \<open>Where the conversion character of a directive is.\<close>

lemma scan_directive:
  assumes "cstr m f (37 # fs)" and "scan_prefix fs = (w, gs)"
  obtains l k where "scanf_prefix m (f + 1) = Some (l, f + 1 + of_nat k)" "w = (if l = 0 then 4 else 8)"
    "m (f + 1 + of_nat k) = Some (case gs of [] \<Rightarrow> 0 | a # _ \<Rightarrow> a)"
    "\<And>a cs. gs = a # cs \<Longrightarrow> cs = drop (Suc (Suc k)) (37 # fs) \<and> Suc (Suc k) \<le> length (37 # fs)"
proof -
  have c: "cstr m (f + 1) fs" using assms(1) by simp
  obtain l k where l: "scanf_prefix m (f + 1) = Some (l, f + 1 + of_nat k)" "w = (if l = 0 then 4 else 8)"
    "k \<le> length fs" "gs = drop k fs"
    using scan_prefix_eq [OF c assms(2)] by blast
  have "cstr m (f + 1 + of_nat k) gs" using cstr_next [OF c l(3)] l(4) by simp
  then have m: "m (f + 1 + of_nat k) = Some (case gs of [] \<Rightarrow> 0 | a # _ \<Rightarrow> a)" by (cases gs) auto
  have "cs = drop (Suc (Suc k)) (37 # fs) \<and> Suc (Suc k) \<le> length (37 # fs)" if "gs = a # cs" for a cs
  proof -
    have dk: "drop k fs = a # cs" using l(4) that by simp
    then have "k < length fs" by (cases "k < length fs") auto
    with dk show ?thesis by (simp add: drop_Suc flip: tl_drop)
  qed
  with l(1,2) m show thesis by (rule that)
qed

lemma scanf_conv_unsupported:
  "scan_type a (if l = 0 then 4 else 8) = None \<Longrightarrow> scanf_conv T ep a l x args s = Some (False, args, SET_ERRNO (EILSEQ T) s)"
  by (auto simp: scan_type_def scanf_conv_def split: if_splits)

lemma scanf_turn_unsupported:
  assumes "cstr (cmem s) f (37 # fs)" and "scan_prefix fs = (w, gs)"
    and "gs = [] \<or> (\<exists>a cs. gs = a # cs \<and> a \<noteq> 37 \<and> scan_type a w = None)"
  shows "scanf_turn T ep (scan_vars f x n args s) =
    Some (True, (scan_vars f x n args s)\<lparr>sv_state := SET_ERRNO (EILSEQ T) s\<rparr>)"
proof -
  obtain l k where l: "scanf_prefix (cmem s) (f + 1) = Some (l, f + 1 + of_nat k)" "w = (if l = 0 then 4 else 8)"
    "cmem s (f + 1 + of_nat k) = Some (case gs of [] \<Rightarrow> 0 | a # _ \<Rightarrow> a)"
    by (rule scan_directive [OF assms(1,2)]) blast
  have "\<exists>a. (case gs of [] \<Rightarrow> 0 | a # _ \<Rightarrow> a) = a \<and> a \<noteq> 37 \<and> scan_type a w = None"
    using assms(3) by (auto simp: scan_type_def)
  then obtain a where a: "cmem s (f + 1 + of_nat k) = Some a" "a \<noteq> 37" "scan_type a (if l = 0 then 4 else 8) = None"
    unfolding l(2) [symmetric] using l(3) by metis
  then show ?thesis
    using assms(1) l(1) scanf_conv_unsupported [OF a(3), of T ep x args s] by (simp add: scanf_turn_def)
qed

lemma scanf_turn_percent:
  assumes "cstr (cmem s) f (37 # fs)" and "cstr (cmem s) x xs" and "scan_prefix fs = (w, 37 # cs)"
  obtains k where "scanf_turn T ep (scan_vars f x n args s) =
      (if take 1 xs = [37] then Some (False, scan_vars (f + of_nat k) (x + 1) n args s) else Some (True, scan_vars f x n args s))"
    "cs = drop k (37 # fs)" "k \<le> length (37 # fs)" "1 < k"
proof -
  obtain l k where l: "scanf_prefix (cmem s) (f + 1) = Some (l, f + 1 + of_nat k)"
    "cmem s (f + 1 + of_nat k) = Some 37" "cs = drop (Suc (Suc k)) (37 # fs)" "Suc (Suc k) \<le> length ((37 :: byte) # fs)"
    by (rule scan_directive [OF assms(1,3)]) force
  obtain d where d: "cmem s x = Some d" "d = 37 \<longleftrightarrow> take 1 xs = [37]" using scan_char [OF assms(2)] by force
  show thesis
  proof (rule that [of "Suc (Suc k)"])
    show "scanf_turn T ep (scan_vars f x n args s) =
      (if take 1 xs = [37] then Some (False, scan_vars (f + of_nat (Suc (Suc k))) (x + 1) n args s) else Some (True, scan_vars f x n args s))"
      using assms(1) l(1,2) d by (simp add: scanf_turn_def add.commute add.left_commute)
  qed (use l in simp_all)
qed

text \<open>A number, with what is scanned after it.\<close>

lemma scanned_number:
  assumes room: "scan_room (cmem s) f (37 # fs) x xs ((ep, 8) # (p, w') # zip args (List.map fst outs))"
    and gs: "scan_prefix fs = (w, a # cs)" "a \<noteq> 37" and ty: "scan_type a w = Some (base, sg, w')"
    and ref: "strto_ref base xs = (neg, b, ds, j)"
    and fits: "scan_fits (w', sg, neg, num_value b ds)" and ep: "ep \<noteq> 0"
    and rest: "\<And>k s'. scan_room (cmem s') (f + of_nat k) cs (x + of_nat j) (drop j xs) ((ep, 8) # zip args (List.map fst outs)) \<Longrightarrow>
      length cs \<le> length fs \<Longrightarrow> scanned_into T ep (scan_vars (f + of_nat k) (x + of_nat j) (Suc n) args s') r outs bad"
  shows "scanned_into T ep (scan_vars f x n (p # args) s) r ((w', sg, neg, num_value b ds) # outs) bad"
proof (rule scanf_turn_number [OF room gs ty ref fits ep, of T n args])
  fix k s'
  assume turn: "scanf_turn T ep (scan_vars f x n (p # args) s) = Some (False, scan_vars (f + of_nat k) (x + of_nat j) (Suc n) args s')"
    and s': "s' = s\<lparr>cmem := poke (poke (cmem s) ep (le_bytes 8 (unat (x + of_nat j)))) p
      (le_bytes w' (unat (scan_value (w', sg, neg, num_value b ds))))\<rparr>"
    and room': "scan_room (cmem s') (f + of_nat k) cs (x + of_nat j) (drop j xs) ((ep, 8) # zip args (List.map fst outs))"
    and w8: "w' \<le> 8" and cs: "length cs \<le> length fs"
  show ?thesis
    using w8 room s' rest [OF room' cs]
    by (intro scanned_store [OF turn, where p = p and ys = "le_bytes 8 (unat (x + of_nat j))"]) (simp_all add: scan_room_def)
qed

text \<open>The whole loop, by the recursion of \<open>scan\<close>.\<close>

lemma scanf_loop_eq:
  "scan fs xs n = (r, outs, bad) \<Longrightarrow>
   scan_room (cmem s) f fs x xs ((ep, 8) # zip args (List.map fst outs)) \<Longrightarrow>
   length outs \<le> length args \<Longrightarrow> list_all scan_fits outs \<Longrightarrow> ep \<noteq> 0 \<Longrightarrow> n + length fs < 2 ^ 31 \<Longrightarrow>
   scanned_into T ep (scan_vars f x n args s) r outs bad"
proof (induction fs xs n arbitrary: f x args s r outs bad rule: scan.induct)
  case (1 xs n)
  then have "cmem s f = Some 0" using scan_room_fst [OF "1.prems"(2)] by simp
  then have "scanf_turn T ep (scan_vars f x n args s) = Some (True, scan_vars f x n args s)" by (rule scanf_turn_end)
  then show ?case using "1.prems"(1) by (auto intro: scanned_end)
next
  case (2 c fs xs n)
  have str: "cstr (cmem s) f (c # fs)" "cstr (cmem s) x xs" using scan_room_fst [OF "2.prems"(2)] by auto
  note room = scan_room_drop [OF "2.prems"(2)]
  obtain w gs where gs: "scan_prefix fs = (w, gs)" by fastforce
  consider (space) "c \<noteq> 37" "is_space c" | (literal) "c \<noteq> 37" "\<not> is_space c"
    | (bad) "c = 37" "gs = [] \<or> (\<exists>a cs. gs = a # cs \<and> a \<noteq> 37 \<and> scan_type a w = None)"
    | (percent) cs where "c = 37" "gs = 37 # cs"
    | (number) a cs ty where "c = 37" "gs = a # cs" "a \<noteq> 37" "scan_type a w = Some ty"
  proof (cases "c = 37")
    case True
    then show thesis using that(3-5) by (cases gs; cases "hd gs = 37"; cases "scan_type (hd gs) w") auto
  qed (use that(1,2) in blast)
  then show ?case
  proof cases
    case space
    let ?i = "length (takeWhile is_space (c # fs))" and ?j = "length (takeWhile is_space xs)"
    have "drop ?i (c # fs) = dropWhile is_space fs" "drop ?j xs = dropWhile is_space xs"
      using space by (simp_all add: dropWhile_eq_drop)
    then have "scanned_into T ep (scan_vars (f + of_nat ?i) (x + of_nat ?j) n args s) r outs bad"
      using space "2.prems" room [of ?i ?j] length_takeWhile_le [of is_space "c # fs"] length_takeWhile_le [of is_space xs]
        length_dropWhile_le [of is_space fs]
      by (intro "2.IH"(3)) simp_all
    then show ?thesis by (intro scanned_step [OF scanf_turn_space [OF str space]]) simp_all
  next
    case literal
    note turn = scanf_turn_literal [OF str literal, of T ep n args]
    show ?thesis
    proof (cases "take 1 xs = [c]")
      case True
      then have "scanned_into T ep (scan_vars (f + 1) (x + 1) n args s) r outs bad"
        using literal "2.prems" room [of 1 1] by (intro "2.IH"(4)) (cases xs; simp)+
      then show ?thesis by (rule scanned_step [OF turn [unfolded True, simplified] _ _, rotated 2]) simp_all
    next
      case False
      moreover have "(of_nat n :: i32) = 0 \<longleftrightarrow> n = 0" using of_nat32_nonzero [of n] "2.prems"(6) by (cases "n = 0") auto
      ultimately show ?thesis using literal turn "2.prems"(1) by (auto intro!: scanned_end)
    qed
  next
    case bad
    have "(r, outs, bad) = (int n, [], True)" using bad "2.prems"(1) gs by auto
    then show ?thesis
      using scanf_turn_unsupported [OF str(1) [unfolded bad(1)] gs bad(2)] by (auto intro!: scanned_end simp: SET_ERRNO_def)
  next
    case (percent cs)
    obtain k where k: "scanf_turn T ep (scan_vars f x n args s) =
        (if take 1 xs = [37] then Some (False, scan_vars (f + of_nat k) (x + 1) n args s) else Some (True, scan_vars f x n args s))"
      "cs = drop k (37 # fs)" "k \<le> length ((37 :: byte) # fs)" "1 < k"
      using scanf_turn_percent [OF str(1) [unfolded percent(1)] str(2) gs [unfolded percent(2)]] by blast
    show ?thesis
    proof (cases "take 1 xs = [37]")
      case True
      then have "scanned_into T ep (scan_vars (f + of_nat k) (x + 1) n args s) r outs bad"
        using percent "2.prems" room [of k 1] gs k(2-4)
        by (intro "2.IH"(1) [OF percent(1) gs [symmetric] percent(2)]) (cases xs; simp)+
      then show ?thesis by (rule scanned_step [OF k(1) [unfolded True, simplified] _ _, rotated 2]) simp_all
    next
      case False
      then show ?thesis using k(1) percent gs "2.prems"(1) by (auto intro!: scanned_end)
    qed
  next
    case (number a cs ty)
    obtain base sg w' where ty: "ty = (base, sg, w')" by (cases ty) auto
    obtain neg b ds j where ref: "strto_ref base xs = (neg, b, ds, j)" by (cases "strto_ref base xs") auto
    obtain outs' where sc: "scan cs (drop j xs) (Suc n) = (r, outs', bad)" "outs = (w', sg, neg, num_value b ds) # outs'"
      using "2.prems"(1) gs number ty ref by (auto split: prod.splits)
    obtain p args' where args: "args = p # args'" using "2.prems"(3) sc(2) by (cases args) auto
    have r0: "scan_room (cmem s) f (37 # fs) x xs ((ep, 8) # (p, w') # zip args' (List.map fst outs'))"
      using "2.prems"(2) sc(2) args number(1) by simp
    have "scan_fits (w', sg, neg, num_value b ds)" "list_all scan_fits outs'" using "2.prems"(4) sc(2) by simp_all
    note num = scanned_number [OF r0 gs [unfolded number(2)] number(3,4) [unfolded ty] ref this(1) "2.prems"(5)]
    show ?thesis unfolding sc(2) args
    proof (rule num)
      fix k and s' :: "'a cstate" assume "scan_room (cmem s') (f + of_nat k) cs (x + of_nat j) (drop j xs) ((ep, 8) # zip args' (List.map fst outs'))"
        and cs: "length cs \<le> length fs"
      then show "scanned_into T ep (scan_vars (f + of_nat k) (x + of_nat j) (Suc n) args' s') r outs' bad"
        using "2.prems"(3-6) sc args
        by (intro "2.IH"(2) [OF number(1) gs [symmetric] number(2-4) ty [symmetric] refl refl ref [symmetric] refl refl sc(1)]) simp_all
    qed
  qed
qed

lemma sscanf_eq:
  assumes "scan fs xs 0 = (r, outs, bad)" and "list_all scan_fits outs" and "length outs \<le> length args"
    and "scan_room (cmem s) format fs str xs ((ep, 8) # zip args (List.map fst outs))"
    and "ep \<noteq> 0" and "length fs < 2 ^ 31"
  shows "\<exists>m'. sscanf T ep str format args s =
      Some (of_int r, s\<lparr>cmem := m', errno := if bad then EILSEQ T else errno s\<rparr>) \<and>
    (\<forall>i < length outs. bytes_at m' (args ! i) (le_bytes (fst (outs ! i)) (unat (scan_value (outs ! i))))) \<and>
    (\<forall>a. (\<forall>(q, w) \<in> set ((ep, 8) # zip args (List.map fst outs)). \<not> in_range q w a) \<longrightarrow> m' a = cmem s a)"
proof -
  have "scanned_into T ep \<lparr>sv_format = format, sv_str = str, sv_matches = of_nat 0, sv_args = args, sv_state = s\<rparr> r outs bad"
    using assms by (intro scanf_loop_eq) simp_all
  then show ?thesis
    using assms(3) unfolding scanned_into_def sscanf_def vsscanf_def by (auto simp: list_all2_conv_all_nth)
qed

text \<open>
  Property C9. \<^verbatim>\<open>sscanf\<close> scans as \<open>scan\<close> says, for every format and text, when the numbers
  in the text fit their conversions and the pointers given suffice: it returns, its result is the number
  of conversions, or -1 for a literal that does not match before the first one; each number is stored
  through its pointer with the width of its length prefix; \<open>errno\<close> is \<open>EILSEQ\<close> after a conversion
  that is not supported and else unchanged; no other memory is written than the areas of the
  pointers and the local \<^verbatim>\<open>endptr\<close>.
\<close>

theorem sscanf_scans:
  assumes "scan fs xs 0 = (r, outs, bad)" and "list_all scan_fits outs" and "length outs \<le> length args"
    and "scan_room (cmem s) format fs str xs ((ep, 8) # zip args (List.map fst outs))"
    and "ep \<noteq> 0" and "length fs < 2 ^ 31"
  shows "\<exists>m'. sscanf T ep str format args s =
      Some (of_int r, s\<lparr>cmem := m', errno := if bad then EILSEQ T else errno s\<rparr>) \<and>
    (\<forall>i < length outs. bytes_at m' (args ! i) (le_bytes (fst (outs ! i)) (unat (scan_value (outs ! i))))) \<and>
    (\<forall>a. (\<forall>(q, w) \<in> set ((ep, 8) # zip args (List.map fst outs)). \<not> in_range q w a) \<longrightarrow> m' a = cmem s a)"
  by (rule sscanf_eq [OF assms])

theorem sscanf_scans_witness:
  "\<exists>m m'. sscanf (x86_linux no_kernel) 300 30 10 [100, 200] (process m ()) = Some (2, process m' ()) \<and>
     load32 m' 100 = Some (- 12) \<and> load64 m' 200 = Some 255"
proof -
  define m :: mem where "m = (\<lambda>a. Some (((\<lambda>_. 0) (10 := 37, 11 := 100, 12 := 32, 13 := 37, 14 := 108, 15 := 120,
    30 := 45, 31 := 49, 32 := 50, 33 := 32, 34 := 102, 35 := 102)) a))"
  let ?fs = "[37, 100, 32, 37, 108, 120] :: byte list" and ?xs = "[45, 49, 50, 32, 102, 102] :: byte list"
  let ?outs = "[(4, True, True, 12), (8, False, False, 255)] :: scanned list"
  have "scan ?fs ?xs 0 = (2, ?outs, False)" by code_simp
  moreover have "scan_room m 10 ?fs 30 ?xs ((300, 8) # zip [100, 200] (List.map fst ?outs))"
    by (simp add: scan_room_def m_def mapped_total apart_def)
  moreover have "list_all scan_fits ?outs" by (simp add: scan_fits_def)
  ultimately obtain m' where
    "sscanf (x86_linux no_kernel) 300 30 10 [100, 200] (process m ()) = Some (of_int 2, (process m ())\<lparr>cmem := m', errno := 0\<rparr>)"
    and at: "\<forall>i < length ?outs. bytes_at m' ([100, 200] ! i) (le_bytes (fst (?outs ! i)) (unat (scan_value (?outs ! i))))"
    using sscanf_scans [of ?fs ?xs 2 ?outs False "[100, 200]" "process m ()" 10 30 300 "x86_linux no_kernel"] by auto
  moreover have "(process m ())\<lparr>cmem := m', errno := 0\<rparr> = process m' ()" by (simp add: process_def)
  moreover have "scan_value (?outs ! 0) = - 12" "scan_value (?outs ! 1) = 255" by code_simp+
  moreover have "bytes_at m' 100 (le_bytes 4 (unat (scan_value (?outs ! 0))))"
    "bytes_at m' 200 (le_bytes 8 (unat (scan_value (?outs ! 1))))"
    using at [rule_format, of 0] at [rule_format, of 1] by simp_all
  moreover have "le_bytes 4 (unat (- 12 :: i64)) = le_bytes 4 (unat (- 12 :: i32))"
  proof -
    have "uint (- 12 :: i64) = 18446744073709551604" "uint (- 12 :: i32) = 4294967284" by code_simp+
    then have "unat (- 12 :: i64) = 18446744073709551604" "unat (- 12 :: i32) = 4294967284"
      by (simp_all only: unat_eq_nat_uint nat_numeral)
    then show ?thesis using le_bytes_mod [of 4 18446744073709551604] by simp
  qed
  ultimately show ?thesis by (metis load32_bytes load64_bytes of_int_numeral)
qed

text \<open>
  A conversion that finds no digit counts as a match and stores 0: \<^verbatim>\<open>sscanf("a", "%d", &x)\<close>
  returns 1, where ISO C has 0 and leaves \<open>x\<close> alone.
\<close>

theorem sscanf_counts_missing_number:
  assumes "cstr (cmem s) str [97]" and "cstr (cmem s) format [37, 100]"
    and "scan_room (cmem s) format [37, 100] str [97] [(ep, 8), (p, 4)]" and "ep \<noteq> 0"
  shows "\<exists>m'. sscanf T ep str format [p] s = Some (1, s\<lparr>cmem := m'\<rparr>) \<and> load32 m' p = Some 0"
proof -
  have sc: "scan [37, 100] [97] 0 = (1, [(4, True, False, 0)], False)" by code_simp
  have "scanned_into T ep \<lparr>sv_format = format, sv_str = str, sv_matches = of_nat 0, sv_args = [p], sv_state = s\<rparr> 1
      [(4, True, False, 0)] False"
    using assms by (intro scanf_loop_eq [OF sc]) (simp_all add: scan_fits_def)
  then obtain m' where "sscanf T ep str format [p] s = Some (1, s\<lparr>cmem := m'\<rparr>)" "bytes_at m' p (le_bytes 4 (unat (0 :: i32)))"
    unfolding scanned_into_def sscanf_def vsscanf_def by (auto simp: scan_value_def)
  then show ?thesis using load32_bytes by blast
qed

end
