(* ===== verification/Headers.thy ===== *)
theory Headers
  imports Main
begin

section \<open>Types, limits and constants of the headers\<close>

text \<open>
  The integer types of C by rank and sign, the typedefs of \<^verbatim>\<open>src/stdint.h\<close> and
  \<^verbatim>\<open>src/std.h\<close>, the constant expressions of the limit macros, and the macros of
  \<^verbatim>\<open>src/types.h\<close>. What a compiler predefines (\<^verbatim>\<open>__SIZE_TYPE__\<close>,
  \<^verbatim>\<open>__LONG_MAX__\<close> and others) is the record \<open>compiler\<close>. \<open>char\<close> has 8, \<open>short\<close>
  16, \<open>int\<close> 32 and \<open>long long\<close> 64 bits, as \<^verbatim>\<open>src/nolibc.h\<close> requires.
\<close>

datatype rank = RChar | RShort | RInt | RLong | RLLong

datatype ctype = CInt (is_signed: bool) (rank_of: rank)

record compiler =
  long_bits :: nat
  size_type :: ctype
  intmax_type :: ctype
  uintmax_type :: ctype
  long_max :: int

fun rank_bits :: "compiler \<Rightarrow> rank \<Rightarrow> nat" where
  "rank_bits C RChar = 8"
| "rank_bits C RShort = 16"
| "rank_bits C RInt = 32"
| "rank_bits C RLong = long_bits C"
| "rank_bits C RLLong = 64"

fun rank_num :: "rank \<Rightarrow> nat" where
  "rank_num RChar = 0"
| "rank_num RShort = 1"
| "rank_num RInt = 2"
| "rank_num RLong = 3"
| "rank_num RLLong = 4"

text \<open>The conversion ranks of C are linearly ordered.\<close>

instantiation rank :: linorder begin

definition less_eq_rank :: "rank \<Rightarrow> rank \<Rightarrow> bool" where
  "r \<le> s \<longleftrightarrow> rank_num r \<le> rank_num s"

definition less_rank :: "rank \<Rightarrow> rank \<Rightarrow> bool" where
  "r < s \<longleftrightarrow> rank_num r < rank_num s"

instance
proof
  fix r s :: rank
  assume "r \<le> s" and "s \<le> r"
  then show "r = s" by (cases r; cases s) (simp_all add: less_eq_rank_def)
qed (auto simp: less_eq_rank_def less_rank_def)

end

definition bits :: "compiler \<Rightarrow> ctype \<Rightarrow> nat" where
  "bits C t = rank_bits C (rank_of t)"

definition type_min :: "compiler \<Rightarrow> ctype \<Rightarrow> int" where
  "type_min C t = (if is_signed t then - (2 ^ (bits C t - 1)) else 0)"

definition type_max :: "compiler \<Rightarrow> ctype \<Rightarrow> int" where
  "type_max C t = (if is_signed t then 2 ^ (bits C t - 1) - 1 else 2 ^ bits C t - 1)"

subsection \<open>Typedefs\<close>

datatype type_expr =
    Basic bool rank
  | SizeType
  | IntmaxType
  | UintmaxType
  | Typedef string

text \<open>The names declared so far, the last one first.\<close>

type_synonym type_env = "(string \<times> ctype) list"

fun type_of :: "compiler \<Rightarrow> type_env \<Rightarrow> type_expr \<Rightarrow> ctype option" where
  "type_of C env (Basic s r) = Some (CInt s r)"
| "type_of C env SizeType = Some (size_type C)"
| "type_of C env IntmaxType = Some (intmax_type C)"
| "type_of C env UintmaxType = Some (uintmax_type C)"
| "type_of C env (Typedef x) = map_of env x"

definition stdint_types :: "(string \<times> type_expr) list" where
  "stdint_types =
    [(''uint8_t'', Basic False RChar), (''int8_t'', Basic True RChar),
     (''uint16_t'', Basic False RShort), (''int16_t'', Basic True RShort),
     (''uint32_t'', Basic False RInt), (''int32_t'', Basic True RInt),
     (''uint64_t'', Basic False RLLong), (''int64_t'', Basic True RLLong),
     (''size_t'', SizeType), (''ssize_t'', Basic True RLong),
     (''uintptr_t'', Basic False RLong), (''intptr_t'', Basic True RLong),
     (''ptrdiff_t'', Basic True RLong),
     (''int_least8_t'', Typedef ''int8_t''), (''uint_least8_t'', Typedef ''uint8_t''),
     (''int_least16_t'', Typedef ''int16_t''), (''uint_least16_t'', Typedef ''uint16_t''),
     (''int_least32_t'', Typedef ''int32_t''), (''uint_least32_t'', Typedef ''uint32_t''),
     (''int_least64_t'', Typedef ''int64_t''), (''uint_least64_t'', Typedef ''uint64_t''),
     (''int_fast8_t'', Typedef ''int8_t''), (''uint_fast8_t'', Typedef ''uint8_t''),
     (''int_fast16_t'', Typedef ''ssize_t''), (''uint_fast16_t'', Typedef ''size_t''),
     (''int_fast32_t'', Typedef ''ssize_t''), (''uint_fast32_t'', Typedef ''size_t''),
     (''int_fast64_t'', Typedef ''int64_t''), (''uint_fast64_t'', Typedef ''uint64_t''),
     (''intmax_t'', IntmaxType), (''uintmax_t'', UintmaxType)]"

definition std_types :: "(string \<times> type_expr) list" where
  "std_types =
    [(''dev_t'', Basic False RInt), (''ino_t'', Basic False RLong), (''mode_t'', Basic False RInt),
     (''pid_t'', Basic True RInt), (''uid_t'', Basic False RInt), (''gid_t'', Basic False RInt),
     (''nlink_t'', Basic False RLong), (''off_t'', Basic True RLong),
     (''blksize_t'', Basic True RLong), (''blkcnt_t'', Basic True RLong),
     (''time_t'', Basic True RLong)]"

definition declare_types :: "compiler \<Rightarrow> (string \<times> type_expr) list \<Rightarrow> type_env \<Rightarrow> type_env" where
  "declare_types C ds env =
     foldl (\<lambda>env (x, e). case type_of C env e of None \<Rightarrow> env | Some t \<Rightarrow> (x, t) # env) env ds"

definition types :: "compiler \<Rightarrow> type_env" where
  "types C = declare_types C std_types (declare_types C stdint_types [])"

subsection \<open>Constant expressions\<close>

text \<open>
  A constant has a type and a value. Arithmetic follows the usual conversions; the value is
  \<open>None\<close> where a signed operation overflows. \<open>Lit\<close> has the type its suffix gives, or
  the first signed type that holds it.
\<close>

datatype suffix = NoSuffix | U | LL | ULL

datatype const_expr =
    Lit int suffix
  | IntMax
  | LongMax
  | LongLongMax
  | Macro string
  | Neg const_expr
  | Minus const_expr const_expr
  | Plus const_expr const_expr
  | Times const_expr const_expr
  | Cast type_expr const_expr

type_synonym macro_env = "(string \<times> ctype \<times> int) list"

definition holds :: "compiler \<Rightarrow> ctype \<Rightarrow> int \<Rightarrow> bool" where
  "holds C t v \<longleftrightarrow> type_min C t \<le> v \<and> v \<le> type_max C t"

definition lit_type :: "compiler \<Rightarrow> int \<Rightarrow> suffix \<Rightarrow> ctype" where
  "lit_type C v f =
     (case f of
        NoSuffix \<Rightarrow> if holds C (CInt True RInt) v then CInt True RInt
                    else if holds C (CInt True RLong) v then CInt True RLong else CInt True RLLong
      | U \<Rightarrow> if holds C (CInt False RInt) v then CInt False RInt
             else if holds C (CInt False RLong) v then CInt False RLong else CInt False RLLong
      | LL \<Rightarrow> CInt True RLLong
      | ULL \<Rightarrow> CInt False RLLong)"

definition promote :: "ctype \<Rightarrow> ctype" where
  "promote t = (if rank_of t < RInt then CInt True RInt else t)"

definition usual_type :: "compiler \<Rightarrow> ctype \<Rightarrow> ctype \<Rightarrow> ctype" where
  "usual_type C t u =
     (let t = promote t; u = promote u;
          higher = (if rank_of t < rank_of u then u else t);
          s = (if is_signed t then t else u); n = (if is_signed t then u else t) in
      if is_signed t = is_signed u then higher
      else if rank_of s \<le> rank_of n then n
      else if bits C n < bits C s then s
      else CInt False (rank_of s))"

text \<open>Conversion to a type: modulo, also to a signed type, as all the compilers do.\<close>

definition convert :: "compiler \<Rightarrow> ctype \<Rightarrow> int \<Rightarrow> int" where
  "convert C t v =
     (let r = v mod 2 ^ bits C t in if type_max C t < r then r - 2 ^ bits C t else r)"

definition result :: "compiler \<Rightarrow> ctype \<Rightarrow> int \<Rightarrow> (ctype \<times> int) option" where
  "result C t v = (if is_signed t then if holds C t v then Some (t, v) else None else Some (t, convert C t v))"

definition arith :: "compiler \<Rightarrow> (int \<Rightarrow> int \<Rightarrow> int) \<Rightarrow> ctype \<times> int \<Rightarrow> ctype \<times> int \<Rightarrow> (ctype \<times> int) option" where
  "arith C f a b =
     (let t = usual_type C (fst a) (fst b) in result C t (f (convert C t (snd a)) (convert C t (snd b))))"

fun const_value :: "compiler \<Rightarrow> macro_env \<Rightarrow> const_expr \<Rightarrow> (ctype \<times> int) option" where
  "const_value C env (Lit v f) = Some (lit_type C v f, v)"
| "const_value C env IntMax = Some (CInt True RInt, 2 ^ 31 - 1)"
| "const_value C env LongMax = Some (CInt True RLong, long_max C)"
| "const_value C env LongLongMax = Some (CInt True RLLong, 2 ^ 63 - 1)"
| "const_value C env (Macro x) = map_of env x"
| "const_value C env (Neg a) =
     Option.bind (const_value C env a) (\<lambda>a. result C (promote (fst a)) (- snd a))"
| "const_value C env (Minus a b) =
     Option.bind (const_value C env a) (\<lambda>a. Option.bind (const_value C env b) (arith C (-) a))"
| "const_value C env (Plus a b) =
     Option.bind (const_value C env a) (\<lambda>a. Option.bind (const_value C env b) (arith C (+) a))"
| "const_value C env (Times a b) =
     Option.bind (const_value C env a) (\<lambda>a. Option.bind (const_value C env b) (arith C (*) a))"
| "const_value C env (Cast t a) =
     Option.bind (const_value C env a) (\<lambda>a. Option.bind (type_of C (types C) t) (\<lambda>t. Some (t, convert C t (snd a))))"

subsection \<open>The limits of stdint.h\<close>

text \<open>
  \<open>Ifndef x e\<close> is a definition that is skipped when \<open>x\<close> is defined. A macro that names
  another one follows it, so that its value can be taken at its definition.
\<close>

datatype directive = Define string const_expr | Ifndef string const_expr

definition stdint_limits :: "directive list" where
  "stdint_limits =
    [Define ''INT8_MIN'' (Neg (Lit 128 NoSuffix)),
     Define ''INT16_MIN'' (Minus (Neg (Lit 32767 NoSuffix)) (Lit 1 NoSuffix)),
     Define ''INT32_MIN'' (Minus (Neg (Lit 2147483647 NoSuffix)) (Lit 1 NoSuffix)),
     Define ''INT64_MIN'' (Minus (Neg (Lit 9223372036854775807 LL)) (Lit 1 NoSuffix)),
     Define ''INT8_MAX'' (Lit 127 NoSuffix), Define ''INT16_MAX'' (Lit 32767 NoSuffix),
     Define ''INT32_MAX'' (Lit 2147483647 NoSuffix), Define ''INT64_MAX'' (Lit 9223372036854775807 LL),
     Define ''UINT8_MAX'' (Lit 255 NoSuffix), Define ''UINT16_MAX'' (Lit 65535 NoSuffix),
     Define ''UINT32_MAX'' (Lit 4294967295 U), Define ''UINT64_MAX'' (Lit 18446744073709551615 ULL),
     Define ''INT_LEAST8_MIN'' (Macro ''INT8_MIN''), Define ''INT_LEAST16_MIN'' (Macro ''INT16_MIN''),
     Define ''INT_LEAST32_MIN'' (Macro ''INT32_MIN''), Define ''INT_LEAST64_MIN'' (Macro ''INT64_MIN''),
     Define ''INT_LEAST8_MAX'' (Macro ''INT8_MAX''), Define ''INT_LEAST16_MAX'' (Macro ''INT16_MAX''),
     Define ''INT_LEAST32_MAX'' (Macro ''INT32_MAX''), Define ''INT_LEAST64_MAX'' (Macro ''INT64_MAX''),
     Define ''UINT_LEAST8_MAX'' (Macro ''UINT8_MAX''), Define ''UINT_LEAST16_MAX'' (Macro ''UINT16_MAX''),
     Define ''UINT_LEAST32_MAX'' (Macro ''UINT32_MAX''), Define ''UINT_LEAST64_MAX'' (Macro ''UINT64_MAX''),
     Define ''SIZE_MAX'' (Plus (Times (Cast (Typedef ''size_t'') LongMax) (Lit 2 NoSuffix)) (Lit 1 NoSuffix)),
     Define ''INTPTR_MIN'' (Minus (Neg LongMax) (Lit 1 NoSuffix)),
     Define ''INTPTR_MAX'' LongMax,
     Define ''PTRDIFF_MIN'' (Macro ''INTPTR_MIN''), Define ''PTRDIFF_MAX'' (Macro ''INTPTR_MAX''),
     Define ''UINTPTR_MAX'' (Macro ''SIZE_MAX''),
     Define ''INT_FAST8_MIN'' (Macro ''INT8_MIN''), Define ''INT_FAST16_MIN'' (Macro ''INTPTR_MIN''),
     Define ''INT_FAST32_MIN'' (Macro ''INTPTR_MIN''), Define ''INT_FAST64_MIN'' (Macro ''INT64_MIN''),
     Define ''INT_FAST8_MAX'' (Macro ''INT8_MAX''), Define ''INT_FAST16_MAX'' (Macro ''INTPTR_MAX''),
     Define ''INT_FAST32_MAX'' (Macro ''INTPTR_MAX''), Define ''INT_FAST64_MAX'' (Macro ''INT64_MAX''),
     Define ''UINT_FAST8_MAX'' (Macro ''UINT8_MAX''), Define ''UINT_FAST16_MAX'' (Macro ''SIZE_MAX''),
     Define ''UINT_FAST32_MAX'' (Macro ''SIZE_MAX''), Define ''UINT_FAST64_MAX'' (Macro ''UINT64_MAX''),
     Define ''INTMAX_MIN'' (Macro ''INT64_MIN''), Define ''INTMAX_MAX'' (Macro ''INT64_MAX''),
     Define ''UINTMAX_MAX'' (Macro ''UINT64_MAX''),
     Ifndef ''INT_MIN'' (Minus (Neg IntMax) (Lit 1 NoSuffix)), Ifndef ''INT_MAX'' IntMax,
     Ifndef ''LONG_MIN'' (Minus (Neg LongMax) (Lit 1 NoSuffix)), Ifndef ''LONG_MAX'' LongMax,
     Ifndef ''ULONG_MAX'' (Plus (Times (Cast (Basic False RLong) LongMax) (Lit 2 NoSuffix)) (Lit 1 NoSuffix)),
     Ifndef ''LLONG_MIN'' (Minus (Neg LongLongMax) (Lit 1 NoSuffix)), Ifndef ''LLONG_MAX'' LongLongMax,
     Ifndef ''ULLONG_MAX'' (Plus (Times (Cast (Basic False RLLong) LongLongMax) (Lit 2 NoSuffix)) (Lit 1 NoSuffix))]"

fun run_directive :: "compiler \<Rightarrow> macro_env \<Rightarrow> directive \<Rightarrow> macro_env" where
  "run_directive C env (Define x e) =
     (case const_value C env e of None \<Rightarrow> env | Some v \<Rightarrow> (x, v) # env)"
| "run_directive C env (Ifndef x e) =
     (if map_of env x = None
      then case const_value C env e of None \<Rightarrow> env | Some v \<Rightarrow> (x, v) # env
      else env)"

definition run_directives :: "compiler \<Rightarrow> directive list \<Rightarrow> macro_env" where
  "run_directives C ds = foldl (run_directive C) [] ds"

subsection \<open>Structures\<close>

text \<open>
  The layout of an object by the rule all the targets share: a member lies at the next multiple
  of its alignment, a structure is filled up to a multiple of the largest alignment in it.
\<close>

datatype ftype =
    Scalar type_expr
  | ArrayOf ftype nat
  | Struct "(string \<times> ftype) list"
  | Union "(string \<times> ftype) list"

definition round_up :: "nat \<Rightarrow> nat \<Rightarrow> nat" where
  "round_up n a = (n + a - 1) div a * a"

definition scalar_size :: "compiler \<Rightarrow> type_expr \<Rightarrow> nat" where
  "scalar_size C e = (case type_of C (types C) e of None \<Rightarrow> 0 | Some t \<Rightarrow> bits C t div 8)"

fun align_of :: "compiler \<Rightarrow> ftype \<Rightarrow> nat" and aligns_of :: "compiler \<Rightarrow> (string \<times> ftype) list \<Rightarrow> nat" where
  "align_of C (Scalar e) = scalar_size C e"
| "align_of C (ArrayOf f n) = align_of C f"
| "align_of C (Struct fs) = aligns_of C fs"
| "align_of C (Union fs) = aligns_of C fs"
| "aligns_of C [] = 1"
| "aligns_of C ((x, f) # fs) = max (align_of C f) (aligns_of C fs)"

fun size_of :: "compiler \<Rightarrow> ftype \<Rightarrow> nat" and struct_end :: "compiler \<Rightarrow> nat \<Rightarrow> (string \<times> ftype) list \<Rightarrow> nat"
  and union_size :: "compiler \<Rightarrow> (string \<times> ftype) list \<Rightarrow> nat" where
  "size_of C (Scalar e) = scalar_size C e"
| "size_of C (ArrayOf f n) = n * size_of C f"
| "size_of C (Struct fs) = round_up (struct_end C 0 fs) (aligns_of C fs)"
| "size_of C (Union fs) = round_up (union_size C fs) (aligns_of C fs)"
| "struct_end C n [] = n"
| "struct_end C n ((x, f) # fs) = struct_end C (round_up n (align_of C f) + size_of C f) fs"
| "union_size C [] = 0"
| "union_size C ((x, f) # fs) = max (size_of C f) (union_size C fs)"

text \<open>
  The scalar members with offset and size, in order. \<^verbatim>\<open>offsetof\<close> of \<^verbatim>\<open>src/stddef.h\<close>
  is the lookup in this list.
\<close>

fun members :: "compiler \<Rightarrow> nat \<Rightarrow> (string \<times> ftype) list \<Rightarrow> (string \<times> nat \<times> nat) list" where
  "members C n [] = []"
| "members C n ((x, f) # fs) =
     (let o' = round_up n (align_of C f) in (x, o', size_of C f) # members C (o' + size_of C f) fs)"

definition offset_of :: "compiler \<Rightarrow> (string \<times> ftype) list \<Rightarrow> string \<Rightarrow> nat option" where
  "offset_of C fs x = map_option fst (map_of (members C 0 fs) x)"

text \<open>
  The structures of \<^verbatim>\<open>src/types.h\<close> and \<^verbatim>\<open>src/dirent.h\<close>. The union of a time and a
  \<^verbatim>\<open>struct timespec\<close> is one member here, named as its second alternative;
  \<open>timespec\<close> is the structure of the kernel headers.
\<close>

definition struct_stat :: "ftype \<Rightarrow> (string \<times> ftype) list" where
  "struct_stat timespec =
    [(''st_dev'', Scalar (Typedef ''dev_t'')), (''st_ino'', Scalar (Typedef ''ino_t'')),
     (''st_mode'', Scalar (Typedef ''mode_t'')), (''st_nlink'', Scalar (Typedef ''nlink_t'')),
     (''st_uid'', Scalar (Typedef ''uid_t'')), (''st_gid'', Scalar (Typedef ''gid_t'')),
     (''st_rdev'', Scalar (Typedef ''dev_t'')), (''st_size'', Scalar (Typedef ''off_t'')),
     (''st_blksize'', Scalar (Typedef ''blksize_t'')), (''st_blocks'', Scalar (Typedef ''blkcnt_t'')),
     (''st_atim'', Union [(''st_atime'', Scalar (Typedef ''time_t'')), (''st_atim'', timespec)]),
     (''st_mtim'', Union [(''st_mtime'', Scalar (Typedef ''time_t'')), (''st_mtim'', timespec)]),
     (''st_ctim'', Union [(''st_ctime'', Scalar (Typedef ''time_t'')), (''st_ctim'', timespec)])]"

definition struct_linux_dirent64 :: "(string \<times> ftype) list" where
  "struct_linux_dirent64 =
    [(''d_ino'', Scalar (Typedef ''uint64_t'')), (''d_off'', Scalar (Typedef ''int64_t'')),
     (''d_reclen'', Scalar (Basic False RShort)), (''d_type'', Scalar (Basic False RChar)),
     (''d_name'', ArrayOf (Scalar (Basic True RChar)) 0)]"

definition struct_utsname :: "(string \<times> ftype) list" where
  "struct_utsname =
     List.map (\<lambda>f. (f, ArrayOf (Scalar (Basic True RChar)) 65))
       [''sysname'', ''nodename'', ''release'', ''version'', ''machine'', ''domainname'']"

definition struct_dirent :: "nat \<Rightarrow> (string \<times> ftype) list" where
  "struct_dirent NAME_MAX =
    [(''d_ino'', Scalar (Typedef ''ino_t'')),
     (''d_name'', ArrayOf (Scalar (Basic True RChar)) (NAME_MAX + 1))]"

text \<open>\<open>FD_SETIDXMASK\<close> and \<open>FD_SETBITMASK\<close> are \<open>8 * sizeof(unsigned long)\<close> and one less.\<close>

definition struct_fd_set :: "compiler \<Rightarrow> nat \<Rightarrow> (string \<times> ftype) list" where
  "struct_fd_set C FD_SETSIZE =
     (let w = 8 * scalar_size C (Basic False RLong) in
      [(''fds'', ArrayOf (Scalar (Basic False RLong)) ((FD_SETSIZE + (w - 1)) div w))])"

subsection \<open>Constants of types.h\<close>

text \<open>Octal in the source.\<close>

definition mode_bits :: "(string \<times> nat) list" where
  "mode_bits =
    [(''S_IRWXU'', 0x1c0), (''S_IRUSR'', 0x100), (''S_IWUSR'', 0x80), (''S_IXUSR'', 0x40),
     (''S_IRWXG'', 0x38), (''S_IRGRP'', 0x20), (''S_IWGRP'', 0x10), (''S_IXGRP'', 8),
     (''S_IRWXO'', 7), (''S_IROTH'', 4), (''S_IWOTH'', 2), (''S_IXOTH'', 1)]"

definition dirent_types :: "(string \<times> nat) list" where
  "dirent_types =
    [(''DT_UNKNOWN'', 0), (''DT_FIFO'', 1), (''DT_CHR'', 2), (''DT_DIR'', 4), (''DT_BLK'', 6),
     (''DT_REG'', 8), (''DT_LNK'', 0xa), (''DT_SOCK'', 0xc)]"

end
