(* ===== verification/StructFacts.thy ===== *)
theory StructFacts
  imports Headers FileStat StreamFacts Linux
begin

section \<open>Stores into a structure\<close>

text \<open>
  A function that fills a structure member by member leaves memory as \<open>pokes\<close> has it, and each
  member reads back, as the members do not overlap. \<open>stat_copy_eq\<close> has \<^verbatim>\<open>fstatat\<close> in this form.
\<close>

text \<open>A sequence of stores into one object at \<open>p\<close>: offsets and bytes.\<close>

definition pokes :: "addr \<Rightarrow> (addr \<times> byte list) list \<Rightarrow> mem \<Rightarrow> mem" where
  "pokes p sts m = foldl (\<lambda>m (o', bs). poke m (p + o') bs) m sts"

definition inside :: "nat \<Rightarrow> (addr \<times> byte list) list \<Rightarrow> bool" where
  "inside n sts \<longleftrightarrow> n < 2 ^ 64 \<and> (\<forall>(o', bs) \<in> set sts. unat o' + length bs \<le> n)"

lemma pokes_snoc: "pokes p (sts @ [(o', bs)]) m = poke (pokes p sts m) (p + o') bs"
  by (simp add: pokes_def)

lemma inside_snoc: "inside n sts \<Longrightarrow> unat o' + length bs \<le> n \<Longrightarrow> inside n (sts @ [(o', bs)])"
  by (auto simp: inside_def)

lemma pokes_outside: "inside n sts \<Longrightarrow> \<not> in_range p n a \<Longrightarrow> pokes p sts m a = m a"
proof (induction sts rule: rev_induct)
  case (snoc x sts)
  obtain o' bs where x: "x = (o', bs)" by fastforce
  have i: "inside n sts" "unat o' + length bs \<le> n" "n < 2 ^ 64" using snoc.prems(1) x by (auto simp: inside_def)
  have "\<not> in_range (p + o') (length bs) a"
    using in_range_add [of "unat o'" "length bs" n p a] i snoc.prems(2) by auto
  then show ?case using snoc i(1) by (simp add: x pokes_snoc poke_outside)
qed (simp add: pokes_def)

lemma pokes_mapped: "mapped m q k \<Longrightarrow> mapped (pokes p sts m) q k"
  by (induction sts rule: rev_induct) (auto simp: pokes_snoc pokes_def)

lemma pokes_load:
  assumes "inside n sts" and "apart p n q k" and "k < 2 ^ 64"
  shows "load_le (pokes p sts m) q k = load_le m q k"
proof (rule load_le_cong)
  fix a assume "in_range q k a"
  then have "\<not> in_range p n a" using assms(2) apart_in_range apart_sym by blast
  with assms(1) show "pokes p sts m a = m a" by (rule pokes_outside)
qed (rule assms)

lemma pokes_read:
  "inside n sts \<Longrightarrow> sorted_wrt (\<lambda>(o', bs) (o2, cs). unat o' + length bs \<le> unat o2) sts \<Longrightarrow> (o', bs) \<in> set sts \<Longrightarrow>
   bytes_at (pokes p sts m) (p + o') bs"
proof (induction sts rule: rev_induct)
  case (snoc x sts)
  obtain o2 cs where x: "x = (o2, cs)" by fastforce
  have i: "inside n sts" "unat o2 + length cs \<le> n" "n < 2 ^ 64" using snoc.prems(1) x by (auto simp: inside_def)
  show ?case
  proof (cases "(o', bs) = x")
    case True
    then show ?thesis using i x by (simp add: pokes_snoc bytes_at_poke_self)
  next
    case False
    then have m: "(o', bs) \<in> set sts" using snoc.prems(3) by simp
    then have le: "unat o' + length bs \<le> unat o2" using snoc.prems(2) x by (auto simp: sorted_wrt_append)
    have "apart (p + o2) (length cs) (p + o') (length bs)"
    proof -
      have "apart (p + o2) (length cs) p (unat o2)"
        using apart_next [of "unat o2" "length cs" p] i by simp
      then show ?thesis
        using apart_part [OF apart_sym, of "p + o2" "length cs" p "unat o2" "unat o'" "length bs"] le
        by (simp add: apart_sym)
    qed
    then show ?thesis using snoc.IH [OF i(1) _ m] snoc.prems(2) x
      by (simp add: pokes_snoc bytes_at_poke_apart sorted_wrt_append)
  qed
qed simp

lemma pokes_store64:
  assumes "mapped m p n" and "unat o' + 8 \<le> n" and "n < 2 ^ 64"
  shows "cstore64 (p + o') v (s\<lparr>cmem := pokes p sts m\<rparr>) = Some (s\<lparr>cmem := pokes p (sts @ [(o', le_bytes 8 (unat v))]) m\<rparr>)"
  using mapped_part [OF pokes_mapped [OF assms(1)] assms(2)]
  by (simp add: cstore64_def store64_eq pokes_snoc)

lemma pokes_store32:
  assumes "mapped m p n" and "unat o' + 4 \<le> n" and "n < 2 ^ 64"
  shows "cstore32 (p + o') v (s\<lparr>cmem := pokes p sts m\<rparr>) = Some (s\<lparr>cmem := pokes p (sts @ [(o', le_bytes 4 (unat v))]) m\<rparr>)"
  using mapped_part [OF pokes_mapped [OF assms(1)] assms(2)]
  by (simp add: cstore32_def store32_eq pokes_snoc)

subsection \<open>fstatat\<close>

text \<open>
  \<open>statx_at\<close>: the kernel left the values \<open>v\<close> in the \<^verbatim>\<open>struct statx\<close> at \<open>fp\<close>, which
  lies apart from the caller's structure at \<open>buf\<close>. \<open>stat_fields\<close>: the offsets, the sizes and the
  values that are stored.
\<close>

record statx_values =
  v_dev_major :: i32
  v_dev_minor :: i32
  v_ino :: i64
  v_mode :: "16 word"
  v_nlink :: i32
  v_uid :: i32
  v_gid :: i32
  v_rdev_major :: i32
  v_rdev_minor :: i32
  v_size :: i64
  v_blksize :: i32
  v_blocks :: i64
  v_atime :: "i64 \<times> i32"
  v_mtime :: "i64 \<times> i32"
  v_ctime :: "i64 \<times> i32"

definition statx_reads :: "stat_abi \<Rightarrow> statx_values \<Rightarrow> (addr \<times> nat \<times> nat) list" where
  "statx_reads X v =
     [(stx_dev_minor_at X, 4, unat (v_dev_minor v)), (stx_dev_major_at X, 4, unat (v_dev_major v)),
      (stx_ino_at X, 8, unat (v_ino v)), (stx_mode_at X, 2, unat (v_mode v)),
      (stx_nlink_at X, 4, unat (v_nlink v)), (stx_uid_at X, 4, unat (v_uid v)), (stx_gid_at X, 4, unat (v_gid v)),
      (stx_rdev_minor_at X, 4, unat (v_rdev_minor v)), (stx_rdev_major_at X, 4, unat (v_rdev_major v)),
      (stx_size_at X, 8, unat (v_size v)), (stx_blksize_at X, 4, unat (v_blksize v)),
      (stx_blocks_at X, 8, unat (v_blocks v)),
      (stx_atime_at X, 8, unat (fst (v_atime v))), (stx_atime_at X + 8, 4, unat (snd (v_atime v))),
      (stx_mtime_at X, 8, unat (fst (v_mtime v))), (stx_mtime_at X + 8, 4, unat (snd (v_mtime v))),
      (stx_ctime_at X, 8, unat (fst (v_ctime v))), (stx_ctime_at X + 8, 4, unat (snd (v_ctime v)))]"

definition stat_fields :: "statx_values \<Rightarrow> (addr \<times> nat \<times> nat) list" where
  "stat_fields v =
     [(0, 4, unat (dev_of (v_dev_major v) (v_dev_minor v))), (8, 8, unat (v_ino v)), (16, 4, unat (v_mode v)),
      (24, 8, unat (v_nlink v)), (32, 4, unat (v_uid v)), (36, 4, unat (v_gid v)),
      (40, 4, unat (dev_of (v_rdev_major v) (v_rdev_minor v))), (48, 8, unat (v_size v)),
      (56, 8, unat (v_blksize v)), (64, 8, unat (v_blocks v)),
      (72, 8, unat (fst (v_atime v))), (80, 8, unat (snd (v_atime v))),
      (88, 8, unat (fst (v_mtime v))), (96, 8, unat (snd (v_mtime v))),
      (104, 8, unat (fst (v_ctime v))), (112, 8, unat (snd (v_ctime v)))]"

definition statx_at :: "mem \<Rightarrow> stat_abi \<Rightarrow> addr \<Rightarrow> addr \<Rightarrow> statx_values \<Rightarrow> bool" where
  "statx_at m X fp buf v \<longleftrightarrow> (\<forall>(o', n, w) \<in> set (statx_reads X v). load_le m (fp + o') n = Some w \<and> apart buf 120 (fp + o') n)"

definition stat_stores :: "statx_values \<Rightarrow> (addr \<times> byte list) list" where
  "stat_stores v = map (\<lambda>(o', n, w). (o', le_bytes n w)) (stat_fields v)"

text \<open>What the copy reads, whatever it has stored so far.\<close>

lemma stat_reads:
  assumes at: "statx_at m X fp buf v" and s: "cmem s = pokes buf sts m" "inside 120 sts"
  shows "cload32 (fp + stx_dev_minor_at X) s = Some (v_dev_minor v)" "cload32 (fp + stx_dev_major_at X) s = Some (v_dev_major v)"
    "cload64 (fp + stx_ino_at X) s = Some (v_ino v)" "cload16 (fp + stx_mode_at X) s = Some (v_mode v)"
    "cload32 (fp + stx_nlink_at X) s = Some (v_nlink v)" "cload32 (fp + stx_uid_at X) s = Some (v_uid v)"
    "cload32 (fp + stx_gid_at X) s = Some (v_gid v)" "cload32 (fp + stx_rdev_minor_at X) s = Some (v_rdev_minor v)"
    "cload32 (fp + stx_rdev_major_at X) s = Some (v_rdev_major v)" "cload64 (fp + stx_size_at X) s = Some (v_size v)"
    "cload32 (fp + stx_blksize_at X) s = Some (v_blksize v)" "cload64 (fp + stx_blocks_at X) s = Some (v_blocks v)"
    "cload64 (fp + stx_atime_at X) s = Some (fst (v_atime v))" "cload32 (fp + (stx_atime_at X + 8)) s = Some (snd (v_atime v))"
    "cload64 (fp + stx_mtime_at X) s = Some (fst (v_mtime v))" "cload32 (fp + (stx_mtime_at X + 8)) s = Some (snd (v_mtime v))"
    "cload64 (fp + stx_ctime_at X) s = Some (fst (v_ctime v))" "cload32 (fp + (stx_ctime_at X + 8)) s = Some (snd (v_ctime v))"
proof -
  have ld: "load_le (cmem s) (fp + o') n = Some w" if "(o', n, w) \<in> set (statx_reads X v)" for o' n w
  proof -
    have "n < 2 ^ 64" using that by (auto simp: statx_reads_def)
    then show ?thesis using that at s pokes_load [of 120 sts buf "fp + o'" n m] by (auto simp: statx_at_def)
  qed
  have l64: "cload64 (fp + o') s = Some w" if "(o', 8, unat w) \<in> set (statx_reads X v)" for o' w
    using ld [OF that] by (simp add: cload64_def load64_def)
  have l32: "cload32 (fp + o') s = Some w" if "(o', 4, unat w) \<in> set (statx_reads X v)" for o' w
    using ld [OF that] by (simp add: cload32_def load32_def)
  have l16: "cload16 (fp + o') s = Some w" if "(o', 2, unat w) \<in> set (statx_reads X v)" for o' w
    using ld [OF that] by (simp add: cload16_def)
  show "cload32 (fp + stx_dev_minor_at X) s = Some (v_dev_minor v)" "cload32 (fp + stx_dev_major_at X) s = Some (v_dev_major v)"
    "cload64 (fp + stx_ino_at X) s = Some (v_ino v)" "cload16 (fp + stx_mode_at X) s = Some (v_mode v)"
    "cload32 (fp + stx_nlink_at X) s = Some (v_nlink v)" "cload32 (fp + stx_uid_at X) s = Some (v_uid v)"
    "cload32 (fp + stx_gid_at X) s = Some (v_gid v)" "cload32 (fp + stx_rdev_minor_at X) s = Some (v_rdev_minor v)"
    "cload32 (fp + stx_rdev_major_at X) s = Some (v_rdev_major v)" "cload64 (fp + stx_size_at X) s = Some (v_size v)"
    "cload32 (fp + stx_blksize_at X) s = Some (v_blksize v)" "cload64 (fp + stx_blocks_at X) s = Some (v_blocks v)"
    "cload64 (fp + stx_atime_at X) s = Some (fst (v_atime v))" "cload32 (fp + (stx_atime_at X + 8)) s = Some (snd (v_atime v))"
    "cload64 (fp + stx_mtime_at X) s = Some (fst (v_mtime v))" "cload32 (fp + (stx_mtime_at X + 8)) s = Some (snd (v_mtime v))"
    "cload64 (fp + stx_ctime_at X) s = Some (fst (v_ctime v))" "cload32 (fp + (stx_ctime_at X + 8)) s = Some (snd (v_ctime v))"
    by (rule l64 l32 l16; simp add: statx_reads_def)+
qed

lemma stat_copy_eq:
  assumes "statx_at (cmem s) X fp buf v" and "mapped (cmem s) buf 120"
  shows "stat_copy X fp buf s = Some (s\<lparr>cmem := pokes buf (stat_stores v) (cmem s)\<rparr>)"
proof -
  let ?m = "cmem s"
  note rd = stat_reads [OF assms(1), of "s\<lparr>cmem := pokes buf sts ?m\<rparr>" sts for sts, simplified]
  have st32: "cstore32 (buf + o') w (s\<lparr>cmem := pokes buf sts ?m\<rparr>) = Some (s\<lparr>cmem := pokes buf (sts @ [(o', le_bytes 4 (unat w))]) ?m\<rparr>)"
    if "unat o' + 4 \<le> 120" for o' w sts using pokes_store32 [OF assms(2) that] by simp
  have st64: "cstore64 (buf + o') w (s\<lparr>cmem := pokes buf sts ?m\<rparr>) = Some (s\<lparr>cmem := pokes buf (sts @ [(o', le_bytes 8 (unat w))]) ?m\<rparr>)"
    if "unat o' + 8 \<le> 120" for o' w sts using pokes_store64 [OF assms(2) that] by simp
  have s0: "s = s\<lparr>cmem := pokes buf [] ?m\<rparr>" by (simp add: pokes_def)
  have st0: "cstore32 buf w (s\<lparr>cmem := pokes buf [] ?m\<rparr>) = Some (s\<lparr>cmem := pokes buf [(0, le_bytes 4 (unat w))] ?m\<rparr>)" for w
    using st32 [of 0 w "[]"] by simp
  have u16: "unat (ucast (w :: 16 word) :: i32) = unat w" for w
  proof -
    have "unat w < 2 ^ 32" by (rule order_less_trans [OF unsigned_less]) simp
    then show ?thesis by (simp add: unsigned_ucast_eq take_bit_nat_eq_self)
  qed
  show ?thesis
    by (subst s0) (simp add: stat_copy_def stat_time_def rd st0 st32 st64 inside_def add.assoc stat_stores_def stat_fields_def u16)
qed

end
