(* ===== verification/HeaderProps.thy ===== *)
theory HeaderProps
  imports StructFacts
begin

section \<open>Properties of the type headers\<close>

text \<open>
  The compilers the library supports: 32 or 64 bits, \<^verbatim>\<open>__SIZE_TYPE__\<close> an unsigned type as
  wide as \<open>long\<close>, \<^verbatim>\<open>__INTMAX_TYPE__\<close> and \<^verbatim>\<open>__UINTMAX_TYPE__\<close> of 64 bits. There are
  four of them; a fact about each is a computation.
\<close>

definition supported :: "compiler \<Rightarrow> bool" where
  "supported C \<longleftrightarrow>
     (long_bits C = 32 \<or> long_bits C = 64) \<and>
     size_type C \<in> {CInt False RInt, CInt False RLong} \<and> bits C (size_type C) = long_bits C \<and>
     intmax_type C \<in> {CInt True RLong, CInt True RLLong} \<and> bits C (intmax_type C) = 64 \<and>
     uintmax_type C = CInt False (rank_of (intmax_type C)) \<and>
     long_max C = 2 ^ (long_bits C - 1) - 1"

definition compilers :: "compiler list" where
  "compilers =
    [\<lparr>long_bits = 32, size_type = CInt False RInt, intmax_type = CInt True RLLong,
       uintmax_type = CInt False RLLong, long_max = 2147483647\<rparr>,
     \<lparr>long_bits = 32, size_type = CInt False RLong, intmax_type = CInt True RLLong,
       uintmax_type = CInt False RLLong, long_max = 2147483647\<rparr>,
     \<lparr>long_bits = 64, size_type = CInt False RLong, intmax_type = CInt True RLong,
       uintmax_type = CInt False RLong, long_max = 9223372036854775807\<rparr>,
     \<lparr>long_bits = 64, size_type = CInt False RLong, intmax_type = CInt True RLLong,
       uintmax_type = CInt False RLLong, long_max = 9223372036854775807\<rparr>]"

lemma supported_cases: "supported C \<Longrightarrow> C \<in> set compilers"
  by (cases C; clarsimp simp: supported_def compilers_def bits_def; elim disjE conjE; simp)

text \<open>The limit macros with the types they belong to, by the naming rule of ISO C.\<close>

definition limits_of :: "(type_expr \<times> string option \<times> string) list" where
  "limits_of =
    [(Typedef ''int8_t'', Some ''INT8_MIN'', ''INT8_MAX''), (Typedef ''uint8_t'', None, ''UINT8_MAX''),
     (Typedef ''int16_t'', Some ''INT16_MIN'', ''INT16_MAX''), (Typedef ''uint16_t'', None, ''UINT16_MAX''),
     (Typedef ''int32_t'', Some ''INT32_MIN'', ''INT32_MAX''), (Typedef ''uint32_t'', None, ''UINT32_MAX''),
     (Typedef ''int64_t'', Some ''INT64_MIN'', ''INT64_MAX''), (Typedef ''uint64_t'', None, ''UINT64_MAX''),
     (Typedef ''int_least8_t'', Some ''INT_LEAST8_MIN'', ''INT_LEAST8_MAX''),
     (Typedef ''int_least16_t'', Some ''INT_LEAST16_MIN'', ''INT_LEAST16_MAX''),
     (Typedef ''int_least32_t'', Some ''INT_LEAST32_MIN'', ''INT_LEAST32_MAX''),
     (Typedef ''int_least64_t'', Some ''INT_LEAST64_MIN'', ''INT_LEAST64_MAX''),
     (Typedef ''uint_least8_t'', None, ''UINT_LEAST8_MAX''), (Typedef ''uint_least16_t'', None, ''UINT_LEAST16_MAX''),
     (Typedef ''uint_least32_t'', None, ''UINT_LEAST32_MAX''), (Typedef ''uint_least64_t'', None, ''UINT_LEAST64_MAX''),
     (Typedef ''int_fast8_t'', Some ''INT_FAST8_MIN'', ''INT_FAST8_MAX''),
     (Typedef ''int_fast16_t'', Some ''INT_FAST16_MIN'', ''INT_FAST16_MAX''),
     (Typedef ''int_fast32_t'', Some ''INT_FAST32_MIN'', ''INT_FAST32_MAX''),
     (Typedef ''int_fast64_t'', Some ''INT_FAST64_MIN'', ''INT_FAST64_MAX''),
     (Typedef ''uint_fast8_t'', None, ''UINT_FAST8_MAX''), (Typedef ''uint_fast16_t'', None, ''UINT_FAST16_MAX''),
     (Typedef ''uint_fast32_t'', None, ''UINT_FAST32_MAX''), (Typedef ''uint_fast64_t'', None, ''UINT_FAST64_MAX''),
     (Typedef ''intptr_t'', Some ''INTPTR_MIN'', ''INTPTR_MAX''), (Typedef ''uintptr_t'', None, ''UINTPTR_MAX''),
     (Typedef ''ptrdiff_t'', Some ''PTRDIFF_MIN'', ''PTRDIFF_MAX''), (Typedef ''size_t'', None, ''SIZE_MAX''),
     (Typedef ''intmax_t'', Some ''INTMAX_MIN'', ''INTMAX_MAX''), (Typedef ''uintmax_t'', None, ''UINTMAX_MAX''),
     (Basic True RInt, Some ''INT_MIN'', ''INT_MAX''), (Basic True RLong, Some ''LONG_MIN'', ''LONG_MAX''),
     (Basic False RLong, None, ''ULONG_MAX''), (Basic True RLLong, Some ''LLONG_MIN'', ''LLONG_MAX''),
     (Basic False RLLong, None, ''ULLONG_MAX'')]"

text \<open>
  A macro is right for a type when it has the wanted value and, as a constant, the sign and the width
  the type has after promotion.
\<close>

definition limit_right :: "compiler \<Rightarrow> macro_env \<Rightarrow> ctype \<Rightarrow> int \<Rightarrow> string \<Rightarrow> bool" where
  "limit_right C env t v x =
     (case map_of env x of
        None \<Rightarrow> False
      | Some (u, w) \<Rightarrow> w = v \<and> is_signed u = is_signed (promote t) \<and> bits C u = bits C (promote t))"

definition limits_right :: "compiler \<Rightarrow> type_env \<Rightarrow> macro_env \<Rightarrow> type_expr \<times> string option \<times> string \<Rightarrow> bool" where
  "limits_right C tys env = (\<lambda>(e, lo, hi).
     case type_of C tys e of
       None \<Rightarrow> False
     | Some t \<Rightarrow> limit_right C env t (type_max C t) hi \<and>
         (case lo of None \<Rightarrow> \<not> is_signed t | Some lo \<Rightarrow> limit_right C env t (type_min C t) lo))"

definition all_limits_right :: "compiler \<Rightarrow> bool" where
  "all_limits_right C =
     (let tys = types C; env = run_directives C stdint_limits in list_all (limits_right C tys env) limits_of)"

lemma limits_ilp32_int: "all_limits_right (compilers ! 0)"
  by code_simp

lemma limits_ilp32_long: "all_limits_right (compilers ! 1)"
  by code_simp

lemma limits_lp64_long: "all_limits_right (compilers ! 2)"
  by code_simp

lemma limits_lp64_long_long: "all_limits_right (compilers ! 3)"
  by code_simp

lemma all_limits_supported: "supported C \<Longrightarrow> all_limits_right C"
  using supported_cases [of C] limits_ilp32_int limits_ilp32_long limits_lp64_long limits_lp64_long_long
  by (auto simp: compilers_def)

text \<open>
  Property C17. Every limit macro of \<^verbatim>\<open>stdint.h\<close> is the limit of its type, for every compiler the
  library supports: the constant expression is defined, no signed operation in it overflows, its value
  is the largest or smallest value of the type that the typedefs give, and its sign and width are those
  of the type after promotion.
\<close>

theorem limits_match_types:
  assumes "supported C" and "(e, lo, hi) \<in> set limits_of"
  shows "\<exists>t. type_of C (types C) e = Some t \<and>
    (\<exists>u. map_of (run_directives C stdint_limits) hi = Some (u, type_max C t) \<and>
      is_signed u = is_signed (promote t) \<and> bits C u = bits C (promote t)) \<and>
    (case lo of None \<Rightarrow> \<not> is_signed t
     | Some x \<Rightarrow> \<exists>u. map_of (run_directives C stdint_limits) x = Some (u, type_min C t) \<and>
        is_signed u = is_signed (promote t) \<and> bits C u = bits C (promote t))"
proof -
  have "limits_right C (types C) (run_directives C stdint_limits) (e, lo, hi)"
    using all_limits_supported [OF assms(1)] assms(2) by (simp add: all_limits_right_def Let_def list_all_iff)
  then show ?thesis
    by (auto simp: limits_right_def limit_right_def split: option.splits)
qed

theorem limits_match_types_witness:
  "\<exists>t u. type_of (compilers ! 0) (types (compilers ! 0)) (Typedef ''uint_fast16_t'') = Some t \<and>
     map_of (run_directives (compilers ! 0) stdint_limits) ''UINT_FAST16_MAX'' = Some (u, type_max (compilers ! 0) t)"
proof -
  have "supported (compilers ! 0)" by (simp add: supported_def compilers_def bits_def)
  from limits_match_types [OF this, of "Typedef ''uint_fast16_t''" None "''UINT_FAST16_MAX''"] show ?thesis
    by (auto simp: limits_of_def)
qed

subsection \<open>Structures\<close>

lemma typedef_simps [simp]:
  "map_of (types C) ''dev_t'' = Some (CInt False RInt)" "map_of (types C) ''ino_t'' = Some (CInt False RLong)"
  "map_of (types C) ''mode_t'' = Some (CInt False RInt)" "map_of (types C) ''uid_t'' = Some (CInt False RInt)"
  "map_of (types C) ''gid_t'' = Some (CInt False RInt)" "map_of (types C) ''nlink_t'' = Some (CInt False RLong)"
  "map_of (types C) ''off_t'' = Some (CInt True RLong)" "map_of (types C) ''blksize_t'' = Some (CInt True RLong)"
  "map_of (types C) ''blkcnt_t'' = Some (CInt True RLong)" "map_of (types C) ''time_t'' = Some (CInt True RLong)"
  "map_of (types C) ''uint64_t'' = Some (CInt False RLLong)" "map_of (types C) ''int64_t'' = Some (CInt True RLLong)"
  by (simp_all add: types_def declare_types_def stdint_types_def std_types_def)

lemma stat_members:
  assumes "long_bits C = 64" and "size_of C ts = 16" and "align_of C ts = 8"
  shows "members C 0 (struct_stat ts) =
    [(''st_dev'', 0, 4), (''st_ino'', 8, 8), (''st_mode'', 16, 4), (''st_nlink'', 24, 8), (''st_uid'', 32, 4),
     (''st_gid'', 36, 4), (''st_rdev'', 40, 4), (''st_size'', 48, 8), (''st_blksize'', 56, 8), (''st_blocks'', 64, 8),
     (''st_atim'', 72, 16), (''st_mtim'', 88, 16), (''st_ctim'', 104, 16)]"
  using assms by (simp add: struct_stat_def scalar_size_def bits_def round_up_def Let_def)

lemma other_layouts:
  assumes "long_bits C = 64"
  shows "members C 0 struct_linux_dirent64 =
      [(''d_ino'', 0, 8), (''d_off'', 8, 8), (''d_reclen'', 16, 2), (''d_type'', 18, 1), (''d_name'', 19, 0)]"
    and "size_of C (Struct struct_linux_dirent64) = 24"
    and "members C 0 (struct_dirent 255) = [(''d_ino'', 0, 8), (''d_name'', 8, 256)]"
    and "size_of C (Struct (struct_fd_set C 256)) = 32"
  using assms
  by (simp_all add: struct_linux_dirent64_def struct_dirent_def struct_fd_set_def scalar_size_def bits_def
      round_up_def Let_def)

text \<open>
  The device number of the C library of Linux for a major number of 12 bits and a minor number of 20, the
  widths the kernel has: from the lowest bit, 8 bits of the minor number, the major number, the other 12
  bits of the minor number.
\<close>

definition dev_number :: "nat \<Rightarrow> nat \<Rightarrow> nat" where
  "dev_number ma mi = mi mod 2 ^ 8 + ma * 2 ^ 8 + mi div 2 ^ 8 * 2 ^ 20"

definition devices_fit :: "statx_values \<Rightarrow> bool" where
  "devices_fit v \<longleftrightarrow> unat (v_dev_major v) < 2 ^ 12 \<and> unat (v_dev_minor v) < 2 ^ 20 \<and>
     unat (v_rdev_major v) < 2 ^ 12 \<and> unat (v_rdev_minor v) < 2 ^ 20"

lemma dev_of_bits:
  assumes "take_bit 12 ma = ma"
  shows "dev_of ma mi = take_bit 8 mi + push_bit 8 ma + push_bit 20 (drop_bit 8 mi)"
proof -
  have m: "(0xff :: i32) = mask 8" by code_simp
  have b: "\<not> bit ma n" if "12 \<le> n" for n using assms that by (metis bit_take_bit_iff not_le)
  have "dev_of ma mi = (take_bit 8 mi OR push_bit 8 ma) OR push_bit 20 (drop_bit 8 mi)"
    unfolding dev_of_def m by (rule bit_word_eqI) (auto simp: bit_simps)
  also have "\<dots> = (take_bit 8 mi OR push_bit 8 ma) + push_bit 20 (drop_bit 8 mi)"
    using b by (intro disjunctive_add [symmetric]) (auto simp: bit_simps)
  also have "take_bit 8 mi OR push_bit 8 ma = take_bit 8 mi + push_bit 8 ma"
    by (rule disjunctive_add [symmetric]) (auto simp: bit_simps)
  finally show ?thesis .
qed

lemma dev_of_number:
  assumes "unat ma < 2 ^ 12" and "unat mi < 2 ^ 20"
  shows "unat (dev_of ma mi) = dev_number (unat ma) (unat mi)"
proof -
  have "unat (take_bit 12 ma) = unat ma" using assms(1)
    by (simp only: unsigned_take_bit_eq take_bit_nat_eq_self)
  then have ma: "take_bit 12 ma = ma" by (simp only: word_unat_eq_iff)
  have "unat (drop_bit 8 mi) = unat mi div 2 ^ 8" by (simp only: unat_drop_bit_eq) (simp add: drop_bit_eq_div)
  then have d: "drop_bit 8 mi = of_nat (unat mi div 2 ^ 8)" by (metis word_of_unat)
  have "unat (take_bit 8 mi) = unat mi mod 2 ^ 8" by (simp only: unsigned_take_bit_eq) (simp only: take_bit_eq_mod)
  then have t: "take_bit 8 mi = of_nat (unat mi mod 2 ^ 8)" by (metis word_of_unat)
  have "dev_of ma mi = of_nat (unat mi mod 2 ^ 8) + push_bit 8 (of_nat (unat ma)) + push_bit 20 (of_nat (unat mi div 2 ^ 8))"
    unfolding dev_of_bits [OF ma] d t by simp
  also have "\<dots> = of_nat (dev_number (unat ma) (unat mi))" by (simp add: dev_number_def push_bit_eq_mult)
  finally have "dev_of ma mi = of_nat (dev_number (unat ma) (unat mi))" .
  moreover have "unat mi mod 2 ^ 8 < 2 ^ 8" "unat mi div 2 ^ 8 < 2 ^ 12"
    using assms(2) by (simp_all add: less_mult_imp_div_less)
  then have "dev_number (unat ma) (unat mi) < 2 ^ 32"
    using assms(1) unfolding dev_number_def by simp
  ultimately show ?thesis by (simp add: unat_of_nat_lt)
qed

text \<open>
  The members of \<^verbatim>\<open>struct stat\<close> after a successful call, by name: position in the member, size and
  value.
\<close>

definition stat_contents :: "statx_values \<Rightarrow> (string \<times> nat \<times> nat \<times> nat) list" where
  "stat_contents v =
     [(''st_dev'', 0, 4, dev_number (unat (v_dev_major v)) (unat (v_dev_minor v))), (''st_ino'', 0, 8, unat (v_ino v)),
      (''st_mode'', 0, 4, unat (v_mode v)), (''st_nlink'', 0, 8, unat (v_nlink v)),
      (''st_uid'', 0, 4, unat (v_uid v)), (''st_gid'', 0, 4, unat (v_gid v)),
      (''st_rdev'', 0, 4, dev_number (unat (v_rdev_major v)) (unat (v_rdev_minor v))), (''st_size'', 0, 8, unat (v_size v)),
      (''st_blksize'', 0, 8, unat (v_blksize v)), (''st_blocks'', 0, 8, unat (v_blocks v)),
      (''st_atim'', 0, 8, unat (fst (v_atime v))), (''st_atim'', 8, 8, unat (snd (v_atime v))),
      (''st_mtim'', 0, 8, unat (fst (v_mtime v))), (''st_mtim'', 8, 8, unat (snd (v_mtime v))),
      (''st_ctim'', 0, 8, unat (fst (v_ctime v))), (''st_ctim'', 8, 8, unat (snd (v_ctime v)))]"

lemma stat_fields_read:
  assumes "mapped m buf 120" and "(o', n, w) \<in> set (stat_fields v)"
  shows "load_le (pokes buf (stat_stores v) m) (buf + o') n = Some w"
proof -
  have "inside 120 (stat_stores v)" by (auto simp: inside_def stat_stores_def stat_fields_def)
  moreover have "sorted_wrt (\<lambda>(o', bs) (o2, cs). unat o' + length bs \<le> unat o2) (stat_stores v)"
    by (simp add: stat_stores_def stat_fields_def)
  moreover have "(o', le_bytes n w) \<in> set (stat_stores v)"
    using assms(2) by (force simp: stat_stores_def)
  ultimately have "bytes_at (pokes buf (stat_stores v) m) (buf + o') (le_bytes n w)" by (rule pokes_read)
  moreover have "unat (v_mode v) < 2 ^ 32" by (rule order_less_trans [OF unsigned_less]) simp
  then have "w < 256 ^ n"
    using assms(2) by (auto simp: stat_fields_def intro: order_less_trans [OF unat_lt32])
  ultimately show ?thesis using load_le_bytes [of _ _ n w] by simp
qed

text \<open>
  The four functions with the directory, the path and the flags each has to ask \<open>statx\<close> about: \<open>stat\<close> and
  \<open>lstat\<close> take a path from the current directory, \<open>lstat\<close> does not follow a link at its end, \<open>fstat\<close>
  takes the descriptor itself, with an empty path.
\<close>

definition stat_requests ::
  "'w target \<Rightarrow> stat_abi \<Rightarrow> addr \<Rightarrow> addr \<Rightarrow> i32 \<Rightarrow> addr \<Rightarrow> addr \<Rightarrow> i32
     \<Rightarrow> (('w cstate \<Rightarrow> (i32 \<times> 'w cstate) option) \<times> i32 \<times> addr \<times> i32) list" where
  "stat_requests T X fp buf fd path empty_path flag =
     [(fstatat T X fp fd path buf flag, fd, path, flag),
      (stat T X fp path buf, AT_FDCWD T, path, 0),
      (lstat T X fp path buf, AT_FDCWD T, path, AT_SYMLINK_NOFOLLOW X),
      (fstat T X fp empty_path fd buf, fd, empty_path, AT_EMPTY_PATH X)]"

text \<open>
  Property C11. \<open>fstatat\<close>, \<open>stat\<close>, \<open>lstat\<close> and \<open>fstat\<close>, each with its own request to \<open>statx\<close>. After a
  \<open>statx\<close> that succeeds, every member of \<^verbatim>\<open>struct stat\<close>, at the offset the declaration in
  \<^verbatim>\<open>types.h\<close> gives it, holds the kernel's value, widened, the device numbers in the encoding of
  \<open>dev_number\<close>; no memory outside the structure is written. A \<open>statx\<close> that fails leaves the structure
  alone.
\<close>

theorem fstatat_fills:
  assumes "long_bits C = 64" and "size_of C ts = 16" and "align_of C ts = 8"
    and "(call, dir, name, fl) \<in> set (stat_requests T X fp buf fd path empty_path flag)"
    and "returning (sys_statx T dir name (fl OR AT_NO_AUTOMOUNT X) (STATX_BASIC_STATS X) fp) s = (ret, s1)"
    and "statx_at (cmem s1) X fp buf v" and "mapped (cmem s1) buf 120" and "devices_fit v"
  shows "if ret = - 1 then call s = Some (- 1, s1)
    else \<exists>m'. call s = Some (0, s1\<lparr>cmem := m'\<rparr>) \<and>
      list_all (\<lambda>(x, d, n, w). \<exists>o'. offset_of C (struct_stat ts) x = Some o' \<and>
        load_le m' (buf + of_nat (o' + d)) n = Some w) (stat_contents v) \<and>
      (\<forall>a. \<not> in_range buf (size_of C (Struct (struct_stat ts))) a \<longrightarrow> m' a = cmem s1 a)"
proof -
  have call: "call = fstatat T X fp dir name buf fl"
    using assms(4) by (auto simp: stat_requests_def stat_def lstat_def fstat_def)
  have long: "long_result (returning (sys_statx T dir name (fl OR AT_NO_AUTOMOUNT X) (STATX_BASIC_STATS X) fp)) s =
      (scast ret, s1)"
    using assms(5) by (simp add: long_result_def)
  have "(ucast (scast ret :: i64) :: i32) = ret" by (rule bit_word_eqI) (auto simp: bit_simps)
  moreover have u1: "(ucast (- 1 :: i64) :: i32) = - 1" and "(scast (- 1 :: i32) :: i64) = - 1" by code_simp+
  ultimately have m1: "(scast ret :: i64) = - 1 \<longleftrightarrow> ret = - 1" by metis
  show ?thesis
  proof (cases "ret = - 1")
    case True
    then show ?thesis using long m1 u1 by (simp add: call fstatat_def)
  next
    case False
    let ?m' = "pokes buf (stat_stores v) (cmem s1)"
    have "call s = Some (0, s1\<lparr>cmem := ?m'\<rparr>)"
      using long m1 False stat_copy_eq [OF assms(6,7)] by (simp add: call fstatat_def)
    moreover have dev: "dev_number (unat (v_dev_major v)) (unat (v_dev_minor v)) = unat (dev_of (v_dev_major v) (v_dev_minor v))"
      "dev_number (unat (v_rdev_major v)) (unat (v_rdev_minor v)) = unat (dev_of (v_rdev_major v) (v_rdev_minor v))"
      using assms(8) by (simp_all add: devices_fit_def dev_of_number)
    moreover have "list_all (\<lambda>(x, d, n, w). \<exists>o'. offset_of C (struct_stat ts) x = Some o' \<and>
        load_le ?m' (buf + of_nat (o' + d)) n = Some w) (stat_contents v)"
      using stat_fields_read [OF assms(7)] stat_fields_read [OF assms(7), of 0] dev
      by (simp add: stat_contents_def offset_of_def stat_members [OF assms(1-3)] stat_fields_def)
    moreover have "?m' a = cmem s1 a" if "\<not> in_range buf (size_of C (Struct (struct_stat ts))) a" for a
    proof (rule pokes_outside)
      show "inside 120 (stat_stores v)" by (auto simp: inside_def stat_stores_def stat_fields_def)
      show "\<not> in_range buf 120 a"
        using that assms(1-3) by (simp add: struct_stat_def scalar_size_def bits_def round_up_def Let_def)
    qed
    ultimately show ?thesis using False by auto
  qed
qed

text \<open>An instance: \<open>lstat\<close> with a kernel that fills all memory with zeros.\<close>

definition demo_abi :: stat_abi where
  "demo_abi = \<lparr>AT_NO_AUTOMOUNT = 0x800, STATX_BASIC_STATS = 0x7ff, AT_EMPTY_PATH = 0x1000, AT_SYMLINK_NOFOLLOW = 0x100,
     stx_blksize_at = 4, stx_nlink_at = 16, stx_uid_at = 20, stx_gid_at = 24, stx_mode_at = 28, stx_ino_at = 32,
     stx_size_at = 40, stx_blocks_at = 48, stx_atime_at = 64, stx_ctime_at = 96, stx_mtime_at = 112,
     stx_rdev_major_at = 128, stx_rdev_minor_at = 132, stx_dev_major_at = 136, stx_dev_minor_at = 140\<rparr>"

definition demo_values :: statx_values where
  "demo_values = \<lparr>v_dev_major = 0, v_dev_minor = 0, v_ino = 0, v_mode = 0, v_nlink = 0, v_uid = 0, v_gid = 0,
     v_rdev_major = 0, v_rdev_minor = 0, v_size = 0, v_blksize = 0, v_blocks = 0, v_atime = (0, 0),
     v_mtime = (0, 0), v_ctime = (0, 0)\<rparr>"

lemma load_le_zeros: "load_le (\<lambda>_. Some 0) p n = Some 0"
  by (induction n arbitrary: p) simp_all

theorem fstatat_fills_witness:
  "\<exists>m'. lstat (x86_linux (\<lambda>nr args m w. (0, \<lambda>_. Some 0, w))) demo_abi 1000 500 2000 (process Map.empty ()) =
     Some (0, process m' ()) \<and> load_le m' 2048 8 = Some 0"
proof -
  let ?T = "x86_linux (\<lambda>nr args m w. (0, \<lambda>_. Some 0, w))" and ?s = "process Map.empty ()" and ?s1 = "process (\<lambda>_. Some 0) ()"
  let ?C = "compilers ! 2" and ?ts = "Struct [(''tv_sec'', Scalar (Basic True RLong)), (''tv_nsec'', Scalar (Basic True RLong))]"
  have ts: "long_bits ?C = 64" "size_of ?C ?ts = 16" "align_of ?C ?ts = 8"
    by (simp_all add: compilers_def scalar_size_def bits_def round_up_def)
  have "(lstat ?T demo_abi 1000 500 2000, AT_FDCWD ?T, 500, AT_SYMLINK_NOFOLLOW demo_abi) \<in>
      set (stat_requests ?T demo_abi 1000 2000 3 500 600 0)"
    by (simp add: stat_requests_def)
  moreover have "returning (sys_statx ?T (AT_FDCWD ?T) 500 (AT_SYMLINK_NOFOLLOW demo_abi OR AT_NO_AUTOMOUNT demo_abi)
      (STATX_BASIC_STATS demo_abi) 1000) ?s = (0, ?s1)"
    by (simp add: returning_def sys_statx_def x86_linux_def int_result_def my_syscall5_def syscall_insn_def
        sysret_def process_def)
  moreover have "statx_at (cmem ?s1) demo_abi 1000 2000 demo_values"
    by (simp add: statx_at_def statx_reads_def demo_abi_def demo_values_def load_le_zeros apart_def)
  moreover have "mapped (cmem ?s1) 2000 120" by (simp add: mapped_total)
  moreover have "devices_fit demo_values" by (simp add: devices_fit_def demo_values_def)
  ultimately obtain m' where "lstat ?T demo_abi 1000 500 2000 ?s = Some (0, ?s1\<lparr>cmem := m'\<rparr>)"
    "list_all (\<lambda>(x, d, n, w). \<exists>o'. offset_of ?C (struct_stat ?ts) x = Some o' \<and>
        load_le m' (2000 + of_nat (o' + d)) n = Some w) (stat_contents demo_values)"
    using fstatat_fills [OF ts, where s = ?s and ret = 0 and ?s1.0 = ?s1] by fastforce
  then show ?thesis
    by (auto simp: stat_contents_def demo_values_def offset_of_def stat_members [OF ts] process_def)
qed

text \<open>
  The layout the model of the calls uses is the one the declarations in \<^verbatim>\<open>types.h\<close>
  and \<^verbatim>\<open>dirent.h\<close> give on LP64: the members of \<^verbatim>\<open>struct linux_dirent64\<close> and of
  \<^verbatim>\<open>struct dirent\<close>, the size of the buffer of \<open>readdir_r\<close>, the words of a descriptor set, and the
  name of an entry of any permitted length fits the caller's array.
\<close>

theorem entry_layouts:
  assumes "long_bits C = 64"
  shows "offset_of C struct_linux_dirent64 ''d_off'' = Some 8 \<and> offset_of C struct_linux_dirent64 ''d_name'' = Some 19 \<and>
    size_of C (Struct struct_linux_dirent64) + 255 + 1 = 280 \<and>
    offset_of C (struct_dirent 255) ''d_name'' = Some 8 \<and> size_of C (Struct (struct_dirent 255)) = 264 \<and>
    size_of C (Struct (struct_fd_set C 256)) = 32"
  using other_layouts [OF assms] assms
  by (simp add: offset_of_def struct_dirent_def scalar_size_def bits_def round_up_def Let_def)

text \<open>The six names of \<^verbatim>\<open>struct utsname\<close> lie as in the kernel's structure, 65 bytes each.\<close>

lemma utsname_layout: "size_of C (Struct struct_utsname) = 390 \<and> offset_of C struct_utsname ''machine'' = Some 260"
  by (simp add: offset_of_def struct_utsname_def scalar_size_def bits_def round_up_def Let_def)

end
