(* ===== verification/CMath.thy ===== *)
theory CMath
  imports CPrelude Complex_Main
begin

section \<open>math.h, and difftime of time.h\<close>

text \<open>
  A \<^verbatim>\<open>double\<close> is its 64 bits, a \<^verbatim>\<open>float\<close> its 32, a \<^verbatim>\<open>long double\<close> the 80 of x86. The
  highest bit is the sign; \<open>ib\<close> is the pattern of infinity, beyond which the patterns without sign
  are no numbers. A comparison with a number that is none is false, both zeros are equal, and the
  negation of C flips the sign.
\<close>

definition magnitude :: "'a::len word \<Rightarrow> 'a word" where
  "magnitude x = x AND mask (LENGTH('a) - 1)"

definition is_nan :: "'a::len word \<Rightarrow> 'a word \<Rightarrow> bool" where
  "is_nan ib x \<longleftrightarrow> ib < magnitude x"

definition not_negative :: "'a::len word \<Rightarrow> 'a word \<Rightarrow> bool" where
  "not_negative ib x \<longleftrightarrow> \<not> is_nan ib x \<and> (\<not> bit x (LENGTH('a) - 1) \<or> magnitude x = 0)"

definition negated :: "'a::len word \<Rightarrow> 'a word" where
  "negated x = x XOR push_bit (LENGTH('a) - 1) 1"

definition double_inf :: "64 word" where "double_inf = 0x7ff0000000000000"
definition float_inf :: "32 word" where "float_inf = 0x7f800000"
definition long_double_inf :: "80 word" where "long_double_inf = 0x7fff8000000000000000"

definition fabs :: "64 word \<Rightarrow> 64 word" where
  "fabs x = (if not_negative double_inf x then x else negated x)"

definition fabsf :: "32 word \<Rightarrow> 32 word" where
  "fabsf x = (if not_negative float_inf x then x else negated x)"

definition fabsl :: "80 word \<Rightarrow> 80 word" where
  "fabsl x = (if not_negative long_double_inf x then x else negated x)"

text \<open>The number a pattern of a \<^verbatim>\<open>double\<close> stands for.\<close>

definition double_size :: "64 word \<Rightarrow> real" where
  "double_size x =
     (let e = unat (drop_bit 52 (magnitude x)); f = real (unat (x AND mask 52)) in
      if e = 0 then f * 2 powr (- 1074) else (2 ^ 52 + f) * 2 powr (real e - 1075))"

definition double_value :: "64 word \<Rightarrow> real" where
  "double_value x = (if bit x 63 then - double_size x else double_size x)"

lemma bit_negated: "bit (negated (x :: 'a::len word)) n \<longleftrightarrow> n < LENGTH('a) \<and> bit x n \<noteq> (n = LENGTH('a) - 1)"
  by (auto simp: negated_def bit_simps dest: bit_imp_le_length)

lemma bit_magnitude: "bit (magnitude (x :: 'a::len word)) n \<longleftrightarrow> bit x n \<and> n < LENGTH('a) - 1"
  by (auto simp: magnitude_def bit_simps dest: bit_imp_le_length)

lemma negated_magnitude [simp]: "magnitude (negated x) = magnitude x"
  by (rule bit_word_eqI) (auto simp: bit_magnitude bit_negated)

lemma double_value_negated: "double_value (negated x) = - double_value x"
proof -
  have "negated x AND mask 52 = x AND mask 52"
    by (rule bit_word_eqI) (auto simp: bit_negated bit_and_iff bit_mask_iff)
  then have "double_size (negated x) = double_size x" by (simp add: double_size_def)
  then show ?thesis by (simp add: double_value_def bit_negated)
qed

lemma double_size_positive: "0 \<le> double_size x"
  unfolding double_size_def Let_def by (simp del: of_nat_unat)

lemma double_size_zero: "magnitude x = 0 \<Longrightarrow> double_size x = 0"
proof -
  assume m: "magnitude x = 0"
  have "x AND mask 52 = magnitude x AND mask 52"
    by (rule bit_word_eqI) (auto simp: bit_magnitude bit_and_iff bit_mask_iff)
  then have "x AND mask 52 = 0" using m by simp
  then show ?thesis using m by (simp add: double_size_def)
qed

text \<open>
  \<open>fabs\<close> computes the absolute value of every finite number and of infinity. It leaves the sign of
  the negative zero, and gives the positive pattern that is no number a sign, where IEC 60559 clears
  the sign of every argument.
\<close>

theorem fabs_absolute:
  assumes "\<not> is_nan double_inf x"
  shows "double_value (fabs x) = \<bar>double_value x\<bar> \<and> (magnitude x \<noteq> 0 \<longrightarrow> fabs x = magnitude x)"
proof -
  have "double_value (fabs x) = \<bar>double_value x\<bar>"
    using assms double_size_positive [of x] double_size_zero [of x] double_value_negated [of x]
    by (auto simp: fabs_def not_negative_def double_value_def [of x])
  moreover have "fabs x = magnitude x" if "magnitude x \<noteq> 0"
  proof (rule bit_word_eqI)
    fix n assume "n < LENGTH(64)"
    then show "bit (fabs x) n \<longleftrightarrow> bit (magnitude x) n"
      using assms that by (cases "n = 63") (auto simp: fabs_def not_negative_def bit_magnitude bit_negated)
  qed
  ultimately show ?thesis by blast
qed

theorem fabs_negative_zero: "fabs 0x8000000000000000 = 0x8000000000000000"
  by code_simp

theorem fabs_signs_nan: "fabs 0x7ff8000000000000 = 0xfff8000000000000"
  by code_simp

subsection \<open>difftime\<close>

text \<open>
  The conversion of an integer to a \<^verbatim>\<open>double\<close>, to nearest with ties to even: the
  significand gets 53 bits; when rounding carries out of it, the exponent in the bits above grows by
  one, as it should.
\<close>

fun top_bit :: "nat \<Rightarrow> nat" where
  "top_bit n = (if n < 2 then 0 else Suc (top_bit (n div 2)))"

declare top_bit.simps [simp del]

definition round_even :: "nat \<Rightarrow> nat \<Rightarrow> nat" where
  "round_even n k =
     (let q = n div 2 ^ k; r = n mod 2 ^ k in
      if 2 ^ k < 2 * r \<or> 2 * r = 2 ^ k \<and> odd q then q + 1 else q)"

definition double_of_nat :: "nat \<Rightarrow> 64 word" where
  "double_of_nat n =
     (if n = 0 then 0
      else let e = top_bit n; q = (if e \<le> 52 then n * 2 ^ (52 - e) else round_even n (e - 52)) in
        of_nat ((e + 1022) * 2 ^ 52 + q))"

definition double_of_int :: "int \<Rightarrow> 64 word" where
  "double_of_int v = (if v < 0 then negated (double_of_nat (nat (- v))) else double_of_nat (nat v))"

definition difftime :: "64 word \<Rightarrow> 64 word \<Rightarrow> 64 word" where
  "difftime time1 time2 = double_of_int (sint (time1 - time2))"

lemma top_bit_bounds: "0 < n \<Longrightarrow> 2 ^ top_bit n \<le> n \<and> n < 2 ^ Suc (top_bit n)"
proof (induction n rule: top_bit.induct)
  case (1 n)
  show ?case
  proof (cases "n < 2")
    case True
    then show ?thesis using 1 by (simp add: top_bit.simps [of n])
  next
    case False
    then have "2 ^ top_bit (n div 2) \<le> n div 2 \<and> n div 2 < 2 ^ Suc (top_bit (n div 2))" using 1 by simp
    then have "2 * 2 ^ top_bit (n div 2) \<le> n \<and> n < 2 * 2 ^ Suc (top_bit (n div 2))" by linarith
    with False show ?thesis by (simp add: top_bit.simps [of n])
  qed
qed

lemma round_even_near:
  assumes "2 ^ (52 + k) \<le> n" and "n < 2 ^ (53 + k)"
  shows "2 ^ 52 \<le> round_even n k" and "round_even n k \<le> 2 ^ 53"
    and "\<bar>real (round_even n k) * 2 ^ k - real n\<bar> * 2 \<le> 2 ^ k"
proof -
  let ?q = "n div 2 ^ k" and ?r = "n mod 2 ^ k"
  have n: "n = ?q * 2 ^ k + ?r" by (simp only: div_mult_mod_eq)
  have r: "?r < 2 ^ k" by simp
  have q: "2 ^ 52 \<le> ?q" "?q < 2 ^ 53"
    using assms by (simp_all add: power_add less_mult_imp_div_less less_eq_div_iff_mult_less_eq)
  have c: "round_even n k = ?q \<and> 2 * ?r \<le> 2 ^ k \<or> round_even n k = ?q + 1 \<and> 2 ^ k \<le> 2 * ?r"
    by (auto simp: round_even_def Let_def)
  then show "2 ^ 52 \<le> round_even n k" "round_even n k \<le> 2 ^ 53" using q by auto
  have rn: "real n = real ?q * 2 ^ k + real ?r" by (subst n) simp
  show "\<bar>real (round_even n k) * 2 ^ k - real n\<bar> * 2 \<le> 2 ^ k"
    using c
  proof
    assume "round_even n k = ?q \<and> 2 * ?r \<le> 2 ^ k"
    then have "real (2 * ?r) \<le> real (2 ^ k)" "round_even n k = ?q" by (metis of_nat_le_iff)+
    then show ?thesis unfolding rn by simp
  next
    assume "round_even n k = ?q + 1 \<and> 2 ^ k \<le> 2 * ?r"
    then have "real (2 ^ k) \<le> real (2 * ?r)" "round_even n k = ?q + 1" "real ?r < real (2 ^ k)"
      using r by (metis of_nat_le_iff of_nat_less_iff)+
    then show ?thesis unfolding rn by (simp add: algebra_simps)
  qed
qed

lemma double_pattern:
  assumes "e \<le> 64" and "2 ^ 52 \<le> q" and "q \<le> 2 ^ 53" and "x = of_nat ((e + 1022) * 2 ^ 52 + q)"
  shows "double_size x = real q * 2 powr (real e - 52)" and "\<not> bit x 63"
proof -
  let ?N = "(e + 1022) * 2 ^ 52 + q"
  have N: "?N < 2 ^ 63" using assms(1,3) by simp
  then have u: "unat x = ?N" unfolding assms(4) by (intro unat_of_nat64) simp
  have b: "bit x 63 = bit (unat x) 63" by (simp add: bit_unsigned_iff)
  then show nb: "\<not> bit x 63" using u N by (simp add: bit_iff_odd)
  have "magnitude x = x"
  proof (rule bit_word_eqI)
    fix i :: nat assume "i < LENGTH(64)"
    then show "bit (magnitude x) i \<longleftrightarrow> bit x i" using nb by (cases "i = 63") (auto simp: bit_magnitude)
  qed
  moreover have "unat (drop_bit 52 x) = unat x div 2 ^ 52" unfolding drop_bit_eq_div by (simp add: unat_div)
  moreover have "unat (x AND mask 52) = unat x mod 2 ^ 52" unfolding take_bit_eq_mask [symmetric] take_bit_eq_mod by (simp add: unat_mod)
  ultimately have d: "double_size x = (if ?N div 2 ^ 52 = 0 then real (?N mod 2 ^ 52) * 2 powr (- 1074)
      else (2 ^ 52 + real (?N mod 2 ^ 52)) * 2 powr (real (?N div 2 ^ 52) - 1075))"
    unfolding double_size_def Let_def u by simp
  show "double_size x = real q * 2 powr (real e - 52)"
  proof (cases "q < 2 ^ 53")
    case True
    have "?N = (q - 2 ^ 52) + (e + 1023) * 2 ^ 52" using assms(2) by simp
    moreover have "q - 2 ^ 52 < 2 ^ 52" using True assms(2) by simp
    ultimately have "?N div 2 ^ 52 = e + 1023 \<and> ?N mod 2 ^ 52 = q - 2 ^ 52"
      by (simp only: div_mult_self1 mod_mult_self1) simp
    then show ?thesis unfolding d using assms(2) by (simp add: of_nat_diff)
  next
    case False
    then have "?N div 2 ^ 52 = e + 1024 \<and> ?N mod 2 ^ 52 = 0" using assms(3) by simp
    then show ?thesis unfolding d using assms(3) False by (simp add: powr_diff powr_add)
  qed
qed

lemma double_of_nat_near:
  assumes "n \<le> 2 ^ 63"
  shows "\<bar>double_size (double_of_nat n) - real n\<bar> * 2 ^ 53 \<le> real n" and "\<not> bit (double_of_nat n) 63"
    and "n < 2 ^ 53 \<Longrightarrow> double_size (double_of_nat n) = real n"
proof -
  let ?e = "top_bit n"
  let ?q = "if ?e \<le> 52 then n * 2 ^ (52 - ?e) else round_even n (?e - 52)"
  have "\<bar>double_size (double_of_nat n) - real n\<bar> * 2 ^ 53 \<le> real n \<and> \<not> bit (double_of_nat n) 63 \<and>
      (n < 2 ^ 53 \<longrightarrow> double_size (double_of_nat n) = real n)"
  proof (cases "n = 0")
    case True
    then show ?thesis by (simp add: double_of_nat_def double_size_zero magnitude_def)
  next
    case False
    then have b: "2 ^ ?e \<le> n" "n < 2 ^ Suc ?e" using top_bit_bounds [of n] by simp_all
    have "(2 :: nat) ^ ?e \<le> 2 ^ 63" using b(1) assms by linarith
    then have e: "?e \<le> 63" by (rule power_le_imp_le_exp [rotated]) simp
    have x: "double_of_nat n = of_nat ((?e + 1022) * 2 ^ 52 + ?q)" using False by (simp add: double_of_nat_def Let_def)
    show ?thesis
    proof (cases "?e \<le> 52")
      case True
      have pw: "2 ^ ?e * 2 ^ (52 - ?e) = (2 :: nat) ^ 52" using True by (simp flip: power_add)
      have "2 ^ ?e * 2 ^ (52 - ?e) \<le> n * 2 ^ (52 - ?e)" using b(1) by (rule mult_le_mono1)
      moreover have "n * 2 ^ (52 - ?e) \<le> 2 * (2 ^ ?e * 2 ^ (52 - ?e))"
        using b(2) mult_le_mono1 [of n "2 * 2 ^ ?e" "2 ^ (52 - ?e)"] by (simp add: mult.assoc)
      ultimately have q: "2 ^ 52 \<le> ?q" "?q \<le> 2 ^ 53" using True unfolding pw by simp_all
      have "double_size (double_of_nat n) = real ?q * 2 powr (real ?e - 52)" "\<not> bit (double_of_nat n) 63"
        using double_pattern [OF _ q x] e by simp_all
      moreover have "(2 :: real) ^ (52 - ?e) = 2 powr (52 - real ?e)"
        using True by (simp add: of_nat_diff flip: powr_realpow)
      then have "real ?q * 2 powr (real ?e - 52) = real n" using True by (simp flip: powr_add)
      ultimately show ?thesis by simp
    next
      case big: False
      define k where "k = ?e - 52"
      have k: "?e = 52 + k" using big by (simp add: k_def)
      then have n: "2 ^ (52 + k) \<le> n" "n < 2 ^ (53 + k)" using b by simp_all
      have q: "?q = round_even n k" using big k by simp
      note r = round_even_near [OF n]
      have "double_size (double_of_nat n) = real ?q * 2 powr (real ?e - 52)" "\<not> bit (double_of_nat n) 63"
        using double_pattern [OF _ _ _ x] e r q by simp_all
      moreover have "2 powr (real ?e - 52) = 2 ^ k" by (simp add: k powr_realpow)
      moreover have "(2 :: real) ^ k * 2 ^ 52 \<le> real n"
        using n(1) by (metis add.commute of_nat_le_iff of_nat_numeral of_nat_power power_add)
      moreover have "(2 :: nat) ^ 53 \<le> 2 ^ (52 + k)" using big k by (intro power_increasing) simp_all
      then have "\<not> n < 2 ^ 53" using n(1) by linarith
      ultimately show ?thesis using r(3) q by simp
    qed
  qed
  then show "\<bar>double_size (double_of_nat n) - real n\<bar> * 2 ^ 53 \<le> real n" "\<not> bit (double_of_nat n) 63"
    "n < 2 ^ 53 \<Longrightarrow> double_size (double_of_nat n) = real n" by blast+
qed

text \<open>
  \<open>difftime\<close> is the difference, wrapped to 64 bits, with a relative error of at most
  \<open>2 powr - 53\<close>, and exact below \<open>2 ^ 53\<close>.
\<close>

theorem difftime_rounds:
  fixes time1 time2 :: "64 word"
  defines "v \<equiv> real_of_int (sint (time1 - time2))"
  shows "\<bar>double_value (difftime time1 time2) - v\<bar> * 2 ^ 53 \<le> \<bar>v\<bar> \<and>
    (\<bar>v\<bar> < 2 ^ 53 \<longrightarrow> double_value (difftime time1 time2) = v)"
proof -
  let ?i = "sint (time1 - time2)"
  have "- (2 ^ 63) \<le> ?i" "?i < 2 ^ 63" using sint_ge [of "time1 - time2"] sint_lt [of "time1 - time2"] by simp_all
  then have n: "nat \<bar>?i\<bar> \<le> 2 ^ 63" by simp
  have r: "real (nat \<bar>?i\<bar>) = \<bar>v\<bar>" by (simp add: v_def)
  note d = double_of_nat_near [OF n, unfolded r]
  have s: "nat \<bar>?i\<bar> < 2 ^ 53 \<longleftrightarrow> \<bar>v\<bar> < 2 ^ 53" using r by (metis of_nat_less_iff of_nat_numeral of_nat_power)
  have p: "double_value (double_of_nat (nat \<bar>?i\<bar>)) = double_size (double_of_nat (nat \<bar>?i\<bar>))"
    using d(2) by (simp add: double_value_def)
  have "double_value (difftime time1 time2) = (if ?i < 0 then - 1 else 1) * double_size (double_of_nat (nat \<bar>?i\<bar>))"
    using p by (cases "?i < 0") (simp_all add: difftime_def double_of_int_def double_value_negated)
  moreover have "v = (if ?i < 0 then - 1 else 1) * \<bar>v\<bar>"
    unfolding v_def by (cases "?i < 0") (simp_all del: of_int_sint)
  ultimately have "double_value (difftime time1 time2) - v = (if ?i < 0 then - 1 else 1) * (double_size (double_of_nat (nat \<bar>?i\<bar>)) - \<bar>v\<bar>)"
    by (simp add: algebra_simps split: if_splits)
  then have "\<bar>double_value (difftime time1 time2) - v\<bar> = \<bar>double_size (double_of_nat (nat \<bar>?i\<bar>)) - \<bar>v\<bar>\<bar>"
    by (simp add: abs_mult)
  then show ?thesis using d(1,3) s by (intro conjI impI) simp_all
qed

end
