(* ===== verification/Dirent.thy ===== *)
theory Dirent
  imports SysMem CString
begin

section \<open>dirent.h\<close>

text \<open>
  A \<^verbatim>\<open>DIR *\<close> is the complement of a descriptor. A \<^verbatim>\<open>struct linux_dirent64\<close> has
  \<^verbatim>\<open>d_ino\<close> at offset 0, \<^verbatim>\<open>d_off\<close> at 8 and \<^verbatim>\<open>d_name\<close> at 19, and 24 bytes
  before the flexible part; \<^verbatim>\<open>NAME_MAX\<close> is 255, so that \<^verbatim>\<open>buf\<close> has 280 bytes. A
  \<^verbatim>\<open>struct dirent\<close> is an inode number and 256 characters. \<open>fp\<close> is the address of
  \<^verbatim>\<open>buf\<close>, \<open>fl\<close> that of the local of \<open>lseek\<close>.
\<close>

definition fdopendir :: "'w target \<Rightarrow> i32 \<Rightarrow> 'w cstate \<Rightarrow> addr \<times> 'w cstate" where
  "fdopendir T fd s = (if fd <s 0 then (0, SET_ERRNO (EBADF T) s) else (scast (NOT fd), s))"

definition opendir :: "'w target \<Rightarrow> addr \<Rightarrow> 'w cstate \<Rightarrow> addr \<times> 'w cstate" where
  "opendir T name s =
     (let (fd, s) = open_file T name (O_RDONLY T) 0 s in
      if fd = - 1 then (0, s) else fdopendir T fd s)"

definition closedir :: "'w target \<Rightarrow> addr \<Rightarrow> 'w cstate \<Rightarrow> i32 \<times> 'w cstate" where
  "closedir T dirp s =
     (if 0 \<le>s dirp then (- 1, SET_ERRNO (EBADF T) s) else close T (ucast (NOT dirp)) s)"

definition readdir_r ::
  "'w target \<Rightarrow> addr \<Rightarrow> addr \<Rightarrow> addr \<Rightarrow> addr \<Rightarrow> addr \<Rightarrow> 'w cstate \<Rightarrow> (i32 \<times> 'w cstate) option" where
  "readdir_r T fp fl dirp entry res s =
     (if 0 \<le>s dirp then Some (EBADF T, s)
      else
        let fd = ucast (NOT dirp);
            (ret, s) = sys_getdents64 T fd fp 280 s in
        if ret <s 0 then Some (- ret, s)
        else if ret = 0 then do { s \<leftarrow> cstore64 res 0 s; Some (0, s) }
        else do {
          d_off \<leftarrow> cload64 (fp + 8) s;
          (off, s) \<leftarrow> lseek T fl fd d_off 0 s;
          let ret = (ucast off :: i32) in
          if ret = - 1 then Some (errno s, s)
          else do {
            d_ino \<leftarrow> cload64 fp s;
            s \<leftarrow> cstore64 entry d_ino s;
            (_, m) \<leftarrow> strlcpy (cmem s) (entry + 8) (fp + 19) 256;
            s \<leftarrow> cstore64 res entry (s\<lparr>cmem := m\<rparr>);
            Some (0, s) } })"

end
