(* ===== verification/DirProps.thy ===== *)
theory DirProps
  imports CStringCopy StreamFacts ProcessProps Dirent Linux
begin

section \<open>Properties of directories\<close>

text \<open>
  A directory is the list of its entries: inode number, the offset behind the entry, and name. What
  the kernel promises of a descriptor of it: \<^verbatim>\<open>getdents64\<close> puts the entries from the
  position on into the buffer, of which only the first is used here, and may move the position
  anywhere; it returns 0 at the end; \<^verbatim>\<open>lseek\<close> to the offset of an entry moves behind
  this entry. \<open>pos\<close> is the number of entries before the position.
\<close>

type_synonym entry = "i64 \<times> i64 \<times> byte list"

definition entry_at :: "mem \<Rightarrow> addr \<Rightarrow> entry \<Rightarrow> bool" where
  "entry_at m p e =
     (case e of (ino, off, name) \<Rightarrow> load64 m p = Some ino \<and> load64 m (p + 8) = Some off \<and> cstr m (p + 19) name)"

definition serves_dir :: "'w target \<Rightarrow> i32 \<Rightarrow> entry list \<Rightarrow> ('w \<Rightarrow> nat) \<Rightarrow> bool" where
  "serves_dir T fd dir pos \<longleftrightarrow>
     (\<forall>m w p. mapped m p 280 \<longrightarrow>
        (\<exists>k m' w'. kcall T ''getdents64'' [scast fd, p, 280] m w = (of_nat k, m', w') \<and> k \<le> 280 \<and>
           (\<forall>a. \<not> in_range p 280 a \<longrightarrow> m' a = m a) \<and> mapped m' p 280 \<and>
           (if pos w < length dir then 0 < k \<and> entry_at m' p (dir ! pos w) else k = 0 \<and> pos w' = pos w))) \<and>
     (\<forall>m w i ino off name. i < length dir \<and> dir ! i = (ino, off, name) \<longrightarrow>
        (\<exists>w'. kcall T ''lseek'' [scast fd, off, 0] m w = (off, m, w') \<and> pos w' = Suc i))"

text \<open>
  Offsets that \<open>lseek\<close> does not take for errors, among them none whose low half is -1, which
  \<open>readdir_r\<close> takes for one; names that fit.
\<close>

definition entry_ok :: "entry \<Rightarrow> bool" where
  "entry_ok e = (case e of (ino, off, name) \<Rightarrow> 0 \<le>s off \<and> (ucast off :: i32) \<noteq> - 1 \<and> length name \<le> 255)"

text \<open>The buffers of \<open>readdir_r\<close> and of its caller.\<close>

definition dir_frame :: "mem \<Rightarrow> addr \<Rightarrow> addr \<Rightarrow> addr \<Rightarrow> addr \<Rightarrow> bool" where
  "dir_frame m fp fl entry res \<longleftrightarrow>
     mapped m fp 280 \<and> mapped m fl 8 \<and> mapped m entry 264 \<and> mapped m res 8 \<and>
     apart fl 8 fp 280 \<and> apart entry 264 fp 280 \<and> apart res 8 entry 264"

definition dir_same :: "addr \<Rightarrow> addr \<Rightarrow> addr \<Rightarrow> addr \<Rightarrow> mem \<Rightarrow> mem \<Rightarrow> bool" where
  "dir_same fp fl entry res m m' \<longleftrightarrow>
     (\<forall>a. \<not> in_range fp 280 a \<and> \<not> in_range fl 8 a \<and> \<not> in_range entry 264 a \<and> \<not> in_range res 8 a \<longrightarrow> m' a = m a)"

lemma getdents_call:
  assumes "serves_dir T fd dir pos" and "mapped (cmem s) fp 280"
  shows "\<exists>k m w. sys_getdents64 T fd fp 280 s = (of_nat k, s\<lparr>cmem := m, kern := w\<rparr>) \<and> k \<le> 280 \<and>
    (\<forall>a. \<not> in_range fp 280 a \<longrightarrow> m a = cmem s a) \<and> mapped m fp 280 \<and>
    (if pos (kern s) < length dir then 0 < k \<and> entry_at m fp (dir ! pos (kern s)) else k = 0 \<and> pos w = pos (kern s))"
proof -
  obtain k m' w' where k: "kcall T ''getdents64'' [scast fd, fp, 280] (cmem s) (kern s) = (of_nat k, m', w')" "k \<le> 280"
      "\<forall>a. \<not> in_range fp 280 a \<longrightarrow> m' a = cmem s a" "mapped m' fp 280"
      "if pos (kern s) < length dir then 0 < k \<and> entry_at m' fp (dir ! pos (kern s)) else k = 0 \<and> pos w' = pos (kern s)"
    using assms(1) [unfolded serves_dir_def, THEN conjunct1, rule_format, OF assms(2), of "kern s"]
    by (elim exE conjE) (rule that)
  have "(ucast (of_nat k :: i64) :: i32) = of_nat k" by (rule bit_word_eqI) (auto simp: bit_simps)
  with k show ?thesis
    by (intro exI [of _ k] exI [of _ m'] exI [of _ w'])
      (simp add: sys_getdents64_def int_result_def my_syscall3_def syscall_insn_def)
qed

lemma lseek_call:
  assumes "serves_dir T fd dir pos" and "nr_defined T ''lseek''" and "0 <s ENOSYS T"
    and "i < length dir" and "dir ! i = (ino, off, name)" and "0 \<le>s off" and "mapped (cmem s) fl 8"
  shows "\<exists>w. lseek T fl fd off 0 s = Some (off, s\<lparr>cmem := poke (cmem s) fl (le_bytes 8 0), kern := w\<rparr>) \<and> pos w = Suc i"
proof -
  let ?m = "poke (cmem s) fl (le_bytes 8 0)"
  obtain w where w: "kcall T ''lseek'' [scast fd, off, 0] ?m (kern s) = (off, ?m, w)" "pos w = Suc i"
    using assms(1,4,5) unfolding serves_dir_def by blast
  have "sint (scast (- ENOSYS T) :: i64) < 0"
    using assms(3) sint_neg32 [of "ENOSYS T"] by (simp add: word_sless_alt sint_scast32)
  then have "off \<noteq> scast (- ENOSYS T)" using assms(6) by (auto simp: word_sle_eq)
  with w show ?thesis
    using assms by (auto simp: lseek_def cstore64_def store64_eq sys_lseek_def my_syscall3_def syscall_insn_def sysret_def
        word_sless_alt word_sle_eq)
qed


lemma dir_handle:
  assumes "dirp = scast (NOT fd :: i32)" and "0 \<le>s fd"
  shows "\<not> (0 :: i64) \<le>s dirp" and "(ucast (NOT dirp) :: i32) = fd"
proof -
  have "sint (NOT fd) = - sint fd - 1"
    using sint_range32 [of fd] by (simp add: signed_not_eq not_int_def signed_take_bit_int_eq_self)
  then show "\<not> (0 :: i64) \<le>s dirp" using assms by (simp add: word_sle_eq sint_scast32)
  show "(ucast (NOT dirp) :: i32) = fd" unfolding assms(1) by (rule bit_word_eqI) (auto simp: bit_simps)
qed

lemma readdir_end:
  assumes "serves_dir T fd dir pos" and "dir_frame (cmem s) fp fl entry res" and "dirp = scast (NOT fd)" and "0 \<le>s fd"
    and "pos (kern s) = length dir"
  shows "\<exists>s'. readdir_r T fp fl dirp entry res s = Some (0, s') \<and> load64 (cmem s') res = Some 0"
proof -
  have d: "\<not> 0 \<le>s dirp" "(ucast (NOT dirp) :: i32) = fd" using assms(3,4) dir_handle by blast+
  obtain m w where k: "sys_getdents64 T fd fp 280 s = (0, s\<lparr>cmem := m, kern := w\<rparr>)"
      "\<forall>a. \<not> in_range fp 280 a \<longrightarrow> m a = cmem s a" "mapped m fp 280"
    using getdents_call [OF assms(1), of s fp] assms(2,5) by (auto simp: dir_frame_def)
  have "mapped m res 8" using k(2,3) assms(2) by (auto simp: dir_frame_def intro: mapped_after)
  then show ?thesis
    using d k(1) by (simp add: readdir_r_def cstore64_def store64_eq Let_def load64_bytes bytes_at_poke_self)
qed

text \<open>The stores of a successful call, after the kernel filled the buffer in \<open>m1\<close>.\<close>

lemma readdir_stores:
  assumes f: "dir_frame m1 fp fl entry res" and e: "entry_at m1 fp (ino, off, name)" and name: "length name \<le> 255"
    and m2: "m2 = poke m1 fl (le_bytes 8 0)" and m3: "m3 = poke m2 entry (le_bytes 8 (unat ino))"
    and m4: "m4 = poke m3 (entry + 8) (name @ [0])" and m5: "m5 = poke m4 res (le_bytes 8 (unat entry))"
  shows "load64 m2 fp = Some ino" and "strlcpy m3 (entry + 8) (fp + 19) 256 = Some (of_nat (length name), m4)"
    and "load64 m5 res = Some entry" and "load64 m5 entry = Some ino" and "cstr m5 (entry + 8) name"
    and "dir_frame m5 fp fl entry res" and "dir_same fp fl entry res m1 m5"
proof -
  have at: "load64 m1 fp = Some ino" "cstr m1 (fp + 19) name" using e by (auto simp: entry_at_def)
  have ap: "apart fl 8 fp 8" "apart fl 8 (fp + 19) (Suc (length name))" "apart entry 8 (fp + 19) (Suc (length name))"
    "apart (entry + 8) (Suc (length name)) (fp + 19) (Suc (length name))"
    "apart (entry + 8) (Suc (length name)) entry 8" "apart res 8 entry 8" "apart res 8 (entry + 8) (Suc (length name))"
    using f name apart_sub [of fl 8 fp 280 0 8 0 8] apart_sub [of fl 8 fp 280 0 8 19 "Suc (length name)"]
      apart_sub [of entry 264 fp 280 0 8 19 "Suc (length name)"] apart_next [of 8 "Suc (length name)" entry]
      apart_sub [of entry 264 fp 280 8 "Suc (length name)" 19 "Suc (length name)"]
      apart_sub [of res 8 entry 264 0 8 0 8] apart_sub [of res 8 entry 264 0 8 8 "Suc (length name)"]
    by (simp_all add: dir_frame_def)
  show "load64 m2 fp = Some ino" using at(1) ap(1) by (simp add: m2 load64_def load_le_poke_apart)
  have nm: "cstr m3 (fp + 19) name" using at(2) ap(2,3) by (simp add: m2 m3 cstr_poke_apart)
  have mn: "min (unat (256 :: i64)) (Suc (length name)) = Suc (length name)" using name by simp
  have "mapped m3 (entry + 8) (Suc (length name))"
    using f mapped_part [of m1 entry 264 8 "Suc (length name)"] name
    by (simp add: dir_frame_def m3 m2 del: mapped.simps)
  then show "strlcpy m3 (entry + 8) (fp + 19) 256 = Some (of_nat (length name), m4)"
    using strlcpy_eq [OF nm, of "entry + 8" 256, unfolded mn] ap(4) name by (simp add: m4)
  show "load64 m5 res = Some entry" "load64 m5 entry = Some ino" "cstr m5 (entry + 8) name"
    using ap(5-7) cstr_nonzero [OF at(2)] name
    by (simp_all add: load64_bytes bytes_at_poke_self cstr_iff_bytes bytes_at_poke_apart m5 m4 m3 del: bytes_at_append)
  show "dir_frame m5 fp fl entry res" using f by (simp add: dir_frame_def m5 m4 m3 m2)
  have "\<not> in_range (entry + 8) (Suc (length name)) a \<and> \<not> in_range entry 8 a" if "\<not> in_range entry 264 a" for a
    using that name in_range_add [of 8 "Suc (length name)" 264 entry] in_range_mono [of entry 8 _ 264] by auto
  then show "dir_same fp fl entry res m1 m5" by (simp add: dir_same_def m5 m4 m3 m2 poke_outside)
qed

lemma dir_frame_filled:
  assumes "dir_frame m fp fl entry res" and "\<forall>a. \<not> in_range fp 280 a \<longrightarrow> m1 a = m a" and "mapped m1 fp 280"
  shows "dir_frame m1 fp fl entry res"
  using assms by (auto simp: dir_frame_def intro: mapped_after [of m _ _ fp 280 m1])

lemma readdir_next:
  assumes srv: "serves_dir T fd dir pos" and T: "nr_defined T ''lseek''" "0 <s ENOSYS T"
    and f: "dir_frame (cmem s) fp fl entry res" and dp: "dirp = scast (NOT fd)" "0 \<le>s fd"
    and e: "pos (kern s) < length dir" "dir ! pos (kern s) = (ino, off, name)" "entry_ok (ino, off, name)"
  shows "\<exists>m w. readdir_r T fp fl dirp entry res s = Some (0, s\<lparr>cmem := m, kern := w\<rparr>) \<and> pos w = Suc (pos (kern s)) \<and>
    load64 m res = Some entry \<and> load64 m entry = Some ino \<and> cstr m (entry + 8) name \<and>
    dir_frame m fp fl entry res \<and> dir_same fp fl entry res (cmem s) m"
proof -
  have d: "\<not> 0 \<le>s dirp" "(ucast (NOT dirp) :: i32) = fd" using dir_handle [OF dp] by blast+
  have off: "0 \<le>s off" "(ucast off :: i32) \<noteq> - 1" and name: "length name \<le> 255" using e(3) by (auto simp: entry_ok_def)
  obtain k m1 w1 where k: "sys_getdents64 T fd fp 280 s = (of_nat k, s\<lparr>cmem := m1, kern := w1\<rparr>)" "0 < k" "k \<le> 280"
      "\<forall>a. \<not> in_range fp 280 a \<longrightarrow> m1 a = cmem s a" "mapped m1 fp 280" "entry_at m1 fp (ino, off, name)"
    using getdents_call [OF srv, of s fp] e(1,2) f by (auto simp: dir_frame_def)
  have ret: "\<not> (of_nat k :: i32) <s 0" "(of_nat k :: i32) \<noteq> 0"
    using k(2,3) slt_of_nat32 [of k 0] sint_of_nat32 [of k] by auto
  have f1: "dir_frame m1 fp fl entry res" using f k(4,5) by (rule dir_frame_filled)
  define m2 where "m2 = poke m1 fl (le_bytes 8 0)"
  define m3 where "m3 = poke m2 entry (le_bytes 8 (unat ino))"
  define m4 where "m4 = poke m3 (entry + 8) (name @ [0])"
  define m5 where "m5 = poke m4 res (le_bytes 8 (unat entry))"
  note st = readdir_stores [OF f1 k(6) name m2_def m3_def m4_def m5_def]
  have mp: "mapped m1 fl 8" "mapped m2 entry 8" "mapped m4 res 8" "load64 m1 (fp + 8) = Some off"
    using f1 k(6) mapped_mono [of m1 entry 264 8] by (auto simp: dir_frame_def m2_def m3_def m4_def entry_at_def)
  obtain w2 where w2: "lseek T fl fd off 0 (s\<lparr>cmem := m1, kern := w1\<rparr>) = Some (off, s\<lparr>cmem := m2, kern := w2\<rparr>)"
      "pos w2 = Suc (pos (kern s))"
    using lseek_call [OF srv T e(1,2) off(1), of "s\<lparr>cmem := m1, kern := w1\<rparr>" fl] mp(1) by (auto simp: m2_def)
  have "readdir_r T fp fl dirp entry res s = Some (0, s\<lparr>cmem := m5, kern := w2\<rparr>)"
    using d k(1) ret w2(1) off(2) st(1,2) mp
    by (simp add: readdir_r_def Let_def cload64_def cstore64_def store64_eq flip: m3_def m5_def)
  moreover have "dir_same fp fl entry res (cmem s) m5" using st(7) k(4) by (simp add: dir_same_def)
  ultimately show ?thesis using w2(2) st(3-6) by blast
qed

text \<open>\<open>entries_read\<close>: call by call, what a program sees that reads a directory to its end.\<close>

fun entries_read :: "('w cstate \<Rightarrow> (i32 \<times> 'w cstate) option) \<Rightarrow> addr \<Rightarrow> addr \<Rightarrow> 'w cstate \<Rightarrow> (i64 \<times> byte list) list \<Rightarrow> bool" where
  "entries_read next entry res s [] \<longleftrightarrow> (\<exists>s'. next s = Some (0, s') \<and> load64 (cmem s') res = Some 0)"
| "entries_read next entry res s ((ino, name) # es) \<longleftrightarrow>
     (\<exists>s'. next s = Some (0, s') \<and> load64 (cmem s') res = Some entry \<and> load64 (cmem s') entry = Some ino \<and>
        cstr (cmem s') (entry + 8) name \<and> entries_read next entry res s' es)"

lemma readdir_lists:
  assumes srv: "serves_dir T fd dir pos" and T: "nr_defined T ''lseek''" "0 <s ENOSYS T"
    and dp: "dirp = scast (NOT fd)" "0 \<le>s fd" and ok: "\<forall>e \<in> set dir. entry_ok e"
  shows "dir_frame (cmem s) fp fl entry res \<Longrightarrow> pos (kern s) \<le> length dir \<Longrightarrow>
    entries_read (readdir_r T fp fl dirp entry res) entry res s (List.map (\<lambda>(ino, off, name). (ino, name)) (drop (pos (kern s)) dir))"
proof (induction "length dir - pos (kern s)" arbitrary: s)
  case 0
  then show ?case using readdir_end [OF srv _ dp, of s] by auto
next
  case (Suc n)
  then have lt: "pos (kern s) < length dir" by simp
  obtain ino off name where e: "dir ! pos (kern s) = (ino, off, name)" by (metis prod.exhaust)
  then have ok': "entry_ok (ino, off, name)" using ok lt nth_mem by metis
  obtain m w where n: "readdir_r T fp fl dirp entry res s = Some (0, s\<lparr>cmem := m, kern := w\<rparr>)" "pos w = Suc (pos (kern s))"
      "load64 m res = Some entry" "load64 m entry = Some ino" "cstr m (entry + 8) name" "dir_frame m fp fl entry res"
    using readdir_next [OF srv T Suc.prems(1) dp lt e ok'] by blast
  have "n = length dir - pos w" using Suc.hyps(2) n(2) by simp
  then have "entries_read (readdir_r T fp fl dirp entry res) entry res (s\<lparr>cmem := m, kern := w\<rparr>)
      (List.map (\<lambda>(ino, off, name). (ino, name)) (drop (pos w) dir))"
    using Suc.hyps(1) [of "s\<lparr>cmem := m, kern := w\<rparr>"] n(2,6) lt by simp
  moreover have "drop (pos (kern s)) dir = (ino, off, name) # drop (pos w) dir"
    using lt e n(2) by (simp add: Cons_nth_drop_Suc [symmetric])
  ultimately show ?case using n by auto
qed

text \<open>
  Property C12. A directory opened by \<open>opendir\<close> and read by \<open>readdir_r\<close> to its end gives
  every entry once and in order, inode number and name, and then the end, though each call asks the
  kernel for as many entries as fit; \<open>closedir\<close> closes the descriptor. The offsets are not
  those that \<open>readdir_r\<close> takes for errors.
\<close>

theorem directory_read:
  assumes "open_file T path (O_RDONLY T) 0 s = (fd, s0)" and "0 \<le>s fd"
    and "serves_dir T fd dir pos" and "pos (kern s0) = 0" and "\<forall>e \<in> set dir. entry_ok e"
    and "nr_defined T ''lseek''" and "0 <s ENOSYS T" and "dir_frame (cmem s0) fp fl entry res"
  shows "opendir T path s = (scast (NOT fd), s0) \<and>
    entries_read (readdir_r T fp fl (scast (NOT fd)) entry res) entry res s0 (List.map (\<lambda>(ino, off, name). (ino, name)) dir) \<and>
    closedir T (scast (NOT fd)) s1 = close T fd s1"
proof -
  have "fd \<noteq> - 1" "\<not> fd <s 0" using assms(2) by (auto simp: word_sle_eq word_sless_alt)
  then have "opendir T path s = (scast (NOT fd), s0)" using assms(1) by (simp add: opendir_def fdopendir_def)
  moreover have "closedir T (scast (NOT fd)) s1 = close T fd s1"
    using dir_handle [OF refl assms(2)] by (simp add: closedir_def)
  ultimately show ?thesis
    using readdir_lists [OF assms(3,6,7) refl assms(2,5,8)] assms(4) by simp
qed

text \<open>A kernel with one directory; the offset of an entry is its number.\<close>

definition entry_bytes :: "entry \<Rightarrow> byte list" where
  "entry_bytes e = (case e of (ino, off, name) \<Rightarrow>
     le_bytes 8 (unat ino) @ le_bytes 8 (unat off) @ [24, 0, 0] @ name @ [0])"

definition dir_kernel :: "entry list \<Rightarrow> sysnr \<Rightarrow> i64 list \<Rightarrow> mem \<Rightarrow> nat \<Rightarrow> i64 \<times> mem \<times> nat" where
  "dir_kernel dir nr args m w =
     (if nr = ''getdents64''
      then if w < length dir then (24, poke m (args ! 1) (entry_bytes (dir ! w)), length dir) else (0, m, w)
      else if nr = ''lseek'' then (args ! 1, m, unat (args ! 1)) else (3, m, 0))"

lemma dir_kernel_serves:
  assumes "\<forall>i < length dir. fst (snd (dir ! i)) = of_nat (Suc i) \<and> length (snd (snd (dir ! i))) \<le> 255 \<and> 0 \<notin> set (snd (snd (dir ! i)))"
    and "length dir < 2 ^ 63"
  shows "serves_dir (x86_linux (dir_kernel dir)) fd dir (\<lambda>w. w)"
proof -
  have "entry_at (poke m p (entry_bytes (dir ! w))) p (dir ! w) \<and>
      (\<forall>a. \<not> in_range p 280 a \<longrightarrow> poke m p (entry_bytes (dir ! w)) a = m a)" if w: "w < length dir" for m p w
  proof (cases "dir ! w")
    case (fields ino off name)
    with assms(1) w have n: "length name \<le> 255" "0 \<notin> set name" by force+
    then have l: "length (entry_bytes (dir ! w)) \<le> 280" by (simp add: entry_bytes_def fields)
    then have "bytes_at (poke m p (entry_bytes (dir ! w))) p (entry_bytes (dir ! w))" by (intro bytes_at_poke_self) simp
    then have "entry_at (poke m p (entry_bytes (dir ! w))) p (dir ! w)"
      using n(2) by (simp add: entry_bytes_def fields entry_at_def load64_bytes cstr_iff_bytes add.assoc)
    with l show ?thesis using in_range_mono poke_outside by blast
  qed
  moreover have "unat (of_nat (Suc i) :: i64) = Suc i" if "i < length dir" for i
    using that assms(2) by (intro unat_of_nat64) simp
  ultimately show ?thesis
    unfolding serves_dir_def using assms(1) by (auto simp: dir_kernel_def intro!: exI [of _ 24])
qed

theorem directory_read_witness:
  "\<exists>s0. opendir (x86_linux (dir_kernel [(7, 1, [46]), (9, 2, [97, 98])])) 100 (process (\<lambda>_. Some 0) 0) = (- 4, s0) \<and>
     entries_read (readdir_r (x86_linux (dir_kernel [(7, 1, [46]), (9, 2, [97, 98])])) 1000 2000 (- 4) 3000 4000) 3000 4000 s0
       [(7, [46]), (9, [97, 98])]"
proof -
  let ?dir = "[(7, 1, [46]), (9, 2, [97, 98])] :: entry list"
  let ?T = "x86_linux (dir_kernel ?dir)" and ?s = "process (\<lambda>_. Some 0) 0 :: nat cstate"
  have nneg: "\<not> (3 :: i32) <s 0" by code_simp
  have "serves_dir ?T 3 ?dir (\<lambda>w. w)" by (rule dir_kernel_serves) (code_simp, simp)
  moreover have "\<forall>e \<in> set ?dir. entry_ok e" by code_simp
  moreover have "(0 :: i32) <s ENOSYS ?T" "(0 :: i32) \<le>s 3" "scast (NOT (3 :: i32)) = (- 4 :: i64)" by code_simp+
  moreover have "nr_defined ?T ''lseek''" by (simp add: x86_linux_def)
  moreover have "dir_frame (\<lambda>_. Some 0) 1000 2000 3000 4000"
    by (simp add: dir_frame_def mapped_total apart_def)
  moreover have "open_file ?T 100 (O_RDONLY ?T) 0 ?s = (3, ?s)" 
    using nneg by (simp add: open_file_def returning_def sys_open_def int_result_def my_syscall4_def syscall_insn_def dir_kernel_def sysret_def)
  ultimately show ?thesis
    using directory_read [of ?T 100 ?s 3 ?s ?dir "\<lambda>w. w" 1000 2000 3000 4000]
    by (intro exI [of _ ?s]) (simp del: entries_read.simps)
qed

text \<open>
  The offset ext4 gives the last entry, \<open>2 ^ 63 - 1\<close>, is one of those: the call does not report
  the entry, and returns the \<open>errno\<close> of an earlier failure, or 0 with \<open>*result\<close> as
  it was.
\<close>

theorem readdir_r_loses_entry:
  assumes "serves_dir T fd dir pos" and "nr_defined T ''lseek''" "0 <s ENOSYS T"
    and "dir_frame (cmem s) fp fl entry res" and "0 \<le>s fd"
    and "pos (kern s) < length dir" "dir ! pos (kern s) = (ino, 0x7fffffffffffffff, name)"
  shows "\<exists>m w. readdir_r T fp fl (scast (NOT fd)) entry res s = Some (errno s, s\<lparr>cmem := m, kern := w\<rparr>) \<and>
    (\<forall>a. \<not> in_range fp 280 a \<and> \<not> in_range fl 8 a \<longrightarrow> m a = cmem s a)"
proof -
  obtain k m1 w1 where k: "sys_getdents64 T fd fp 280 s = (of_nat k, s\<lparr>cmem := m1, kern := w1\<rparr>)" "0 < k" "k \<le> 280"
      "\<forall>a. \<not> in_range fp 280 a \<longrightarrow> m1 a = cmem s a" "mapped m1 fp 280" "load64 m1 (fp + 8) = Some 0x7fffffffffffffff"
    using getdents_call [OF assms(1), of s fp] assms(4,6,7) by (auto simp: dir_frame_def entry_at_def)
  have ret: "\<not> (of_nat k :: i32) <s 0" "(of_nat k :: i32) \<noteq> 0"
    using k(2,3) slt_of_nat32 [of k 0] sint_of_nat32 [of k] by auto
  have "mapped m1 fl 8" using assms(4) k(4,5) by (auto simp: dir_frame_def intro: mapped_after [of "cmem s" _ _ fp 280 m1])
  then obtain w2 where w2: "lseek T fl fd 0x7fffffffffffffff 0 (s\<lparr>cmem := m1, kern := w1\<rparr>) =
      Some (0x7fffffffffffffff, s\<lparr>cmem := poke m1 fl (le_bytes 8 0), kern := w2\<rparr>)"
    using lseek_call [OF assms(1-3,6,7), of "s\<lparr>cmem := m1, kern := w1\<rparr>" fl] by (auto simp: word_sle_eq)
  have "(ucast (0x7fffffffffffffff :: i64) :: i32) = - 1" by code_simp
  then show ?thesis
    using dir_handle [OF refl assms(5)] k(1,4,6) ret w2 by (auto simp: readdir_r_def Let_def cload64_def poke_outside)
qed
end
