(* ===== verification/FormatProps.thy ===== *)
theory FormatProps
  imports ScanfProps StdioProps
begin

section \<open>What snprintf prints, sscanf reads\<close>

text \<open>
  A number with its conversion: the count of \<^verbatim>\<open>l\<close>, the letter, the argument. Each is
  followed by a separator that is neither a digit nor part of a prefix.
\<close>

type_synonym item = "nat \<times> byte \<times> i64"

definition item_ok :: "item \<Rightarrow> bool" where
  "item_ok = (\<lambda>(l, c, v). l \<le> 2 \<and> c \<in> {100, 117, 120, 112})"

definition sep_ok :: "byte \<Rightarrow> bool" where
  "sep_ok c \<longleftrightarrow> c \<noteq> 0 \<and> c \<noteq> 37 \<and> c \<noteq> 88 \<and> c \<noteq> 120 \<and> \<not> valid_digit 16 c"

definition item_pieces :: "byte \<Rightarrow> item \<Rightarrow> piece list" where
  "item_pieces sep = (\<lambda>(l, c, v). [Num l [] c v, Lit [sep]])"

definition item_width :: "item \<Rightarrow> nat" where
  "item_width = (\<lambda>(l, c, v). if c = 112 \<or> 0 < l then 8 else 4)"

definition item_scanned :: "item \<Rightarrow> scanned" where
  "item_scanned = (\<lambda>(l, c, v).
     let x = PrintfFacts.num_value l c v in
     (item_width (l, c, v), c = 100, c = 100 \<and> sint x < 0, if c = 100 then nat \<bar>sint x\<bar> else unat x))"

lemma digit_cases:
  "\<forall>d \<in> set [0..<16]. digit_value (digit d) = d \<and> \<not> is_space (digit d) \<and>
     digit d \<noteq> 45 \<and> digit d \<noteq> 43 \<and> digit d \<noteq> 120 \<and> digit d \<noteq> 88"
  by code_simp

definition plain_digit :: "nat \<Rightarrow> byte \<Rightarrow> bool" where
  "plain_digit b d \<longleftrightarrow> valid_digit b d \<and> \<not> is_space d \<and> d \<notin> {45, 43, 120, 88}"

lemma plain_digit_digit:
  assumes "d < b" and "b \<le> 16"
  shows "plain_digit b (digit d) \<and> digit_value (digit d) = d"
proof -
  have "digit_value (digit d) = d \<and> \<not> is_space (digit d) \<and> digit d \<notin> {45, 43, 120, 88}"
    using bspec [OF digit_cases, of d] assms by auto
  then show ?thesis using assms by (simp add: plain_digit_def valid_digit_def)
qed

lemma digits_in_plain:
  assumes "2 \<le> b" and "b \<le> 16"
  shows "list_all (plain_digit b) (digits_in b n) \<and> StrtoFacts.num_value b (digits_in b n) = n"
proof (induction n rule: less_induct)
  case (less n)
  show ?case
  proof (cases "n < b")
    case True
    then show ?thesis using plain_digit_digit [OF True assms(2)] by (simp add: digits_in_small StrtoFacts.num_value_def)
  next
    case False
    then have "n div b < n" using assms(1) by simp
    moreover have "n mod b < b" using assms(1) by simp
    ultimately show ?thesis
      using less plain_digit_digit [of "n mod b" b] assms False
      by (subst (1 2) digits_in.simps) (simp add: StrtoFacts.num_value_def)
  qed
qed

lemma valid_digit_mono: "valid_digit b c \<Longrightarrow> b \<le> b' \<Longrightarrow> valid_digit b' c"
  by (simp add: valid_digit_def)

lemma takeWhile_digits:
  assumes "list_all (plain_digit b) ds" and "b \<le> 16" and "sep_ok sep"
  shows "takeWhile (valid_digit b) (ds @ sep # ys) = ds"
proof -
  have "\<not> valid_digit b sep" using assms(2,3) valid_digit_mono by (auto simp: sep_ok_def)
  then show ?thesis using assms(1) by (subst takeWhile_append2) (auto simp: plain_digit_def list_all_iff)
qed

lemma strto_prefix_digits:
  assumes "list_all (plain_digit b) ds" and "ds \<noteq> []" and "b \<noteq> 0" and "sep_ok sep"
  shows "strto_prefix b (ds @ sep # ys) = (b, 0)"
  using assms by (cases ds; cases "tl ds") (auto simp: strto_prefix_def sep_ok_def plain_digit_def)

lemma strto_ref_plain:
  assumes "list_all (plain_digit b) ds" and "ds \<noteq> []" and "0 < b" and "b \<le> 16" and "sep_ok sep"
  shows "strto_ref b (ds @ sep # ys) = (False, b, ds, length ds)"
    and "strto_ref b (45 # ds @ sep # ys) = (True, b, ds, Suc (length ds))"
    and "strto_ref 16 (48 # 120 # ds @ sep # ys) = (False, 16, takeWhile (valid_digit 16) (ds @ sep # ys), 2 + length (takeWhile (valid_digit 16) (ds @ sep # ys)))"
proof -
  have sp: "\<not> is_space 45" "\<not> is_space 48" by code_simp+
  note p = strto_prefix_digits [OF assms(1,2) _ assms(5)] and w = takeWhile_digits [OF assms(1,4,5)]
  obtain d ds' where d: "ds = d # ds'" "\<not> is_space d" "d \<noteq> 45" "d \<noteq> 43"
    using assms(1,2) by (cases ds) (auto simp: plain_digit_def)
  show "strto_ref b (ds @ sep # ys) = (False, b, ds, length ds)"
    using p [of ys] w [of ys] assms(3) d by (simp add: strto_ref_def Let_def)
  show "strto_ref b (45 # ds @ sep # ys) = (True, b, ds, Suc (length ds))"
    using p [of ys] w [of ys] assms(3) sp by (simp add: strto_ref_def Let_def)
  show "strto_ref 16 (48 # 120 # ds @ sep # ys) = (False, 16, takeWhile (valid_digit 16) (ds @ sep # ys), 2 + length (takeWhile (valid_digit 16) (ds @ sep # ys)))"
    using sp by (simp add: strto_ref_def strto_prefix_def Let_def)
qed

lemma strto_ref_item:
  assumes "c \<in> {100, 117, 120, 112}" and "sep_ok sep" and "base = (if c \<in> {100, 117} then 10 else 16)"
  shows "\<exists>ds. strto_ref base (conv_text c x @ sep # ys) = (c = 100 \<and> sint x < 0, base, ds, length (conv_text c x)) \<and>
    StrtoFacts.num_value base ds = (if c = 100 then nat \<bar>sint x\<bar> else unat x)"
proof -
  have d: "list_all (plain_digit 10) (digits_in 10 n)" "StrtoFacts.num_value 10 (digits_in 10 n) = n"
    "list_all (plain_digit 16) (digits_in 16 n)" "StrtoFacts.num_value 16 (digits_in 16 n) = n" for n
    using digits_in_plain [of 10 n] digits_in_plain [of 16 n] by auto
  note r = strto_ref_plain [OF d(1) _ _ _ assms(2), simplified] strto_ref_plain [OF d(3) _ _ _ assms(2), simplified]
  note w = takeWhile_digits [OF d(3) _ assms(2), simplified]
  have c: "(100 :: byte) \<noteq> 99" "(117 :: byte) \<noteq> 99" "(120 :: byte) \<noteq> 99" "(112 :: byte) \<noteq> 99" "(117 :: byte) \<noteq> 100"
    "(120 :: byte) \<noteq> 100" "(112 :: byte) \<noteq> 100" "(120 :: byte) \<noteq> 117" "(112 :: byte) \<noteq> 117" "(120 :: byte) \<noteq> 112" by code_simp+
  show ?thesis
    using assms(1) r w d(2,4) c by (auto simp: assms(3) conv_text_def int_text_def)
qed

lemma scan_prefix_item: "l \<le> 2 \<Longrightarrow> c \<noteq> 108 \<Longrightarrow> scan_prefix (replicate l 108 @ c # f # fs) = (if l = 0 then 4 else 8, c # f # fs)"
  by (cases l; cases "l - 1") auto

lemma scan_item:
  assumes "item_ok (l, c, v)" and "sep_ok sep" and "x = PrintfFacts.num_value l c v"
    and sep: "scan (sep # fs) (sep # ys) (Suc n) = (r, outs, False)"
  shows "scan (piece_fmt (Num l [] c v) @ sep # fs) (conv_text c x @ sep # ys) n =
    (r, item_scanned (l, c, v) # outs, False)"
proof -
  have c: "c \<in> {100, 117, 120, 112}" "l \<le> 2" using assms(1) by (auto simp: item_ok_def)
  have ne: "c \<noteq> 108" "c \<noteq> 37" using c(1) by auto
  let ?base = "if c \<in> {100, 117} then 10 else 16 :: nat"
  have ty: "scan_type c (if l = 0 then 4 else 8) = Some (?base, c = 100, item_width (l, c, v))"
    using c by (auto simp: scan_type_def item_width_def)
  obtain ds where ds: "strto_ref ?base (conv_text c x @ sep # ys) = (c = 100 \<and> sint x < 0, ?base, ds, length (conv_text c x))"
      "StrtoFacts.num_value ?base ds = (if c = 100 then nat \<bar>sint x\<bar> else unat x)"
    using strto_ref_item [OF c(1) assms(2) refl] by blast
  show ?thesis
    using scan_prefix_item [OF c(2) ne(1)] ne ty ds sep
    by (simp add: item_scanned_def Let_def assms(3))
qed

lemma scan_sep:
  assumes "sep_ok sep" and "fs = [] \<or> hd fs = 37" and "ys = [] \<or> \<not> is_space (hd ys)"
  shows "scan (sep # fs) (sep # ys) n = scan fs ys n"
proof -
  have "\<not> is_space 37" by code_simp
  then have "dropWhile is_space fs = fs" "dropWhile is_space ys = ys" using assms(2,3) by (cases fs; cases ys; simp)+
  then show ?thesis using assms(1) by (simp add: sep_ok_def)
qed

lemma conv_text_start: "c \<in> {100, 117, 120, 112} \<Longrightarrow> conv_text c x \<noteq> [] \<and> \<not> is_space (hd (conv_text c x))"
proof -
  assume c: "c \<in> {100, 117, 120, 112}"
  have "list_all (plain_digit 10) (digits_in 10 n)" "list_all (plain_digit 16) (digits_in 16 n)" for n
    using digits_in_plain [of 10 n] digits_in_plain [of 16 n] by auto
  then have "\<not> is_space (hd (digits_in 10 n))" "\<not> is_space (hd (digits_in 16 n))" for n
    using hd_in_set [OF digits_in_not_Nil] by (metis list_all_iff plain_digit_def)+
  moreover have "\<not> is_space 45" "\<not> is_space 48" "(100 :: byte) \<noteq> 99" "(117 :: byte) \<noteq> 99" "(120 :: byte) \<noteq> 99" "(112 :: byte) \<noteq> 99"
    by code_simp+
  ultimately show ?thesis using c by (auto simp: conv_text_def int_text_def)
qed

lemma plain_item [simp]:
  "plain (Num l [] c v) = conv_text c (PrintfFacts.num_value l c v)" "plain (Lit t) = t"
  by (simp_all add: plain_def)

lemma scan_items:
  assumes "\<forall>i \<in> set items. item_ok i" and sep: "sep_ok sep"
  shows "scan (concat (List.map piece_fmt (concat (List.map (item_pieces sep) items))))
      (concat (List.map plain (concat (List.map (item_pieces sep) items)))) n =
    (int (n + length items), List.map item_scanned items, False)"
  using assms(1)
proof (induction items arbitrary: n)
  case (Cons i items)
  obtain l c v where i: "i = (l, c, v)" by (metis prod.exhaust)
  let ?fs = "concat (List.map piece_fmt (concat (List.map (item_pieces sep) items)))"
    and ?ys = "concat (List.map plain (concat (List.map (item_pieces sep) items)))"
  have "?fs = [] \<or> hd ?fs = 37" by (cases items) (auto simp: item_pieces_def)
  moreover have "?ys = [] \<or> \<not> is_space (hd ?ys)"
    using Cons.prems conv_text_start by (cases items) (auto simp: item_pieces_def item_ok_def)
  ultimately have "scan (sep # ?fs) (sep # ?ys) (Suc n) = (int (Suc n + length items), List.map item_scanned items, False)"
    using Cons scan_sep [OF sep] by (simp del: scan.simps)
  then have "scan (piece_fmt (Num l [] c v) @ sep # ?fs) (conv_text c (PrintfFacts.num_value l c v) @ sep # ?ys) n =
      (int (Suc n + length items), item_scanned i # List.map item_scanned items, False)"
    using scan_item [OF _ sep refl, of l c v ?fs ?ys n] Cons.prems i by simp
  then show ?case by (simp add: i item_pieces_def del: scan.simps)
qed simp

text \<open>The bytes stored for a number are the low bytes of the argument.\<close>

lemma low_bytes: "(ucast (x :: i64) :: i32) = ucast v \<Longrightarrow> le_bytes 4 (unat x) = le_bytes 4 (unat v)"
proof -
  assume "(ucast x :: i32) = ucast v"
  then have "unat (ucast x :: i32) = unat (ucast v :: i32)" by simp
  then have "unat x mod 256 ^ 4 = unat v mod 256 ^ 4" by (simp add: unsigned_ucast_eq take_bit_eq_mod)
  then show ?thesis using le_bytes_mod by metis
qed

lemma ucast_ext32: "(ucast (scast (w :: i32) :: i64) :: i32) = w" "(ucast (ucast (w :: i32) :: i64) :: i32) = w"
  by (rule bit_word_eqI; auto simp: bit_simps)+

lemma item_value_bytes:
  assumes "item_ok i"
  shows "scan_fits (item_scanned i)"
    and "le_bytes (item_width i) (unat (scan_value (item_scanned i))) = le_bytes (item_width i) (unat (snd (snd i)))"
proof -
  obtain l c v where i: "i = (l, c, v)" by (metis prod.exhaust)
  let ?x = "PrintfFacts.num_value l c v"
  have "- (2 ^ 63) \<le> sint ?x" "sint ?x < 2 ^ 63" using sint_ge [of ?x] sint_lt [of ?x] by simp_all
  moreover have "unat ?x < 18446744073709551616" by (rule unat_lt64)
  then have "unat ?x \<le> 18446744073709551615" by linarith
  ultimately show "scan_fits (item_scanned i)"
    by (auto simp: i item_scanned_def scan_fits_def Let_def)
  have "scan_value (item_scanned i) = ?x"
    by (simp add: i item_scanned_def scan_value_def Let_def)
  then show "le_bytes (item_width i) (unat (scan_value (item_scanned i))) = le_bytes (item_width i) (unat (snd (snd i)))"
    using assms low_bytes [of ?x v] by (auto simp: i item_ok_def item_width_def PrintfFacts.num_value_def ucast_ext32)
qed

lemma items_ok:
  assumes "\<forall>i \<in> set items. item_ok i" and "sep_ok sep"
  shows "\<forall>x \<in> set (concat (List.map (item_pieces sep) items)). piece_ok D m still x \<and> fst (piece_out x) = 0"
    and "0 \<notin> set (concat (List.map piece_fmt (concat (List.map (item_pieces sep) items))))"
    and "concat (List.map piece_args (concat (List.map (item_pieces sep) items))) = List.map (\<lambda>i. snd (snd i)) items"
proof -
  show "\<forall>x \<in> set (concat (List.map (item_pieces sep) items)). piece_ok D m still x \<and> fst (piece_out x) = 0"
    using assms by (fastforce simp: item_pieces_def item_ok_def sep_ok_def dec_value_def)
  show "0 \<notin> set (concat (List.map piece_fmt (concat (List.map (item_pieces sep) items))))"
    using assms by (fastforce simp: item_pieces_def item_ok_def sep_ok_def)
  show "concat (List.map piece_args (concat (List.map (item_pieces sep) items))) = List.map (\<lambda>i. snd (snd i)) items"
    by (induction items) (auto simp: item_pieces_def)
qed

lemma scan_room_printed:
  assumes "\<forall>a. \<not> in_range buf k a \<and> \<not> in_range slot 8 a \<and> \<not> in_range tmp 21 a \<longrightarrow> m1 a = m a"
    and still: "still = (\<lambda>p n. apart p n tmp 21 \<and> apart p n buf k \<and> apart p n slot 8)"
    and fs: "bytes_at m fmt (fs @ [0])" "0 \<notin> set fs" "still fmt (Suc (length fs))"
    and line: "cstr m1 buf line" "length line < k"
    and areas: "sorted_wrt (\<lambda>(p, n) (q, j). apart p n q j) areas" "\<forall>(q, w) \<in> set areas. w < 2 ^ 64"
      "\<forall>(q, w) \<in> set areas. mapped m q w \<and> still q w \<and> apart q w fmt (Suc (length fs))"
  shows "scan_room m1 fmt fs buf line areas"
proof -
  have same: "m1 a = m a" if "still q w" "in_range q w a" for q w a
    using assms(1) that apart_in_range still by blast
  have "cstr m1 fmt fs"
    using bytes_at_cong [of fmt "fs @ [0]" m1 m] same [OF fs(3)] fs(1,2) by (simp add: cstr_iff_bytes del: bytes_at_append)
  moreover have "mapped m1 q w \<and> apart q w fmt (Suc (length fs)) \<and> apart q w buf (Suc (length line))"
    if "(q, w) \<in> set areas" for q w
  proof -
    have q: "mapped m q w" "still q w" "apart q w fmt (Suc (length fs))" "w < 2 ^ 64" using that areas(2,3) by auto
    then have "mapped m1 q w" using same [OF q(2)] by (intro mapped_cong [of q w m1 m])
    then show ?thesis using q line(2) still by (auto intro: apart_mono)
  qed
  ultimately show ?thesis using areas(1) line(1) by (auto simp: scan_room_def)
qed

text \<open>
  Property C10. What \<open>snprintf\<close> prints, \<open>sscanf\<close> with the same format reads: for
  every list of numbers with the conversions \<open>d\<close>, \<open>u\<close>, \<open>x\<close>,
  \<open>p\<close> and up to two \<open>l\<close>, each followed by a separator that is no hexadecimal digit, no
  \<open>x\<close> and no percent sign, and a buffer that is large enough, the second call converts all of
  them and stores in each object the value that was printed, at the width of the conversion.
\<close>

theorem snprintf_sscanf:
  assumes items: "\<forall>i \<in> set items. item_ok i" "sep_ok sep"
    and ps: "ps = concat (List.map (item_pieces sep) items)" and line: "line = concat (List.map plain ps)"
      "length line < unat n" "length line < 2 ^ 31"
    and fs: "fs = concat (List.map piece_fmt ps)" "length fs < 2 ^ 31" "bytes_at (cmem s) fmt (fs @ [0])"
    and buf: "mapped (cmem s) buf (unat n)" "mapped (cmem s) (state_slot D) 8"
    and frames: "apart buf (unat n) (state_slot D) 8" "apart (tmpbuf D) 21 buf (unat n)" "apart (tmpbuf D) 21 (state_slot D) 8"
    and rdy: "print_ready D (cmem s)"
    and still: "still = (\<lambda>p k. apart p k (tmpbuf D) 21 \<and> apart p k buf (unat n) \<and> apart p k (state_slot D) 8)"
      "still (lit_space D) 1" "still fmt (Suc (length fs))"
    and areas: "areas = (ep, 8) # zip ptrs (List.map item_width items)" "length ptrs = length items" "ep \<noteq> 0"
      "sorted_wrt (\<lambda>(p, n) (q, k). apart p n q k) areas"
      "\<forall>(q, w) \<in> set areas. mapped (cmem s) q w \<and> still q w \<and> apart q w fmt (Suc (length fs))"
  shows "\<exists>s1 s2. snprintf D buf n fmt (List.map (\<lambda>i. snd (snd i)) items) s = Some (of_nat (length line), s1) \<and>
    sscanf T ep buf fmt ptrs s1 = Some (of_nat (length items), s2) \<and>
    (\<forall>i < length items. bytes_at (cmem s2) (ptrs ! i) (le_bytes (item_width (items ! i)) (unat (snd (snd (items ! i))))))"
proof -
  note ok = items_ok [OF items]
  have n: "0 < n" using line(2) by (simp add: word_less_nat_alt)
  obtain s1 where s1: "snprintf D buf n fmt (concat (List.map piece_args ps)) s = Some (of_nat (length line), s1)"
      "cstr (cmem s1) buf (take (unat n - 1) line)"
      "\<forall>a. \<not> in_range buf (unat n) a \<and> \<not> in_range (state_slot D) 8 a \<and> \<not> in_range (tmpbuf D) 21 a \<longrightarrow> cmem s1 a = cmem s a"
    using snprintf_pieces [OF n buf frames rdy still(1,2), of fmt ps line] ok(1) [of D "cmem s" still] fs still(3) line by (auto simp: ps)
  have small: "\<forall>(q, w) \<in> set areas. w < 2 ^ 64" by (auto simp: areas(1) item_width_def dest!: set_zip_rightD)
  have "0 \<notin> set fs" "cstr (cmem s1) buf line" using ok(2) s1(2) line(2) by (simp_all add: fs(1) ps)
  then have "scan_room (cmem s1) fmt fs buf line areas"
    by (intro scan_room_printed [OF s1(3) still(1) fs(3) _ still(3) _ line(2) areas(4) small areas(5)])
  moreover have "fst \<circ> item_scanned = item_width" by (auto simp: fun_eq_iff item_scanned_def Let_def)
  moreover have "scan fs line 0 = (int (length items), List.map item_scanned items, False)"
    using scan_items [OF items, of 0] by (simp add: fs(1) line(1) ps del: scan.simps)
  moreover have "list_all scan_fits (List.map item_scanned items)" using items(1) item_value_bytes(1) by (auto simp: list_all_iff)
  ultimately obtain m' where "sscanf T ep buf fmt ptrs s1 = Some (of_int (int (length items)), s1\<lparr>cmem := m', errno := errno s1\<rparr>)"
    "\<forall>i < length items. bytes_at m' (ptrs ! i) (le_bytes (fst (item_scanned (items ! i))) (unat (scan_value (item_scanned (items ! i)))))"
    using sscanf_eq [of fs line "int (length items)" "List.map item_scanned items" False ptrs s1 fmt buf ep T] areas fs(2) by auto
  moreover have "fst (item_scanned i) = item_width i" for i by (cases i) (simp add: item_scanned_def Let_def)
  ultimately show ?thesis using s1(1) ok(3) item_value_bytes(2) items(1) by (auto simp: ps)
qed

theorem snprintf_sscanf_witness:
  "\<exists>m s1 s2. snprintf demo_data 200 40 100 [- 5, 255] (process m ()) = Some (6, s1) \<and>
     sscanf (x86_linux no_kernel) 300 200 100 [400, 500] s1 = Some (2, s2) \<and>
     load32 (cmem s2) 400 = Some (- 5) \<and> load64 (cmem s2) 500 = Some 255"
proof -
  define m :: mem where "m = (\<lambda>a. Some (((\<lambda>_. 32) (100 := 37, 101 := 100, 102 := 44, 103 := 37, 104 := 108,
    105 := 120, 106 := 44, 107 := 0)) a))"
  let ?items = "[(0, 100, - 5), (1, 120, 255)] :: item list"
  let ?ps = "concat (List.map (item_pieces 44) ?items)"
  have m: "mapped m p k" for p k unfolding m_def by (rule mapped_total)
  have c: "\<forall>i \<in> set ?items. item_ok i" "sep_ok 44" by code_simp+
  have fs: "concat (List.map piece_fmt ?ps) = [37, 100, 44, 37, 108, 120, 44]" by code_simp
  have line: "concat (List.map plain ?ps) = [45, 53, 44, 102, 102, 44]" by code_simp
  have rdy: "print_ready demo_data m" by (simp add: print_ready_def demo_data_def m apart_def) (simp add: m_def)
  have at: "bytes_at m 100 ([37, 100, 44, 37, 108, 120, 44] @ [0])" by (simp add: m_def)
  have "\<exists>s1 s2. snprintf demo_data 200 40 100 (List.map (\<lambda>i. snd (snd i)) ?items) (process m ()) =
      Some (of_nat (length [45, 53, 44, 102, 102, 44 :: byte]), s1) \<and>
    sscanf (x86_linux no_kernel) 300 200 100 [400, 500] s1 = Some (of_nat (length ?items), s2) \<and>
    (\<forall>i < length ?items. bytes_at (cmem s2) ([400, 500] ! i) (le_bytes (item_width (?items ! i)) (unat (snd (snd (?items ! i))))))"
    using at rdy
    by (intro snprintf_sscanf [OF c refl line [symmetric] _ _ fs [symmetric] _ _ _ _ _ _ _ _ refl _ _ refl])
      (simp_all add: m apart_def item_width_def demo_data_def)
  then obtain s1 s2 where s: "snprintf demo_data 200 40 100 [- 5, 255] (process m ()) = Some (6, s1)"
      "sscanf (x86_linux no_kernel) 300 200 100 [400, 500] s1 = Some (2, s2)"
    and b: "\<forall>i < length ?items. bytes_at (cmem s2) ([400, 500] ! i) (le_bytes (item_width (?items ! i)) (unat (snd (snd (?items ! i)))))"
    by auto
  have "item_width (0, 100, - 5) = 4" "item_width (1, 120, 255) = 8" by code_simp+
  then have "bytes_at (cmem s2) 400 (le_bytes 4 (unat (- 5 :: i64)))" "bytes_at (cmem s2) 500 (le_bytes 8 (unat (255 :: i64)))"
    using spec [OF b, of 0] spec [OF b, of 1] by simp_all
  then have "load32 (cmem s2) 400 = Some (- 5)" "load64 (cmem s2) 500 = Some 255"
    by (simp_all add: load32_def load64_def load_le_bytes)
  with s show ?thesis by blast
qed
end
