(* ===== verification/ClockProps.thy ===== *)
theory ClockProps
  imports CTime StreamFacts Linux
begin

section \<open>Properties of the clocks\<close>

text \<open>
  A kernel that serves a clock: each of the two calls it has writes the time of the clock, seconds and
  nanoseconds of the world it is called in, through its pointer.
\<close>

definition two_words :: "i64 \<Rightarrow> i64 \<Rightarrow> byte list" where
  "two_words a b = le_bytes 8 (unat a) @ le_bytes 8 (unat b)"

definition serves_clock :: "'w target \<Rightarrow> i32 \<Rightarrow> ('w \<Rightarrow> i64 \<times> i64) \<Rightarrow> bool" where
  "serves_clock T clk now \<longleftrightarrow>
     (nr_defined T ''clock_gettime'' \<or> nr_defined T ''clock_gettime64'') \<and>
     (\<forall>nr \<in> {''clock_gettime'', ''clock_gettime64''}. \<forall>m w p. nr_defined T nr \<and> mapped m p 16 \<longrightarrow>
        (\<exists>w'. kcall T nr [scast clk, p] m w = (0, poke m p (two_words (fst (now w)) (snd (now w))), w')))"

lemma serves_clockD:
  "serves_clock T clk now \<Longrightarrow> nr \<in> {''clock_gettime'', ''clock_gettime64''} \<Longrightarrow> nr_defined T nr \<Longrightarrow> mapped m p 16 \<Longrightarrow>
   \<exists>w'. kcall T nr [scast clk, p] m w = (0, poke m p (two_words (fst (now w)) (snd (now w))), w')"
  unfolding serves_clock_def by blast

lemma length_two_words [simp]: "length (two_words a b) = 16"
  by (simp add: two_words_def)

lemma load_two_words:
  "load64 (poke m p (two_words a b)) p = Some a" "load64 (poke m p (two_words a b)) (p + 8) = Some b"
proof -
  have "bytes_at (poke m p (two_words a b)) p (two_words a b)" by (rule bytes_at_poke_self) simp
  then show "load64 (poke m p (two_words a b)) p = Some a" "load64 (poke m p (two_words a b)) (p + 8) = Some b"
    by (simp_all add: two_words_def load64_bytes)
qed

text \<open>Copying two words, as the conversions of \<open>timespec\<close> and \<open>timeval\<close> do.\<close>

lemma copy_two_words:
  assumes "mapped m p 16" and "apart p 16 q 16"
  shows "mapped m p 8" and "mapped (poke m p (le_bytes 8 v)) (p + 8) 8"
    and "load64 (poke m p (le_bytes 8 v)) (q + 8) = load64 m (q + 8)"
    and "poke (poke m p (le_bytes 8 (unat a))) (p + 8) (le_bytes 8 (unat b)) = poke m p (two_words a b)"
proof -
  show "mapped m p 8" using assms(1) by (rule mapped_mono) simp
  show "mapped (poke m p (le_bytes 8 v)) (p + 8) 8" using mapped_part [OF assms(1), of 8 8] by simp
  have "apart p 8 (q + 8) 8" using apart_sub [OF assms(2), of 0 8 8 8] by simp
  then show "load64 (poke m p (le_bytes 8 v)) (q + 8) = load64 m (q + 8)" by (simp add: load64_def load_le_poke_apart)
  show "poke (poke m p (le_bytes 8 (unat a))) (p + 8) (le_bytes 8 (unat b)) = poke m p (two_words a b)"
    by (simp add: two_words_def poke_append)
qed

lemma timespec_copied:
  assumes "mapped (cmem s) u 16" and "apart u 16 k 16" and "load64 (cmem s) k = Some a" and "load64 (cmem s) (k + 8) = Some b"
  shows "timespec_kernel_to_user k u s = Some (s\<lparr>cmem := poke (cmem s) u (two_words a b)\<rparr>)"
  using assms copy_two_words [OF assms(1,2)]
  by (simp add: timespec_kernel_to_user_def cload64_def cstore64_def store64_eq)

lemma clock_read:
  assumes srv: "serves_clock T clk now" and tp: "tp \<noteq> 0" "mapped (cmem s) tp 16" "mapped (cmem s) fp 16" "apart tp 16 fp 16"
    and t: "now (kern s) = (sec, nsec)"
  shows "\<exists>m w. sys_clock_gettime T fp clk tp s = Some (0, s\<lparr>cmem := m, kern := w\<rparr>) \<and>
    load64 m tp = Some sec \<and> load64 m (tp + 8) = Some nsec \<and>
    (\<forall>p n. mapped (cmem s) p n \<longrightarrow> mapped m p n) \<and>
    (\<forall>a. \<not> in_range tp 16 a \<and> \<not> in_range fp 16 a \<longrightarrow> m a = cmem s a)"
proof (cases "nr_defined T ''clock_gettime''")
  case True
  obtain w where "kcall T ''clock_gettime'' [scast clk, tp] (cmem s) (kern s) = (0, poke (cmem s) tp (two_words sec nsec), w)"
    using serves_clockD [OF srv _ True tp(2), of "kern s"] t by auto
  then have "sys_clock_gettime T fp clk tp s = Some (0, s\<lparr>cmem := poke (cmem s) tp (two_words sec nsec), kern := w\<rparr>)"
    using True by (simp add: sys_clock_gettime_def int_result_def my_syscall2_def syscall_insn_def)
  then show ?thesis by (auto simp: load_two_words poke_outside)
next
  case False
  then have d: "nr_defined T ''clock_gettime64''" using srv by (simp add: serves_clock_def)
  let ?m = "poke (cmem s) fp (two_words sec nsec)"
  obtain w where w: "kcall T ''clock_gettime64'' [scast clk, fp] (cmem s) (kern s) = (0, ?m, w)"
    using serves_clockD [OF srv _ d tp(3), of "kern s"] t by auto
  have "timespec_kernel_to_user fp tp (s\<lparr>cmem := ?m, kern := w\<rparr>) =
      Some (s\<lparr>cmem := poke ?m tp (two_words sec nsec), kern := w\<rparr>)"
    using tp timespec_copied [of "s\<lparr>cmem := ?m, kern := w\<rparr>" tp fp sec nsec] load_two_words [of "cmem s" fp sec nsec] by simp
  then have "sys_clock_gettime T fp clk tp s = Some (0, s\<lparr>cmem := poke ?m tp (two_words sec nsec), kern := w\<rparr>)"
    using False d w tp(1) by (simp add: sys_clock_gettime_def int_result_def my_syscall2_def syscall_insn_def)
  then show ?thesis by (auto simp: load_two_words poke_outside)
qed

lemma day_read:
  assumes srv: "serves_clock T (CLOCK_REALTIME T) now" and no: "\<not> nr_defined T ''gettimeofday''"
    and m: "fp \<noteq> 0" "mapped (cmem s) fp 16" "mapped (cmem s) fp' 16" "apart fp 16 fp' 16"
      "tv \<noteq> 0" "mapped (cmem s) tv 16" "apart tv 16 fp 16"
    and t: "now (kern s) = (sec, nsec)"
  shows "\<exists>m w. sys_gettimeofday T fp fp' tv tz s = Some (0, s\<lparr>cmem := m, kern := w\<rparr>) \<and>
    load64 m tv = Some sec \<and> load64 m (tv + 8) = Some (c_div nsec 1000) \<and>
    (\<forall>p n. mapped (cmem s) p n \<longrightarrow> mapped m p n) \<and>
    (\<forall>a. \<not> in_range tv 16 a \<and> \<not> in_range fp 16 a \<and> \<not> in_range fp' 16 a \<longrightarrow> m a = cmem s a)"
proof -
  obtain m1 w where m1: "sys_clock_gettime T fp' (CLOCK_REALTIME T) fp s = Some (0, s\<lparr>cmem := m1, kern := w\<rparr>)"
      "load64 m1 fp = Some sec" "load64 m1 (fp + 8) = Some nsec" "\<forall>p n. mapped (cmem s) p n \<longrightarrow> mapped m1 p n"
      "\<forall>a. \<not> in_range fp 16 a \<and> \<not> in_range fp' 16 a \<longrightarrow> m1 a = cmem s a"
    using clock_read [OF srv m(1-4) t] by blast
  have "mapped m1 tv 16" using m1(4) m(6) by blast
  note c = copy_two_words [OF this m(7)]
  let ?m = "poke m1 tv (two_words sec (c_div nsec 1000))"
  have "sys_gettimeofday T fp fp' tv tz s = Some (0, s\<lparr>cmem := ?m, kern := w\<rparr>)"
    using no m1(1-3) m(5) c by (simp add: sys_gettimeofday_def cload64_def cstore64_def store64_eq)
  then show ?thesis using m1(4,5) by (auto simp: load_two_words poke_outside)
qed

text \<open>
  Property C13. Without the system call \<^verbatim>\<open>gettimeofday\<close>, \<open>gettimeofday\<close> gives the
  seconds and microseconds of the clock and \<open>time\<close> gives, and stores, its seconds, whether the
  kernel has \<^verbatim>\<open>clock_gettime\<close> or only \<^verbatim>\<open>clock_gettime64\<close>; both succeed and
  leave \<open>errno\<close> and all memory but the results and their local structures (\<open>fp\<close>, \<open>fp'\<close>, and for
  \<open>time\<close> also \<open>tv\<close>) alone.
\<close>

theorem time_of_day:
  assumes srv: "serves_clock T (CLOCK_REALTIME T) now" and no: "\<not> nr_defined T ''gettimeofday''"
    and m: "fp \<noteq> 0" "mapped (cmem s) fp 16" "mapped (cmem s) fp' 16" "apart fp 16 fp' 16"
      "tv \<noteq> 0" "mapped (cmem s) tv 16" "apart tv 16 fp 16"
    and t: "now (kern s) = (sec, nsec)" "0 \<le>s nsec"
    and p: "tptr \<noteq> 0" "mapped (cmem s) tptr 8" "apart tptr 8 tv 16"
  shows "(\<exists>m w. gettimeofday T fp fp' tv tz s = Some (0, s\<lparr>cmem := m, kern := w\<rparr>) \<and>
      load64 m tv = Some sec \<and> load64 m (tv + 8) = Some (word_of_int (sint nsec div 1000)) \<and>
      (\<forall>a. \<not> in_range tv 16 a \<and> \<not> in_range fp 16 a \<and> \<not> in_range fp' 16 a \<longrightarrow> m a = cmem s a)) \<and>
    (\<exists>m w. time T tv fp fp' tptr s = Some (sec, s\<lparr>cmem := m, kern := w\<rparr>) \<and> load64 m tptr = Some sec \<and>
      (\<forall>a. \<not> in_range tptr 8 a \<and> \<not> in_range tv 16 a \<and> \<not> in_range fp 16 a \<and> \<not> in_range fp' 16 a \<longrightarrow>
        m a = cmem s a))"
proof -
  have us: "c_div nsec 1000 = word_of_int (sint nsec div 1000)"
    using t(2) by (simp add: c_div_def word_sle_eq signed_divide_int_def sgn_if)
  obtain m1 w where r: "sys_gettimeofday T fp fp' tv tz s = Some (0, s\<lparr>cmem := m1, kern := w\<rparr>)"
      "load64 m1 tv = Some sec" "load64 m1 (tv + 8) = Some (c_div nsec 1000)"
      "\<forall>a. \<not> in_range tv 16 a \<and> \<not> in_range fp 16 a \<and> \<not> in_range fp' 16 a \<longrightarrow> m1 a = cmem s a"
    using day_read [OF srv no m t(1)] by blast
  obtain m2 w2 where q: "sys_gettimeofday T fp fp' tv 0 s = Some (0, s\<lparr>cmem := m2, kern := w2\<rparr>)"
      "load64 m2 tv = Some sec" "\<forall>p n. mapped (cmem s) p n \<longrightarrow> mapped m2 p n"
      "\<forall>a. \<not> in_range tv 16 a \<and> \<not> in_range fp 16 a \<and> \<not> in_range fp' 16 a \<longrightarrow> m2 a = cmem s a"
    using day_read [OF srv no m t(1)] by blast
  have "load64 (poke m2 tptr (le_bytes 8 (unat sec))) tv = Some sec"
    using q(2) apart_mono [OF p(3), of 8 8] by (simp add: load64_def load_le_poke_apart)
  moreover have "load64 (poke m2 tptr (le_bytes 8 (unat sec))) tptr = Some sec"
    by (intro load64_bytes bytes_at_poke_self) simp
  moreover from calculation have "time T tv fp fp' tptr s = Some (sec, s\<lparr>cmem := poke m2 tptr (le_bytes 8 (unat sec)), kern := w2\<rparr>)"
    using q p(1,2) by (simp add: time_def cload64_def cstore64_def store64_eq)
  ultimately have "\<exists>m w. time T tv fp fp' tptr s = Some (sec, s\<lparr>cmem := m, kern := w\<rparr>) \<and> load64 m tptr = Some sec \<and>
      (\<forall>a. \<not> in_range tptr 8 a \<and> \<not> in_range tv 16 a \<and> \<not> in_range fp 16 a \<and> \<not> in_range fp' 16 a \<longrightarrow>
        m a = cmem s a)"
    using q(4) by (intro exI [of _ "poke m2 tptr (le_bytes 8 (unat sec))"] exI [of _ w2]) (simp add: poke_outside)
  moreover have "gettimeofday T fp fp' tv tz s = Some (0, s\<lparr>cmem := m1, kern := w\<rparr>)"
    using r(1) by (simp add: gettimeofday_def sysret_def)
  ultimately show ?thesis using r(2-4) us by auto
qed

definition clock_kernel :: "sysnr \<Rightarrow> i64 list \<Rightarrow> mem \<Rightarrow> unit \<Rightarrow> i64 \<times> mem \<times> unit" where
  "clock_kernel nr args m w = (0, poke m (args ! 1) (two_words 100 7654321), w)"

definition clock64_target :: "unit target" where
  "clock64_target = (x86_linux clock_kernel)\<lparr>nr_defined := (\<lambda>nr. nr = ''clock_gettime64'')\<rparr>"

theorem time_of_day_witness:
  "\<exists>s1 s2. gettimeofday clock64_target 100 200 300 0 (process (\<lambda>_. Some 0) ()) = Some (0, s1) \<and>
     load64 (cmem s1) 300 = Some 100 \<and> load64 (cmem s1) 308 = Some 7654 \<and>
     time clock64_target 300 100 200 400 (process (\<lambda>_. Some 0) ()) = Some (100, s2)"
proof -
  let ?T = clock64_target and ?s = "process (\<lambda>_. Some 0) ()"
  have "serves_clock ?T (CLOCK_REALTIME ?T) (\<lambda>_. (100, 7654321))"
    by (auto simp: serves_clock_def clock_kernel_def clock64_target_def x86_linux_def)
  moreover have "\<not> nr_defined ?T ''gettimeofday''" by (simp add: clock64_target_def)
  moreover have "(0 :: i64) \<le>s 7654321" "word_of_int (sint (7654321 :: i64) div 1000) = (7654 :: i64)" by code_simp+
  ultimately show ?thesis
    using time_of_day [of ?T "\<lambda>_. (100, 7654321)" 100 ?s 200 300 100 7654321 400 0]
    by (auto simp: mapped_total apart_def)
qed
end
