(* ===== verification/SleepProps.thy ===== *)
theory SleepProps
  imports ClockProps
begin

section \<open>Properties of sleep, msleep and usleep\<close>

text \<open>
  The sleeping functions wait in \<open>sys_select\<close> with nothing but a timeout. \<open>nap t w\<close> is what happens to
  a wait of \<open>t\<close> microseconds that begins in the world \<open>w\<close>: whether it is interrupted, what is then left,
  and the world afterwards; \<open>clock\<close> is the time in microseconds that has passed in a world. A kernel that
  \<open>naps\<close> waits at least the time it is given, or is interrupted (\<open>EINTR\<close>, number 4), and stores what is
  left in the timeout, as Linux does.
\<close>

definition has_select :: "'w target \<Rightarrow> bool" where
  "has_select T \<longleftrightarrow>
     nr_defined T ''_newselect'' \<or> \<not> ARCH_WANT_SYS_OLD_SELECT T \<and> nr_defined T ''select''"

definition select_nr :: "'w target \<Rightarrow> sysnr" where
  "select_nr T = (if nr_defined T ''_newselect'' then ''_newselect'' else ''select'')"

definition timeval_words :: "nat \<Rightarrow> byte list" where
  "timeval_words t = two_words (of_nat (t div 1000000)) (of_nat (t mod 1000000))"

definition naps :: "'w target \<Rightarrow> ('w \<Rightarrow> nat) \<Rightarrow> (nat \<Rightarrow> 'w \<Rightarrow> bool \<times> nat \<times> 'w) \<Rightarrow> bool" where
  "naps T clock nap \<longleftrightarrow>
     (\<forall>t w i k w'. nap t w = (i, k, w') \<longrightarrow> k \<le> t \<and> (\<not> i \<longrightarrow> k = 0) \<and> clock w + t \<le> clock w' + k) \<and>
     (\<forall>m w p t i k w'. bytes_at m p (timeval_words t) \<longrightarrow> t < 2 ^ 52 \<longrightarrow> nap t w = (i, k, w') \<longrightarrow>
        kcall T (select_nr T) [0, 0, 0, 0, p] m w = (if i then - 4 else 0, poke m p (timeval_words k), w'))"

lemma napsD:
  assumes "naps T clock nap" and "nap t w = (i, k, w')"
  shows "k \<le> t" and "\<not> i \<Longrightarrow> k = 0" and "clock w + t \<le> clock w' + k"
    and "bytes_at m p (timeval_words t) \<Longrightarrow> t < 2 ^ 52 \<Longrightarrow>
      kcall T (select_nr T) [0, 0, 0, 0, p] m w = (if i then - 4 else 0, poke m p (timeval_words k), w')"
proof -
  have "\<forall>t w i k w'. nap t w = (i, k, w') \<longrightarrow> k \<le> t \<and> (\<not> i \<longrightarrow> k = 0) \<and> clock w + t \<le> clock w' + k"
    using assms(1) unfolding naps_def by (rule conjunct1)
  then show "k \<le> t" and "\<not> i \<Longrightarrow> k = 0" and "clock w + t \<le> clock w' + k" using assms(2) by blast+
  show "bytes_at m p (timeval_words t) \<Longrightarrow> t < 2 ^ 52 \<Longrightarrow>
      kcall T (select_nr T) [0, 0, 0, 0, p] m w = (if i then - 4 else 0, poke m p (timeval_words k), w')"
    using assms unfolding naps_def by blast
qed

lemma length_timeval_words [simp]: "length (timeval_words t) = 16"
  by (simp add: timeval_words_def)

lemma sys_select_sleeps:
  "has_select T \<Longrightarrow> sys_select T fp 0 0 0 0 p s = Some (int_result (my_syscall5 T (select_nr T) 0 0 0 0 p) s)"
  by (auto simp: sys_select_def has_select_def select_nr_def)

text \<open>A call of \<open>sys_select\<close> from a timeout that was just stored.\<close>

lemma select_naps:
  assumes "naps T clock nap" and "has_select T" and "mapped (cmem s) p 16" and "t < 2 ^ 52"
    and s1: "s1 = s\<lparr>cmem := poke (cmem s) p (timeval_words t)\<rparr>" and r: "nap t (kern s) = (i, k, w)"
  shows "\<exists>s'. sys_select T fp 0 0 0 0 p s1 = Some (if i then - 4 else 0, s') \<and> errno s' = errno s \<and> kern s' = w \<and>
    load64 (cmem s') p = Some (of_nat (k div 1000000)) \<and> load64 (cmem s') (p + 8) = Some (of_nat (k mod 1000000)) \<and>
    (\<forall>a. \<not> in_range p 16 a \<longrightarrow> cmem s' a = cmem s a)"
proof -
  have "bytes_at (cmem s1) p (timeval_words t)" unfolding s1 by simp (rule bytes_at_poke_self, simp)
  then have c: "kcall T (select_nr T) [0, 0, 0, 0, p] (cmem s1) (kern s) =
      (if i then - 4 else 0, poke (cmem s1) p (timeval_words k), w)"
    using napsD(4) [OF assms(1) r] assms(4) by blast
  let ?s = "s1\<lparr>cmem := poke (cmem s1) p (timeval_words k), kern := w\<rparr>"
  have "(ucast (0 :: i64) :: i32) = 0" "(ucast (- 4 :: i64) :: i32) = - 4" by code_simp+
  then have "sys_select T fp 0 0 0 0 p s1 = Some (if i then - 4 else 0, ?s)"
    using c s1 by (simp add: sys_select_sleeps [OF assms(2)] int_result_def my_syscall5_def syscall_insn_def)
  moreover have "\<forall>a. \<not> in_range p 16 a \<longrightarrow> cmem ?s a = cmem s a" by (simp add: s1 poke_outside)
  ultimately show ?thesis using s1
    by (intro exI [of _ ?s]) (auto simp: timeval_words_def load_two_words)
qed

lemma poke_two_words:
  "poke (poke m p (le_bytes 8 (unat a))) (p + 8) (le_bytes 8 (unat b)) = poke m p (two_words a b)"
  by (simp add: two_words_def poke_append)

lemma load64_poke_apart: "apart q (length ys) p 8 \<Longrightarrow> load64 (poke m q ys) p = load64 m p"
  by (simp add: load64_def load_le_poke_apart)

text \<open>The two stores that set \<^verbatim>\<open>my_timeval\<close>.\<close>

lemma timeval_stored:
  assumes "mapped (cmem s) p 16" and "unat a = t div 1000000" and "unat b = t mod 1000000"
  shows "cstore64 p a s = Some (s\<lparr>cmem := poke (cmem s) p (le_bytes 8 (unat a))\<rparr>)"
    and "cstore64 (p + 8) b (s\<lparr>cmem := poke (cmem s) p (le_bytes 8 (unat a))\<rparr>) =
      Some (s\<lparr>cmem := poke (cmem s) p (timeval_words t)\<rparr>)"
proof -
  have m: "mapped (cmem s) p 8" "mapped (cmem s) (p + 8) 8"
    using mapped_mono [OF assms(1), of 8] mapped_part [OF assms(1), of 8 8] by simp_all
  have "a = of_nat (t div 1000000)" "b = of_nat (t mod 1000000)" by (simp_all flip: assms(2,3))
  then have "timeval_words t = le_bytes 8 (unat a) @ le_bytes 8 (unat b)" by (simp add: timeval_words_def two_words_def)
  then show "cstore64 p a s = Some (s\<lparr>cmem := poke (cmem s) p (le_bytes 8 (unat a))\<rparr>)"
    "cstore64 (p + 8) b (s\<lparr>cmem := poke (cmem s) p (le_bytes 8 (unat a))\<rparr>) =
      Some (s\<lparr>cmem := poke (cmem s) p (timeval_words t)\<rparr>)"
    using m by (simp_all add: cstore64_def store64_eq poke_append)
qed

text \<open>What the two results round up to.\<close>

lemma div_up: "0 < d \<Longrightarrow> k div d + (if k mod d = 0 then 0 else 1) = (k + (d - 1)) div (d :: nat)"
proof -
  assume d: "0 < d"
  have "(k mod d + (d - 1)) div d = (if k mod d = 0 then 0 else 1)"
    using d mod_less_divisor [OF d, of k] by (auto intro!: div_nat_eqI)
  moreover have "(k div d * d + (k mod d + (d - 1))) div d = k div d + (k mod d + (d - 1)) div d"
    using d by (intro div_mult_self3) simp
  moreover have "k div d * d + (k mod d + (d - 1)) = k + (d - 1)" using div_mult_mod_eq [of k d] by linarith
  ultimately show ?thesis by metis
qed

lemma millis_up:
  "k div 1000000 * 1000 + k mod 1000000 div 1000 + (if k mod 1000000 mod 1000 = 0 then 0 else 1) = (k + 999) div (1000 :: nat)"
proof -
  have "k div 1000000 = k div 1000 div 1000" "k mod 1000000 div 1000 = k div 1000 mod 1000"
    using div_mult2_eq [of k 1000 1000] mod_mult2_eq [of k 1000 1000] by simp_all
  then have "k div 1000000 * 1000 + k mod 1000000 div 1000 = k div 1000"
    using div_mult_mod_eq [of "k div 1000" 1000] by simp
  moreover have "k mod 1000000 mod 1000 = k mod 1000" by (rule mod_mod_cancel) simp
  ultimately show ?thesis using div_up [of 1000 k] by simp
qed

lemma sint_of_nat64: "a < 2 ^ 63 \<Longrightarrow> sint (of_nat a :: i64) = int a"
  by (subst signed_of_nat) (simp add: signed_take_bit_int_eq_self)

lemma c_div_of_nat: "a < 2 ^ 63 \<Longrightarrow> b < 2 ^ 63 \<Longrightarrow> c_div (of_nat a :: i64) (of_nat b) = of_nat (a div b)"
  by (simp add: c_div_def sint_of_nat64 signed_divide_int_def sgn_if flip: of_nat_div)

lemma c_mod_of_nat: "a < 2 ^ 63 \<Longrightarrow> b < 2 ^ 63 \<Longrightarrow> c_mod (of_nat a :: i64) (of_nat b) = of_nat (a mod b)"
  by (cases "b = 0") (simp_all add: c_mod_def sint_of_nat64 signed_modulo_int_def sgn_if flip: of_nat_mod)

lemma nonzero_of_nat: "a < 2 ^ 63 \<Longrightarrow> nonzero (of_nat a :: i64) = (of_nat (if a = 0 then 0 else 1) :: i64)"
proof -
  assume "a < 2 ^ 63"
  then have "sint (of_nat a :: i64) = int a" by (rule sint_of_nat64)
  then have "(of_nat a :: i64) = 0 \<longleftrightarrow> a = 0" by (auto dest: arg_cong [where f = sint])
  then show ?thesis by (simp add: nonzero_def)
qed

lemma millis_result:
  "(ucast (of_nat (k div 1000000) * 1000 + c_div (of_nat (k mod 1000000)) 1000 +
      nonzero (c_mod (of_nat (k mod 1000000) :: i64) 1000) :: i64) :: i32) = of_nat ((k + 999) div 1000)"
proof -
  have us: "k mod 1000000 < 2 ^ 63" "k mod 1000000 mod 1000 < 2 ^ 63"
    by (rule less_trans [OF mod_less_divisor]; simp)+
  have "c_div (of_nat (k mod 1000000)) (of_nat 1000) = (of_nat (k mod 1000000 div 1000) :: i64)"
    "c_mod (of_nat (k mod 1000000)) (of_nat 1000) = (of_nat (k mod 1000000 mod 1000) :: i64)"
    using us(1) by (intro c_div_of_nat c_mod_of_nat; simp)+
  then have "of_nat (k div 1000000) * 1000 + c_div (of_nat (k mod 1000000)) 1000 +
      nonzero (c_mod (of_nat (k mod 1000000) :: i64) 1000) = (of_nat (k div 1000000 * 1000 + k mod 1000000 div 1000 +
        (if k mod 1000000 mod 1000 = 0 then 0 else 1)) :: i64)"
    using nonzero_of_nat [OF us(2)] by simp
  then show ?thesis unfolding millis_up by (simp only: ucast_of_nat32)
qed

lemma seconds_result:
  "(ucast (of_nat (k div 1000000) + nonzero (of_nat (k mod 1000000) :: i64) :: i64) :: i32) = of_nat ((k + 999999) div 1000000)"
proof -
  have "k mod 1000000 < 2 ^ 63" by (rule less_trans [OF mod_less_divisor]) simp_all
  then have "of_nat (k div 1000000) + nonzero (of_nat (k mod 1000000) :: i64) =
      (of_nat (k div 1000000 + (if k mod 1000000 = 0 then 0 else 1)) :: i64)"
    by (simp add: nonzero_of_nat)
  moreover have "k div 1000000 + (if k mod 1000000 = 0 then 0 else 1) = (k + 999999) div 1000000"
    using div_up [of 1000000 k] by simp
  ultimately show ?thesis by (simp only: ucast_of_nat32)
qed

lemma minus_four: "(- 4 :: i32) <s 0" "\<not> (0 :: i32) <s 0"
  by code_simp+

lemma rounded:
  assumes "0 < (d :: nat)"
  shows "k \<le> d * ((k + (d - 1)) div d)" and "k \<le> d * n \<Longrightarrow> (k + (d - 1)) div d \<le> n"
proof -
  have "k + (d - 1) < d + d * ((k + (d - 1)) div d)" using assms by (rule dividend_less_times_div)
  then show "k \<le> d * ((k + (d - 1)) div d)" by linarith
  assume "k \<le> d * n"
  then have "k + (d - 1) < Suc n * d" using assms by (simp add: algebra_simps)
  then have "(k + (d - 1)) div d < Suc n" by (rule less_mult_imp_div_less)
  then show "(k + (d - 1)) div d \<le> n" by simp
qed

lemma msleep_stores:
  assumes "mapped (cmem s) fp 16"
  shows "cstore64 fp (ucast (ms div 1000)) s =
      Some (s\<lparr>cmem := poke (cmem s) fp (le_bytes 8 (unat (ucast (ms div 1000) :: i64)))\<rparr>)"
    and "cstore64 (fp + 8) (ucast ((ms mod 1000 :: i32) * 1000))
      (s\<lparr>cmem := poke (cmem s) fp (le_bytes 8 (unat (ucast (ms div 1000) :: i64)))\<rparr>) =
      Some (s\<lparr>cmem := poke (cmem s) fp (timeval_words (1000 * unat ms))\<rparr>)"
proof -
  let ?t = "1000 * unat ms"
  have t: "?t div 1000000 = unat ms div 1000" "?t mod 1000000 = unat ms mod 1000 * 1000"
    using div_mult_mult1 [of 1000 "unat ms" 1000] mult_mod_right [of 1000 "unat ms" 1000] by simp_all
  have "unat (ucast (ms div 1000) :: i64) = ?t div 1000000" unfolding t by (simp add: unat_div)
  moreover have "unat ((ms mod 1000) * 1000) = unat ms mod 1000 * 1000"
    using mod_less_divisor [of 1000 "unat ms"] by (subst unat_mult_lem [THEN iffD1]) (simp_all add: unat_mod)
  then have "unat (ucast ((ms mod 1000) * 1000) :: i64) = ?t mod 1000000" unfolding t by simp
  ultimately show "cstore64 fp (ucast (ms div 1000)) s =
      Some (s\<lparr>cmem := poke (cmem s) fp (le_bytes 8 (unat (ucast (ms div 1000) :: i64)))\<rparr>)"
    "cstore64 (fp + 8) (ucast ((ms mod 1000) * 1000))
      (s\<lparr>cmem := poke (cmem s) fp (le_bytes 8 (unat (ucast (ms div 1000) :: i64)))\<rparr>) =
      Some (s\<lparr>cmem := poke (cmem s) fp (timeval_words ?t)\<rparr>)"
    by (rule timeval_stored [OF assms])+
qed

lemma msleep_naps:
  assumes n: "naps T clock nap" "has_select T" "mapped (cmem s) fp 16" and r: "nap (1000 * unat ms) (kern s) = (i, k, w)"
  shows "\<exists>s'. msleep T fp fp' ms s = Some (of_nat ((k + 999) div 1000), s') \<and> errno s' = errno s \<and> kern s' = w \<and>
    (\<forall>a. \<not> in_range fp 16 a \<longrightarrow> cmem s' a = cmem s a)"
proof -
  let ?t = "1000 * unat ms"
  obtain s' where s': "sys_select T fp' 0 0 0 0 fp (s\<lparr>cmem := poke (cmem s) fp (timeval_words ?t)\<rparr>) = Some (if i then - 4 else 0, s')"
    "errno s' = errno s" "kern s' = w"
    "load64 (cmem s') fp = Some (of_nat (k div 1000000))" "load64 (cmem s') (fp + 8) = Some (of_nat (k mod 1000000))"
    "\<forall>a. \<not> in_range fp 16 a \<longrightarrow> cmem s' a = cmem s a"
    using select_naps [OF n _ refl r, of fp'] unat_lt32 [of ms] by auto
  have "msleep T fp fp' ms s = Some (of_nat ((k + 999) div 1000), s')"
    using napsD(2) [OF n(1) r] unfolding msleep_def msleep_stores [OF n(3)] bind.bind_lunit s'(1)
    by (auto simp: minus_four cload64_def s'(4,5) millis_result)
  then show ?thesis using s' by auto
qed

lemma sleep_naps:
  assumes n: "naps T clock nap" "has_select T" "mapped (cmem s) fp 16" and r: "nap (1000000 * unat secs) (kern s) = (i, k, w)"
  shows "\<exists>s'. sleep T fp fp' secs s = Some (of_nat ((k + 999999) div 1000000), s') \<and> errno s' = errno s \<and> kern s' = w \<and>
    (\<forall>a. \<not> in_range fp 16 a \<longrightarrow> cmem s' a = cmem s a)"
proof -
  let ?t = "1000000 * unat secs"
  have "unat (ucast secs :: i64) = ?t div 1000000" "unat (0 :: i64) = ?t mod 1000000" by simp_all
  then have st: "cstore64 fp (ucast secs) s = Some (s\<lparr>cmem := poke (cmem s) fp (le_bytes 8 (unat (ucast secs :: i64)))\<rparr>)"
    "cstore64 (fp + 8) 0 (s\<lparr>cmem := poke (cmem s) fp (le_bytes 8 (unat (ucast secs :: i64)))\<rparr>) =
      Some (s\<lparr>cmem := poke (cmem s) fp (timeval_words ?t)\<rparr>)"
    by (rule timeval_stored [OF n(3)])+
  obtain s' where s': "sys_select T fp' 0 0 0 0 fp (s\<lparr>cmem := poke (cmem s) fp (timeval_words ?t)\<rparr>) = Some (if i then - 4 else 0, s')"
    "errno s' = errno s" "kern s' = w"
    "load64 (cmem s') fp = Some (of_nat (k div 1000000))" "load64 (cmem s') (fp + 8) = Some (of_nat (k mod 1000000))"
    "\<forall>a. \<not> in_range fp 16 a \<longrightarrow> cmem s' a = cmem s a"
    using select_naps [OF n _ refl r, of fp'] unat_lt32 [of secs] by auto
  have "sleep T fp fp' secs s = Some (of_nat ((k + 999999) div 1000000), s')"
    using napsD(2) [OF n(1) r] unfolding sleep_def st(1) bind.bind_lunit st(2) s'(1)
    by (auto simp: minus_four cload64_def s'(4,5) seconds_result)
  then show ?thesis using s' by auto
qed

text \<open>
  Property C14. \<open>msleep\<close> and \<open>sleep\<close> on a kernel with \<^verbatim>\<open>select\<close> wait once, in the world the kernel's
  wait leaves, and return what was then left, in whole milliseconds or seconds rounded up: 0 when the
  wait was not interrupted, and never more than was asked for. The time that passed and the
  result make up at least what was asked for, so that calling again with the result until it
  is 0 never sleeps too little. \<open>errno\<close> and memory other than the local timeout are left alone.
\<close>

theorem sleep_reports_rest:
  assumes n: "naps T clock nap" "has_select T" "mapped (cmem s) fp 16"
    and ms: "nap (1000 * unat ms) (kern s) = (i, k, w)" and secs: "nap (1000000 * unat secs) (kern s) = (i', k', w')"
  shows "(\<exists>left s'. msleep T fp fp' ms s = Some (of_nat left, s') \<and>
      left = (k + 999) div 1000 \<and> (\<not> i \<longrightarrow> left = 0) \<and> left \<le> unat ms \<and> kern s' = w \<and>
      clock (kern s) + 1000 * unat ms \<le> clock (kern s') + 1000 * left \<and> errno s' = errno s \<and>
      (\<forall>a. \<not> in_range fp 16 a \<longrightarrow> cmem s' a = cmem s a)) \<and>
    (\<exists>left s'. sleep T fp fp' secs s = Some (of_nat left, s') \<and>
      left = (k' + 999999) div 1000000 \<and> (\<not> i' \<longrightarrow> left = 0) \<and> left \<le> unat secs \<and> kern s' = w' \<and>
      clock (kern s) + 1000000 * unat secs \<le> clock (kern s') + 1000000 * left \<and> errno s' = errno s \<and>
      (\<forall>a. \<not> in_range fp 16 a \<longrightarrow> cmem s' a = cmem s a))"
proof (intro conjI)
  let ?left = "(k + 999) div 1000" and ?left' = "(k' + 999999) div 1000000"
  obtain s' where r: "msleep T fp fp' ms s = Some (of_nat ?left, s')" "errno s' = errno s" "kern s' = w"
    "\<forall>a. \<not> in_range fp 16 a \<longrightarrow> cmem s' a = cmem s a"
    using msleep_naps [OF n ms, of fp'] by blast
  moreover have "clock (kern s) + 1000 * unat ms \<le> clock w + 1000 * ?left" "?left \<le> unat ms" "\<not> i \<longrightarrow> ?left = 0"
    using rounded(1) [of 1000 k] rounded(2) [of 1000 k "unat ms"] napsD(1-3) [OF n(1) ms] by auto
  ultimately show "\<exists>left s'. msleep T fp fp' ms s = Some (of_nat left, s') \<and>
      left = (k + 999) div 1000 \<and> (\<not> i \<longrightarrow> left = 0) \<and> left \<le> unat ms \<and> kern s' = w \<and>
      clock (kern s) + 1000 * unat ms \<le> clock (kern s') + 1000 * left \<and> errno s' = errno s \<and>
      (\<forall>a. \<not> in_range fp 16 a \<longrightarrow> cmem s' a = cmem s a)"
    by (intro exI [of _ ?left] exI [of _ s']) simp
  obtain s' where r: "sleep T fp fp' secs s = Some (of_nat ?left', s')" "errno s' = errno s" "kern s' = w'"
    "\<forall>a. \<not> in_range fp 16 a \<longrightarrow> cmem s' a = cmem s a"
    using sleep_naps [OF n secs, of fp'] by blast
  moreover have "clock (kern s) + 1000000 * unat secs \<le> clock w' + 1000000 * ?left'" "?left' \<le> unat secs" "\<not> i' \<longrightarrow> ?left' = 0"
    using rounded(1) [of 1000000 k'] rounded(2) [of 1000000 k' "unat secs"] napsD(1-3) [OF n(1) secs] by auto
  ultimately show "\<exists>left s'. sleep T fp fp' secs s = Some (of_nat left, s') \<and>
      left = (k' + 999999) div 1000000 \<and> (\<not> i' \<longrightarrow> left = 0) \<and> left \<le> unat secs \<and> kern s' = w' \<and>
      clock (kern s) + 1000000 * unat secs \<le> clock (kern s') + 1000000 * left \<and> errno s' = errno s \<and>
      (\<forall>a. \<not> in_range fp 16 a \<longrightarrow> cmem s' a = cmem s a)"
    by (intro exI [of _ ?left'] exI [of _ s']) simp
qed

text \<open>A kernel that is interrupted after one and a half milliseconds; its world is the clock.\<close>

definition short_nap :: "nat \<Rightarrow> nat \<Rightarrow> bool \<times> nat \<times> nat" where
  "short_nap t w = (1500 < t, t - 1500, w + (t - (t - 1500)))"

definition nap_kernel :: "sysnr \<Rightarrow> i64 list \<Rightarrow> mem \<Rightarrow> nat \<Rightarrow> i64 \<times> mem \<times> nat" where
  "nap_kernel nr args m w =
     (case (load64 m (args ! 4), load64 m (args ! 4 + 8)) of
        (Some sec, Some usec) \<Rightarrow>
          let (i, k, w') = short_nap (unat sec * 1000000 + unat usec) w in
          (if i then - 4 else 0, poke m (args ! 4) (timeval_words k), w')
      | _ \<Rightarrow> (- 14, m, w))"

lemma nap_kernel_naps: "naps (x86_linux nap_kernel) (\<lambda>w. w) short_nap"
  and nap_kernel_selects: "has_select (x86_linux nap_kernel)"
proof -
  show "has_select (x86_linux nap_kernel)" by (simp add: has_select_def x86_linux_def)
  have "nap_kernel nr [0, 0, 0, 0, p] m w = (if i then - 4 else 0, poke m p (timeval_words k), w')"
    if b: "bytes_at m p (timeval_words t)" and t: "t < 2 ^ 52" and r: "short_nap t w = (i, k, w')" for m w p t nr i k w'
  proof -
    have "t div 1000000 < 2 ^ 64" using t by (rule le_less_trans [OF div_le_dividend less_trans]) simp
    moreover have "t mod 1000000 < 2 ^ 64" by (rule less_trans [OF mod_less_divisor]) simp_all
    moreover have "load64 m p = Some (of_nat (t div 1000000))" "load64 m (p + 8) = Some (of_nat (t mod 1000000))"
      using b by (simp_all add: timeval_words_def two_words_def load64_bytes)
    ultimately show ?thesis using r by (simp add: nap_kernel_def unat_of_nat64)
  qed
  then show "naps (x86_linux nap_kernel) (\<lambda>w. w) short_nap"
    by (simp add: naps_def x86_linux_def short_nap_def)
qed

theorem sleep_reports_rest_witness:
  "\<exists>s'. msleep (x86_linux nap_kernel) 100 200 3 (process (\<lambda>_. Some 7) 0) = Some (2, s') \<and> kern s' = 1500"
  using sleep_reports_rest [OF nap_kernel_naps nap_kernel_selects, where s = "process (\<lambda>_. Some 7) 0" and
      fp = 100 and fp' = 200 and ms = 3 and secs = 0 and i = True and k = 1500 and w = 1500 and i' = False and k' = 0 and w' = 0]
  by (auto simp: mapped_total short_nap_def)

text \<open>
  On an architecture that has only \<^verbatim>\<open>pselect6\<close> the rest of the time is not written back to
  the caller's timeout: an interrupted \<open>msleep\<close> reports all of the time, however much has passed.
\<close>

theorem msleep_pselect_full:
  assumes T: "\<not> nr_defined T ''_newselect''" "\<not> nr_defined T ''select''" "\<not> ARCH_WANT_SYS_OLD_SELECT T" "nr_defined T ''pselect6''"
    and m: "fp \<noteq> 0" "mapped (cmem s) fp 16" "mapped (cmem s) fp' 16" "apart fp' 16 fp 16"
    and k: "\<And>m. kcall T ''pselect6'' [0, 0, 0, 0, fp', 0] m (kern s) = (- 4, poke m fp' (two_words sec nsec), w')"
  shows "\<exists>m'. msleep T fp fp' ms s = Some (ms, s\<lparr>cmem := m', kern := w'\<rparr>)"
proof -
  let ?t = "1000 * unat ms"
  let ?s1 = "s\<lparr>cmem := poke (cmem s) fp (timeval_words ?t)\<rparr>"
  have ld: "load64 (poke (cmem s) fp (timeval_words ?t)) fp = Some (of_nat (?t div 1000000))"
    "load64 (poke (cmem s) fp (timeval_words ?t)) (fp + 8) = Some (of_nat (?t mod 1000000))"
    by (simp_all add: timeval_words_def load_two_words)
  have ap: "apart fp' 8 (fp + 8) 8" "apart fp' 16 fp 8" "apart fp' 16 (fp + 8) 8"
    using apart_sub [OF m(4), of 0 8 8 8] apart_sub [OF m(4), of 0 16 0 8] apart_sub [OF m(4), of 0 16 8 8] by simp_all
  have mp: "mapped (poke (cmem s) fp (timeval_words ?t)) fp' 8" "mapped (cmem s) (fp' + 8) 8"
    using mapped_mono [OF m(3), of 8] mapped_part [OF m(3), of 8 8] by simp_all
  let ?v = "of_nat (?t mod 1000000) * 1000"
  let ?m = "poke (poke (cmem s) fp (timeval_words ?t)) fp' (two_words (of_nat (?t div 1000000)) ?v)"
  let ?s = "s\<lparr>cmem := poke ?m fp' (two_words sec nsec), kern := w'\<rparr>"
  have four: "(ucast (- 4 :: i64) :: i32) = - 4" "(18446744073709551612 :: i32) = - 4" by code_simp+
  have "sys_select T fp' 0 0 0 0 fp ?s1 = Some (- 4, ?s)"
    using T m(1) ld ap mp k
    by (simp add: sys_select_def cload64_def cstore64_def store64_eq load64_poke_apart poke_two_words
        int_result_def my_syscall6_def syscall_insn_def four)
  moreover have "load64 (cmem ?s) fp = Some (of_nat (?t div 1000000))" "load64 (cmem ?s) (fp + 8) = Some (of_nat (?t mod 1000000))"
    using ld ap by (simp_all add: load64_poke_apart)
  moreover note millis_result [of ?t]
  ultimately have "msleep T fp fp' ms s = Some (ms, ?s)"
    unfolding msleep_def msleep_stores [OF m(2)] bind.bind_lunit
    by (simp add: minus_four cload64_def)
  then show ?thesis by blast
qed

theorem usleep_returns_error:
  assumes "has_select T" and "mapped (cmem s) fp 16"
    and "kcall T (select_nr T) [0, 0, 0, 0, fp] (poke (cmem s) fp (timeval_words (unat us))) (kern s) = (- 4, m', w')"
  shows "usleep T fp fp' us s = Some (- 4, s\<lparr>cmem := m', kern := w'\<rparr>)"
proof -
  have "unat (ucast (us div 1000000) :: i64) = unat us div 1000000" "unat (ucast (us mod 1000000) :: i64) = unat us mod 1000000"
    by (simp_all add: unat_div unat_mod)
  then have st: "cstore64 fp (ucast (us div 1000000)) s =
      Some (s\<lparr>cmem := poke (cmem s) fp (le_bytes 8 (unat (ucast (us div 1000000) :: i64)))\<rparr>)"
    "cstore64 (fp + 8) (ucast (us mod 1000000))
      (s\<lparr>cmem := poke (cmem s) fp (le_bytes 8 (unat (ucast (us div 1000000) :: i64)))\<rparr>) =
      Some (s\<lparr>cmem := poke (cmem s) fp (timeval_words (unat us))\<rparr>)"
    by (rule timeval_stored [OF assms(2)])+
  have "(ucast (- 4 :: i64) :: i32) = - 4" by code_simp
  then show ?thesis unfolding usleep_def st(1) bind.bind_lunit st(2) using assms(3)
    by (simp add: sys_select_sleeps [OF assms(1)] int_result_def my_syscall5_def syscall_insn_def)
qed

end
