(* ===== verification/MessageProps.thy ===== *)
theory MessageProps
  imports Messages StdioProps Linux
begin

section \<open>How an error number is reported\<close>

text \<open>
  \<open>strerror\<close> writes the number behind the prefix that its static buffer starts with, and
  \<open>perror\<close> prints the number behind the given text.
\<close>

lemma length_int_text_int: "length (int_text (sint (e :: i32))) \<le> 11"
proof -
  have "length (digits_in 10 n) \<le> 10" if "n \<le> 2 ^ 31" for n
    using that length_digits_in [of 10 n 9] by simp
  from this [of "nat (- sint e)"] this [of "nat (sint e)"] show ?thesis
    using sint_range32 [of e] by (auto simp: int_text_def nat_le_iff)
qed

lemma int_text_nonzero: "0 \<notin> set (int_text (sint (e :: i32)))"
  using conv_text_bounds(2) [of 100 "scast e"] by (simp add: conv_text_def sint_scast32)

text \<open>
  Property C30. \<open>strerror\<close> leaves the text \<^verbatim>\<open>errno=\<close> and the decimal number in its buffer and returns the
  buffer, for every number and whatever an earlier call left; it never writes outside the 18 bytes
  the buffer has, which the longest number fills to the last byte.
\<close>

theorem strerror_fits:
  assumes "bytes_at (cmem s) (strerror_buf D) (chars ''errno='')" and "mapped (cmem s) (strerror_buf D) 18"
  shows "\<exists>s'. strerror D e s = Some (strerror_buf D, s') \<and>
    cstr (cmem s') (strerror_buf D) (chars ''errno='' @ int_text (sint e)) \<and>
    (\<forall>a. \<not> in_range (strerror_buf D) 18 a \<longrightarrow> cmem s' a = cmem s a) \<and> s'\<lparr>cmem := cmem s\<rparr> = s"
proof -
  let ?b = "strerror_buf D" and ?t = "int_text (sint e)"
  let ?m = "poke (cmem s) (?b + of_nat 6) (?t @ [0])"
  have len: "6 + Suc (length ?t) \<le> 18" using length_int_text_int [of e] by simp
  have "i64toa_r (cmem s) (scast e) (?b + of_nat 6) = Some (of_nat (length ?t), ?m)"
    using mapped_part [OF assms(2) len] by (intro i64toa_r_prints) (simp_all add: sint_scast32)
  then have st: "strerror D e s = Some (?b, s\<lparr>cmem := ?m\<rparr>)"
    by (simp add: strerror_def)
  have six: "length (chars ''errno='') = 6" by simp
  have "apart (?b + of_nat 6) (length (?t @ [0])) ?b (length (chars ''errno=''))"
    unfolding six by (rule apart_next) (use len in simp)
  then have "bytes_at ?m ?b (chars ''errno='')" using bytes_at_poke_apart assms(1) by blast
  moreover have "bytes_at ?m (?b + of_nat 6) (?t @ [0])" using len by (intro bytes_at_poke_self) simp
  ultimately have "bytes_at ?m ?b (chars ''errno='' @ ?t @ [0])" by (simp only: bytes_at_append six)
  moreover have "0 \<notin> set (chars ''errno='')" by code_simp
  ultimately have "cstr ?m ?b (chars ''errno='' @ ?t)" using int_text_nonzero by (simp add: cstr_iff_bytes)
  moreover have "?m a = cmem s a" if "\<not> in_range ?b 18 a" for a
    using that in_range_add [of 6 "length (?t @ [0])" 18 ?b a] len by (intro poke_outside) auto
  ultimately show ?thesis using st by auto
qed

theorem strerror_fits_witness:
  "\<exists>s'. strerror demo_data (- 22) (process (poke (\<lambda>_. Some 7) 56 (chars ''errno='')) ()) = Some (56, s') \<and>
     cstr (cmem s') 56 (chars ''errno=-22'') \<and> cmem s' 74 = Some 7"
proof -
  let ?m = "poke (\<lambda>_. Some 7) 56 (chars ''errno='') :: mem"
  have t: "chars ''errno='' @ int_text (sint (- 22 :: i32)) = chars ''errno=-22''"
    "\<not> in_range 56 18 74" "\<not> in_range 56 (length (chars ''errno='')) 74" by code_simp+
  have "bytes_at ?m 56 (chars ''errno='')" by (intro bytes_at_poke_self) simp
  moreover have "mapped ?m 56 18" by (intro mapped_poke mapped_total)
  ultimately have "\<exists>s'. strerror demo_data (- 22) (process ?m ()) = Some (strerror_buf demo_data, s') \<and>
      cstr (cmem s') (strerror_buf demo_data) (chars ''errno='' @ int_text (sint (- 22 :: i32))) \<and>
      (\<forall>a. \<not> in_range (strerror_buf demo_data) 18 a \<longrightarrow> cmem s' a = cmem (process ?m ()) a) \<and>
      s'\<lparr>cmem := cmem (process ?m ())\<rparr> = process ?m ()"
    by (intro strerror_fits) (simp_all add: demo_data_def)
  then show ?thesis using t poke_outside [OF t(3), of "\<lambda>_. Some 7"] by (auto simp: demo_data_def)
qed

text \<open>
  Property C16. \<open>perror\<close> prints the text it is given and a colon, if there is a text that is not empty,
  then \<^verbatim>\<open>errno=\<close> and the number in decimal on one line of the error stream, whatever the lengths of
  the kernel's writes; it does not change errno, nor memory other than the buffer of \<open>printf\<close>.
\<close>

theorem perror_reports:
  fixes out :: "'w \<Rightarrow> byte list"
  assumes w: "writes T 2 out" and rdy: "print_ready D (cmem s)"
    and lits: "text_at D (cmem s) (lit_perror D) (chars ''%s%serrno=%d'' @ [10])"
      "lit_colon D \<noteq> 0" "text_at D (cmem s) (lit_colon D) (chars '': '')"
      "lit_empty D \<noteq> 0" "text_at D (cmem s) (lit_empty D) []"
    and msg: "msg = 0 \<and> t = [] \<or> msg \<noteq> 0 \<and> text_at D (cmem s) msg t" "length t < 2 ^ 62"
  shows "\<exists>s'. perror T D msg s = Some s' \<and>
    out (kern s') = out (kern s) @ (if t = [] then [] else t @ chars '': '') @ chars ''errno='' @ int_text (sint (errno s)) @ [10] \<and>
    same_but (tmpbuf D) 21 s s'"
proof -
  let ?a = "if t = [] then lit_empty D else msg" and ?b = "if t = [] then lit_empty D else lit_colon D"
  let ?c = "if t = [] then [] else chars '': ''" and ?n = "int_text (sint (errno s))"
  let ?ps = "[Str 0 [] ?a t, Str 0 [] ?b ?c, Lit (chars ''errno=''), Num 0 [] 100 (ucast (errno s)), Lit [10]]"
  have err: "(ucast (NOT stderr) :: i32) = 2" "stderr <s 0" by code_simp+
  have named: "(if msg \<noteq> 0 then do { c \<leftarrow> load (cmem s) msg; Some (c \<noteq> 0) } else Some False) = Some (t \<noteq> [])"
    using msg(1) by (cases t) (auto simp: text_at_def)
  have f: "concat (List.map piece_fmt ?ps) @ [0] = (chars ''%s%serrno=%d'' @ [10]) @ [0]" by simp code_simp
  have ch: "0 \<notin> set (chars ''errno='')" "37 \<notin> set (chars ''errno='')" "(0 :: byte) \<noteq> 10" "(37 :: byte) \<noteq> 10" by code_simp+
  have ab: "?a \<noteq> 0" "?b \<noteq> 0" "text_at D (cmem s) ?a t" "text_at D (cmem s) ?b ?c" using msg lits by auto
  have line: "concat (List.map padded ?ps) = t @ ?c @ chars ''errno='' @ ?n @ [10]"
    by (simp add: padded_def conv_text_def num_value_def dec_value_def sint_scast32)
  have "\<exists>s'. fprintf T D stderr (lit_perror D) (concat (List.map piece_args ?ps)) s =
        Some (of_nat (length (t @ ?c @ chars ''errno='' @ ?n @ [10])), s') \<and>
      out (kern s') = out (kern s) @ (t @ ?c @ chars ''errno='' @ ?n @ [10]) \<and> same_but (tmpbuf D) 21 s s' \<and> print_ready D (cmem s')"
  proof (rule fprintf_pieces [OF _ err(2) rdy _ _ _ _ line [symmetric]], goal_cases)
    case 1
    then show ?case using w err(1) by simp
  next
    case 2
    then show ?case unfolding f using lits(1) by (simp only: text_at_def cstr_iff_bytes)
  next
    case 3
    then show ?case unfolding f using lits(1) by (simp add: text_at_def)
  next
    case 4
    then show ?case unfolding f by simp
  next
    case 5
    then show ?case using ab ch by (simp add: text_at_def dec_value_def)
  next
    case 6
    then show ?case using msg(2) length_int_text_int [of "errno s"] by simp
  qed
  then show ?thesis using named by (auto simp: perror_def Let_def)
qed

definition error_bytes :: "byte list" where
  "error_bytes = [0, 0] @ chars '': '' @ [0, 0] @ chars ''%s%serrno=%d'' @ [10, 0] @ chars ''open'' @ [0]"

definition error_mem :: mem where
  "error_mem = poke ((\<lambda>_. Some 7)(80 \<mapsto> 32)) 90 error_bytes"

lemma error_image:
  "text_at demo_data error_mem (lit_perror demo_data) (chars ''%s%serrno=%d'' @ [10])"
  "text_at demo_data error_mem (lit_colon demo_data) (chars '': '')" "text_at demo_data error_mem (lit_empty demo_data) []"
  "text_at demo_data error_mem 110 (chars ''open'')" "print_ready demo_data error_mem"
proof -
  have len: "length error_bytes = 25" by (simp add: error_bytes_def)
  have "bytes_at error_mem 90 error_bytes"
    unfolding error_mem_def by (rule bytes_at_poke_self) (simp add: len)
  note b = this [unfolded error_bytes_def, simplified]
  have nz: "\<forall>s \<in> set ['': '', ''%s%serrno=%d'', ''open'']. 0 \<notin> set (chars s)" "(10 :: byte) \<noteq> 0" by code_simp+
  show "text_at demo_data error_mem (lit_perror demo_data) (chars ''%s%serrno=%d'' @ [10])"
    "text_at demo_data error_mem (lit_colon demo_data) (chars '': '')" "text_at demo_data error_mem (lit_empty demo_data) []"
    "text_at demo_data error_mem 110 (chars ''open'')"
    using b nz by (simp_all add: text_at_def cstr_iff_bytes demo_data_def apart_def)
  have "mapped error_mem 20 21" unfolding error_mem_def by (intro mapped_poke mapped_update mapped_total)
  then show "print_ready demo_data error_mem"
    by (simp add: print_ready_def demo_data_def error_mem_def apart_def poke_outside in_range_def len)
qed

theorem perror_reports_witness:
  "\<exists>s'. perror (x86_linux tty_kernel) demo_data 110 ((process error_mem ([], []))\<lparr>errno := 13\<rparr>) = Some s' \<and>
     snd (kern s') = chars ''open: errno=13'' @ [10]"
proof -
  let ?s = "(process error_mem ([] :: byte list, [] :: byte list))\<lparr>errno := 13\<rparr>"
  have t: "chars ''open'' @ chars '': '' @ chars ''errno='' @ int_text (sint (13 :: i32)) @ [10] = chars ''open: errno=13'' @ [10]"
    "chars ''open'' \<noteq> []" by code_simp+
  have "\<exists>s'. perror (x86_linux tty_kernel) demo_data 110 ?s = Some s' \<and>
      snd (kern s') = snd (kern ?s) @ (if chars ''open'' = [] then [] else chars ''open'' @ chars '': '') @ chars ''errno='' @
        int_text (sint (errno ?s)) @ [10] \<and>
      same_but (tmpbuf demo_data) 21 ?s s'"
    using error_image by (intro perror_reports [OF tty_writes]) (auto simp: demo_data_def)
  then show ?thesis using t by auto
qed

end
