(* ===== verification/Hello.thy ===== *)
theory Hello
  imports Printf Strto
begin

section \<open>hello.c\<close>

text \<open>
  The demonstration program. The addresses of its literals are a record; \<^verbatim>\<open>main\<close> assigns the
  global \<^verbatim>\<open>environ\<close> of the library.
\<close>

record hello_lits =
  fmt_pid :: addr
  fmt_arg1 :: addr
  fmt_msg :: addr
  fmt_ret :: addr
  fmt_err :: addr
  fmt_argc :: addr
  fmt_argv :: addr
  fmt_envp :: addr
  fmt_path :: addr
  lit_hello :: addr
  lit_none :: addr
  lit_path :: addr

definition hello_main ::
  "'w target \<Rightarrow> stdio_data \<Rightarrow> hello_lits \<Rightarrow> i32 \<Rightarrow> addr \<Rightarrow> addr \<Rightarrow> 'w cstate \<Rightarrow> (i32 \<times> 'w cstate) option" where
  "hello_main T D L argc argv envp s = do {
     let s = s\<lparr>environ := envp\<rparr>;
     let (pid, s) = getpid T s;
     (_, s) \<leftarrow> printf T D (fmt_pid L) [scast pid] s;
     n \<leftarrow> (if 1 <s argc then do { a \<leftarrow> load64 (cmem s) (argv + 8); atol (cmem s) a } else Some 0);
     (_, s) \<leftarrow> printf T D (fmt_arg1 L) [n] s;
     msg \<leftarrow> (if 2 <s argc then load64 (cmem s) (argv + 16) else Some (lit_hello L));
     (ret, s) \<leftarrow> printf T D (fmt_msg L) [msg] s;
     let err = errno s;
     (_, s) \<leftarrow> printf T D (fmt_ret L) [scast ret] s;
     (_, s) \<leftarrow> printf T D (fmt_err L) [scast err] s;
     (_, s) \<leftarrow> printf T D (fmt_argc L) [scast argc] s;
     a0 \<leftarrow> load64 (cmem s) argv;
     (_, s) \<leftarrow> printf T D (fmt_argv L) [a0] s;
     e0 \<leftarrow> load64 (cmem s) envp;
     (_, s) \<leftarrow> printf T D (fmt_envp L) [if e0 \<noteq> 0 then e0 else lit_none L] s;
     path \<leftarrow> getenv (lit_path L) s;
     (_, s) \<leftarrow> printf T D (fmt_path L) [path] s;
     Some (0, s) }"

end
