(* ===== verification/HelloProps.thy ===== *)
theory HelloProps
  imports StrtoFacts StdioProps StartProps Hello Messages Linux
begin

section \<open>The demonstration program, from its stack to its output\<close>

text \<open>
  \<open>hello.c\<close> uses the start-up code, \<open>printf\<close>, \<open>atol\<close>, \<open>getenv\<close> and the
  system calls together. The facts on these components give, for every argument list and
  environment, all that the program prints. \<open>text_number\<close> is the number \<open>atol\<close> reads at the
  start of a text.
\<close>

definition text_number :: "byte list \<Rightarrow> i64" where
  "text_number xs =
     (let neg = (take 1 xs = [45]); ds = takeWhile is_digit (if neg then drop 1 xs else xs);
          v = of_nat (dec_value ds) in if neg then - v else v)"

lemma atol_cstr:
  assumes "cstr m p xs"
  shows "atol m p = Some (text_number xs)"
proof -
  let ?neg = "take 1 xs = [45]" and ?ys = "if take 1 xs = [45] then drop 1 xs else xs"
  let ?sign = "if ?neg then [45] else [] :: byte list"
  have xs: "xs = ?sign @ ?ys" by (cases xs) auto
  have "cstr m (p + of_nat (length ?sign)) ?ys"
    using assms cstr_append_drop [of m p ?sign ?ys] xs by metis
  moreover have "\<not> is_digit 0" by (simp add: is_digit_def)
  ultimately obtain c where c: "bytes_at m (p + of_nat (length ?sign)) (takeWhile is_digit ?ys @ [c])" "\<not> is_digit c"
    using cstr_run [of m _ ?ys is_digit] by blast
  have "bytes_at m p ?sign" using assms xs by (metis bytes_at_append cstr_iff_bytes append.assoc)
  then have b: "bytes_at m p (?sign @ takeWhile is_digit ?ys @ [c])" using c(1) by simp
  moreover have "\<forall>d \<in> set (takeWhile is_digit ?ys). is_digit d" by (auto dest: set_takeWhileD)
  moreover have "?sign = [] \<and> hd (takeWhile is_digit ?ys @ [c]) \<noteq> 45 \<or> ?sign = [45]"
  proof (cases ?neg)
    case False
    then have "hd (takeWhile is_digit xs @ [c]) \<noteq> 45"
      using b assms by (cases xs) (auto simp: is_digit_def)
    with False show ?thesis by simp
  qed simp
  ultimately have "atol m p = Some (if ?sign = [] then of_nat (dec_value (takeWhile is_digit ?ys))
      else - of_nat (dec_value (takeWhile is_digit ?ys)))"
    using c(2) by (intro atol_parses)
  then show ?thesis by (simp add: text_number_def Let_def)
qed

text \<open>Arrays of texts that \<open>printf\<close> does not overwrite.\<close>

fun texts_at :: "stdio_data \<Rightarrow> mem \<Rightarrow> addr \<Rightarrow> (addr \<times> byte list) list \<Rightarrow> bool" where
  "texts_at D m p [] = (load64 m p = Some 0 \<and> apart p 8 (tmpbuf D) 21)"
| "texts_at D m p ((e, xs) # es) =
     (load64 m p = Some e \<and> apart p 8 (tmpbuf D) 21 \<and> e \<noteq> 0 \<and> text_at D m e xs \<and> texts_at D m (p + 8) es)"

lemma texts_at_env: "texts_at D m p es \<Longrightarrow> env_at m p es"
  by (induction D m p es rule: texts_at.induct) (auto simp: text_at_def)

lemma texts_at_nth:
  "texts_at D m p es \<Longrightarrow> i < length es \<Longrightarrow>
   load64 m (p + 8 * of_nat i) = Some (fst (es ! i)) \<and> fst (es ! i) \<noteq> 0 \<and> text_at D m (fst (es ! i)) (snd (es ! i))"
proof (induction es arbitrary: p i)
  case (Cons e es)
  then show ?case using Cons.IH [of "p + 8" "i - 1"] by (cases e; cases i) (auto simp: algebra_simps)
qed simp

lemma texts_at_hd:
  "texts_at D m p es \<Longrightarrow> load64 m p = Some (if es = [] then 0 else fst (hd es))"
  by (cases es; cases "hd es") auto

lemma texts_at_same: "texts_at D (cmem s) p es \<Longrightarrow> same_but (tmpbuf D) 21 s s' \<Longrightarrow> texts_at D (cmem s') p es"
  by (induction D "cmem s" p es rule: texts_at.induct)
    (auto simp: load64_same intro: text_at_same)

text \<open>A line of the program: a label, one argument in brackets, a newline.\<close>

definition hello_line :: "string \<Rightarrow> byte list \<Rightarrow> byte list" where
  "hello_line l conv = chars l @ chars '': <'' @ conv @ [62, 10]"

definition line_ready :: "'w target \<Rightarrow> stdio_data \<Rightarrow> ('w \<Rightarrow> byte list) \<Rightarrow> 'w cstate \<Rightarrow> byte list \<Rightarrow> 'w cstate \<Rightarrow> bool" where
  "line_ready T D out s0 sent s \<longleftrightarrow>
     writes T 1 out \<and> print_ready D (cmem s) \<and> same_but (tmpbuf D) 21 s0 s \<and> out (kern s) = out (kern s0) @ sent"

definition label_ok :: "string \<Rightarrow> bool" where
  "label_ok lab \<longleftrightarrow> 0 \<notin> set (chars lab) \<and> 37 \<notin> set (chars lab) \<and> length lab = 4"

lemma line_prints:
  assumes r: "line_ready T D out s0 sent s"
    and x: "x = Num l [] c v \<or> x = Str l [] v t" "piece_ok D (cmem s) (\<lambda>p k. apart p k (tmpbuf D) 21) x"
    and fmt: "text_at D (cmem s0) fmt (hello_line lab (piece_fmt x))"
    and lb: "label_ok lab"
    and t: "plain x = tx" "length tx < 2 ^ 60"
  shows "\<exists>s'. printf T D fmt [v] s = Some (of_nat (length (hello_line lab tx)), s') \<and>
    line_ready T D out s0 (sent @ hello_line lab tx) s'"
proof -
  have lab: "0 \<notin> set (chars lab)" "37 \<notin> set (chars lab)" "length lab < 2 ^ 30"
    using lb by (auto simp: label_ok_def)
  let ?a = "chars lab @ chars '': <''"
  let ?ps = "[Lit ?a, x, Lit [62, 10]]"
  have stdout: "stdout <s 0" "(ucast (NOT stdout) :: i32) = 1" by code_simp+
  have ch: "set (chars '': <'') = {58, 32, 60}" by code_simp
  have ne: "(0 :: byte) \<notin> {58, 32, 60, 62, 10}" "(37 :: byte) \<notin> {58, 32, 60, 62, 10}" by code_simp+
  have f: "text_at D (cmem s) fmt (hello_line lab (piece_fmt x))"
    using text_at_same [OF fmt] r by (simp add: line_ready_def)
  have fm: "concat (map piece_fmt ?ps) = hello_line lab (piece_fmt x)" by (simp add: hello_line_def)
  have short: "length (piece_fmt x) < 300" using x by auto
  have pl: "padded x = plain x" using x(1) by (auto simp: padded_def plain_def dec_value_def)
  then have line: "concat (map padded ?ps) = hello_line lab tx" using t(1) by (simp add: hello_line_def padded_def)
  have args: "concat (map piece_args ?ps) = [v]" using x(1) by auto
  have "\<forall>y \<in> set ?ps. piece_ok D (cmem s) (\<lambda>p k. apart p k (tmpbuf D) 21) y"
    using x(2) lab(1,2) ch ne by auto
  then have "\<exists>s'. fprintf T D stdout fmt (concat (map piece_args ?ps)) s = Some (of_nat (length (hello_line lab tx)), s') \<and>
      out (kern s') = out (kern s) @ hello_line lab tx \<and> same_but (tmpbuf D) 21 s s' \<and> print_ready D (cmem s')"
    using r f stdout t(2) lab(3) short
    by (intro fprintf_pieces)
      (simp_all only: fm line, auto simp: line_ready_def text_at_def cstr_iff_bytes hello_line_def chars_def)
  then show ?thesis
    using r same_but_trans by (fastforce simp only: args printf_def fprintf_def line_ready_def append.assoc)
qed

lemma chars_append: "chars (a @ b) = chars a @ chars b"
  by (simp add: chars_def)

lemma chars_line:
  "chars (lab @ '': <%d>'') @ [10] = hello_line lab [37, 100]"
  "chars (lab @ '': <%ld>'') @ [10] = hello_line lab [37, 108, 100]"
  "chars (lab @ '': <%s>'') @ [10] = hello_line lab [37, 115]"
proof -
  have "chars '': <%d>'' @ [10] = chars '': <'' @ [37, 100] @ [62, 10]"
    "chars '': <%ld>'' @ [10] = chars '': <'' @ [37, 108, 100] @ [62, 10]"
    "chars '': <%s>'' @ [10] = chars '': <'' @ [37, 115] @ [62, 10]" by code_simp+
  then show "chars (lab @ '': <%d>'') @ [10] = hello_line lab [37, 100]"
    "chars (lab @ '': <%ld>'') @ [10] = hello_line lab [37, 108, 100]"
    "chars (lab @ '': <%s>'') @ [10] = hello_line lab [37, 115]"
    by (simp_all add: hello_line_def chars_append)
qed

lemma length_int_text32: "length (int_text (sint (w :: i64))) < 2 ^ 60"
  using length_int_text [of w] by simp

lemma ucast_scast32: "(ucast (scast (w :: i32) :: i64) :: i32) = w"
  by (rule bit_word_eqI) (auto simp: bit_simps)

lemma int_line:
  assumes "line_ready T D out s0 sent s" and "text_at D (cmem s0) fmt (chars (lab @ '': <%d>'') @ [10])" and "label_ok lab"
  shows "\<exists>s'. printf T D fmt [scast (w :: i32)] s = Some (of_nat (length (hello_line lab (int_text (sint w)))), s') \<and>
    line_ready T D out s0 (sent @ hello_line lab (int_text (sint w))) s'"
  using assms length_int_text32 [of "scast w"]
  by (intro line_prints [where x = "Num 0 [] 100 (scast w)" and l = 0 and c = 100 and t = "[]"])
    (simp_all add: chars_line plain_def PrintfFacts.num_value_def conv_text_def dec_value_def sint_scast32 ucast_scast32)

lemma long_line:
  assumes "line_ready T D out s0 sent s" and "text_at D (cmem s0) fmt (chars (lab @ '': <%ld>'') @ [10])" and "label_ok lab"
  shows "\<exists>s'. printf T D fmt [w] s = Some (of_nat (length (hello_line lab (int_text (sint w)))), s') \<and>
    line_ready T D out s0 (sent @ hello_line lab (int_text (sint w))) s'"
  using assms length_int_text32 [of w]
  by (intro line_prints [where x = "Num 1 [] 100 w" and l = 1 and c = 100 and t = "[]"])
    (simp_all add: chars_line plain_def PrintfFacts.num_value_def conv_text_def dec_value_def)

lemma text_line:
  assumes "line_ready T D out s0 sent s" and "text_at D (cmem s0) fmt (chars (lab @ '': <%s>'') @ [10])" and "label_ok lab"
    and "text_at D (cmem s0) (if p = 0 then lit_null D else p) t" and "length t < 2 ^ 60"
  shows "\<exists>s'. printf T D fmt [p] s = Some (of_nat (length (hello_line lab t)), s') \<and>
    line_ready T D out s0 (sent @ hello_line lab t) s'"
proof -
  have "text_at D (cmem s) (if p = 0 then lit_null D else p) t"
    using text_at_same assms(1,4) unfolding line_ready_def by blast
  then show ?thesis using assms
    by (intro line_prints [where x = "Str 0 [] p t" and l = 0 and c = 0 and t = t])
      (simp_all add: chars_line plain_def dec_value_def text_at_def)
qed

fun env_text :: "byte list \<Rightarrow> byte list list \<Rightarrow> byte list option" where
  "env_text name [] = None"
| "env_text name (xs # env) =
     (if take (length name + 1) xs = name @ [61] then Some (drop (length name + 1) xs) else env_text name env)"

lemma text_at_nonzero: "text_at D m p t \<Longrightarrow> m 0 = None \<Longrightarrow> p \<noteq> 0"
  by (cases t) (auto simp: text_at_def)

lemma text_at_drop:
  assumes "text_at D m p t" and "k \<le> length t"
  shows "text_at D m (p + of_nat k) (drop k t)"
proof -
  have "length t < 2 ^ 64" using assms(1) cstr_length by (auto simp: text_at_def)
  then have "apart (p + of_nat k) (Suc (length (drop k t))) (tmpbuf D) 21"
    using assms by (intro apart_part [of p "Suc (length t)"]) (auto simp: text_at_def)
  then show ?thesis using assms cstr_next [of m p t k] by (simp add: text_at_def)
qed

lemma env_lookup_text:
  "texts_at D m p es \<Longrightarrow>
   case env_text name (List.map snd es) of
     None \<Rightarrow> env_lookup name es = 0
   | Some v \<Rightarrow> text_at D m (env_lookup name es) v"
proof (induction D m p es rule: texts_at.induct)
  case (2 D m p e xs es)
  show ?case
  proof (cases "take (length name + 1) xs = name @ [61]")
    case True
    then have "length (take (length name + 1) xs) = length name + 1" by simp
    then have "length name + 1 \<le> length xs" by (simp add: min_def split: if_splits)
    with 2 True text_at_drop [of D m e xs "length name + 1"] show ?thesis by simp
  next
    case False
    then have "env_lookup name ((e, xs) # es) = env_lookup name es"
      "env_text name (List.map snd ((e, xs) # es)) = env_text name (List.map snd es)" by simp_all
    with 2 False show ?thesis by (simp del: env_lookup.simps env_text.simps split: option.splits)
  qed
qed simp

text \<open>What the program prints, and the memory it starts on.\<close>

definition hello_msg :: "byte list list \<Rightarrow> byte list" where
  "hello_msg args = (if 2 < length args then args ! 2 else chars ''hello'')"

definition hello_env0 :: "byte list list \<Rightarrow> byte list" where
  "hello_env0 env = (if env = [] then chars ''none'' else env ! 0)"

definition hello_path :: "byte list list \<Rightarrow> byte list" where
  "hello_path env = (case env_text (chars ''PATH'') env of None \<Rightarrow> chars ''(null)'' | Some v \<Rightarrow> v)"

definition hello_output :: "i32 \<Rightarrow> i32 \<Rightarrow> byte list list \<Rightarrow> byte list list \<Rightarrow> byte list" where
  "hello_output pid err args env =
     (let msg = hello_msg args in
      hello_line ''pid '' (int_text (sint pid)) @
      hello_line ''arg1'' (int_text (if 1 < length args then sint (text_number (args ! 1)) else 0)) @
      hello_line ''msg '' msg @
      hello_line ''ret '' (int_text (int (length (hello_line ''msg '' msg)))) @
      hello_line ''err '' (int_text (sint err)) @
      hello_line ''argc'' (int_text (int (length args))) @
      hello_line ''argv'' (args ! 0) @
      hello_line ''envp'' (hello_env0 env) @
      hello_line ''PATH'' (hello_path env))"

definition hello_image ::
  "stdio_data \<Rightarrow> hello_lits \<Rightarrow> mem \<Rightarrow> addr \<Rightarrow> (addr \<times> byte list) list \<Rightarrow> addr \<Rightarrow> (addr \<times> byte list) list \<Rightarrow> bool" where
  "hello_image D L m argv args envp env \<longleftrightarrow>
     print_ready D m \<and> m 0 = None \<and> texts_at D m argv args \<and> texts_at D m envp env \<and>
     text_at D m (fmt_pid L) (chars ''pid : <%d>'' @ [10]) \<and> text_at D m (fmt_arg1 L) (chars ''arg1: <%ld>'' @ [10]) \<and>
     text_at D m (fmt_msg L) (chars ''msg : <%s>'' @ [10]) \<and> text_at D m (fmt_ret L) (chars ''ret : <%d>'' @ [10]) \<and>
     text_at D m (fmt_err L) (chars ''err : <%d>'' @ [10]) \<and> text_at D m (fmt_argc L) (chars ''argc: <%d>'' @ [10]) \<and>
     text_at D m (fmt_argv L) (chars ''argv: <%s>'' @ [10]) \<and> text_at D m (fmt_envp L) (chars ''envp: <%s>'' @ [10]) \<and>
     text_at D m (fmt_path L) (chars ''PATH: <%s>'' @ [10]) \<and> text_at D m (lit_hello L) (chars ''hello'') \<and>
     text_at D m (lit_none L) (chars ''none'') \<and> text_at D m (lit_path L) (chars ''PATH'') \<and>
     text_at D m (lit_null D) (chars ''(null)'')"

lemma labels: "label_ok ''pid ''" "label_ok ''arg1''" "label_ok ''msg ''" "label_ok ''ret ''" "label_ok ''err ''"
  "label_ok ''argc''" "label_ok ''argv''" "label_ok ''envp''" "label_ok ''PATH''"
  by code_simp+

lemma hello_reads:
  assumes r: "line_ready T D out s1 sent x" and i: "hello_image D L (cmem s1) argv args envp env"
    and e: "environ s1 = envp" "envp \<noteq> 0" "length env < 2 ^ 31" and args: "args \<noteq> []"
  shows "(if 1 < length args then do { a \<leftarrow> load64 (cmem x) (argv + 8); atol (cmem x) a } else Some 0) =
      Some (if 1 < length args then text_number (List.map snd args ! 1) else 0)"
    and "\<exists>p. (if 2 < length args then load64 (cmem x) (argv + 16) else Some (lit_hello L)) = Some p \<and>
      text_at D (cmem s1) p (hello_msg (List.map snd args))"
    and "\<exists>p. load64 (cmem x) argv = Some p \<and> text_at D (cmem s1) p (List.map snd args ! 0)"
    and "\<exists>p. load64 (cmem x) envp = Some p \<and>
      text_at D (cmem s1) (if p \<noteq> 0 then p else lit_none L) (hello_env0 (List.map snd env))"
    and "\<exists>p. getenv (lit_path L) x = Some p \<and> text_at D (cmem s1) (if p = 0 then lit_null D else p)
      (hello_path (List.map snd env))"
    and "errno x = errno s1"
proof -
  have t1: "texts_at D (cmem s1) argv args" "texts_at D (cmem s1) envp env" using i by (auto simp: hello_image_def)
  have same: "same_but (tmpbuf D) 21 s1 x" using r by (simp add: line_ready_def)
  note tx = texts_at_same [OF t1(1) same] texts_at_same [OF t1(2) same]
  show "(if 1 < length args then do { a \<leftarrow> load64 (cmem x) (argv + 8); atol (cmem x) a } else Some 0) =
      Some (if 1 < length args then text_number (List.map snd args ! 1) else 0)"
    using texts_at_nth [OF tx(1), of 1] atol_cstr by (auto simp: text_at_def)
  show "\<exists>p. (if 2 < length args then load64 (cmem x) (argv + 16) else Some (lit_hello L)) = Some p \<and>
      text_at D (cmem s1) p (hello_msg (List.map snd args))"
    using texts_at_nth [OF tx(1), of 2] texts_at_nth [OF t1(1), of 2] i by (auto simp: hello_msg_def hello_image_def)
  show "\<exists>p. load64 (cmem x) argv = Some p \<and> text_at D (cmem s1) p (List.map snd args ! 0)"
    using texts_at_nth [OF tx(1), of 0] texts_at_nth [OF t1(1), of 0] args by auto
  show "\<exists>p. load64 (cmem x) envp = Some p \<and>
      text_at D (cmem s1) (if p \<noteq> 0 then p else lit_none L) (hello_env0 (List.map snd env))"
    using texts_at_nth [OF t1(2), of 0] texts_at_hd [OF tx(2)] i by (auto simp: hello_image_def hello_env0_def hd_conv_nth)
  have path: "text_at D (cmem x) (lit_path L) (chars ''PATH'')"
    using text_at_same [OF _ same] i by (simp add: hello_image_def)
  have "getenv_loop (cmem x) envp (lit_path L) 0 = Some (env_lookup (chars ''PATH'') env)"
    using getenv_loop_eq [of "cmem x" "lit_path L" "chars ''PATH''" envp 0 env] path texts_at_env [OF tx(2)] e(3)
    by (simp add: text_at_def chars_def)
  moreover have "environ x = envp" using same e(1) by (simp add: same_but_def)
  moreover have "text_at D (cmem s1) (if env_lookup (chars ''PATH'') env = 0 then lit_null D else env_lookup (chars ''PATH'') env)
      (hello_path (List.map snd env))"
    using env_lookup_text [OF t1(2), of "chars ''PATH''"] text_at_nonzero [of D "cmem s1"] i
    by (auto simp: hello_image_def hello_path_def split: option.splits)
  ultimately show "\<exists>p. getenv (lit_path L) x = Some p \<and> text_at D (cmem s1) (if p = 0 then lit_null D else p)
      (hello_path (List.map snd env))"
    using e(2) by (simp add: getenv_def)
  show "errno x = errno s1" using same by (simp add: same_but_def)
qed

lemma hello_formats:
  assumes "hello_image D L m argv args envp env"
  shows "text_at D m (fmt_pid L) (chars (''pid '' @ '': <%d>'') @ [10])"
    and "text_at D m (fmt_arg1 L) (chars (''arg1'' @ '': <%ld>'') @ [10])"
    and "text_at D m (fmt_msg L) (chars (''msg '' @ '': <%s>'') @ [10])"
    and "text_at D m (fmt_ret L) (chars (''ret '' @ '': <%d>'') @ [10])"
    and "text_at D m (fmt_err L) (chars (''err '' @ '': <%d>'') @ [10])"
    and "text_at D m (fmt_argc L) (chars (''argc'' @ '': <%d>'') @ [10])"
    and "text_at D m (fmt_argv L) (chars (''argv'' @ '': <%s>'') @ [10])"
    and "text_at D m (fmt_envp L) (chars (''envp'' @ '': <%s>'') @ [10])"
    and "text_at D m (fmt_path L) (chars (''PATH'' @ '': <%s>'') @ [10])"
  using assms by (simp_all add: hello_image_def)

lemma hello_short:
  assumes "\<forall>t \<in> set args \<union> set env. length t < 2 ^ 30" and "args \<noteq> []"
  shows "length (hello_msg args) < 2 ^ 30" and "length (args ! 0) < 2 ^ 30"
    and "length (hello_env0 env) < 2 ^ 30"
    and "length (hello_path env) < 2 ^ 30"
proof -
  show "length (hello_msg args) < 2 ^ 30" "length (args ! 0) < 2 ^ 30"
    "length (hello_env0 env) < 2 ^ 30"
    using assms by (auto simp: hello_msg_def hello_env0_def chars_def)
  have "env_text name env = Some v \<Longrightarrow> \<exists>t \<in> set env. length v \<le> length t" for name v
    by (induction name env rule: env_text.induct) (auto split: if_splits)
  then have "env_text name env = Some v \<Longrightarrow> length v < 2 ^ 30" for name v
    using assms(1) by (meson UnI2 order.strict_trans1)
  then show "length (hello_path env) < 2 ^ 30"
    by (simp add: hello_path_def chars_def split: option.split)
qed

lemma hello_first:
  assumes r: "line_ready T D out s1 [] s1" and i: "hello_image D L (cmem s1) argv args envp env"
    and e: "environ s1 = envp" "envp \<noteq> 0" "length env < 2 ^ 31" and args: "args \<noteq> []"
    and short: "\<forall>t \<in> set (List.map snd args) \<union> set (List.map snd env). length t < 2 ^ 30"
    and n: "n = (if 1 < length args then text_number (List.map snd args ! 1) else 0)"
    and msg: "msg = hello_msg (List.map snd args)"
  shows "\<exists>k2 s2 k3 s3 p4 s4. printf T D (fmt_pid L) [scast (pid :: i32)] s1 = Some (k2, s2) \<and>
    (if 1 < length args then do { a \<leftarrow> load64 (cmem s2) (argv + 8); atol (cmem s2) a } else Some 0) = Some n \<and>
    printf T D (fmt_arg1 L) [n] s2 = Some (k3, s3) \<and>
    (if 2 < length args then load64 (cmem s3) (argv + 16) else Some (lit_hello L)) = Some p4 \<and>
    printf T D (fmt_msg L) [p4] s3 = Some (of_nat (length (hello_line ''msg '' msg)), s4) \<and>
    line_ready T D out s1 (hello_line ''pid '' (int_text (sint pid)) @ hello_line ''arg1'' (int_text (sint n)) @
      hello_line ''msg '' msg) s4"
proof -
  have ne: "List.map snd args \<noteq> []" using args by simp
  note reads = hello_reads [OF _ i e args] and t = hello_formats [OF i] and short' = hello_short [OF short ne]
  let ?o1 = "[] :: byte list"
  obtain s2 k2 where s2: "printf T D (fmt_pid L) [scast pid] s1 = Some (k2, s2)"
    and r2: "line_ready T D out s1 (?o1 @ hello_line ''pid '' (int_text (sint pid))) s2" (is "line_ready _ _ _ _ ?o2 _")
    using int_line [OF r t(1) labels(1), of pid] by auto
  obtain s3 k3 where s3: "printf T D (fmt_arg1 L) [n] s2 = Some (k3, s3)"
    and r3: "line_ready T D out s1 (?o2 @ hello_line ''arg1'' (int_text (sint n))) s3" (is "line_ready _ _ _ _ ?o3 _")
    using long_line [OF r2 t(2) labels(2), of n] by auto
  obtain p4 where p4: "(if 2 < length args then load64 (cmem s3) (argv + 16) else Some (lit_hello L)) = Some p4"
    "text_at D (cmem s1) p4 msg" using reads(2) [OF r3] msg by blast
  then have "p4 \<noteq> 0" using i text_at_nonzero by (auto simp: hello_image_def)
  then obtain s4 where s4: "printf T D (fmt_msg L) [p4] s3 = Some (of_nat (length (hello_line ''msg '' msg)), s4)"
    and r4: "line_ready T D out s1 (?o3 @ hello_line ''msg '' msg) s4" (is "line_ready _ _ _ _ ?o4 _")
    using text_line [OF r3 t(3) labels(3), of p4 msg] p4(2) short'(1) msg by auto
  show ?thesis using s2 s3 s4 p4(1) reads(1) [OF r2] r4 n by auto
qed

text \<open>The last three lines, which take texts from the arguments and the environment.\<close>

lemma hello_last:
  assumes r7: "line_ready T D out s1 o7 s7" and i: "hello_image D L (cmem s1) argv args envp env"
    and e: "environ s1 = envp" "envp \<noteq> 0" "length env < 2 ^ 31" and args: "args \<noteq> []"
    and short: "\<forall>t \<in> set (List.map snd args) \<union> set (List.map snd env). length t < 2 ^ 30"
  shows "\<exists>p8 k8 s8 p9 k9 s9 p10 k10 s10. load64 (cmem s7) argv = Some p8 \<and>
    printf T D (fmt_argv L) [p8] s7 = Some (k8, s8) \<and> load64 (cmem s8) envp = Some p9 \<and>
    printf T D (fmt_envp L) [if p9 \<noteq> 0 then p9 else lit_none L] s8 = Some (k9, s9) \<and> getenv (lit_path L) s9 = Some p10 \<and>
    printf T D (fmt_path L) [p10] s9 = Some (k10, s10) \<and>
    line_ready T D out s1 (o7 @ hello_line ''argv'' (List.map snd args ! 0) @
      hello_line ''envp'' (hello_env0 (List.map snd env)) @ hello_line ''PATH'' (hello_path (List.map snd env))) s10"
proof -
  have ne: "List.map snd args \<noteq> []" using args by simp
  note reads = hello_reads [OF _ i e args] and t = hello_formats [OF i] and short' = hello_short [OF short ne]
  have nz: "text_at D (cmem s1) p tx \<Longrightarrow> p \<noteq> 0" for p tx
    using i text_at_nonzero by (auto simp: hello_image_def)
  obtain p8 where p8: "load64 (cmem s7) argv = Some p8" "text_at D (cmem s1) p8 (List.map snd args ! 0)"
    using reads(3) [OF r7] by blast
  obtain s8 k8 where s8: "printf T D (fmt_argv L) [p8] s7 = Some (k8, s8)"
    and r8: "line_ready T D out s1 (o7 @ hello_line ''argv'' (List.map snd args ! 0)) s8" (is "line_ready _ _ _ _ ?o8 _")
    using text_line [OF r7 t(7) labels(7), of p8 "List.map snd args ! 0"] p8(2) nz [OF p8(2)] short'(2) by auto
  obtain p9 where p9: "load64 (cmem s8) envp = Some p9" "text_at D (cmem s1) (if p9 \<noteq> 0 then p9 else lit_none L) (hello_env0 (List.map snd env))"
    using reads(4) [OF r8] by blast
  obtain s9 k9 where s9: "printf T D (fmt_envp L) [if p9 \<noteq> 0 then p9 else lit_none L] s8 = Some (k9, s9)"
    and r9: "line_ready T D out s1 (?o8 @ hello_line ''envp'' (hello_env0 (List.map snd env))) s9" (is "line_ready _ _ _ _ ?o9 _")
    using text_line [OF r8 t(8) labels(8), of "if p9 \<noteq> 0 then p9 else lit_none L" "hello_env0 (List.map snd env)"] p9(2) nz [OF p9(2)] short'(3) by auto
  obtain p10 where p10: "getenv (lit_path L) s9 = Some p10" "text_at D (cmem s1) (if p10 = 0 then lit_null D else p10) (hello_path (List.map snd env))"
    using reads(5) [OF r9] by blast
  obtain s10 k10 where s10: "printf T D (fmt_path L) [p10] s9 = Some (k10, s10)"
    and r10: "line_ready T D out s1 (?o9 @ hello_line ''PATH'' (hello_path (List.map snd env))) s10"
    using text_line [OF r9 t(9) labels(9), of p10 "hello_path (List.map snd env)"] p10(2) short'(4) by auto
  show ?thesis
    using p8(1) s8 p9(1) s9 p10(1) s10 r10 [unfolded append_assoc]
    by (intro exI conjI)
qed

lemma hello_main_prints:
  assumes w: "writes T 1 out"
    and pid: "\<And>m w. \<exists>w'. kcall T ''getpid'' [] m w = (scast pid, m, w') \<and> out w' = out w"
    and img: "hello_image D L (cmem s) argv args envp env"
    and args: "args \<noteq> []" "length args < 2 ^ 31" and env: "envp \<noteq> 0" "length env < 2 ^ 31"
    and short: "\<forall>t \<in> set (List.map snd args) \<union> set (List.map snd env). length t < 2 ^ 30"
  shows "\<exists>s'. hello_main T D L (of_nat (length args)) argv envp s = Some (0, s') \<and>
    out (kern s') = out (kern s) @ hello_output pid (errno s) (List.map snd args) (List.map snd env)"
proof -
  define s0 where "s0 = s\<lparr>environ := envp\<rparr>"
  obtain w' where w': "kcall T ''getpid'' [] (cmem s) (kern s) = (scast pid, cmem s, w')" "out w' = out (kern s)"
    using pid by blast
  define s1 where "s1 = s0\<lparr>kern := w'\<rparr>"
  have gp: "getpid T s0 = (pid, s1)"
    using w' by (simp add: getpid_def sys_getpid_def int_result_def my_syscall0_def syscall_insn_def s0_def s1_def ucast_scast32)
  have s1: "cmem s1 = cmem s" "out (kern s1) = out (kern s)" "environ s1 = envp" "errno s1 = errno s"
    by (simp_all add: s1_def s0_def w')
  have i: "hello_image D L (cmem s1) argv args envp env" using img s1(1) by simp
  then have r: "line_ready T D out s1 [] s1" using w by (simp add: hello_image_def line_ready_def same_but_self)
  have ne: "List.map snd args \<noteq> []" using args(1) by simp
  note short' = hello_short [OF short ne]
  have argc: "(1 :: i32) <s of_nat (length args) \<longleftrightarrow> 1 < length args" "(2 :: i32) <s of_nat (length args) \<longleftrightarrow> 2 < length args"
    using slt_of_nat32 [of 1 "length args"] slt_of_nat32 [of 2 "length args"] args(2) by simp_all
  note t = hello_formats [OF i]
  have ret: "sint (of_nat (length (hello_line ''msg '' (hello_msg (List.map snd args)))) :: i32) =
      int (length (hello_line ''msg '' (hello_msg (List.map snd args))))"
    using short'(1) by (intro sint_of_nat32) (simp add: hello_line_def chars_def)
  let ?n = "if 1 < length args then text_number (List.map snd args ! 1) else 0"
  let ?msg = "hello_msg (List.map snd args)"
  obtain k2 s2 k3 s3 p4 s4 where head: "printf T D (fmt_pid L) [scast pid] s1 = Some (k2, s2)"
    "(if 1 < length args then do { a \<leftarrow> load64 (cmem s2) (argv + 8); atol (cmem s2) a } else Some 0) = Some ?n"
    "printf T D (fmt_arg1 L) [?n] s2 = Some (k3, s3)"
    "(if 2 < length args then load64 (cmem s3) (argv + 16) else Some (lit_hello L)) = Some p4"
    "printf T D (fmt_msg L) [p4] s3 = Some (of_nat (length (hello_line ''msg '' ?msg)), s4)"
    and r4: "line_ready T D out s1 (hello_line ''pid '' (int_text (sint pid)) @ hello_line ''arg1'' (int_text (sint ?n)) @
      hello_line ''msg '' ?msg) s4" (is "line_ready _ _ _ _ ?o4 _")
    using hello_first [OF r i s1(3) env args(1) short refl refl] by blast
  obtain s5 k5 where s5: "printf T D (fmt_ret L) [scast (of_nat (length (hello_line ''msg '' ?msg)) :: i32)] s4 = Some (k5, s5)"
    and r5: "line_ready T D out s1 (?o4 @ hello_line ''ret '' (int_text (int (length (hello_line ''msg '' ?msg))))) s5" (is "line_ready _ _ _ _ ?o5 _")
    using int_line [OF r4 t(4) labels(4), of "of_nat (length (hello_line ''msg '' ?msg))"] ret by auto
  obtain s6 k6 where s6: "printf T D (fmt_err L) [scast (errno s)] s5 = Some (k6, s6)"
    and r6: "line_ready T D out s1 (?o5 @ hello_line ''err '' (int_text (sint (errno s)))) s6" (is "line_ready _ _ _ _ ?o6 _")
    using int_line [OF r5 t(5) labels(5), of "errno s"] by auto
  obtain s7 k7 where s7: "printf T D (fmt_argc L) [scast (of_nat (length args) :: i32)] s6 = Some (k7, s7)"
    and r7: "line_ready T D out s1 (?o6 @ hello_line ''argc'' (int_text (int (length args)))) s7" (is "line_ready _ _ _ _ ?o7 _")
    using int_line [OF r6 t(6) labels(6), of "of_nat (length args)"] sint_of_nat32 [OF args(2)] by auto
  obtain p8 k8 s8 p9 k9 s9 p10 k10 s10 where p8: "load64 (cmem s7) argv = Some p8"
    and s8: "printf T D (fmt_argv L) [p8] s7 = Some (k8, s8)" and p9: "load64 (cmem s8) envp = Some p9"
    and s9: "printf T D (fmt_envp L) [if p9 \<noteq> 0 then p9 else lit_none L] s8 = Some (k9, s9)"
    and p10: "getenv (lit_path L) s9 = Some p10" and s10: "printf T D (fmt_path L) [p10] s9 = Some (k10, s10)"
    and r10: "line_ready T D out s1 (?o7 @ hello_line ''argv'' (List.map snd args ! 0) @
      hello_line ''envp'' (hello_env0 (List.map snd env)) @ hello_line ''PATH'' (hello_path (List.map snd env))) s10"
    using hello_last [OF r7 i s1(3) env args(1) short] by blast
  have "hello_main T D L (of_nat (length args)) argv envp s = Some (0, s10)"
    using head s5 s6 s7 s8 s9 s10 p8 p9 p10 hello_reads(6) [OF r4 i s1(3) env args(1)]
    by (simp add: hello_main_def gp [unfolded s0_def] argc s1(4))
  moreover have "out (kern s10) = out (kern s) @ hello_output pid (errno s) (List.map snd args) (List.map snd env)"
    using r10 s1(2) by (simp add: line_ready_def hello_output_def Let_def)
  ultimately show ?thesis by blast
qed

text \<open>The linked program: no constructors, no destructors, no stack protector.\<close>

definition hello_app :: "'w target \<Rightarrow> stdio_data \<Rightarrow> hello_lits \<Rightarrow> 'w app" where
  "hello_app T D L =
     \<lparr>preinit_array = [], init_array = [], fini_array = [], app_main = hello_main T D L, guard = None\<rparr>"

text \<open>
  Property C4. Started on the stack the kernel built, \<open>hello.c\<close> returns from its
  \<open>main\<close> and exits with 0 after it printed, in this order: the process number, the number
  at the start of its first argument, its second argument or the default, the length of that line,
  \<open>errno\<close>, the number of arguments, its name, the first entry of the environment and the
  value of \<open>PATH\<close>, a missing one as \<open>(null)\<close>. Hypotheses: the kernel writes
  at least one byte of each \<open>write\<close>, \<open>getpid\<close> leaves memory alone, the texts
  lie outside the buffer of \<open>printf\<close>.
\<close>

theorem hello_runs:
  assumes w: "writes T 1 out"
    and pid: "\<And>m w. \<exists>w'. kcall T ''getpid'' [] m w = (scast pid, m, w') \<and> out w' = out w"
    and argc: "load64 (cmem s) sp = Some (of_nat (length args))" and envp: "envp = sp + 8 * of_nat (length args) + 16"
    and img: "hello_image D L (cmem s) (sp + 8) args envp env"
    and args: "args \<noteq> []" "length args < 2 ^ 31" and env: "envp \<noteq> 0" "length env < 2 ^ 31"
    and short: "\<forall>t \<in> set (List.map snd args) \<union> set (List.map snd env). length t < 2 ^ 30"
  shows "\<exists>s'. start_c T (hello_app T D L) sp s = Some (exit T 0 s') \<and>
    out (kern s') = out (kern s) @ hello_output pid (errno s) (List.map snd args) (List.map snd env)"
proof -
  define x where "x = s\<lparr>environ := envp, auxv := envp + 8 * of_nat (length env) + 8\<rparr>"
  have "env_at (cmem s) envp env" using img by (intro texts_at_env) (auto simp: hello_image_def)
  then have av: "find_auxv envp (s\<lparr>environ := envp\<rparr>) = Some (envp + 8 * of_nat (length env) + 8)"
    using find_auxv_ptrs [of "s\<lparr>environ := envp\<rparr>" envp] env_at_ptrs by fastforce
  have "sp + 8 + 8 * of_nat (length args) + 8 = envp" by (simp add: envp)
  then have "start_c T (hello_app T D L) sp s = do {
      (code, s) \<leftarrow> hello_main T D L (of_nat (length args)) (sp + 8) envp x;
      Some (exit T code s) }"
    using argc av by (simp add: start_c_def hello_app_def stack_chk_init_def cload64_def run_ctors_in_turn x_def Let_def)
  moreover obtain s' where "hello_main T D L (of_nat (length args)) (sp + 8) envp x = Some (0, s')"
    "out (kern s') = out (kern x) @ hello_output pid (errno x) (List.map snd args) (List.map snd env)"
    using hello_main_prints [OF w pid _ args env short, of D L x "sp + 8"] img by (auto simp: x_def)
  ultimately show ?thesis by (auto simp: x_def)
qed

definition pid_kernel ::
  "sysnr \<Rightarrow> i64 list \<Rightarrow> mem \<Rightarrow> byte list \<times> byte list \<Rightarrow> i64 \<times> mem \<times> byte list \<times> byte list" where
  "pid_kernel nr args m w = (if nr = ''getpid'' then (7, m, w) else tty_kernel nr args m w)"

definition hello_data :: stdio_data where
  "hello_data = demo_data\<lparr>tmpbuf := 64, lit_space := 4288, lit_null := 4281\<rparr>"

definition demo_lits :: hello_lits where
  "demo_lits = \<lparr>fmt_pid = 4156, fmt_arg1 = 4168, fmt_msg = 4181, fmt_ret = 4193, fmt_err = 4205, fmt_argc = 4217, fmt_argv = 4229, fmt_envp = 4241, fmt_path = 4253, lit_hello = 4265, lit_none = 4271, lit_path = 4276\<rparr>"

definition hello_bytes :: "byte list" where
  "hello_bytes = concat (List.map (le_bytes 8) [2, 4144, 4146, 0, 4149, 0]) @
     chars ''a'' @ [0] @ chars ''-7'' @ [0] @ chars ''PATH=/'' @ [0] @ chars ''pid : <%d>'' @ [10] @ [0] @ chars ''arg1: <%ld>'' @ [10] @ [0] @ chars ''msg : <%s>'' @ [10] @ [0] @ chars ''ret : <%d>'' @ [10] @ [0] @ chars ''err : <%d>'' @ [10] @ [0] @ chars ''argc: <%d>'' @ [10] @ [0] @ chars ''argv: <%s>'' @ [10] @ [0] @ chars ''envp: <%s>'' @ [10] @ [0] @ chars ''PATH: <%s>'' @ [10] @ [0] @ chars ''hello'' @ [0] @ chars ''none'' @ [0] @ chars ''PATH'' @ [0] @ chars ''(null)'' @ [0] @ [32]"

definition hello_mem :: mem where
  "hello_mem = poke (\<lambda>a. if a = 0 then None else Some 0) 4096 hello_bytes"

lemma hello_demo_image:
  "load64 hello_mem 4096 = Some 2"
  "hello_image hello_data demo_lits hello_mem 4104 [(4144, chars ''a''), (4146, chars ''-7'')]
     4128 [(4149, chars ''PATH=/'')]"
proof -
  have len: "length hello_bytes = 193" by (simp add: hello_bytes_def)
  have "bytes_at hello_mem 4096 hello_bytes"
    unfolding hello_mem_def by (rule bytes_at_poke_self) (simp add: len)
  note b = this [unfolded hello_bytes_def, simplified]
  have tmp: "mapped hello_mem 64 21" unfolding hello_mem_def by (rule mapped_poke) code_simp
  have z: "hello_mem 0 = None" unfolding hello_mem_def by (simp add: poke_outside in_range_def len)
  have "bytes_at hello_mem 4096 (le_bytes 8 2)" "bytes_at hello_mem 4104 (le_bytes 8 4144)"
    "bytes_at hello_mem 4112 (le_bytes 8 4146)" "bytes_at hello_mem 4120 (le_bytes 8 0)"
    "bytes_at hello_mem 4128 (le_bytes 8 4149)" "bytes_at hello_mem 4136 (le_bytes 8 0)"
    using b by blast+
  then have ld: "load_le hello_mem 4096 8 = Some 2" "load_le hello_mem 4104 8 = Some 4144" "load_le hello_mem 4112 8 = Some 4146"
    "load_le hello_mem 4120 8 = Some 0" "load_le hello_mem 4128 8 = Some 4149" "load_le hello_mem 4136 8 = Some 0"
    by (simp_all add: load_le_bytes)
  show "load64 hello_mem 4096 = Some 2" using ld(1) by (simp add: load64_def)
  have nz: "\<forall>s \<in> set [''a'', ''-7'', ''PATH=/'', ''pid : <%d>'', ''arg1: <%ld>'', ''msg : <%s>'', ''ret : <%d>'', ''err : <%d>'',
      ''argc: <%d>'', ''argv: <%s>'', ''envp: <%s>'', ''PATH: <%s>'', ''hello'', ''none'', ''PATH'', ''(null)'']. 0 \<notin> set (chars s)"
    by code_simp
  show "hello_image hello_data demo_lits hello_mem 4104 [(4144, chars ''a''), (4146, chars ''-7'')]
     4128 [(4149, chars ''PATH=/'')]"
    using b z tmp ld nz
    by (simp add: hello_image_def print_ready_def text_at_def cstr_iff_bytes load64_def
        hello_data_def demo_lits_def demo_data_def apart_def)
qed

lemma hello_demo_output:
  "hello_output 7 0 [chars ''a'', chars ''-7''] [chars ''PATH=/''] =
     concat (List.map (\<lambda>l. chars l @ [10]) [''pid : <7>'', ''arg1: <-7>'', ''msg : <hello>'', ''ret : <14>'', ''err : <0>'', ''argc: <2>'', ''argv: <a>'', ''envp: <PATH=/>'', ''PATH: </>''])"
  by code_simp

lemma pid_writes: "writes (x86_linux pid_kernel) fd snd"
  using tty_writes [of fd] by (simp add: writes_def pid_kernel_def)

theorem hello_runs_witness:
  "\<exists>s'. start_c (x86_linux pid_kernel) (hello_app (x86_linux pid_kernel) hello_data demo_lits) 4096
       (process hello_mem ([], [])) = Some s' \<and>
     snd (kern s') = concat (List.map (\<lambda>l. chars l @ [10]) [''pid : <7>'', ''arg1: <-7>'', ''msg : <hello>'', ''ret : <14>'', ''err : <0>'', ''argc: <2>'', ''argv: <a>'', ''envp: <PATH=/>'', ''PATH: </>''])"
proof -
  let ?T = "x86_linux pid_kernel" and ?s = "process hello_mem ([], [])"
  have "\<exists>s'. start_c ?T (hello_app ?T hello_data demo_lits) 4096 ?s = Some (exit ?T 0 s') \<and>
      snd (kern s') = snd (kern ?s) @ hello_output 7 (errno ?s) [chars ''a'', chars ''-7''] [chars ''PATH=/'']"
    using hello_runs [OF pid_writes, of 7 ?s 4096 "[(4144, chars ''a''), (4146, chars ''-7'')]" 4128 hello_data
        demo_lits "[(4149, chars ''PATH=/'')]"] hello_demo_image
    by (simp add: pid_kernel_def)
  then show ?thesis
    by (auto simp: hello_demo_output exit_def exit_now_def sys_exit_def my_syscall1_def syscall_insn_def
        pid_kernel_def tty_kernel_def split_beta)
qed
end
