(* ===== verification/Spec2Isabelle.thy ===== *)
theory Spec2Isabelle
  imports StringProps NumberProps SystemProps ProcessProps StdioProps HeapProps ArchProps StartProps
    GetoptProps ScanfProps HeaderProps CMath DirProps FormatProps ClockProps SleepProps MessageProps
    HelloProps
begin

text \<open>
  A model of nolibc, a C library for Linux that consists of header files only.

  The program. The bottom of the library is a set of macros for each machine
  (\<^verbatim>\<open>src/arch-*.h\<close>) that enter the kernel with up to six arguments, and the entry point
  that hands the initial stack to \<^verbatim>\<open>_start_c\<close> (\<^verbatim>\<open>src/crt.h\<close>). On the
  macros rest the system calls: for each a raw function \<^verbatim>\<open>sys_x\<close>, which returns a
  negative error number, and an exported wrapper, which sets \<^verbatim>\<open>errno\<close> through
  \<^verbatim>\<open>__sysret\<close> and returns -1 (\<^verbatim>\<open>src/sys.h\<close>, \<^verbatim>\<open>src/sys/*.h\<close>
  and others). On the wrappers rest the allocator, the streams with formatted input and output,
  directories, clocks, waiting. The functions on memory, characters and numbers do not use the
  kernel.

  Conventions. The machine is LP64, little-endian, with a signed \<open>char\<close>; \<open>int\<close>, \<open>long\<close> and
  \<open>char\<close> are words of 32, 64 and 8 bits that wrap around, and signed comparisons are written
  \<open>\<le>s\<close>, \<open><s\<close>. Memory is a partial map from addresses to bytes. A function that
  reads or writes memory returns an option: \<open>None\<close> is an access to memory that is not mapped
  or another undefined operation. Loops are \<open>partial_function (option)\<close>, so that \<open>None\<close>
  is also a loop that does not return; no fuel is used anywhere. A conclusion \<open>f x = Some y\<close>
  hence says that the code returns, that it touches mapped memory only, and what it computes.
  The kernel and the outside world are parameters: a \<open>target\<close> holds the function \<open>kcall\<close>
  from a system call's name, its arguments, the memory and the world to the result and the new memory
  and world, which system calls exist (the \<^verbatim>\<open>#ifdef\<close>s of the code), and the
  constants of the kernel headers. The process is the record \<open>cstate\<close>: memory,
  \<open>errno\<close>, \<open>environ\<close>, \<open>_auxv\<close>, world. Buffers and literals of the code
  that have an address are addresses in a record (\<open>stdio_data\<close>) or arguments (\<open>fp\<close>).

  The theories of the model.
  \<^item> \<open>CPrelude\<close>, \<open>CLayout\<close>: words, memory, strings, objects of several bytes.
  \<^item> \<open>CString\<close>, \<open>Ctype\<close>: \<^verbatim>\<open>src/string.h\<close>, \<^verbatim>\<open>src/ctype.h\<close>.
    \<open>ArchX86\<close>: \<^verbatim>\<open>memmove\<close>, \<^verbatim>\<open>memcpy\<close>, \<^verbatim>\<open>memset\<close> in
    assembler with an interpreter of their instructions.
  \<^item> \<open>Conv\<close>, \<open>Strto\<close>, \<open>CHeap\<close>: \<^verbatim>\<open>src/stdlib.h\<close>: numbers to
    text and back, \<^verbatim>\<open>__strtox\<close> and \<^verbatim>\<open>getenv\<close>, the allocator (with
    \<^verbatim>\<open>strdup\<close>, \<^verbatim>\<open>strndup\<close>).
  \<^item> \<open>Sys\<close>, \<open>SysMem\<close>, \<open>CTime\<close>, \<open>SysWait\<close>, \<open>FileStat\<close>: the
    system calls and wrappers of \<^verbatim>\<open>src/sys.h\<close>, \<^verbatim>\<open>src/sys/\<close>,
    \<^verbatim>\<open>src/time.h\<close>, \<^verbatim>\<open>src/fcntl.h\<close>, \<^verbatim>\<open>src/unistd.h\<close>,
    \<^verbatim>\<open>src/poll.h\<close>, \<^verbatim>\<open>src/signal.h\<close>, \<^verbatim>\<open>src/sched.h\<close>,
    and the macros of \<^verbatim>\<open>src/types.h\<close>.
  \<^item> \<open>Stdio\<close>, \<open>Printf\<close>, \<open>Scanf\<close>: \<^verbatim>\<open>src/stdio.h\<close>.
    \<open>Getopt\<close>, \<open>Dirent\<close>: \<^verbatim>\<open>src/getopt.h\<close>, \<^verbatim>\<open>src/dirent.h\<close>.
    \<open>CMath\<close>: \<^verbatim>\<open>src/math.h\<close> and \<^verbatim>\<open>difftime\<close>, on the bits of the IEC 60559 formats.
  \<^item> \<open>Headers\<close>: the types and limits of \<^verbatim>\<open>src/stdint.h\<close> and \<^verbatim>\<open>src/std.h\<close>
    for a compiler given by the widths of its types, constant expressions with the conversions of C, and
    the structures of \<^verbatim>\<open>src/types.h\<close> with their layout.
  \<^item> \<open>Hello\<close>: the program \<^verbatim>\<open>src/hello.c\<close>, which uses most of the above.
  \<^item> \<open>Machine\<close>, \<open>ArchMacros\<close>, \<open>ArchStart\<close>: the inline assembler of
    \<^verbatim>\<open>src/arch-*.h\<close>. \<open>Startup\<close>: \<^verbatim>\<open>src/crt.h\<close> and
    \<^verbatim>\<open>src/stackprotector.h\<close>.
  \<^item> \<open>Linux\<close>: the constants of one target, for the instances of the theorems.

  The lemmas. \<open>MemCopy\<close> states the contract of a block copy as a locale, with the C loops and
  the assembler routines as its interpretations; \<open>CStringFacts\<close>, \<open>CStringCopy\<close>,
  \<open>ConvFacts\<close>, \<open>StrtoFacts\<close>, \<open>StreamFacts\<close> say what each loop computes;
  \<open>GetoptFacts\<close> has the parser of option lists and what each kind of call of \<open>getopt\<close> does.
  \<open>PrintfFacts\<close> proves the formatting loop once, in the locale \<open>printf_sink\<close> of a
  callback that appends bytes to an output, and interprets it for the callback that writes to a stream and
  the one that fills a buffer; \<open>Messages\<close> has the texts that are printed. \<open>HeapMachine\<close> has the allocator as a step relation on states
  and live blocks, its invariant, a specification, and the simulation. \<open>ArchFacts\<close> has the
  calling conventions of the kernel on each machine, the registers the kernel destroys included, which
  the macros' clobber lists have to cover, the alignment of the stack at a call (with the bias of the
  64-bit SPARC), and one lemma for each shape of macro. In \<open>Machine\<close> a call changes the program
  counter and leaves the return address where the machine has it. \<open>StrtoFacts\<close> has two references:
  \<open>iso_integer\<close>, the number and the end of ISO C, and \<open>strto_ref\<close>, what \<^verbatim>\<open>__strtox\<close>
  reads also where that is not ISO C.
  \<open>StructFacts\<close> has the stores of a structure field by field, and what \<^verbatim>\<open>stat\<close> copies.

  The properties.
  \<^item> \<open>StringProps\<close>: copies that overlap, the assembler against C, the string functions with
    their bounds. \<open>NumberProps\<close>: decimal and hexadecimal text, round trips, \<open>strtol\<close> and its
    relatives against ISO C and at the ends of their range, character classes.
  \<^item> \<open>SystemProps\<close>: errors of the wrappers (every exported function that returns through
    \<^verbatim>\<open>__sysret\<close>, in four lists), the operations of the allocator one by one.
    \<open>HeapProps\<close>: the allocator over all runs of a program, under a contract of the kernel on
    anonymous mappings that an instance shows to be satisfiable. The runs request no size within 4111
    bytes of \<open>2 ^ 64\<close> (\<open>op_fits\<close>): beyond, the length wraps around, and
    \<open>oversize_breaks_spec\<close> shows a run that no specification allows.
  \<^item> \<open>StdioProps\<close>: streams, \<open>fwrite\<close>, \<open>fgets\<close>, \<open>fprintf\<close>,
    \<open>snprintf\<close> for every size, 0 included, where it stores in front of the buffer.
    \<open>ProcessProps\<close>: environment, auxiliary vector, wait status, device
    numbers. \<open>GetoptProps\<close>: each call of \<open>getopt\<close> is a step of a parser on lists of
    texts, and what it complains about. \<open>ScanfProps\<close>: \<open>sscanf\<close> against a scanner of lists. \<open>FormatProps\<close>:
    what \<open>snprintf\<close> prints, \<open>sscanf\<close> reads. \<open>StartProps\<close>: the start of a program and
    the stack guard. \<open>DirProps\<close>: a directory read to its end. \<open>ClockProps\<close>:
    \<open>gettimeofday\<close> and \<open>time\<close> on clocks of both widths. \<open>SleepProps\<close>:
    what \<open>sleep\<close> and its relatives report as left. \<open>MessageProps\<close>: \<open>perror\<close> and
    \<open>strerror\<close>. \<open>HeaderProps\<close>: limits against
    types, layouts, \<open>fstatat\<close>, \<open>stat\<close>, \<open>lstat\<close> and \<open>fstat\<close>. \<open>HelloProps\<close>: all that \<^verbatim>\<open>hello\<close> prints, from the stack
    the kernel builds to its exit, from the lemmas on the parts.
    \<open>ArchProps\<close>: the macros and entry points of all machines, and that the model of the
    wrappers calls the kernel as the macros do.

  Hypotheses. Theorems on functions that call the kernel assume what the kernel documents of these
  calls: \<open>granted\<close>, \<open>released\<close>, \<open>page_kernel\<close> for mappings,
  \<open>writes\<close> and \<open>reads\<close> for descriptors, \<open>serves_dir\<close> for directories,
  \<open>serves_clock\<close> for clocks, \<open>naps\<close> for waiting
  (how long a wait was, whether a signal cut it short and what time was left then), \<open>calls_kernel\<close> relates a trap to an
  abstract kernel. \<open>print_ready\<close>, \<open>piece_ok\<close> and the apartness conditions say that the
  caller's buffers are mapped and do not overlap the library's own.

  Where the code falls short of what it means to do, a theorem or a comment says so: overflow in
  \<open>strtoul\<close>, the end pointer of \<open>strtol\<close> where there is no number, sizes near \<open>2 ^ 64\<close> in
  \<open>malloc\<close>, \<open>snprintf\<close> of size 0, the results of \<open>brk\<close> and \<open>sbrk\<close>, \<open>WIFSIGNALED\<close> of a successful
  exit, the entry point of MIPS, the conversions \<open>sscanf\<close> counts without a number, the entry
  \<open>readdir_r\<close> loses on a large offset, the rest that \<open>msleep\<close> reports where there is only
  \<^verbatim>\<open>pselect6\<close>, the result of \<open>usleep\<close>, \<open>fabs\<close> of the negative zero and of patterns that are
  no number.

  Not modelled: names for constants of the kernel headers (\<^verbatim>\<open>RB_AUTOBOOT\<close>,
  \<^verbatim>\<open>SEEK_SET\<close>, \<^verbatim>\<open>PATH_MAX\<close> and the like, which appear as their values), the attributes
  of \<^verbatim>\<open>src/compiler.h\<close>, the names for compiler builtins in \<^verbatim>\<open>src/stdarg.h\<close>,
  \<^verbatim>\<open>container_of\<close>, which nothing uses; \<^verbatim>\<open>FD_CLR\<close> and
  \<^verbatim>\<open>FD_ISSET\<close>, which name constants that are not defined anywhere; the endless loops after
  \<^verbatim>\<open>exit\<close>, \<^verbatim>\<open>abort\<close> and \<^verbatim>\<open>__stack_chk_fail\<close>, of which the state before
  is the value; the wrappers on machines with 32 bits, where only the macros are modelled;
  flags and condition codes that a kernel changes, and the registers \<^verbatim>\<open>ctr\<close> and
  \<^verbatim>\<open>xer\<close> of PowerPC; concurrent
  change of memory by other threads or signal handlers.
\<close>

end
